(* ===== verification/Prelude.thy ===== *)
theory Prelude
  imports Main "HOL-Library.Sublist" "HOL-Library.Word"
begin

text \<open>
  Shared vocabulary of the development: Rust's text and byte types, the pieces of the Rust
  standard library the sources use on them (formatting, splitting, trimming, UTF-8), and the
  lemma collections the component theories feed.

  A Rust \<open>String\<close>, \<open>&str\<close> or \<open>Vec<u8>\<close> is the HOL string of its bytes, because that is what
  \<open>len\<close>, equality, hashing and slicing see. Where the sources look at characters
  (\<open>chars()\<close>, \<open>is_control\<close>, \<open>trim\<close>), \<open>next_char\<close> below recovers the Unicode scalar value
  from the bytes; \<open>utf8_ok\<close> is what \<open>std::str::from_utf8\<close> accepts.
\<close>

named_theorems code_inj \<open>injectivity of the byte encodings\<close>
named_theorems table_simps \<open>reading and writing the tables of the store\<close>
named_theorems step_inv \<open>preservation of an invariant by one step\<close>

type_synonym str = string
type_synonym bytes = string

abbreviation byte_of :: "char \<Rightarrow> nat" where
  "byte_of c \<equiv> of_char c"

lemma byte_less [simp]: "byte_of c < (256::nat)"
  by (cases c) (simp add: of_char_def)

section \<open>Results\<close>

text \<open>\<open>Result<T, E>\<close> is a sum with the error on the left; \<open>?\<close> is a case distinction.\<close>

definition ok_or :: "'e \<Rightarrow> 'a option \<Rightarrow> 'e + 'a" where
  "ok_or e x = (case x of None \<Rightarrow> Inl e | Some a \<Rightarrow> Inr a)"

definition is_ok :: "'e + 'a \<Rightarrow> bool" where
  "is_ok x = (case x of Inl _ \<Rightarrow> False | Inr _ \<Rightarrow> True)"

definition to_ok :: "'e + 'a \<Rightarrow> 'a option" where
  "to_ok x = (case x of Inl _ \<Rightarrow> None | Inr a \<Rightarrow> Some a)"

definition opt_all :: "('a \<Rightarrow> bool) \<Rightarrow> 'a option \<Rightarrow> bool" where
  "opt_all P x = (case x of None \<Rightarrow> True | Some a \<Rightarrow> P a)"

definition opt_any :: "('a \<Rightarrow> bool) \<Rightarrow> 'a option \<Rightarrow> bool" where
  "opt_any P x = (case x of None \<Rightarrow> False | Some a \<Rightarrow> P a)"

abbreviation and_then :: "'e + 'a \<Rightarrow> ('a \<Rightarrow> 'e + 'b) \<Rightarrow> 'e + 'b" where
  "and_then x f \<equiv> (case x of Inl e \<Rightarrow> Inl e | Inr a \<Rightarrow> f a)"

lemma and_then_Inr: "and_then x f = Inr b \<longleftrightarrow> (\<exists>a. x = Inr a \<and> f a = Inr b)"
  by (cases x) simp_all

text \<open>
  A run of checks, each a statement ending in \<open>?\<close> or returning early, and a loop that does the
  same for each element of a list.
\<close>

fun all_ok :: "('e + unit) list \<Rightarrow> 'e + unit" where
  "all_ok [] = Inr ()"
| "all_ok (c # cs) = and_then c (\<lambda>_. all_ok cs)"

fun for_each :: "('x \<Rightarrow> 's \<Rightarrow> 'e + 's) \<Rightarrow> 'x list \<Rightarrow> 's \<Rightarrow> 'e + 's" where
  "for_each f [] s = Inr s"
| "for_each f (x # xs) s = and_then (f x s) (for_each f xs)"

lemma all_ok_iff [simp]: "all_ok cs = Inr () \<longleftrightarrow> (\<forall>c\<in>set cs. c = Inr ())"
  by (induction cs) (auto split: sum.split)

lemma all_ok_append: "all_ok (xs @ ys) = Inr () \<longleftrightarrow> all_ok xs = Inr () \<and> all_ok ys = Inr ()"
  by auto

lemma all_ok_map: "all_ok (map f xs) = Inr () \<longleftrightarrow> (\<forall>x\<in>set xs. f x = Inr ())"
  by auto

lemma for_each_keeps: "(\<And>x. x \<in> set xs \<Longrightarrow> f x s = Inr s) \<Longrightarrow> for_each f xs s = Inr s"
  by (induction xs) simp_all

lemma for_each_inv:
  assumes "for_each f xs s = Inr t" "P s" "\<And>x s t. x \<in> set xs \<Longrightarrow> f x s = Inr t \<Longrightarrow> P s \<Longrightarrow> P t"
  shows "P t"
  using assms
proof (induction xs arbitrary: s)
  case (Cons x xs)
  obtain s' where s': "f x s = Inr s'" "for_each f xs s' = Inr t"
    using Cons.prems(1) by (auto split: sum.splits)
  show ?case by (rule Cons.IH [OF s'(2)]) (use Cons.prems s' in auto)
qed simp

lemma is_ok_simps [simp]: "is_ok (Inr a)" "\<not> is_ok (Inl e)"
  by (simp_all add: is_ok_def)

lemma to_ok_simps [simp]: "to_ok (Inr a) = Some a" "to_ok (Inl e) = None"
  by (simp_all add: to_ok_def)

lemma ok_or_simps [simp]: "ok_or e (Some a) = Inr a" "ok_or e None = Inl e"
  by (simp_all add: ok_or_def)

lemma ok_or_eq_Inr [simp]: "ok_or e x = Inr a \<longleftrightarrow> x = Some a"
  by (cases x) simp_all

lemma opt_all_simps [simp]: "opt_all P None" "opt_all P (Some a) = P a"
  by (simp_all add: opt_all_def)

lemma opt_any_simps [simp]: "\<not> opt_any P None" "opt_any P (Some a) = P a"
  by (simp_all add: opt_any_def)

section \<open>Numbers as text\<close>

definition dec_digit :: "nat \<Rightarrow> char" where
  "dec_digit n = char_of (48 + n)"

fun dec :: "nat \<Rightarrow> str" where
  "dec n = (if n < 10 then [dec_digit n] else dec (n div 10) @ [dec_digit (n mod 10)])"

declare dec.simps [simp del]

text \<open>\<open>i64::to_string\<close>.\<close>

definition dec_int :: "int \<Rightarrow> str" where
  "dec_int i = (if i < 0 then CHR ''-'' # dec (nat (- i)) else dec (nat i))"

text \<open>Reading decimal digits back, most significant first.\<close>

definition undec :: "str \<Rightarrow> nat" where
  "undec s = foldl (\<lambda>n c. 10 * n + (byte_of c - 48)) 0 s"

lemma byte_dec_digit: "n < 10 \<Longrightarrow> byte_of (dec_digit n) = 48 + n"
  by (simp add: dec_digit_def of_char_of)

lemma undec_snoc: "undec (s @ [c]) = 10 * undec s + (byte_of c - 48)"
  by (simp add: undec_def)

lemma undec_dec: "undec (dec n) = n"
proof (induction n rule: dec.induct)
  case (1 n)
  show ?case
  proof (cases "n < 10")
    case True
    then show ?thesis by (subst dec.simps) (simp add: undec_def byte_dec_digit)
  next
    case False
    with 1 have "undec (dec (n div 10)) = n div 10" by simp
    with False show ?thesis
      by (subst dec.simps) (simp add: undec_snoc byte_dec_digit)
  qed
qed

lemma dec_inject [simp]: "dec m = dec n \<longleftrightarrow> m = n"
  by (metis undec_dec)

lemma dec_digits: "c \<in> set (dec n) \<Longrightarrow> 48 \<le> byte_of c \<and> byte_of c < 58"
proof (induction n rule: dec.induct)
  case (1 n)
  then show ?case
    by (cases "n < 10") (auto simp: dec.simps [of n] byte_dec_digit)
qed

lemma dec_nonempty [simp]: "dec n \<noteq> []"
  by (subst dec.simps) simp

lemma dec_not_minus: "dec n \<noteq> CHR ''-'' # s"
proof
  assume "dec n = CHR ''-'' # s"
  then have "CHR ''-'' \<in> set (dec n)" by simp
  from dec_digits [OF this] show False by simp
qed

lemma dec_int_inject [simp]: "dec_int a = dec_int b \<longleftrightarrow> a = b"
proof
  assume eq: "dec_int a = dec_int b"
  show "a = b"
  proof (cases "(a < 0) = (b < 0)")
    case True
    with eq show ?thesis by (auto simp: dec_int_def split: if_splits)
  next
    case False
    with eq show ?thesis
      using dec_not_minus [of "nat a"] dec_not_minus [of "nat b"]
      by (auto simp: dec_int_def split: if_splits) metis+
  qed
qed simp

definition hex_digit :: "nat \<Rightarrow> char" where
  "hex_digit n = (if n < 10 then char_of (48 + n) else char_of (87 + n))"

text \<open>\<open>{:0kx}\<close>: at least \<open>k\<close> lower-case hexadecimal digits.\<close>

fun hex :: "nat \<Rightarrow> str" where
  "hex n = (if n < 16 then [hex_digit n] else hex (n div 16) @ [hex_digit (n mod 16)])"

declare hex.simps [simp del]

definition hex_pad :: "nat \<Rightarrow> nat \<Rightarrow> str" where
  "hex_pad k n = replicate (k - length (hex n)) (CHR ''0'') @ hex n"

definition hex_bytes :: "bytes \<Rightarrow> str" where
  "hex_bytes b = concat (map (\<lambda>c. [hex_digit (byte_of c div 16), hex_digit (byte_of c mod 16)]) b)"

definition is_hex :: "char \<Rightarrow> bool" where
  "is_hex c = (let b = byte_of c in (48 \<le> b \<and> b \<le> 57) \<or> (65 \<le> b \<and> b \<le> 70) \<or> (97 \<le> b \<and> b \<le> (102::nat)))"

definition hex_val :: "char \<Rightarrow> nat" where
  "hex_val c = (let b = byte_of c in
     if b \<le> 57 then b - 48 else if b \<le> 70 then b - 55 else b - 87)"

lemma hex_digit_val: "n < 16 \<Longrightarrow> is_hex (hex_digit n) \<and> hex_val (hex_digit n) = n"
  by (auto simp: is_hex_def hex_val_def hex_digit_def of_char_of Let_def)

lemma hex_digit_byte: "n < 16 \<Longrightarrow> byte_of (hex_digit n) = (if n < 10 then 48 + n else 87 + n)"
  by (simp add: hex_digit_def of_char_of)

lemma hex_digits: "c \<in> set (hex n) \<Longrightarrow> is_hex c \<and> byte_of c < 128"
proof (induction n rule: hex.induct)
  case (1 n)
  then show ?case
    by (cases "n < 16") (auto simp: hex.simps [of n] hex_digit_val hex_digit_byte)
qed

lemma hex_length: "0 < k \<Longrightarrow> n < 16 ^ k \<Longrightarrow> length (hex n) \<le> k"
proof (induction n arbitrary: k rule: hex.induct)
  case (1 n)
  show ?case
  proof (cases "n < 16")
    case True
    with 1 show ?thesis by (subst hex.simps) simp
  next
    case False
    have "k \<noteq> 1" using False 1(3) by auto
    with 1(2) obtain j where k: "k = Suc j" "0 < j"
      by (cases k) auto
    with 1(3) have "n div 16 < 16 ^ j" by (simp add: less_mult_imp_div_less mult.commute)
    with 1(1) [OF False] k(2) have "length (hex (n div 16)) \<le> j" by blast
    with False k show ?thesis by (subst hex.simps) simp
  qed
qed

lemma hex_length_gt: "16 ^ k \<le> n \<Longrightarrow> k < length (hex n)"
proof (induction k arbitrary: n)
  case 0
  show ?case by (subst hex.simps) simp
next
  case (Suc k)
  have ge: "\<not> n < 16"
    using Suc.prems by (metis not_less one_le_power one_le_numeral power_Suc mult.commute
      mult_le_mono2 nat_mult_1 order_trans mult_1_right)
  have "16 ^ k \<le> n div 16"
    using Suc.prems by (metis div_le_mono nonzero_mult_div_cancel_left power_Suc zero_neq_numeral)
  then have "k < length (hex (n div 16))" by (rule Suc.IH)
  with ge show ?case by (subst hex.simps) simp
qed

lemma hex_pad_length: "length (hex_pad k n) = max k (length (hex n))"
  by (simp add: hex_pad_def max_def)

section \<open>Pieces of the standard library on strings\<close>

text \<open>\<open>str::split(c)\<close>: always at least one piece.\<close>

fun split_on :: "char \<Rightarrow> str \<Rightarrow> str list" where
  "split_on c [] = [[]]"
| "split_on c (x # s) =
     (if x = c then [] # split_on c s
      else (case split_on c s of [] \<Rightarrow> [[x]] | p # ps \<Rightarrow> (x # p) # ps))"

text \<open>\<open>str::split_once(c)\<close>.\<close>

fun split_once :: "char \<Rightarrow> str \<Rightarrow> (str \<times> str) option" where
  "split_once c [] = None"
| "split_once c (x # s) =
     (if x = c then Some ([], s)
      else map_option (\<lambda>(a, b). (x # a, b)) (split_once c s))"

text \<open>\<open>[T]::join(sep)\<close>.\<close>

fun join_with :: "str \<Rightarrow> str list \<Rightarrow> str" where
  "join_with sep [] = []"
| "join_with sep [x] = x"
| "join_with sep (x # y # r) = x @ sep @ join_with sep (y # r)"

definition starts_with :: "str \<Rightarrow> str \<Rightarrow> bool" where
  "starts_with p s = prefix p s"

fun contains :: "str \<Rightarrow> str \<Rightarrow> bool" where
  "contains p [] = (p = [])"
| "contains p (x # s) = (prefix p (x # s) \<or> contains p s)"

lemma contains_sublist: "contains p s \<longleftrightarrow> sublist p s"
  by (induction s) (auto simp: sublist_Cons_right)

lemma contains_append: "contains f a \<Longrightarrow> contains f (a @ b)"
  by (metis contains_sublist sublist_append_rightI sublist_order.order_trans)

definition is_digit :: "char \<Rightarrow> bool" where
  "is_digit c = (48 \<le> byte_of c \<and> byte_of c \<le> (57::nat))"

definition is_alnum :: "char \<Rightarrow> bool" where
  "is_alnum c = (is_digit c \<or> (65 \<le> byte_of c \<and> byte_of c \<le> (90::nat))
     \<or> (97 \<le> byte_of c \<and> byte_of c \<le> (122::nat)))"

lemma split_on_nonempty [simp]: "split_on c s \<noteq> []"
  by (induction s) (auto split: list.splits)

lemma join_with_Cons_head: "join_with sep ((x # p) # ps) = x # join_with sep (p # ps)"
  by (cases ps) simp_all

lemma join_with_Nil_head: "ps \<noteq> [] \<Longrightarrow> join_with sep ([] # ps) = sep @ join_with sep ps"
  by (cases ps) simp_all

lemma split_on_join: "join_with [c] (split_on c s) = s"
proof (induction s)
  case (Cons x s)
  then show ?case
    by (cases "split_on c s") (auto simp: join_with_Cons_head join_with_Nil_head)
qed simp

lemma split_on_pieces: "p \<in> set (split_on c s) \<Longrightarrow> c \<notin> set p"
  by (induction s arbitrary: p) (auto split: if_splits list.splits)

lemma split_once_Some: "split_once c s = Some (a, b) \<longleftrightarrow> s = a @ c # b \<and> c \<notin> set a"
  by (induction s arbitrary: a b) (auto simp: Cons_eq_append_conv)

lemma split_once_None: "split_once c s = None \<longleftrightarrow> c \<notin> set s"
  by (induction s) auto

end
