(* ===== verification/Codec.thy ===== *)
theory Codec
  imports Prelude
begin

text \<open>
  The binary encodings under the store's fingerprints: big-endian integers and
  length-prefixed fields. The interface between a fingerprint and the field encodings it is
  built from is the locale \<open>prefix_code\<close>: an encoding that can be read back from the front of
  a longer byte string. Its laws carry over to pairs and to lists of fields, so that each
  fingerprint's injectivity is a composition of interpretations.
\<close>

section \<open>Big-endian integers\<close>

fun be_bytes :: "nat \<Rightarrow> nat \<Rightarrow> bytes" where
  "be_bytes 0 v = []"
| "be_bytes (Suc k) v = be_bytes k (v div 256) @ [char_of (v mod 256)]"

text \<open>\<open>u32::to_be_bytes\<close>, \<open>u64::to_be_bytes\<close>; a value wraps at the type's width.\<close>

definition u32_be :: "nat \<Rightarrow> bytes" where
  "u32_be n = be_bytes 4 (n mod 2 ^ 32)"

definition u64_be :: "nat \<Rightarrow> bytes" where
  "u64_be n = be_bytes 8 (n mod 2 ^ 64)"

text \<open>\<open>i64::to_be_bytes\<close>: two's complement.\<close>

definition i64_be :: "int \<Rightarrow> bytes" where
  "i64_be i = be_bytes 8 (nat (i mod 2 ^ 64))"

fun from_be :: "bytes \<Rightarrow> nat" where
  "from_be [] = 0"
| "from_be (c # s) = byte_of c * 256 ^ length s + from_be s"

lemma length_be_bytes [simp]: "length (be_bytes k v) = k"
  by (induction k arbitrary: v) auto

lemma length_u32_be [simp]: "length (u32_be n) = 4" and length_u64_be [simp]: "length (u64_be n) = 8"
  and length_i64_be [simp]: "length (i64_be i) = 8"
  by (simp_all add: u32_be_def u64_be_def i64_be_def)

lemma from_be_snoc: "from_be (s @ [c]) = 256 * from_be s + byte_of c"
  by (induction s) (simp_all add: algebra_simps)

lemma from_be_bytes: "v < 256 ^ k \<Longrightarrow> from_be (be_bytes k v) = v"
proof (induction k arbitrary: v)
  case (Suc k)
  then have "v div 256 < 256 ^ k" by (simp add: less_mult_imp_div_less mult.commute)
  with Suc.IH show ?case by (simp add: from_be_snoc of_char_of)
qed simp

lemma from_be_less: "from_be s < 256 ^ length s"
proof (induction s)
  case (Cons c s)
  have "byte_of c * 256 ^ length s + from_be s < (byte_of c + 1) * 256 ^ length s"
    using Cons by simp
  also have "byte_of c + 1 \<le> (256::nat)" using byte_less [of c] by linarith
  then have "(byte_of c + 1) * 256 ^ length s \<le> 256 * 256 ^ length s" by (rule mult_right_mono) simp
  finally show ?case by simp
qed simp

lemma be_bytes_inject: "m < 256 ^ k \<Longrightarrow> n < 256 ^ k \<Longrightarrow> be_bytes k m = be_bytes k n \<longleftrightarrow> m = n"
  by (metis from_be_bytes)

lemma u32_be_inject [code_inj]:
  assumes "m < 2 ^ 32" "n < 2 ^ 32" shows "u32_be m = u32_be n \<longleftrightarrow> m = n"
proof -
  have "(2::nat) ^ 32 = 256 ^ 4" by simp
  with assms show ?thesis
    unfolding u32_be_def by (metis be_bytes_inject mod_less)
qed

lemma u64_be_inject [code_inj]:
  assumes "m < 2 ^ 64" "n < 2 ^ 64" shows "u64_be m = u64_be n \<longleftrightarrow> m = n"
proof -
  have "(2::nat) ^ 64 = 256 ^ 8" by simp
  with assms show ?thesis
    unfolding u64_be_def by (metis be_bytes_inject mod_less)
qed

definition is_i64 :: "int \<Rightarrow> bool" where
  "is_i64 i = (- (2 ^ 63) \<le> i \<and> i < 2 ^ 63)"

lemma i64_be_inject [code_inj]:
  assumes "is_i64 i" "is_i64 j" shows "i64_be i = i64_be j \<longleftrightarrow> i = j"
proof
  assume eq: "i64_be i = i64_be j"
  have "nat (k mod 2 ^ 64) < 256 ^ 8" for k :: int by (simp add: nat_less_iff)
  then have "nat (i mod 2 ^ 64) = nat (j mod 2 ^ 64)"
    using eq from_be_bytes unfolding i64_be_def by metis
  then have "i mod 2 ^ 64 = j mod 2 ^ 64" by (simp add: eq_nat_nat_iff)
  then obtain k where k: "i - j = 2 ^ 64 * k"
    by (metis mod_eq_dvd_iff dvd_def)
  have "\<bar>i - j\<bar> < 2 ^ 64" using assms by (auto simp: is_i64_def)
  with k have "k = 0" by (simp add: abs_mult)
  with k show "i = j" by simp
qed simp

section \<open>Prefix codes\<close>

locale prefix_code =
  fixes enc :: "'a \<Rightarrow> bytes" and ok :: "'a \<Rightarrow> bool"
  assumes enc_split: "ok a \<Longrightarrow> ok b \<Longrightarrow> enc a @ x = enc b @ y \<Longrightarrow> a = b \<and> x = y"
begin

lemma enc_inject: "ok a \<Longrightarrow> ok b \<Longrightarrow> enc a = enc b \<Longrightarrow> a = b"
  using enc_split [of a b "[]" "[]"] by simp

lemma enc_split_iff: "ok a \<Longrightarrow> ok b \<Longrightarrow> enc a @ x = enc b @ y \<longleftrightarrow> a = b \<and> x = y"
  using enc_split by blast

text \<open>A sequence of fields of the same code, with its number of fields known.\<close>

lemma concat_split:
  assumes "\<forall>a\<in>set as. ok a" "\<forall>b\<in>set bs. ok b" "length as = length bs"
    and "concat (map enc as) @ x = concat (map enc bs) @ y"
  shows "as = bs \<and> x = y"
  using assms(3,1,2,4)
proof (induction as bs rule: list_induct2)
  case (Cons a as b bs)
  then have eq: "enc a @ (concat (map enc as) @ x) = enc b @ (concat (map enc bs) @ y)" by simp
  have "ok a" "ok b" using Cons.prems by simp_all
  from enc_split [OF this eq] Cons show ?case by simp
qed simp

end

text \<open>A code no encoding of which is empty can also be repeated up to the end of the string.\<close>

locale nonempty_code = prefix_code +
  assumes enc_nonempty: "ok a \<Longrightarrow> enc a \<noteq> []"
begin

lemma concat_inject:
  assumes "\<forall>a\<in>set as. ok a" "\<forall>b\<in>set bs. ok b" "concat (map enc as) = concat (map enc bs)"
  shows "as = bs"
  using assms
proof (induction as arbitrary: bs)
  case Nil
  then show ?case using enc_nonempty by (cases bs) auto
next
  case (Cons a as)
  have "enc a \<noteq> []" using Cons.prems(1) by (intro enc_nonempty) simp
  then have "bs \<noteq> []" using Cons.prems(3) by force
  then obtain b bs' where bs: "bs = b # bs'" by (cases bs) simp_all
  with Cons.prems have eq: "enc a @ concat (map enc as) = enc b @ concat (map enc bs')" by simp
  have "ok a" "ok b" using Cons.prems bs by simp_all
  from enc_split [OF this eq] have ab: "a = b" "concat (map enc as) = concat (map enc bs')" by auto
  have "\<forall>a\<in>set as. ok a" "\<forall>b\<in>set bs'. ok b" using Cons.prems(1,2) bs by auto
  from Cons.IH [OF this ab(2)] ab(1) bs show ?case by simp
qed

end

text \<open>A length-prefixed text field, \<open>(value.len() as u32).to_be_bytes()\<close> and the bytes.\<close>

definition field32 :: "str \<Rightarrow> bytes" where
  "field32 s = u32_be (length s) @ s"

definition short32 :: "str \<Rightarrow> bool" where
  "short32 s = (length s < 2 ^ 32 - 1)"

text \<open>The same for an optional field: \<open>u32::MAX\<close> marks \<open>None\<close>.\<close>

definition opt_field32 :: "str option \<Rightarrow> bytes" where
  "opt_field32 v = (case v of Some s \<Rightarrow> u32_be (length s) @ s | None \<Rightarrow> u32_be (2 ^ 32 - 1))"

definition field64 :: "str \<Rightarrow> bytes" where
  "field64 s = u64_be (length s) @ s"

definition short64 :: "str \<Rightarrow> bool" where
  "short64 s = (length s < 2 ^ 64)"

text \<open>Both kinds of length prefix have the same shape: a fixed-width length, then the bytes.\<close>

lemma fixed_split: "length p = length q \<Longrightarrow> p @ x = q @ y \<longleftrightarrow> p = q \<and> x = y"
  by simp

lemma length_field_split:
  assumes "length (len a) = length (len b)" "len a = len b \<longrightarrow> length a = length b"
    and "(len a @ a) @ x = (len b @ b) @ y"
  shows "a = b \<and> x = y"
  using assms by auto

lemma length_prefix_nonempty: "length p = Suc n \<Longrightarrow> p @ s \<noteq> []"
  by (cases p) auto

interpretation f32: nonempty_code field32 short32
proof
  fix a b x y :: str
  assume ok: "short32 a" "short32 b" and eq: "field32 a @ x = field32 b @ y"
  from ok have "length a < 2 ^ 32" "length b < 2 ^ 32" unfolding short32_def by linarith+
  then have "u32_be (length a) = u32_be (length b) \<longrightarrow> length a = length b"
    using u32_be_inject by blast
  then show "a = b \<and> x = y"
    using eq unfolding field32_def by (intro length_field_split [of "\<lambda>s. u32_be (length s)" a b]) auto
next
  fix a show "short32 a \<Longrightarrow> field32 a \<noteq> []"
    unfolding field32_def by (rule length_prefix_nonempty [of _ 3]) simp
qed

interpretation f64: nonempty_code field64 short64
proof
  fix a b x y :: str
  assume ok: "short64 a" "short64 b" and eq: "field64 a @ x = field64 b @ y"
  then have "u64_be (length a) = u64_be (length b) \<longrightarrow> length a = length b"
    using u64_be_inject unfolding short64_def by blast
  then show "a = b \<and> x = y"
    using eq unfolding field64_def by (intro length_field_split [of "\<lambda>s. u64_be (length s)" a b]) auto
next
  fix a show "short64 a \<Longrightarrow> field64 a \<noteq> []"
    unfolding field64_def by (rule length_prefix_nonempty [of _ 7]) simp
qed

lemma opt_none_vs_some: "short32 s \<Longrightarrow> u32_be (2 ^ 32 - 1) \<noteq> u32_be (length s)"
  using u32_be_inject [of "2 ^ 32 - 1" "length s"] unfolding short32_def by linarith

interpretation o32: nonempty_code opt_field32 "opt_all short32"
proof
  fix a b :: "str option" and x y :: str
  assume ok: "opt_all short32 a" "opt_all short32 b" and eq: "opt_field32 a @ x = opt_field32 b @ y"
  show "a = b \<and> x = y"
  proof (cases a; cases b)
    fix s t assume "a = Some s" "b = Some t"
    then show ?thesis using ok eq f32.enc_split [of s t x y] by (simp add: opt_field32_def field32_def)
  next
    fix s assume a: "a = None" "b = Some s"
    then have "u32_be (2 ^ 32 - 1) @ x = u32_be (length s) @ (s @ y)"
      using eq by (simp only: opt_field32_def option.case append_assoc)
    then show ?thesis
      using opt_none_vs_some [of s] ok a fixed_split [of "u32_be (2 ^ 32 - 1)" "u32_be (length s)"]
      by (simp only: length_u32_be opt_all_simps) blast
  next
    fix s assume a: "a = Some s" "b = None"
    then have "u32_be (length s) @ (s @ x) = u32_be (2 ^ 32 - 1) @ y"
      using eq by (simp only: opt_field32_def option.case append_assoc)
    then show ?thesis
      using opt_none_vs_some [of s] ok a fixed_split [of "u32_be (length s)" "u32_be (2 ^ 32 - 1)"]
      by (simp only: length_u32_be opt_all_simps) metis
  next
    assume "a = None" "b = None"
    then show ?thesis using eq by (simp add: opt_field32_def)
  qed
next
  fix a show "opt_all short32 a \<Longrightarrow> opt_field32 a \<noteq> []"
    unfolding opt_field32_def
    by (cases a) (use length_prefix_nonempty [of "u32_be n" 3 "[]" for n] length_prefix_nonempty [of "u32_be n" 3 for n]
      in auto)
qed

interpretation i64: nonempty_code i64_be is_i64
proof
  fix i j x y
  assume "is_i64 i" "is_i64 j" "i64_be i @ x = i64_be j @ y"
  then show "i = j \<and> x = y" by (simp add: i64_be_inject)
next
  fix i show "is_i64 i \<Longrightarrow> i64_be i \<noteq> []"
    using length_prefix_nonempty [of "i64_be i" 7 "[]"] by simp
qed

end
