(* ===== verification/Files.thy ===== *)
theory Files
  imports Codec
begin

text \<open>
  What the program sees of the operating system's files: path arithmetic
  (\<open>std::path\<close>), file metadata, and the artifact store's two guarded readers, \<open>observe\<close>
  and \<open>validate_parent\<close> (\<open>src/src/artifacts/store.rs\<close>), with \<open>logical_target_identity\<close>
  (\<open>recovery.rs\<close>). The file system itself is a parameter: a \<open>fs\<close> record of what each
  system call answers at one moment. A function that looks at the files several times takes
  one such record per look, so that everything another process may do in between is allowed.
\<close>

section \<open>Paths\<close>

text \<open>
  A path is its byte string. \<open>components\<close> are the pieces between slashes; a \<open>.\<close> counts only
  at the front of a relative path, as in \<open>Path::components\<close>.
\<close>

datatype component = CurDir | ParentDir | Normal str

definition path_is_absolute :: "str \<Rightarrow> bool" where
  "path_is_absolute p = starts_with ''/'' p"

definition component_of :: "str \<Rightarrow> component" where
  "component_of s = (if s = ''..'' then ParentDir else Normal s)"

definition path_components :: "str \<Rightarrow> component list" where
  "path_components p =
     (let ps = split_on CHR ''/'' p;
          body = map component_of (filter (\<lambda>s. s \<noteq> [] \<and> s \<noteq> ''.'') ps)
      in if \<not> path_is_absolute p \<and> ps \<noteq> [] \<and> hd ps = ''.'' then CurDir # body else body)"

fun component_str :: "component \<Rightarrow> str" where
  "component_str CurDir = ''.''"
| "component_str ParentDir = ''..''"
| "component_str (Normal s) = s"

definition path_render :: "bool \<Rightarrow> component list \<Rightarrow> str" where
  "path_render rooted cs = (if rooted then ''/'' else []) @ join_with ''/'' (map component_str cs)"

text \<open>\<open>Path::parent\<close>, \<open>Path::file_name\<close>, \<open>Path::join\<close>.\<close>

definition path_parent :: "str \<Rightarrow> str option" where
  "path_parent p = (case path_components p of [] \<Rightarrow> None
     | cs \<Rightarrow> Some (path_render (path_is_absolute p) (butlast cs)))"

definition path_file_name :: "str \<Rightarrow> str option" where
  "path_file_name p = (case path_components p of [] \<Rightarrow> None
     | cs \<Rightarrow> (case last cs of Normal s \<Rightarrow> Some s | _ \<Rightarrow> None))"

definition path_join :: "str \<Rightarrow> str \<Rightarrow> str" where
  "path_join p q =
     (if path_is_absolute q then q
      else if p = [] \<or> last p = CHR ''/'' then p @ q else p @ ''/'' @ q)"

text \<open>
  The loops \<open>while let Some(path) = current { .. current = path.parent() }\<close> walk up the
  ancestors, nearest first: one ancestor for every component that is dropped.
\<close>

definition path_ancestors :: "str \<Rightarrow> str list" where
  "path_ancestors p = (let cs = path_components p in
     map (\<lambda>n. path_render (path_is_absolute p) (take n cs)) (rev [0..<length cs]))"

lemma path_ancestors_parent: "path_ancestors p = [] \<longleftrightarrow> path_parent p = None"
  by (simp add: path_ancestors_def path_parent_def Let_def split: list.splits)

lemma path_ancestors_head: "path_parent p = Some q \<Longrightarrow> hd (path_ancestors p) = q"
  by (auto simp: path_ancestors_def path_parent_def Let_def upt_Suc_append butlast_conv_take
      split: list.splits)

section \<open>Metadata and system calls\<close>

datatype file_kind = RegularFile | Directory | Symlink | Socket | OtherKind

record file_meta =
  dev :: nat
  ino :: nat
  uid :: nat
  mode :: "32 word"
  kind :: file_kind
  len :: nat

datatype lstat = Found file_meta | NotFound | StatError

text \<open>An opened file as \<open>observe\<close> reads it: the metadata before, the content, the metadata after.\<close>

record open_view =
  meta_before :: "file_meta option"
  content :: "bytes option"
  meta_after :: "file_meta option"

record fs =
  canonicalize :: "str \<Rightarrow> str option"
  symlink_metadata :: "str \<Rightarrow> lstat"
  metadata :: "str \<Rightarrow> file_meta option"
  open_nofollow :: "str \<Rightarrow> open_view option"

definition identity_text :: "file_meta \<Rightarrow> str" where
  "identity_text m = dec (dev m) @ '':'' @ dec (ino m)"

lemma identity_text_inject: "identity_text m = identity_text n \<longleftrightarrow> dev m = dev n \<and> ino m = ino n"
proof
  have colon: "CHR '':'' \<notin> set (dec k)" for k using dec_digits [of "CHR '':''" k] by auto
  assume eq: "identity_text m = identity_text n"
  let ?s = "identity_text m"
  have "split_once CHR '':'' ?s = Some (dec (dev m), dec (ino m))"
    using colon by (simp add: split_once_Some identity_text_def)
  moreover have "split_once CHR '':'' ?s = Some (dec (dev n), dec (ino n))"
    using colon unfolding eq by (simp add: split_once_Some identity_text_def)
  ultimately show "dev m = dev n \<and> ino m = ino n" by simp
qed (simp add: identity_text_def)

section \<open>The store's errors (mod.rs)\<close>

datatype sql_error = ConstraintViolation | QueryReturnedNoRows | InvalidColumnType | InvalidParameterCount nat nat

datatype error =
    Sql sql_error
  | UnsupportedSchema int
  | AmbiguousSchema
  | Conflict
  | OutOfOrder
  | Drift
  | RebuildFailure
  | Discrepancy sql_error

fun error_code :: "error \<Rightarrow> str" where
  "error_code (UnsupportedSchema v) = ''config.unsupported_schema''"
| "error_code AmbiguousSchema = ''config.ambiguous_schema''"
| "error_code e = ''internal.unexpected''"

fun error_message :: "error \<Rightarrow> str" where
  "error_message (UnsupportedSchema v) = ''unsupported artifact store schema''"
| "error_message AmbiguousSchema = ''ambiguous artifact store schema''"
| "error_message e = ''artifact store unavailable''"

section \<open>Guarded readers (store.rs)\<close>

text \<open>The digest function is the crate \<open>sha2\<close>'s: a parameter \<open>sha\<close> from bytes to digest bytes.\<close>

definition hash_bytes :: "(bytes \<Rightarrow> bytes) \<Rightarrow> bytes \<Rightarrow> str" where
  "hash_bytes sha b = hex_bytes (sha b)"

definition hash_str :: "(bytes \<Rightarrow> bytes) \<Rightarrow> str \<Rightarrow> str" where
  "hash_str sha s = hash_bytes sha s"

definition observe :: "(bytes \<Rightarrow> bytes) \<Rightarrow> fs \<Rightarrow> str \<Rightarrow> str option \<Rightarrow> error + (str \<times> str)" where
  "observe sha f path expected =
     (case open_nofollow f path of None \<Rightarrow> Inl Drift | Some v \<Rightarrow>
      case meta_before v of None \<Rightarrow> Inl Drift | Some before \<Rightarrow>
      if kind before \<noteq> RegularFile then Inl Drift
      else let identity = identity_text before in
        if opt_any (\<lambda>e. e \<noteq> identity) expected then Inl Drift
        else case content v of None \<Rightarrow> Inl Drift | Some b \<Rightarrow>
          case meta_after v of None \<Rightarrow> Inl Drift | Some after \<Rightarrow>
          if dev before \<noteq> dev after \<or> ino before \<noteq> ino after \<or> len before \<noteq> len after
          then Inl Drift else Inr (identity, hash_bytes sha b))"

definition validate_parent :: "fs \<Rightarrow> str \<Rightarrow> error + unit" where
  "validate_parent f path =
     (if \<forall>q\<in>set (path_ancestors path).
          case symlink_metadata f q of Found m \<Rightarrow> kind m \<noteq> Symlink | _ \<Rightarrow> False
      then Inr () else Inl AmbiguousSchema)"

text \<open>Octal constants of the sources are written in hexadecimal: 0o7777 is 0xFFF, 0o600 is 0x180.\<close>

definition validate_store_metadata :: "nat \<Rightarrow> file_meta \<Rightarrow> error + unit" where
  "validate_store_metadata me m =
     (if kind m \<noteq> RegularFile \<or> uid m \<noteq> me \<or> and (mode m) 0xFFF \<noteq> 0x180
      then Inl AmbiguousSchema else Inr ())"

definition logical_target_identity :: "fs \<Rightarrow> str \<Rightarrow> str option" where
  "logical_target_identity f path =
     (case path_parent path of None \<Rightarrow> None | Some p \<Rightarrow>
      case metadata f p of None \<Rightarrow> None | Some m \<Rightarrow>
      case path_file_name path of None \<Rightarrow> None | Some name \<Rightarrow>
        Some (hex_bytes (u64_be (dev m) @ u64_be (ino m) @ name)))"

lemma observe_error: "observe sha f path expected = Inl e \<Longrightarrow> e = Drift"
  by (auto simp: observe_def Let_def split: option.splits if_splits)

text \<open>
  What a successful observation says: the file stayed the same file of the same length while
  it was read, is the expected one, and the digest is that of the content read.
\<close>

lemma observe_Inr:
  assumes "observe sha f path expected = Inr (i, h)"
  obtains v m n b where "open_nofollow f path = Some v" "meta_before v = Some m" "meta_after v = Some n"
    "content v = Some b" "kind m = RegularFile" "i = identity_text m" "identity_text n = i"
    "len n = len m" "h = hash_bytes sha b" "opt_all (\<lambda>e. e = i) expected"
  using assms
  by (auto simp: observe_def Let_def identity_text_inject opt_all_def opt_any_def
      split: option.splits if_splits)

lemma observe_expected: "observe sha f path (Some e) = Inr (i, h) \<Longrightarrow> i = e"
  by (erule observe_Inr) simp

end
