(* ===== verification/Tables.thy ===== *)
theory Tables
  imports Files
begin

text \<open>
  The tables of the artifact store as \<open>schema.rs\<close> creates them (\<open>create_schema\<close>,
  \<open>ensure_runtime_record_schema\<close>, \<open>ensure_slice4_v3_schema\<close>), each a list of rows in
  \<open>rowid\<close> order, and the INSERT statements the program runs, with the PRIMARY KEY, UNIQUE,
  CHECK, FOREIGN KEY and trigger conditions the schema attaches to them. An INSERT that a
  constraint refuses is \<open>None\<close>; the calling code turns that into \<open>Error::Sql\<close>.

  The schema's \<open>immutable_*\<close> triggers abort every UPDATE and DELETE of the record tables, and
  the program has none on them; so the only operations on those tables are the INSERTs here,
  and they grow by appending.
\<close>

section \<open>Rows\<close>

record artifact_row =
  art_id :: str
  art_owner :: str
  art_source :: str
  art_schema :: int

record version_row =
  ver_id :: str
  ver_artifact :: str
  ver_hash :: str
  ver_canonical :: str
  ver_ancestry :: "str option"
  ver_operation :: str
  ver_actor :: str
  ver_source :: str
  ver_identity :: "str option"
  ver_expected_hash :: "str option"
  ver_schema :: int
  ver_source_schema :: int
  ver_lineage :: str
  ver_path :: "bytes option"
  ver_git :: "str option"
  ver_git_repository :: "bytes option"
  ver_git_head_state :: "str option"
  ver_git_head_oid :: "str option"
  ver_git_index_present :: "int option"
  ver_git_index_fingerprint :: "str option"

record operation_row =
  op_id :: str
  op_fingerprint :: str
  op_result :: str
  op_version :: "str option"
  op_lineage :: "str option"
  op_code :: "str option"
  op_schema :: int

record lineage_row =
  lin_operation :: str
  lin_version :: str
  lin_parent :: "str option"
  lin_schema :: int

record discrepancy_row =
  disc_id :: int
  disc_operation :: str
  disc_actor :: str
  disc_artifact :: str
  disc_source :: str
  disc_ancestry :: "str option"
  disc_reason :: str
  disc_status :: str
  disc_result :: str
  disc_expected_hash :: "str option"
  disc_observed_hash :: "str option"
  disc_expected_identity :: "str option"
  disc_observed_identity :: "str option"
  disc_proposed_hash :: "str option"
  disc_context :: str
  disc_schema :: int
  disc_observed_owner :: "str option"
  disc_observed_source :: "str option"
  disc_observed_ancestry :: "str option"

record event_row =
  ev_id :: str
  ev_schema :: int
  ev_lineage :: str
  ev_correction :: "str option"
  ev_sequence :: int
  ev_transition :: str
  ev_input :: str
  ev_outcome :: "str option"

record projection_row =
  pr_id :: str
  pr_schema :: int
  pr_generation :: int
  pr_source_generation :: int
  pr_authoritative :: bool
  pr_status :: str
  pr_payload :: str

record rebuild_row =
  rb_projection :: str
  rb_event :: str
  rb_sequence :: int
  rb_status :: str
  rb_failure :: "str option"

record rebuild_status_row =
  rs_projection :: str
  rs_status :: str
  rs_authoritative :: bool
  rs_failure :: "str option"
  rs_drift :: "str option"

record playback_row =
  pb_id :: str
  pb_generation :: int
  pb_result :: str
  pb_divergence :: "str option"
  pb_exact :: bool

record simulation_row =
  sim_id :: str
  sim_label :: str
  sim_outcome :: str
  sim_exact_evidence :: bool

record run_row =
  run_id :: int
  run_scope :: str
  run_sequence :: int
  run_event_generation :: str
  run_projection_generation :: str
  run_projection_authority :: bool
  run_fs_identity :: "str option"
  run_fs_hash :: "str option"
  run_git_state :: "str option"
  run_status :: str
  run_repair_applied :: bool
  run_lineage :: str

text \<open>\<open>observation_sequence\<close> is \<open>None\<close> when the value stored in the column is a text that is no number.\<close>

record recon_row =
  rd_id :: int
  rd_run :: int
  rd_scope :: str
  rd_lineage :: str
  rd_correction :: "int option"
  rd_correction_run :: "int option"
  rd_kind :: "str option"
  rd_provenance :: "str option"
  rd_observation :: "int option"
  rd_observed_at :: str
  rd_surface :: "str option"
  rd_expected :: "str option"
  rd_observed :: "str option"
  rd_status :: "str option"
  rd_reason :: "str option"

record evidence_row =
  pe_run :: int
  pe_projection :: str
  pe_scope :: str
  pe_schema :: int
  pe_event_generation :: int
  pe_source_generation :: int
  pe_status :: str
  pe_authority :: bool
  pe_rebuild_status :: str
  pe_rebuild_authority :: int
  pe_generation_match :: bool
  pe_lineage :: str

record action_row =
  act_id :: int
  act_operation :: str
  act_run :: int
  act_discrepancy :: int
  act_scope :: str
  act_fingerprint :: str
  act_target :: str
  act_pre_hash :: "str option"
  act_pre_identity :: "str option"
  act_post_hash :: "str option"
  act_post_identity :: "str option"
  act_auth :: str
  act_auth_scope :: str
  act_stage :: str
  act_sequence :: int
  act_lineage :: str

record outcome_row =
  out_id :: int
  out_action :: int
  out_run :: int
  out_scope :: str
  out_sequence :: int
  out_status :: str
  out_lineage :: str
  out_stage :: str
  out_result :: str
  out_pre :: "str option"
  out_post :: "str option"
  out_kind :: str
  out_provenance :: int
  out_observation :: int
  out_observed_at :: str
  out_supersedes :: "int option"
  out_supersedes_action :: "int option"

record db =
  artifacts :: "artifact_row list"
  versions :: "version_row list"
  operations :: "operation_row list"
  lineage :: "lineage_row list"
  discrepancies :: "discrepancy_row list"
  events :: "event_row list"
  projections :: "projection_row list"
  rebuilds :: "rebuild_row list"
  rebuild_status :: "rebuild_status_row list"
  playbacks :: "playback_row list"
  simulations :: "simulation_row list"
  runs :: "run_row list"
  recons :: "recon_row list"
  evidence :: "evidence_row list"
  actions :: "action_row list"
  outcomes :: "outcome_row list"

definition empty_db :: db where
  "empty_db = \<lparr>artifacts = [], versions = [], operations = [], lineage = [], discrepancies = [],
     events = [], projections = [], rebuilds = [], rebuild_status = [], playbacks = [],
     simulations = [], runs = [], recons = [], evidence = [], actions = [], outcomes = []\<rparr>"

section \<open>Queries\<close>

text \<open>\<open>query_row(..).optional()\<close> on a key: the first row with it.\<close>

definition row_with :: "('r \<Rightarrow> 'k) \<Rightarrow> 'k \<Rightarrow> 'r list \<Rightarrow> 'r option" where
  "row_with key k rows = find (\<lambda>r. key r = k) rows"

text \<open>\<open>ORDER BY rowid DESC LIMIT 1\<close>.\<close>

definition last_row :: "('r \<Rightarrow> bool) \<Rightarrow> 'r list \<Rightarrow> 'r option" where
  "last_row P rows = (let rs = filter P rows in if rs = [] then None else Some (last rs))"

text \<open>The id an \<open>INTEGER PRIMARY KEY\<close> takes when none is given: one more than the largest.\<close>

definition next_id :: "int list \<Rightarrow> int" where
  "next_id ids = foldr max ids 0 + 1"

text \<open>\<open>coalesce(max(column),-1)+1\<close>.\<close>

definition next_sequence :: "int list \<Rightarrow> int" where
  "next_sequence ns = (if ns = [] then 0 else foldr max ns (hd ns) + 1)"

lemma row_with_Some: "row_with key k rows = Some r \<Longrightarrow> r \<in> set rows \<and> key r = k"
  by (auto simp: row_with_def find_Some_iff)

lemma row_with_None: "row_with key k rows = None \<longleftrightarrow> k \<notin> key ` set rows"
  by (auto simp: row_with_def find_None_iff)

lemma row_with_snoc [simp]:
  "row_with key k (rows @ [r]) =
     (case row_with key k rows of Some x \<Rightarrow> Some x | None \<Rightarrow> if key r = k then Some r else None)"
  by (induction rows) (auto simp: row_with_def)

lemma row_with_Nil [simp]: "row_with key k [] = None"
  by (simp add: row_with_def)

lemma row_with_unique: "distinct (map key rows) \<Longrightarrow> r \<in> set rows \<Longrightarrow> row_with key (key r) rows = Some r"
  by (induction rows) (auto simp: row_with_def)

lemma last_row_snoc [simp]: "last_row P (rows @ [r]) = (if P r then Some r else last_row P rows)"
  by (simp add: last_row_def Let_def)

lemma last_row_Nil [simp]: "last_row P [] = None"
  by (simp add: last_row_def)

lemma last_row_Some: "last_row P rows = Some r \<Longrightarrow> r \<in> set rows \<and> P r"
  by (induction rows rule: rev_induct) (auto split: if_splits)

lemma last_row_None: "last_row P rows = None \<longleftrightarrow> (\<forall>r\<in>set rows. \<not> P r)"
  by (induction rows rule: rev_induct) auto

lemma foldr_max_ge: "n \<in> set ns \<Longrightarrow> n \<le> foldr max ns (m::int)"
  by (induction ns) (auto simp: le_max_iff_disj)

lemma next_id_fresh: "next_id ids \<notin> set ids"
proof
  assume "next_id ids \<in> set ids"
  then have "next_id ids \<le> foldr max ids 0" by (rule foldr_max_ge)
  then show False by (simp add: next_id_def)
qed

lemma next_sequence_fresh: "next_sequence ns \<notin> set ns"
proof
  assume m: "next_sequence ns \<in> set ns"
  then have "next_sequence ns \<le> foldr max ns (hd ns)" by (rule foldr_max_ge)
  moreover have "ns \<noteq> []" using m by auto
  ultimately show False by (simp add: next_sequence_def)
qed

section \<open>The table interface\<close>

text \<open>
  Every INSERT of a keyed table obeys one contract, on which the components rely: a row goes
  in only when its key is new, and it goes in at the end. From it follow the facts a client
  uses: keys stay distinct, old rows stay where they were, the new row is found by its key.
\<close>

locale keyed_table =
  fixes key :: "'r \<Rightarrow> 'k" and rows :: "'d \<Rightarrow> 'r list" and ins :: "'d \<Rightarrow> 'r \<Rightarrow> 'd option"
  assumes ins_Some: "ins d r = Some d' \<Longrightarrow> key r \<notin> key ` set (rows d) \<and> rows d' = rows d @ [r]"
begin

lemma ins_fresh: "ins d r = Some d' \<Longrightarrow> key r \<notin> key ` set (rows d)"
  and ins_rows: "ins d r = Some d' \<Longrightarrow> rows d' = rows d @ [r]"
  using ins_Some by blast+

lemma ins_distinct: "distinct (map key (rows d)) \<Longrightarrow> ins d r = Some d' \<Longrightarrow> distinct (map key (rows d'))"
  using ins_Some by fastforce

lemma ins_lookup_new: "ins d r = Some d' \<Longrightarrow> row_with key (key r) (rows d') = Some r"
  using ins_Some [of d r d'] row_with_None [of key "key r" "rows d"] by simp

lemma ins_lookup_old: "ins d r = Some d' \<Longrightarrow> row_with key k (rows d) = Some x \<Longrightarrow> row_with key k (rows d') = Some x"
  by (simp add: ins_rows)

lemma ins_lookup_other: "ins d r = Some d' \<Longrightarrow> k \<noteq> key r \<Longrightarrow> row_with key k (rows d') = row_with key k (rows d)"
  by (simp add: ins_rows split: option.splits)

lemma ins_prefix: "ins d r = Some d' \<Longrightarrow> prefix (rows d) (rows d')"
  by (simp add: ins_rows)

lemma ins_duplicate: "key r \<in> key ` set (rows d) \<Longrightarrow> ins d r = None"
  using ins_Some by (cases "ins d r") blast+

end

section \<open>Inserts\<close>

definition new_key :: "('r \<Rightarrow> 'k) \<Rightarrow> 'r \<Rightarrow> 'r list \<Rightarrow> bool" where
  "new_key key r rows = (key r \<notin> key ` set rows)"

text \<open>\<open>INSERT OR IGNORE INTO artifacts\<close>.\<close>

definition insert_artifact :: "db \<Rightarrow> artifact_row \<Rightarrow> db" where
  "insert_artifact d r =
     (if new_key art_id r (artifacts d) then d\<lparr>artifacts := artifacts d @ [r]\<rparr> else d)"

text \<open>
  SQL's three-valued logic, for trigger conditions over nullable columns: a \<open>WHEN\<close> clause fires
  only when it is true, so \<open>NULL\<close> does not fire it.
\<close>

definition and3 :: "bool option \<Rightarrow> bool option \<Rightarrow> bool option" where
  "and3 a b = (if a = Some False \<or> b = Some False then Some False
     else if a = None \<or> b = None then None else Some True)"

definition or3 :: "bool option \<Rightarrow> bool option \<Rightarrow> bool option" where
  "or3 a b = (if a = Some True \<or> b = Some True then Some True
     else if a = None \<or> b = None then None else Some False)"

definition not3 :: "bool option \<Rightarrow> bool option" where
  "not3 a = map_option Not a"

definition git_columns_null :: "version_row \<Rightarrow> bool" where
  "git_columns_null r = (ver_git_repository r = None \<and> ver_git_head_state r = None
     \<and> ver_git_head_oid r = None \<and> ver_git_index_present r = None \<and> ver_git_index_fingerprint r = None)"

text \<open>The trigger \<open>versions_observation_guard\<close>: \<open>True\<close> when it aborts the INSERT.\<close>

definition observation_guard_fires :: "version_row \<Rightarrow> bool" where
  "observation_guard_fires r =
     (let absent = Some (ver_path r = None \<and> ver_identity r = None \<and> ver_git r = None \<and> git_columns_null r);
          present = and3 (and3 (map_option (\<lambda>p. p \<noteq> []) (ver_path r))
                               (map_option (\<lambda>i. i \<noteq> []) (ver_identity r)))
                      (and3 (map_option (\<lambda>g. g = ''not_applicable'') (ver_git r))
                            (Some (git_columns_null r)))
      in and3 (Some (ver_schema r = 3)) (not3 (or3 absent present)) = Some True)"

definition insert_version :: "db \<Rightarrow> version_row \<Rightarrow> db option" where
  "insert_version d r =
     (if new_key ver_id r (versions d) \<and> new_key ver_operation r (versions d)
         \<and> \<not> observation_guard_fires r
         \<and> ver_artifact r \<in> art_id ` set (artifacts d)
         \<and> opt_all (\<lambda>p. p = ver_id r \<or> p \<in> ver_id ` set (versions d)) (ver_ancestry r)
      then Some (d\<lparr>versions := versions d @ [r]\<rparr>) else None)"

definition insert_operation :: "db \<Rightarrow> operation_row \<Rightarrow> db option" where
  "insert_operation d r =
     (if new_key op_id r (operations d) \<and> opt_all (\<lambda>v. v \<in> ver_id ` set (versions d)) (op_version r)
      then Some (d\<lparr>operations := operations d @ [r]\<rparr>) else None)"

definition insert_operation_or_ignore :: "db \<Rightarrow> operation_row \<Rightarrow> db option" where
  "insert_operation_or_ignore d r =
     (if new_key op_id r (operations d) then insert_operation d r else Some d)"

definition insert_lineage :: "db \<Rightarrow> lineage_row \<Rightarrow> db option" where
  "insert_lineage d r =
     (if new_key lin_operation r (lineage d)
         \<and> lin_operation r \<in> op_id ` set (operations d)
         \<and> lin_version r \<in> ver_id ` set (versions d)
         \<and> opt_all (\<lambda>v. v \<in> ver_id ` set (versions d)) (lin_parent r)
      then Some (d\<lparr>lineage := lineage d @ [r]\<rparr>) else None)"

text \<open>\<open>INSERT OR IGNORE INTO discrepancies\<close>: the operation column is UNIQUE.\<close>

definition insert_discrepancy :: "db \<Rightarrow> discrepancy_row \<Rightarrow> db" where
  "insert_discrepancy d r =
     (if new_key disc_operation r (discrepancies d)
      then d\<lparr>discrepancies := discrepancies d @ [r\<lparr>disc_id := next_id (map disc_id (discrepancies d))\<rparr>]\<rparr>
      else d)"

definition insert_event :: "db \<Rightarrow> event_row \<Rightarrow> db option" where
  "insert_event d r =
     (if new_key ev_id r (events d) \<and> ev_schema r = 1
      then Some (d\<lparr>events := events d @ [r]\<rparr>) else None)"

definition insert_rebuild :: "db \<Rightarrow> rebuild_row \<Rightarrow> db" where
  "insert_rebuild d r = d\<lparr>rebuilds := rebuilds d @ [r]\<rparr>"

text \<open>The trigger \<open>immutable_playback_results_coherence_insert\<close>.\<close>

definition playback_coherent :: "playback_row \<Rightarrow> bool" where
  "playback_coherent r =
     ((pb_result r = ''exact_playback_succeeded'' \<and> pb_exact r \<and> pb_divergence r = None)
      \<or> (pb_result r = ''diverged'' \<and> \<not> pb_exact r \<and> pb_divergence r \<noteq> None))"

definition insert_playback :: "db \<Rightarrow> playback_row \<Rightarrow> db option" where
  "insert_playback d r =
     (if new_key pb_id r (playbacks d) \<and> playback_coherent r
      then Some (d\<lparr>playbacks := playbacks d @ [r]\<rparr>) else None)"

definition insert_simulation :: "db \<Rightarrow> simulation_row \<Rightarrow> db option" where
  "insert_simulation d r =
     (if new_key sim_id r (simulations d) \<and> sim_label r = ''captured_outcome_simulation''
         \<and> \<not> sim_exact_evidence r
      then Some (d\<lparr>simulations := simulations d @ [r]\<rparr>) else None)"

text \<open>The authority triggers: a row that is not complete is never authoritative.\<close>

definition authority_ok :: "str \<Rightarrow> bool \<Rightarrow> bool" where
  "authority_ok status auth = (status = ''complete'' \<or> \<not> auth)"

definition insert_run :: "db \<Rightarrow> run_row \<Rightarrow> db option" where
  "insert_run d r =
     (if new_key run_id r (runs d) \<and> new_key (\<lambda>x. (run_scope x, run_sequence x)) r (runs d)
      then Some (d\<lparr>runs := runs d @ [r]\<rparr>) else None)"

text \<open>The trigger \<open>reconciliation_discrepancies_guards\<close>: \<open>True\<close> when the row passes.\<close>

definition recon_guard :: "db \<Rightarrow> recon_row \<Rightarrow> bool" where
  "recon_guard d r =
     ((rd_correction r = None) = (rd_correction_run r = None)
      \<and> opt_all (\<lambda>c. c \<noteq> rd_id r \<and> rd_correction_run r = Some (rd_run r)
            \<and> (\<exists>x\<in>set (recons d). rd_id x = c \<and> rd_run x = rd_run r \<and> rd_scope x = rd_scope r
                \<and> rd_lineage x = rd_lineage r)
            \<and> (\<forall>x\<in>set (recons d). rd_correction x \<noteq> Some c)) (rd_correction r))"

definition insert_recon :: "db \<Rightarrow> recon_row \<Rightarrow> db option" where
  "insert_recon d r =
     (if new_key rd_id r (recons d) \<and> rd_run r \<in> run_id ` set (runs d) \<and> recon_guard d r
      then Some (d\<lparr>recons := recons d @ [r]\<rparr>) else None)"

definition insert_evidence :: "db \<Rightarrow> evidence_row \<Rightarrow> db option" where
  "insert_evidence d r =
     (if new_key (\<lambda>x. (pe_run x, pe_projection x)) r (evidence d) \<and> pe_run r \<in> run_id ` set (runs d)
      then Some (d\<lparr>evidence := evidence d @ [r]\<rparr>) else None)"

text \<open>\<open>recovery_actions\<close>: the CHECKs, the keys and the trigger \<open>recovery_actions_guards\<close>.\<close>

definition insert_action :: "db \<Rightarrow> action_row \<Rightarrow> db option" where
  "insert_action d r =
     (if new_key act_id r (actions d) \<and> new_key act_operation r (actions d)
         \<and> new_key act_fingerprint r (actions d) \<and> act_stage r = ''prepared'' \<and> act_sequence r = 0
         \<and> act_run r \<in> run_id ` set (runs d)
         \<and> (\<exists>x\<in>set (recons d). rd_id x = act_discrepancy r \<and> rd_run x = act_run r
             \<and> rd_scope x = act_scope r \<and> rd_lineage x = act_lineage r)
      then Some (d\<lparr>actions := actions d @ [r]\<rparr>) else None)"

definition terminal_results :: "str list" where
  "terminal_results = [''applied'', ''blocked'', ''unknown'', ''same'']"

text \<open>The trigger \<open>recovery_outcomes_guards\<close>, one conjunct per SELECT.\<close>

definition supersedes_row :: "outcome_row \<Rightarrow> outcome_row \<Rightarrow> bool" where
  "supersedes_row r x =
     (Some (out_id x) = out_supersedes r \<and> Some (out_action x) = out_supersedes_action r
      \<and> out_action x = out_action r)"

definition effect_guard :: "outcome_row \<Rightarrow> bool" where
  "effect_guard r =
     (out_sequence r = 1 \<longrightarrow>
        out_stage r = ''effect_observed''
        \<and> out_result r \<in> {''effect_applied'', ''effect_not_started'', ''effect_unknown''}
        \<and> out_supersedes r = None
        \<and> (out_result r = ''effect_applied'' \<longrightarrow> out_pre r \<noteq> None \<and> out_post r \<noteq> None)
        \<and> (out_result r = ''effect_not_started'' \<longrightarrow> out_pre r \<noteq> None \<and> out_post r = None)
        \<and> (out_result r = ''effect_unknown'' \<longrightarrow> out_post r \<noteq> None))"

definition terminal_guard :: "db \<Rightarrow> outcome_row \<Rightarrow> bool" where
  "terminal_guard d r =
     (out_sequence r = 2 \<longrightarrow>
        out_stage r = ''terminal'' \<and> out_result r \<in> set terminal_results
        \<and> (\<exists>x\<in>set (outcomes d). supersedes_row r x \<and> out_sequence x = 1 \<and> out_stage x = ''effect_observed'')
        \<and> (\<forall>x\<in>set (outcomes d). Some (out_id x) = out_supersedes r \<and> Some (out_action x) = out_supersedes_action r \<longrightarrow>
             (out_result r = ''applied'' \<longrightarrow> out_result x = ''effect_applied'')
             \<and> (out_result r \<in> {''blocked'', ''same''} \<longrightarrow> out_result x = ''effect_not_started'')
             \<and> (out_result r = ''unknown'' \<longrightarrow> out_result x = ''effect_unknown'')))"

definition correction_guard :: "db \<Rightarrow> outcome_row \<Rightarrow> bool" where
  "correction_guard d r =
     (2 < out_sequence r \<longrightarrow>
        out_stage r = ''correction'' \<and> out_result r \<in> set terminal_results
        \<and> out_kind r = ''reconciliation_discrepancy''
        \<and> (\<exists>x\<in>set (outcomes d). supersedes_row r x \<and> out_sequence x = out_sequence r - 1)
        \<and> (\<exists>c\<in>set (recons d). \<exists>a\<in>set (actions d).
             act_id a = out_action r \<and> rd_id c = out_provenance r \<and> rd_run c = out_run r
             \<and> rd_scope c = out_scope r \<and> rd_lineage c = out_lineage r
             \<and> rd_correction c =
                 (if out_sequence r = 3 then Some (act_discrepancy a)
                  else map_option out_provenance (find (\<lambda>x. out_action x = out_action r
                         \<and> out_sequence x = out_sequence r - 1) (outcomes d)))))"

definition outcome_guard :: "db \<Rightarrow> outcome_row \<Rightarrow> bool" where
  "outcome_guard d r =
     ((\<exists>a\<in>set (actions d). act_id a = out_action r \<and> act_run a = out_run r
         \<and> act_scope a = out_scope r \<and> act_lineage a = out_lineage r)
      \<and> effect_guard r \<and> terminal_guard d r \<and> correction_guard d r
      \<and> (1 < out_sequence r \<longrightarrow>
           (\<exists>x\<in>set (outcomes d). out_action x = out_action r \<and> out_sequence x = out_sequence r - 1)))"

definition insert_outcome :: "db \<Rightarrow> outcome_row \<Rightarrow> db option" where
  "insert_outcome d r =
     (if new_key out_id r (outcomes d) \<and> new_key (\<lambda>x. (out_action x, out_sequence x)) r (outcomes d)
         \<and> (out_supersedes r \<noteq> None \<longrightarrow> new_key (\<lambda>x. (out_action x, out_supersedes x)) r (outcomes d))
         \<and> 1 \<le> out_sequence r \<and> out_status r = out_result r \<and> 0 \<le> out_observation r
         \<and> (out_supersedes r = None) = (out_supersedes_action r = None)
         \<and> outcome_guard d r
      then Some (d\<lparr>outcomes := outcomes d @ [r]\<rparr>) else None)"

section \<open>The tables meet the interface\<close>

interpretation ver_tab: keyed_table ver_id versions insert_version
  by unfold_locales (auto simp: insert_version_def new_key_def split: if_splits)

interpretation ver_op_tab: keyed_table ver_operation versions insert_version
  by unfold_locales (auto simp: insert_version_def new_key_def split: if_splits)

interpretation op_tab: keyed_table op_id operations insert_operation
  by unfold_locales (auto simp: insert_operation_def new_key_def split: if_splits)

interpretation lin_tab: keyed_table lin_operation lineage insert_lineage
  by unfold_locales (auto simp: insert_lineage_def new_key_def split: if_splits)

interpretation ev_tab: keyed_table ev_id events insert_event
  by unfold_locales (auto simp: insert_event_def new_key_def split: if_splits)

interpretation pb_tab: keyed_table pb_id playbacks insert_playback
  by unfold_locales (auto simp: insert_playback_def new_key_def split: if_splits)

interpretation sim_tab: keyed_table sim_id simulations insert_simulation
  by unfold_locales (auto simp: insert_simulation_def new_key_def split: if_splits)

interpretation run_tab: keyed_table run_id runs insert_run
  by unfold_locales (auto simp: insert_run_def new_key_def split: if_splits)

interpretation recon_tab: keyed_table rd_id recons insert_recon
  by unfold_locales (auto simp: insert_recon_def new_key_def split: if_splits)

interpretation act_tab: keyed_table act_operation actions insert_action
  by unfold_locales (auto simp: insert_action_def new_key_def split: if_splits)

interpretation act_id_tab: keyed_table act_id actions insert_action
  by unfold_locales (auto simp: insert_action_def new_key_def split: if_splits)

interpretation out_tab: keyed_table out_id outcomes insert_outcome
  by unfold_locales (auto simp: insert_outcome_def new_key_def split: if_splits)

interpretation out_seq_tab: keyed_table "\<lambda>x. (out_action x, out_sequence x)" outcomes insert_outcome
  by unfold_locales (auto simp: insert_outcome_def new_key_def split: if_splits)

text \<open>An INSERT touches one table: the frame facts, as definitions of the updated store.\<close>

lemma insert_version_db [table_simps]: "insert_version d r = Some d' \<Longrightarrow> d' = d\<lparr>versions := versions d @ [r]\<rparr>"
  and insert_operation_db [table_simps]: "insert_operation d o1 = Some d' \<Longrightarrow> d' = d\<lparr>operations := operations d @ [o1]\<rparr>"
  and insert_lineage_db [table_simps]: "insert_lineage d l = Some d' \<Longrightarrow> d' = d\<lparr>lineage := lineage d @ [l]\<rparr>"
  and insert_event_db [table_simps]: "insert_event d e = Some d' \<Longrightarrow> d' = d\<lparr>events := events d @ [e]\<rparr>"
  and insert_playback_db [table_simps]: "insert_playback d p = Some d' \<Longrightarrow> d' = d\<lparr>playbacks := playbacks d @ [p]\<rparr>"
  and insert_simulation_db [table_simps]: "insert_simulation d s = Some d' \<Longrightarrow> d' = d\<lparr>simulations := simulations d @ [s]\<rparr>"
  and insert_run_db [table_simps]: "insert_run d u = Some d' \<Longrightarrow> d' = d\<lparr>runs := runs d @ [u]\<rparr>"
  and insert_recon_db [table_simps]: "insert_recon d c = Some d' \<Longrightarrow> d' = d\<lparr>recons := recons d @ [c]\<rparr>"
  and insert_action_db [table_simps]: "insert_action d a = Some d' \<Longrightarrow> d' = d\<lparr>actions := actions d @ [a]\<rparr>"
  and insert_outcome_db [table_simps]: "insert_outcome d u' = Some d' \<Longrightarrow> d' = d\<lparr>outcomes := outcomes d @ [u']\<rparr>"
  and insert_evidence_db [table_simps]: "insert_evidence d w = Some d' \<Longrightarrow> d' = d\<lparr>evidence := evidence d @ [w]\<rparr>"
  by (simp_all add: insert_version_def insert_operation_def insert_lineage_def insert_event_def
      insert_playback_def insert_simulation_def insert_run_def insert_recon_def insert_action_def
      insert_outcome_def insert_evidence_def split: if_splits)

end
