(* ===== verification/Utf8.thy ===== *)
theory Utf8
  imports Prelude
begin

text \<open>
  UTF-8, as \<open>str::chars\<close>, \<open>String::push\<close>, \<open>char::from_u32\<close> and \<open>std::str::from_utf8\<close> see it.
  \<open>next_char\<close> splits the first scalar value off a byte string and rejects the ill-formed
  sequences the standard rejects (overlong forms, surrogates, values above 10FFFF).
\<close>

definition is_scalar :: "nat \<Rightarrow> bool" where
  "is_scalar c = (c < 0xD800 \<or> (0xE000 \<le> c \<and> c < 0x110000))"

text \<open>\<open>char::from_u32\<close>.\<close>

definition from_u32 :: "nat \<Rightarrow> nat option" where
  "from_u32 c = (if is_scalar c then Some c else None)"

text \<open>The bytes \<open>String::push\<close> appends for a scalar value.\<close>

definition utf8_encode :: "nat \<Rightarrow> str" where
  "utf8_encode c =
     (if c < 0x80 then [char_of c]
      else if c < 0x800 then [char_of (0xC0 + c div 64), char_of (0x80 + c mod 64)]
      else if c < 0x10000 then
        [char_of (0xE0 + c div 4096), char_of (0x80 + c div 64 mod 64), char_of (0x80 + c mod 64)]
      else [char_of (0xF0 + c div 262144), char_of (0x80 + c div 4096 mod 64),
        char_of (0x80 + c div 64 mod 64), char_of (0x80 + c mod 64)])"

definition cont_byte :: "char \<Rightarrow> bool" where
  "cont_byte b = (0x80 \<le> byte_of b \<and> byte_of b \<le> (0xBF::nat))"

definition decode2 :: "char \<Rightarrow> char \<Rightarrow> nat option" where
  "decode2 a b = (if cont_byte b then Some ((byte_of a - 0xC0) * 64 + (byte_of b - 0x80)) else None)"

definition decode3 :: "char \<Rightarrow> char \<Rightarrow> char \<Rightarrow> nat option" where
  "decode3 a b c =
     (if cont_byte b \<and> cont_byte c \<and> (byte_of a = (0xE0::nat) \<longrightarrow> 0xA0 \<le> byte_of b)
         \<and> (byte_of a = (0xED::nat) \<longrightarrow> byte_of b \<le> 0x9F)
      then Some ((byte_of a - 0xE0) * 4096 + (byte_of b - 0x80) * 64 + (byte_of c - 0x80))
      else None)"

definition decode4 :: "char \<Rightarrow> char \<Rightarrow> char \<Rightarrow> char \<Rightarrow> nat option" where
  "decode4 a b c d =
     (if cont_byte b \<and> cont_byte c \<and> cont_byte d \<and> (byte_of a = (0xF0::nat) \<longrightarrow> 0x90 \<le> byte_of b)
         \<and> (byte_of a = (0xF4::nat) \<longrightarrow> byte_of b \<le> 0x8F)
      then Some ((byte_of a - 0xF0) * 262144 + (byte_of b - 0x80) * 4096
        + (byte_of c - 0x80) * 64 + (byte_of d - 0x80))
      else None)"

text \<open>
  The first character: its scalar value, its bytes, and the rest. \<open>None\<close> at the end of the
  string (and on bytes that are no UTF-8, which a Rust \<open>str\<close> never holds).
\<close>

fun next_char :: "str \<Rightarrow> (nat \<times> str \<times> str) option" where
  "next_char [] = None"
| "next_char (a # s) =
     (if byte_of a < (0x80::nat) then Some (byte_of a, [a], s)
      else if byte_of a < (0xC2::nat) then None
      else if byte_of a < (0xE0::nat) then
        (case s of b # r \<Rightarrow> map_option (\<lambda>n. (n, [a, b], r)) (decode2 a b) | _ \<Rightarrow> None)
      else if byte_of a < (0xF0::nat) then
        (case s of b # c # r \<Rightarrow> map_option (\<lambda>n. (n, [a, b, c], r)) (decode3 a b c) | _ \<Rightarrow> None)
      else if byte_of a \<le> (0xF4::nat) then
        (case s of b # c # d # r \<Rightarrow> map_option (\<lambda>n. (n, [a, b, c, d], r)) (decode4 a b c d)
          | _ \<Rightarrow> None)
      else None)"

declare next_char.simps(2) [simp del]

lemma char_of_byte: "byte_of a = n \<Longrightarrow> a = char_of (n::nat)"
  by auto

lemma next_char_ascii: "byte_of a < (128::nat) \<Longrightarrow> next_char (a # s) = Some (byte_of a, [a], s)"
  by (simp add: next_char.simps)

text \<open>Numbers written in base 64, the digits of UTF-8.\<close>

lemma base64_digit: "z < 64 \<Longrightarrow> n = m * 64 + z \<Longrightarrow> n div 64 = m \<and> n mod 64 = (z::nat)"
  by simp

lemma base64_digits3:
  assumes "y < 64" "z < 64" "n = x * 4096 + y * 64 + (z::nat)"
  shows "n div 4096 = x \<and> n div 64 mod 64 = y \<and> n mod 64 = z"
proof -
  have "n div 64 = x * 64 + y \<and> n mod 64 = z"
    by (rule base64_digit) (use assms in simp_all)
  moreover have "n div 4096 = n div 64 div 64"
    using div_mult2_eq [of n 64 64] by simp
  ultimately show ?thesis using base64_digit [OF assms(1) refl, of x] by simp
qed

lemma base64_digits4:
  assumes "y < 64" "z < 64" "w < 64" "n = x * 262144 + y * 4096 + z * 64 + (w::nat)"
  shows "n div 262144 = x \<and> n div 4096 mod 64 = y \<and> n div 64 mod 64 = z \<and> n mod 64 = w"
proof -
  have d: "n div 64 = x * 4096 + y * 64 + z \<and> n mod 64 = w"
    by (rule base64_digit) (use assms in simp_all)
  moreover have "n div 4096 = n div 64 div 64" "n div 262144 = n div 64 div 4096"
    using div_mult2_eq [of n 64 64] div_mult2_eq [of n 64 4096] by simp_all
  ultimately show ?thesis using base64_digits3 [OF assms(1,2), of "n div 64" x] by simp
qed

lemma div64_mod64: "c div 64 = c div 4096 * 64 + c div 64 mod (64::nat)"
  using div_mult_mod_eq [of "c div 64" 64] div_mult2_eq [of c 64 64] by simp

lemma decode2_encode:
  assumes "0xC2 \<le> byte_of a" "byte_of a < (0xE0::nat)" "decode2 a b = Some n"
  shows "is_scalar n \<and> utf8_encode n = [a, b]"
proof -
  obtain x y where a: "byte_of a = 0xC0 + x" "2 \<le> x" "x < 32" and b: "byte_of b = 0x80 + y" "y < (64::nat)"
    and n: "n = x * 64 + y"
    using assms by (auto simp: decode2_def cont_byte_def split: if_splits
      intro!: that [of "byte_of a - 0xC0" "byte_of b - 0x80"])
  from a b n have "0x80 \<le> n" "n < 0x800" "n div 64 = x" "n mod 64 = y" by auto
  then show ?thesis
    using char_of_byte [OF a(1)] char_of_byte [OF b(1)] by (simp add: utf8_encode_def is_scalar_def)
qed

lemma decode3_encode:
  assumes "0xE0 \<le> byte_of a" "byte_of a < (0xF0::nat)" "decode3 a b c = Some n"
  shows "is_scalar n \<and> utf8_encode n = [a, b, c]"
proof -
  obtain x y z where a: "byte_of a = 0xE0 + x" "x < 16" and b: "byte_of b = 0x80 + y" "y < (64::nat)"
    and c: "byte_of c = 0x80 + z" "z < (64::nat)" and n: "n = x * 4096 + y * 64 + z"
    and lo: "x = 0 \<longrightarrow> 32 \<le> y" and sur: "x = 13 \<longrightarrow> y < 32"
    using assms by (auto simp: decode3_def cont_byte_def split: if_splits
      intro!: that [of "byte_of a - 0xE0" "byte_of b - 0x80" "byte_of c - 0x80"])
  have "0x800 \<le> n" using lo n by (cases "x = 0") auto
  moreover have "n < 0x10000" using a b c n by simp
  moreover have "n div 4096 = x \<and> n div 64 mod 64 = y \<and> n mod 64 = z"
    by (rule base64_digits3) (use b c n in simp_all)
  moreover have "n < 0xD800 \<or> 0xE000 \<le> n"
    using a b c n sur by (cases "x < 13"; cases "x = 13"; simp)
  ultimately show ?thesis
    using char_of_byte [OF a(1)] char_of_byte [OF b(1)] char_of_byte [OF c(1)]
    by (auto simp: utf8_encode_def is_scalar_def)
qed

lemma decode4_encode:
  assumes "0xF0 \<le> byte_of a" "byte_of a \<le> (0xF4::nat)" "decode4 a b c d = Some n"
  shows "is_scalar n \<and> utf8_encode n = [a, b, c, d]"
proof -
  obtain x y z w where a: "byte_of a = 0xF0 + x" "x \<le> 4" and b: "byte_of b = 0x80 + y" "y < (64::nat)"
    and c: "byte_of c = 0x80 + z" "z < (64::nat)" and d: "byte_of d = 0x80 + w" "w < (64::nat)"
    and n: "n = x * 262144 + y * 4096 + z * 64 + w"
    and lo: "x = 0 \<longrightarrow> 16 \<le> y" and hi: "x = 4 \<longrightarrow> y < 16"
    using assms by (auto simp: decode4_def cont_byte_def split: if_splits
      intro!: that [of "byte_of a - 0xF0" "byte_of b - 0x80" "byte_of c - 0x80" "byte_of d - 0x80"])
  have "0x10000 \<le> n" using lo n by (cases "x = 0") auto
  moreover have "n < 0x110000" using a b c d n hi by (cases "x = 4"; simp)
  moreover have "n div 262144 = x \<and> n div 4096 mod 64 = y \<and> n div 64 mod 64 = z \<and> n mod 64 = w"
    by (rule base64_digits4) (use b c d n in simp_all)
  ultimately show ?thesis
    using char_of_byte [OF a(1)] char_of_byte [OF b(1)] char_of_byte [OF c(1)] char_of_byte [OF d(1)]
    by (auto simp: utf8_encode_def is_scalar_def)
qed

lemma next_char_Some:
  assumes "next_char s = Some (c, b, r)"
  shows "s = b @ r \<and> b \<noteq> [] \<and> is_scalar c \<and> b = utf8_encode c"
proof (cases s)
  case Nil
  with assms show ?thesis by simp
next
  case (Cons a t)
  with assms show ?thesis
    using decode2_encode [of a] decode3_encode [of a] decode4_encode [of a]
    by (auto simp: next_char.simps utf8_encode_def [of "byte_of a"] is_scalar_def [of "byte_of a"]
      split: if_splits list.splits)
qed

lemma next_char_shorter: "next_char s = Some (c, b, r) \<Longrightarrow> length r < length s"
  using next_char_Some by fastforce

lemma byte_char_of [simp]: "n < 256 \<Longrightarrow> byte_of (char_of n) = (n::nat)"
  by (simp add: of_char_of)

lemma utf8_encode_nonempty [simp]: "utf8_encode c \<noteq> []"
  by (simp add: utf8_encode_def)

lemma next_char_bytes2:
  "2 \<le> x \<Longrightarrow> x < 32 \<Longrightarrow> y < 64 \<Longrightarrow>
   next_char (char_of (0xC0 + x) # char_of (0x80 + y) # s)
     = Some (x * 64 + y, [char_of (0xC0 + x), char_of (0x80 + y)], s)"
  by (simp add: next_char.simps decode2_def cont_byte_def)

lemma next_char_bytes3:
  "x < 16 \<Longrightarrow> y < 64 \<Longrightarrow> z < 64 \<Longrightarrow> (x = 0 \<longrightarrow> 32 \<le> y) \<Longrightarrow> (x = 13 \<longrightarrow> y < 32) \<Longrightarrow>
   next_char (char_of (0xE0 + x) # char_of (0x80 + y) # char_of (0x80 + z) # s)
     = Some (x * 4096 + y * 64 + z, [char_of (0xE0 + x), char_of (0x80 + y), char_of (0x80 + z)], s)"
  by (auto simp: next_char.simps decode3_def cont_byte_def)

lemma next_char_bytes4:
  "x \<le> 4 \<Longrightarrow> y < 64 \<Longrightarrow> z < 64 \<Longrightarrow> w < 64 \<Longrightarrow> (x = 0 \<longrightarrow> 16 \<le> y) \<Longrightarrow> (x = 4 \<longrightarrow> y < 16) \<Longrightarrow>
   next_char (char_of (0xF0 + x) # char_of (0x80 + y) # char_of (0x80 + z) # char_of (0x80 + w) # s)
     = Some (x * 262144 + y * 4096 + z * 64 + w,
         [char_of (0xF0 + x), char_of (0x80 + y), char_of (0x80 + z), char_of (0x80 + w)], s)"
  by (auto simp: next_char.simps decode4_def cont_byte_def)

lemma next_char_encode:
  assumes "is_scalar c"
  shows "next_char (utf8_encode c @ s) = Some (c, utf8_encode c, s)"
proof -
  consider (1) "c < 0x80" | (2) "0x80 \<le> c" "c < 0x800" | (3) "0x800 \<le> c" "c < 0x10000"
    | (4) "0x10000 \<le> c" "c < 0x110000"
    using assms by (fastforce simp: is_scalar_def)
  then show ?thesis
  proof cases
    case 1
    then show ?thesis by (simp add: utf8_encode_def next_char.simps)
  next
    case 2
    then have "2 \<le> c div 64" "c div 64 < 32" by auto
    with 2 next_char_bytes2 [of "c div 64" "c mod 64" s] show ?thesis
      by (simp add: utf8_encode_def)
  next
    case 3
    have "c div 4096 < 16" using 3 by auto
    moreover have "c div 4096 = 0 \<longrightarrow> 32 \<le> c div 64 mod 64"
      using 3 div64_mod64 [of c] by auto
    moreover have "c div 4096 = 13 \<longrightarrow> c div 64 mod 64 < 32"
    proof
      assume x: "c div 4096 = 13"
      have "c < 55296" using 3 assms x by (auto simp: is_scalar_def)
      then have "c div 64 < 864" by auto
      then show "c div 64 mod 64 < 32" using x div64_mod64 [of c] by simp
    qed
    ultimately have "next_char (utf8_encode c @ s)
        = Some (c div 4096 * 4096 + c div 64 mod 64 * 64 + c mod 64, utf8_encode c, s)"
      using 3 next_char_bytes3 [of "c div 4096" "c div 64 mod 64" "c mod 64" s]
      by (simp add: utf8_encode_def)
    moreover have "c div 4096 * 4096 + c div 64 mod 64 * 64 + c mod 64 = c"
      using div64_mod64 [of c] div_mult_mod_eq [of c 64] by linarith
    ultimately show ?thesis by simp
  next
    case 4
    have q: "c div 4096 = c div 262144 * 64 + c div 4096 mod 64"
      using div_mult_mod_eq [of "c div 4096" 64] div_mult2_eq [of c 4096 64] by simp
    have "c div 262144 \<le> 4" using 4 by auto
    moreover have "c div 262144 = 0 \<longrightarrow> 16 \<le> c div 4096 mod 64" using 4 q by auto
    moreover have "c div 262144 = 4 \<longrightarrow> c div 4096 mod 64 < 16" using 4 q by auto
    ultimately have "next_char (utf8_encode c @ s) = Some (c div 262144 * 262144 + c div 4096 mod 64 * 4096
        + c div 64 mod 64 * 64 + c mod 64, utf8_encode c, s)"
      using 4 next_char_bytes4 [of "c div 262144" "c div 4096 mod 64" "c div 64 mod 64" "c mod 64" s]
      by (simp add: utf8_encode_def)
    moreover have "c div 262144 * 262144 + c div 4096 mod 64 * 4096 + c div 64 mod 64 * 64 + c mod 64 = c"
      using q div64_mod64 [of c] div_mult_mod_eq [of c 64] by linarith
    ultimately show ?thesis by simp
  qed
qed

text \<open>\<open>std::str::from_utf8(b).is_ok()\<close>: the whole string decodes.\<close>

function utf8_ok :: "bytes \<Rightarrow> bool" where
  "utf8_ok s = (if s = [] then True
     else case next_char s of None \<Rightarrow> False | Some (c, b, r) \<Rightarrow> utf8_ok r)"
  by pat_completeness auto
termination
  by (relation "measure length") (auto dest: next_char_shorter)

declare utf8_ok.simps [simp del]

lemma utf8_ok_Nil [simp]: "utf8_ok []"
  by (simp add: utf8_ok.simps)

lemma utf8_ok_ascii [simp]: "byte_of a < (128::nat) \<Longrightarrow> utf8_ok (a # s) = utf8_ok s"
  by (subst utf8_ok.simps) (simp add: next_char_ascii)

lemma utf8_ok_encode: "is_scalar c \<Longrightarrow> utf8_ok (utf8_encode c @ s) = utf8_ok s"
  by (subst utf8_ok.simps) (simp add: next_char_encode)

lemma utf8_ok_append: "utf8_ok s \<Longrightarrow> utf8_ok t \<Longrightarrow> utf8_ok (s @ t)"
proof (induction s rule: utf8_ok.induct)
  case (1 s)
  show ?case
  proof (cases "s = []")
    case False
    with 1(2) obtain c b r where n: "next_char s = Some (c, b, r)" and r: "utf8_ok r"
      by (subst (asm) utf8_ok.simps) (auto split: option.splits)
    have "utf8_ok (r @ t)" using 1(1) [OF False n] r 1(3) by simp
    moreover have "s = utf8_encode c @ r" "is_scalar c" using next_char_Some [OF n] by auto
    ultimately show ?thesis by (simp add: utf8_ok_encode)
  qed (use 1(3) in simp)
qed

text \<open>The characters of a string, \<open>s.chars()\<close>, and the string of a list of characters.\<close>

function chars :: "str \<Rightarrow> nat list" where
  "chars s = (case next_char s of None \<Rightarrow> [] | Some (c, b, r) \<Rightarrow> c # chars r)"
  by pat_completeness auto
termination
  by (relation "measure length") (auto dest: next_char_shorter)

declare chars.simps [simp del]

definition of_chars :: "nat list \<Rightarrow> str" where
  "of_chars cs = concat (map utf8_encode cs)"

lemma of_chars_simps [simp]: "of_chars [] = []" "of_chars (c # cs) = utf8_encode c @ of_chars cs"
  "of_chars (xs @ ys) = of_chars xs @ of_chars ys"
  by (simp_all add: of_chars_def)

lemma of_chars_chars: "utf8_ok s \<Longrightarrow> of_chars (chars s) = s"
proof (induction s rule: utf8_ok.induct)
  case (1 s)
  show ?case
  proof (cases "s = []")
    case True
    then show ?thesis by (simp add: chars.simps)
  next
    case False
    with 1(2) obtain c b r where n: "next_char s = Some (c, b, r)" and r: "utf8_ok r"
      by (subst (asm) utf8_ok.simps) (auto split: option.splits)
    with 1(1) [OF False n] next_char_Some [OF n] show ?thesis
      by (subst chars.simps) simp
  qed
qed

lemma chars_scalar: "c \<in> set (chars s) \<Longrightarrow> is_scalar c"
proof (induction s rule: chars.induct)
  case (1 s)
  show ?case
  proof (cases "next_char s")
    case None
    with 1(2) show ?thesis by (simp add: chars.simps [of s])
  next
    case (Some x)
    then obtain d b r where n: "next_char s = Some (d, b, r)" by (cases x) simp
    with 1(2) have "c = d \<or> c \<in> set (chars r)" by (simp add: chars.simps [of s])
    with 1(1) [OF n refl refl] next_char_Some [OF n] show ?thesis by blast
  qed
qed

lemma chars_of_chars: "(\<forall>c\<in>set cs. is_scalar c) \<Longrightarrow> chars (of_chars cs) = cs"
  by (induction cs) (simp_all add: chars.simps next_char_encode)

lemma utf8_ok_of_chars: "(\<forall>c\<in>set cs. is_scalar c) \<Longrightarrow> utf8_ok (of_chars cs)"
  by (induction cs) (simp_all add: utf8_ok_encode)

text \<open>\<open>char::is_control\<close>: the general category Cc.\<close>

definition is_control :: "nat \<Rightarrow> bool" where
  "is_control c = (c < 0x20 \<or> (0x7F \<le> c \<and> c \<le> 0x9F))"

text \<open>\<open>char::is_whitespace\<close>: the Unicode property White\_Space.\<close>

definition is_whitespace :: "nat \<Rightarrow> bool" where
  "is_whitespace c = ((9 \<le> c \<and> c \<le> 13) \<or> c = 0x20 \<or> c = 0x85 \<or> c = 0xA0 \<or> c = 0x1680
     \<or> (0x2000 \<le> c \<and> c \<le> 0x200A) \<or> c = 0x2028 \<or> c = 0x2029 \<or> c = 0x202F \<or> c = 0x205F \<or> c = 0x3000)"

text \<open>\<open>str::trim\<close>.\<close>

definition trim :: "str \<Rightarrow> str" where
  "trim s = of_chars (rev (dropWhile is_whitespace (rev (dropWhile is_whitespace (chars s)))))"

end
