(* ===== verification/Replay.thy ===== *)
theory Replay
  imports Tables Utf8 Transition "HOL-Library.Char_ord" "HOL-Library.List_Lexorder" "HOL-Library.Product_Lexorder"
    "HOL-Library.Code_Target_Nat"
begin

text \<open>
  \<open>src/src/artifacts/replay.rs\<close>: the append-only event history, projections derived from it,
  their status and authority, and deterministic playback. The digest \<open>sha\<close> (crate \<open>sha2\<close>) and
  the Unicode upper-case table \<open>up\<close> (\<open>char::to_uppercase\<close>) are parameters.

  Every function takes the store and returns its result with the store as it is left. A
  transaction dropped on an early error is rolled back, so those branches return the store
  unchanged.
\<close>

section \<open>Events\<close>

definition SCHEMA :: int where
  "SCHEMA = 1"

text \<open>\<open>ORDER BY event_sequence,id\<close> over the rows of schema version 1.\<close>

definition event_rows :: "db \<Rightarrow> event_row list" where
  "event_rows d = sort_key (\<lambda>r. (ev_sequence r, ev_id r)) (filter (\<lambda>r. ev_schema r = 1) (events d))"

definition str_to_uppercase :: "(nat \<Rightarrow> nat list) \<Rightarrow> str \<Rightarrow> str" where
  "str_to_uppercase up s = of_chars (concat (map up (chars s)))"

definition derive :: "(nat \<Rightarrow> nat list) \<Rightarrow> str \<Rightarrow> str \<Rightarrow> str option" where
  "derive up transition input =
     (if transition \<in> {''uppercase'', ''t1'', ''t2''} then Some (str_to_uppercase up input)
      else if transition \<in> {''identity'', ''set''} then Some input
      else None)"

text \<open>\<open>collect::<Option<Vec<_>>>()\<close>.\<close>

fun collect_options :: "'a option list \<Rightarrow> 'a list option" where
  "collect_options [] = Some []"
| "collect_options (x # xs) =
     (case x of None \<Rightarrow> None | Some a \<Rightarrow> map_option ((#) a) (collect_options xs))"

definition derive_all :: "(nat \<Rightarrow> nat list) \<Rightarrow> event_row list \<Rightarrow> str list option" where
  "derive_all up rows = collect_options (map (\<lambda>r. derive up (ev_transition r) (ev_input r)) rows)"

definition payload_of :: "str list \<Rightarrow> str" where
  "payload_of vs = join_with [CHR 0x0A] vs"

text \<open>The byte string \<open>event_generation\<close> feeds to the hash, and the 63-bit generation.\<close>

definition outcome_bytes :: "str option \<Rightarrow> bytes" where
  "outcome_bytes v = (case v of Some s \<Rightarrow> CHR 0x01 # field64 s | None \<Rightarrow> [CHR 0x00])"

definition event_bytes :: "event_row \<Rightarrow> bytes" where
  "event_bytes r = field64 (ev_id r) @ field64 (dec_int (ev_sequence r)) @ field64 (ev_transition r)
     @ field64 (ev_input r) @ outcome_bytes (ev_outcome r)"

definition history_bytes :: "event_row list \<Rightarrow> bytes" where
  "history_bytes rows = concat (map event_bytes rows)"

definition generation_of_digest :: "bytes \<Rightarrow> int" where
  "generation_of_digest h = int (from_be (take 8 h) mod 2 ^ 63)"

definition event_generation :: "(bytes \<Rightarrow> bytes) \<Rightarrow> event_row list \<Rightarrow> int" where
  "event_generation sha rows = generation_of_digest (sha (history_bytes rows))"

record event =
  e_id :: str
  e_sequence :: int
  e_transition :: str
  e_input :: str
  e_outcome :: str

definition event_maximum :: "db \<Rightarrow> int option" where
  "event_maximum d = (let ns = map ev_sequence (filter (\<lambda>r. ev_schema r = 1) (events d)) in
     if ns = [] then None else Some (foldr max ns (hd ns)))"

definition append_event :: "db \<Rightarrow> event \<Rightarrow> (error + unit) \<times> db" where
  "append_event d e =
     (if opt_any (\<lambda>maximum. e_sequence e \<le> maximum) (event_maximum d) then (Inl OutOfOrder, d)
      else case insert_event d \<lparr>ev_id = e_id e, ev_schema = 1, ev_lineage = ''native'',
             ev_correction = None, ev_sequence = e_sequence e, ev_transition = e_transition e,
             ev_input = e_input e, ev_outcome = Some (e_outcome e)\<rparr> of
          None \<Rightarrow> (Inl (Sql ConstraintViolation), d)
        | Some d' \<Rightarrow> (Inr (), d'))"

section \<open>Projections\<close>

record projection =
  p_id :: str
  p_schema :: int
  p_generation :: int
  p_source_generation :: int
  p_authoritative :: bool
  p_status :: str
  p_payload :: str

definition projection_of_row :: "projection_row \<Rightarrow> projection" where
  "projection_of_row r = \<lparr>p_id = pr_id r, p_schema = pr_schema r, p_generation = pr_generation r,
     p_source_generation = pr_source_generation r, p_authoritative = pr_authoritative r,
     p_status = pr_status r, p_payload = pr_payload r\<rparr>"

text \<open>\<open>INSERT .. ON CONFLICT(id) DO UPDATE\<close>: replace the row with the key, or append one.\<close>

definition upsert :: "('r \<Rightarrow> str) \<Rightarrow> str \<Rightarrow> ('r \<Rightarrow> 'r) \<Rightarrow> 'r \<Rightarrow> 'r list \<Rightarrow> 'r list" where
  "upsert key k upd new rows =
     (if k \<in> key ` set rows then map (\<lambda>r. if key r = k then upd r else r) rows else rows @ [new])"

definition set_rebuild_status :: "db \<Rightarrow> str \<Rightarrow> str \<Rightarrow> bool \<Rightarrow> str option \<Rightarrow> db" where
  "set_rebuild_status d pid status auth failure =
     (let row = \<lparr>rs_projection = pid, rs_status = status, rs_authoritative = auth, rs_failure = failure,
                 rs_drift = None\<rparr>
      in d\<lparr>rebuild_status := upsert rs_projection pid (\<lambda>_. row) row (rebuild_status d)\<rparr>)"

text \<open>
  \<open>mark_projection_status\<close>: an UPDATE of the projection row, then the status row, whose failure
  column an existing row keeps.
\<close>

definition mark_projection_status :: "db \<Rightarrow> str \<Rightarrow> str \<Rightarrow> db" where
  "mark_projection_status d pid status =
     d\<lparr>projections := map (\<lambda>r. if pr_id r = pid then r\<lparr>pr_authoritative := False, pr_status := status\<rparr> else r)
         (projections d),
       rebuild_status := upsert rs_projection pid
         (\<lambda>r. r\<lparr>rs_status := status, rs_authoritative := False, rs_drift := Some status\<rparr>)
         \<lparr>rs_projection = pid, rs_status = status, rs_authoritative = False, rs_failure = None,
           rs_drift = Some status\<rparr> (rebuild_status d)\<rparr>"

text \<open>\<open>Store::projection\<close>: reads a projection, and demotes it when it no longer matches the history.\<close>

definition projection_check :: "(bytes \<Rightarrow> bytes) \<Rightarrow> (nat \<Rightarrow> nat list) \<Rightarrow> db \<Rightarrow> projection \<Rightarrow> str" where
  "projection_check sha up d p =
     (let rows = event_rows d; generation = event_generation sha rows; expected = derive_all up rows in
      if p_status p = ''failed'' \<or> p_schema p \<noteq> SCHEMA \<or> p_generation p \<noteq> generation
         \<or> p_source_generation p \<noteq> generation
      then (if p_status p = ''failed'' then ''failed'' else ''stale'')
      else if opt_all (\<lambda>values. p_payload p \<noteq> payload_of values) expected then ''drifted''
      else ''complete'')"

definition read_projection ::
  "(bytes \<Rightarrow> bytes) \<Rightarrow> (nat \<Rightarrow> nat list) \<Rightarrow> db \<Rightarrow> str \<Rightarrow> (error + projection option) \<times> db" where
  "read_projection sha up d pid =
     (case row_with pr_id pid (projections d) of
        None \<Rightarrow> (Inr None, d)
      | Some row \<Rightarrow>
          let p = projection_of_row row; status = projection_check sha up d p in
          if status \<noteq> ''complete'' \<or> \<not> p_authoritative p
          then (Inr (Some (p\<lparr>p_authoritative := False, p_status := status\<rparr>)), mark_projection_status d pid status)
          else (Inr (Some p), d))"

definition projection_status ::
  "(bytes \<Rightarrow> bytes) \<Rightarrow> (nat \<Rightarrow> nat list) \<Rightarrow> db \<Rightarrow> str \<Rightarrow> (error + str) \<times> db" where
  "projection_status sha up d pid =
     (case read_projection sha up d pid of
        (Inl e, d1) \<Rightarrow> (Inl e, d1)
      | (Inr None, d1) \<Rightarrow> (Inr ''missing'', mark_projection_status d1 pid ''missing'')
      | (Inr (Some p), d1) \<Rightarrow>
          if p_status p = ''failed''
          then (Inr ''failed'', if p_authoritative p then mark_projection_status d1 pid ''failed'' else d1)
          else if p_schema p \<noteq> SCHEMA \<or> p_generation p \<noteq> event_generation sha (event_rows d1)
          then (Inr ''stale'', mark_projection_status d1 pid ''stale'')
          else let status = (if opt_any (\<lambda>v. p_payload p = payload_of v \<and> p_authoritative p)
                                (derive_all up (event_rows d1))
                             then ''complete'' else ''drifted'')
               in (Inr status, if status \<noteq> ''complete'' then mark_projection_status d1 pid status else d1))"

text \<open>The three writes of \<open>rebuild_projection\<close>'s transaction.\<close>

definition record_rebuild :: "db \<Rightarrow> str \<Rightarrow> event_row list \<Rightarrow> str \<Rightarrow> str option \<Rightarrow> db" where
  "record_rebuild d pid rows status failure =
     insert_rebuild d \<lparr>rb_projection = pid,
       rb_event = (if rows = [] then [] else ev_id (last rows)),
       rb_sequence = (if rows = [] then 0 else ev_sequence (last rows)),
       rb_status = status, rb_failure = failure\<rparr>"

definition store_projection :: "db \<Rightarrow> str \<Rightarrow> int \<Rightarrow> str \<Rightarrow> str \<Rightarrow> db" where
  "store_projection d pid generation status payload =
     (if status = ''complete''
      then let row = \<lparr>pr_id = pid, pr_schema = SCHEMA, pr_generation = generation,
                      pr_source_generation = generation, pr_authoritative = True, pr_status = status,
                      pr_payload = payload\<rparr>
           in d\<lparr>projections := upsert pr_id pid (\<lambda>_. row) row (projections d)\<rparr>
      else d\<lparr>projections := upsert pr_id pid (\<lambda>r. r\<lparr>pr_authoritative := False, pr_status := status\<rparr>)
              \<lparr>pr_id = pid, pr_schema = SCHEMA, pr_generation = generation,
                pr_source_generation = generation, pr_authoritative = False, pr_status = status,
                pr_payload = []\<rparr> (projections d)\<rparr>)"

definition rebuild_outcome ::
  "(nat \<Rightarrow> nat list) \<Rightarrow> int \<Rightarrow> event_row list \<Rightarrow> str \<times> str option \<times> str" where
  "rebuild_outcome up schema rows =
     (if schema = SCHEMA
      then (case derive_all up rows of
              Some values \<Rightarrow> (''complete'', None, payload_of values)
            | None \<Rightarrow> (''failed'', Some ''unknown transition'', []))
      else (''failed'', Some ''incompatible schema'', []))"

definition rebuild_projection ::
  "(bytes \<Rightarrow> bytes) \<Rightarrow> (nat \<Rightarrow> nat list) \<Rightarrow> db \<Rightarrow> str \<Rightarrow> int \<Rightarrow> (error + projection) \<times> db" where
  "rebuild_projection sha up d pid schema =
     (let rows = event_rows d;
          generation = event_generation sha rows;
          (status, failure, payload) = rebuild_outcome up schema rows;
          d1 = record_rebuild d pid rows status failure;
          d2 = set_rebuild_status d1 pid status (status = ''complete'') failure;
          d3 = store_projection d2 pid generation status payload
      in if status \<noteq> ''complete'' then (Inl RebuildFailure, d3)
         else case read_projection sha up d3 pid of
             (Inl e, d4) \<Rightarrow> (Inl e, d4)
           | (Inr (Some p), d4) \<Rightarrow> (Inr p, d4)
           | (Inr None, d4) \<Rightarrow>
               (Inr \<lparr>p_id = pid, p_schema = SCHEMA, p_generation = generation,
                     p_source_generation = generation, p_authoritative = False, p_status = status,
                     p_payload = payload\<rparr>, d4))"

section \<open>Playback\<close>

text \<open>\<open>(0..=rows.len()).find(|&length| event_generation(&rows[..length]) == generation)\<close>.\<close>

definition prefix_of_generation :: "(bytes \<Rightarrow> bytes) \<Rightarrow> event_row list \<Rightarrow> int \<Rightarrow> nat option" where
  "prefix_of_generation sha rows generation =
     find (\<lambda>n. event_generation sha (take n rows) = generation) [0..<Suc (length rows)]"

definition selected_prefix :: "(bytes \<Rightarrow> bytes) \<Rightarrow> event_row list \<Rightarrow> int \<Rightarrow> nat option" where
  "selected_prefix sha rows generation =
     (if 0 \<le> generation then prefix_of_generation sha rows generation else None)"

record playback_result =
  pr_outcome :: str
  pr_divergence :: "str option"
  pr_is_exact :: bool

definition playback_exact ::
  "(nat \<Rightarrow> nat list) \<Rightarrow> event_row list \<Rightarrow> str list \<Rightarrow> str list \<Rightarrow> str list \<Rightarrow> bool" where
  "playback_exact up persisted transitions inputs outcomes' =
     (length persisted = length transitions \<and> length persisted = length inputs
      \<and> length persisted = length outcomes' \<and> length transitions = length inputs
      \<and> length inputs = length outcomes'
      \<and> list_all (\<lambda>(((p, t), i), out). ev_transition p = t \<and> ev_input p = i \<and> ev_outcome p = Some out
            \<and> opt_any (\<lambda>v. v = out) (derive up t i))
          (zip (zip (zip persisted transitions) inputs) outcomes'))"

definition playback_with_inputs ::
  "(bytes \<Rightarrow> bytes) \<Rightarrow> (nat \<Rightarrow> nat list) \<Rightarrow> db \<Rightarrow> str \<Rightarrow> int \<Rightarrow> str list \<Rightarrow> str list \<Rightarrow> str list
     \<Rightarrow> (error + playback_result) \<times> db" where
  "playback_with_inputs sha up d pid generation transitions inputs outcomes' =
     (let rows = event_rows d;
          selected = selected_prefix sha rows generation;
          persisted = take (case selected of None \<Rightarrow> 0 | Some n \<Rightarrow> n) rows;
          exact = (0 \<le> generation \<and> selected \<noteq> None
            \<and> playback_exact up persisted transitions inputs outcomes');
          result = (if exact then ''exact_playback_succeeded'' else ''diverged'');
          divergence = (if exact then None
            else if list_ex (\<lambda>(p, out). ev_outcome p \<noteq> Some out) (zip persisted outcomes')
            then Some ''persisted outcome mismatch''
            else Some ''transition or result mismatch'')
      in case insert_playback d \<lparr>pb_id = pid, pb_generation = generation, pb_result = result,
                pb_divergence = divergence, pb_exact = exact\<rparr> of
          None \<Rightarrow> (Inl (Sql ConstraintViolation), d)
        | Some d' \<Rightarrow> (Inr \<lparr>pr_outcome = result, pr_divergence = divergence, pr_is_exact = exact\<rparr>, d'))"

definition playback ::
  "(bytes \<Rightarrow> bytes) \<Rightarrow> (nat \<Rightarrow> nat list) \<Rightarrow> db \<Rightarrow> str \<Rightarrow> int \<Rightarrow> str list \<Rightarrow> str list
     \<Rightarrow> (error + playback_result) \<times> db" where
  "playback sha up d pid generation transitions outcomes' =
     (let rows = event_rows d;
          n = (case selected_prefix sha rows generation of None \<Rightarrow> 0 | Some n \<Rightarrow> n);
          inputs = map ev_input (take n rows)
      in playback_with_inputs sha up d pid generation transitions inputs outcomes')"

record captured_simulation =
  cs_label :: str
  cs_outcome :: str
  cs_exact_evidence :: bool

definition simulate_captured_outcome :: "db \<Rightarrow> str \<Rightarrow> str \<Rightarrow> (error + captured_simulation) \<times> db" where
  "simulate_captured_outcome d pid outcome =
     (case insert_simulation d \<lparr>sim_id = pid, sim_label = ''captured_outcome_simulation'',
             sim_outcome = outcome, sim_exact_evidence = False\<rparr> of
        None \<Rightarrow> (Inl (Sql ConstraintViolation), d)
      | Some d' \<Rightarrow> (Inr \<lparr>cs_label = ''captured_outcome_simulation'', cs_outcome = outcome,
                        cs_exact_evidence = False\<rparr>, d'))"

definition exact_playback_evidence :: "(bytes \<Rightarrow> bytes) \<Rightarrow> db \<Rightarrow> str \<Rightarrow> error + unit" where
  "exact_playback_evidence sha d pid =
     (case find (\<lambda>r. pb_id r = pid \<and> pb_result r = ''exact_playback_succeeded'' \<and> pb_exact r
              \<and> pb_divergence r = None) (playbacks d) of
        None \<Rightarrow> Inl Conflict
      | Some r \<Rightarrow>
          if prefix_of_generation sha (event_rows d) (pb_generation r) \<noteq> None then Inr () else Inl Conflict)"

section \<open>The encoding under the generation\<close>

text \<open>The five columns that a generation covers, as a prefix code.\<close>

type_synonym event_key = "str \<times> int \<times> str \<times> str \<times> str option"

definition event_key :: "event_row \<Rightarrow> event_key" where
  "event_key r = (ev_id r, ev_sequence r, ev_transition r, ev_input r, ev_outcome r)"

definition key_bytes :: "event_key \<Rightarrow> bytes" where
  "key_bytes k = (case k of (i, n, t, x, v) \<Rightarrow>
     field64 i @ field64 (dec_int n) @ field64 t @ field64 x @ outcome_bytes v)"

definition key_bounded :: "event_key \<Rightarrow> bool" where
  "key_bounded k = (case k of (i, n, t, x, v) \<Rightarrow>
     short64 i \<and> short64 (dec_int n) \<and> short64 t \<and> short64 x \<and> opt_all short64 v)"

lemma event_bytes_key: "event_bytes r = key_bytes (event_key r)"
  by (simp add: event_bytes_def key_bytes_def event_key_def)

lemma outcome_bytes_split:
  assumes "opt_all short64 v" "opt_all short64 w" "outcome_bytes v @ x = outcome_bytes w @ y"
  shows "v = w \<and> x = y"
  using assms by (cases v; cases w) (simp_all add: outcome_bytes_def f64.enc_split_iff)

interpretation ek: nonempty_code key_bytes key_bounded
proof
  fix a b :: event_key and x y
  assume ok: "key_bounded a" "key_bounded b" and eq: "key_bytes a @ x = key_bytes b @ y"
  obtain i n t u v where a: "a = (i, n, t, u, v)" by (cases a)
  obtain i' n' t' u' v' where b: "b = (i', n', t', u', v')" by (cases b)
  note sp = f64.enc_split_iff
  have "i = i'" "dec_int n = dec_int n'" "t = t'" "u = u'" "outcome_bytes v @ x = outcome_bytes v' @ y"
    using ok eq by (simp_all add: a b key_bytes_def key_bounded_def sp)
  then show "a = b \<and> x = y"
    using ok outcome_bytes_split [of v v' x y] by (simp add: a b key_bounded_def)
next
  fix a :: event_key
  show "key_bounded a \<Longrightarrow> key_bytes a \<noteq> []"
    using f64.enc_nonempty by (cases a) (auto simp: key_bytes_def key_bounded_def)
qed

lemma history_bytes_inject:
  assumes "\<forall>r\<in>set as. key_bounded (event_key r)" "\<forall>r\<in>set bs. key_bounded (event_key r)"
    and "history_bytes as = history_bytes bs"
  shows "map event_key as = map event_key bs"
proof (rule ek.concat_inject)
  have "concat (map key_bytes (map event_key rs)) = history_bytes rs" for rs
    by (simp add: history_bytes_def event_bytes_key [abs_def] comp_def)
  with assms(3) show "concat (map key_bytes (map event_key as)) = concat (map key_bytes (map event_key bs))"
    by simp
qed (use assms in simp_all)

lemma event_generation_nonneg: "0 \<le> event_generation sha rows" "event_generation sha rows < 2 ^ 63"
proof -
  have "from_be (take 8 h) mod 2 ^ 63 < (2::nat) ^ 63" for h by simp
  then show "event_generation sha rows < 2 ^ 63"
    unfolding event_generation_def generation_of_digest_def by (metis of_nat_less_iff of_nat_numeral of_nat_power)
qed (simp add: event_generation_def generation_of_digest_def)

section \<open>Well-formed histories\<close>

definition history_ok :: "db \<Rightarrow> bool" where
  "history_ok d = (distinct (map ev_id (events d)) \<and> sorted_wrt (<) (map ev_sequence (events d))
     \<and> (\<forall>r\<in>set (events d). ev_schema r = 1))"

lemma event_rows_history:
  assumes "history_ok d" shows "event_rows d = events d"
proof -
  have s: "sorted_wrt (<) (map ev_sequence (events d))" using assms by (simp add: history_ok_def)
  have "sorted (map (\<lambda>r. (ev_sequence r, ev_id r)) (events d))"
    unfolding sorted_map using s unfolding sorted_wrt_map
    by (rule sorted_wrt_mono_rel [rotated]) (simp add: less_eq_prod_def)
  moreover have "filter (\<lambda>r. ev_schema r = 1) (events d) = events d"
    using assms by (simp add: history_ok_def filter_id_conv)
  ultimately show ?thesis by (simp add: event_rows_def sort_key_id_if_sorted)
qed

lemma foldr_max_in: "foldr max ns m = m \<or> foldr max ns m \<in> set (ns :: int list)"
  by (induction ns) (auto simp: max_def)

lemma event_maximum_history:
  assumes "history_ok d"
  shows "opt_any (\<lambda>m. n \<le> m) (event_maximum d) \<longleftrightarrow> (\<exists>r\<in>set (events d). n \<le> ev_sequence r)"
proof -
  let ?ns = "map ev_sequence (events d)"
  have f: "filter (\<lambda>r. ev_schema r = 1) (events d) = events d"
    using assms by (simp add: history_ok_def filter_id_conv)
  show ?thesis
  proof (cases "events d = []")
    case True
    then show ?thesis by (simp add: event_maximum_def)
  next
    case False
    let ?m = "foldr max ?ns (hd ?ns)"
    have "hd ?ns \<in> set ?ns" using False by (intro hd_in_set) simp
    then have "?m \<in> set ?ns" using foldr_max_in [of ?ns "hd ?ns"] by metis
    moreover have "\<forall>m\<in>set ?ns. m \<le> ?m"
      using foldr_max_ge by blast
    ultimately have "n \<le> ?m \<longleftrightarrow> (\<exists>m\<in>set ?ns. n \<le> m)" by (meson order_trans)
    moreover have "event_maximum d = Some ?m" using False f by (simp add: event_maximum_def Let_def)
    ultimately show ?thesis by (simp del: foldr_map)
  qed
qed

definition new_event_row :: "event \<Rightarrow> event_row" where
  "new_event_row e = \<lparr>ev_id = e_id e, ev_schema = 1, ev_lineage = ''native'', ev_correction = None,
     ev_sequence = e_sequence e, ev_transition = e_transition e, ev_input = e_input e,
     ev_outcome = Some (e_outcome e)\<rparr>"

text \<open>
  C9: what \<open>append_event\<close> does on every branch: a sequence number that is not above all recorded
  ones is refused as out of order, a reused id is refused by the primary key, both leaving the
  store as it was, and anything else is appended at the end of the history.
\<close>

theorem append_event_spec:
  assumes "history_ok d"
  shows "append_event d e =
    (if \<exists>r\<in>set (events d). e_sequence e \<le> ev_sequence r then (Inl OutOfOrder, d)
     else if e_id e \<in> ev_id ` set (events d) then (Inl (Sql ConstraintViolation), d)
     else (Inr (), d\<lparr>events := events d @ [new_event_row e]\<rparr>))"
  by (simp add: append_event_def event_maximum_history [OF assms] insert_event_def new_key_def
      new_event_row_def)

lemma append_event_cases:
  obtains "append_event d e = (Inl OutOfOrder, d)"
  | "append_event d e = (Inl (Sql ConstraintViolation), d)"
  | "append_event d e = (Inr (), d\<lparr>events := events d @ [new_event_row e]\<rparr>)"
    "\<not> opt_any (\<lambda>m. e_sequence e \<le> m) (event_maximum d)" "e_id e \<notin> ev_id ` set (events d)"
proof -
  have eq: "append_event d e =
      (if opt_any (\<lambda>m. e_sequence e \<le> m) (event_maximum d) then (Inl OutOfOrder, d)
       else if e_id e \<in> ev_id ` set (events d) then (Inl (Sql ConstraintViolation), d)
       else (Inr (), d\<lparr>events := events d @ [new_event_row e]\<rparr>))"
    by (simp add: append_event_def insert_event_def new_key_def new_event_row_def)
  show ?thesis
  proof (cases "opt_any (\<lambda>m. e_sequence e \<le> m) (event_maximum d)")
    case True
    then show ?thesis using that(1) eq by simp
  next
    case False
    then show ?thesis using that(2,3) eq by (cases "e_id e \<in> ev_id ` set (events d)") simp_all
  qed
qed

lemma append_event_history [step_inv]: "history_ok d \<Longrightarrow> history_ok (snd (append_event d e))"
proof (cases rule: append_event_cases [of d e])
  case 3
  assume h: "history_ok d"
  with 3 have "\<forall>r\<in>set (events d). ev_sequence r < e_sequence e"
    using event_maximum_history [OF h] by force
  with h 3 show ?thesis by (auto simp: history_ok_def new_event_row_def sorted_wrt_append)
qed auto

text \<open>What the other operations touch.\<close>

lemma mark_projection_status_events [simp]: "events (mark_projection_status d k s) = events d"
  by (simp add: mark_projection_status_def)

lemma read_projection_events: "events (snd (read_projection sha up d k)) = events d"
  by (simp add: read_projection_def Let_def split: option.splits)

lemma projection_status_events: "events (snd (projection_status sha up d k)) = events d"
  using read_projection_events [of sha up d k]
  by (auto simp: projection_status_def Let_def split: prod.splits sum.splits option.splits)

lemma store_projection_events [simp]: "events (store_projection d k g s p) = events d"
  by (simp add: store_projection_def Let_def)

lemma set_rebuild_status_events [simp]: "events (set_rebuild_status d k s a f) = events d"
  by (simp add: set_rebuild_status_def Let_def)

lemma record_rebuild_events [simp]: "events (record_rebuild d k r s f) = events d"
  by (simp add: record_rebuild_def insert_rebuild_def)

lemma rebuild_projection_events: "events (snd (rebuild_projection sha up d k n)) = events d"
  using read_projection_events [of sha up]
  by (auto simp: rebuild_projection_def Let_def split: prod.splits sum.splits option.splits)
    (metis (no_types, lifting) record_rebuild_events set_rebuild_status_events snd_conv store_projection_events)+

lemma event_rows_events: "events d = events d' \<Longrightarrow> event_rows d = event_rows d'"
  by (simp add: event_rows_def)


section \<open>Projections are authoritative only when they are right\<close>

text \<open>What the authority triggers keep true of the projection and status rows.\<close>

definition authority_inv :: "db \<Rightarrow> bool" where
  "authority_inv d = ((\<forall>r\<in>set (projections d). authority_ok (pr_status r) (pr_authoritative r))
     \<and> (\<forall>r\<in>set (rebuild_status d). authority_ok (rs_status r) (rs_authoritative r)))"

lemma row_with_map_key:
  "(\<And>r. key r = k \<Longrightarrow> key (upd r) = k) \<Longrightarrow>
   row_with key j (map (\<lambda>r. if key r = k then upd r else r) rows) =
     (if j = k then map_option upd (row_with key j rows) else row_with key j rows)"
  by (induction rows) (auto simp: row_with_def)

lemma upsert_lookup:
  assumes "\<And>r. key r = k \<Longrightarrow> key (upd r) = k" "key new = k"
  shows "row_with key j (upsert key k upd new rows) =
     (if j = k then Some (case row_with key k rows of Some r \<Rightarrow> upd r | None \<Rightarrow> new)
      else row_with key j rows)"
  using assms row_with_None [of key k rows]
  by (cases "row_with key k rows") (auto simp: upsert_def row_with_map_key split: option.splits)

lemma authority_mark [step_inv]: "authority_inv d \<Longrightarrow> authority_inv (mark_projection_status d k s)"
  by (auto simp: authority_inv_def mark_projection_status_def upsert_def authority_ok_def)

lemma authority_set_rebuild [step_inv]:
  "authority_inv d \<Longrightarrow> authority_ok s a \<Longrightarrow> authority_inv (set_rebuild_status d k s a f)"
  by (auto simp: authority_inv_def set_rebuild_status_def upsert_def Let_def)

lemma authority_store [step_inv]: "authority_inv d \<Longrightarrow> authority_inv (store_projection d k g s p)"
  by (auto simp: authority_inv_def store_projection_def upsert_def Let_def authority_ok_def)

lemma authority_record [step_inv]: "authority_inv d \<Longrightarrow> authority_inv (record_rebuild d k r s f)"
  by (simp add: authority_inv_def record_rebuild_def insert_rebuild_def)

lemma authority_read [step_inv]: "authority_inv d \<Longrightarrow> authority_inv (snd (read_projection sha up d k))"
  by (simp add: read_projection_def Let_def step_inv split: option.splits)

lemma authority_rebuild [step_inv]: "authority_inv d \<Longrightarrow> authority_inv (snd (rebuild_projection sha up d k n))"
proof -
  assume inv: "authority_inv d"
  obtain s f p where o: "rebuild_outcome up n (event_rows d) = (s, f, p)" by (cases "rebuild_outcome up n (event_rows d)")
  let ?g = "event_generation sha (event_rows d)"
  let ?d3 = "store_projection (set_rebuild_status (record_rebuild d k (event_rows d) s f) k s (s = ''complete'') f) k ?g s p"
  have "authority_inv ?d3"
    using inv by (intro step_inv) (simp_all add: authority_ok_def)
  then have "authority_inv ?d3" "authority_inv (snd (read_projection sha up ?d3 k))"
    by (simp_all add: step_inv)
  then show ?thesis
    unfolding rebuild_projection_def Let_def o
    by (auto split: prod.splits sum.splits option.splits)
qed

lemma authority_append [step_inv]: "authority_inv d \<Longrightarrow> authority_inv (snd (append_event d e))"
  by (cases rule: append_event_cases [of d e]) (simp_all add: authority_inv_def)

text \<open>
  C10: an authoritative projection handed out by \<open>Store::projection\<close> is complete, of the current
  schema and of the generation of the whole event history, its payload is what deriving every
  event gives, and reading it changed nothing.
\<close>

theorem projection_authority_sound:
  assumes "authority_inv d" "read_projection sha up d k = (Inr (Some p), d')" "p_authoritative p"
  shows "d' = d \<and> p_id p = k \<and> p_status p = ''complete'' \<and> p_schema p = SCHEMA
    \<and> p_generation p = event_generation sha (event_rows d)
    \<and> p_source_generation p = event_generation sha (event_rows d)
    \<and> map_option payload_of (derive_all up (event_rows d)) = Some (p_payload p)"
proof -
  obtain row where r: "row_with pr_id k (projections d) = Some row"
    using assms(2) by (auto simp: read_projection_def split: option.splits)
  then have "row \<in> set (projections d)" "pr_id row = k" by (auto dest: row_with_Some)
  then show ?thesis
    using assms r
    by (auto simp: read_projection_def projection_check_def projection_of_row_def Let_def opt_all_def
        authority_inv_def authority_ok_def split: option.splits if_splits)
qed

text \<open>
  C11: rebuilding a projection whose events all derive yields an authoritative projection with
  the derived payload, and both \<open>projection\<close> and \<open>projection_status\<close> confirm it without
  touching the store; any other rebuild is refused and leaves the projection's row without
  authority, its status row and the rebuild log recording the failure.
\<close>

theorem rebuild_projection_spec:
  "if schema = SCHEMA \<and> derive_all up (event_rows d) \<noteq> None
   then \<exists>p d'. rebuild_projection sha up d k schema = (Inr p, d') \<and> p_authoritative p
     \<and> derive_all up (event_rows d') = derive_all up (event_rows d)
     \<and> Some (p_payload p) = map_option payload_of (derive_all up (event_rows d))
     \<and> read_projection sha up d' k = (Inr (Some p), d')
     \<and> projection_status sha up d' k = (Inr ''complete'', d')
   else \<exists>d' row status. rebuild_projection sha up d k schema = (Inl RebuildFailure, d')
     \<and> row_with pr_id k (projections d') = Some row \<and> \<not> pr_authoritative row \<and> pr_status row = ''failed''
     \<and> row_with rs_projection k (rebuild_status d') = Some status \<and> rs_status status = ''failed''
     \<and> \<not> rs_authoritative status \<and> rs_failure status \<noteq> None
     \<and> (\<exists>log. rebuilds d' = rebuilds d @ [log] \<and> rb_status log = ''failed'' \<and> rb_projection log = k)"
proof (cases "schema = SCHEMA \<and> derive_all up (event_rows d) \<noteq> None")
  case True
  then obtain vs where vs: "derive_all up (event_rows d) = Some vs" by auto
  let ?g = "event_generation sha (event_rows d)"
  let ?d3 = "store_projection (set_rebuild_status (record_rebuild d k (event_rows d) ''complete'' None)
      k ''complete'' True None) k ?g ''complete'' (payload_of vs)"
  let ?p = "\<lparr>p_id = k, p_schema = SCHEMA, p_generation = ?g, p_source_generation = ?g,
      p_authoritative = True, p_status = ''complete'', p_payload = payload_of vs\<rparr>"
  have rows: "event_rows ?d3 = event_rows d" by (rule event_rows_events) simp
  have row: "row_with pr_id k (projections ?d3) = Some \<lparr>pr_id = k, pr_schema = SCHEMA, pr_generation = ?g,
      pr_source_generation = ?g, pr_authoritative = True, pr_status = ''complete'', pr_payload = payload_of vs\<rparr>"
    by (simp add: store_projection_def Let_def upsert_lookup split: option.splits)
  have read: "read_projection sha up ?d3 k = (Inr (Some ?p), ?d3)"
    by (simp add: read_projection_def row projection_check_def projection_of_row_def rows vs Let_def)
  moreover have "rebuild_projection sha up d k schema = (Inr ?p, ?d3)"
    using True read by (simp add: rebuild_projection_def rebuild_outcome_def vs Let_def)
  moreover have "projection_status sha up ?d3 k = (Inr ''complete'', ?d3)"
    by (simp add: projection_status_def read rows vs Let_def)
  ultimately show ?thesis using True rows vs by auto
next
  case False
  then have "\<exists>f. rebuild_outcome up schema (event_rows d) = (''failed'', Some f, [])"
    by (cases "derive_all up (event_rows d)") (auto simp: rebuild_outcome_def)
  then obtain f where o: "rebuild_outcome up schema (event_rows d) = (''failed'', Some f, [])" ..
  show ?thesis
    using False
    by (auto simp: rebuild_projection_def o Let_def store_projection_def set_rebuild_status_def
        record_rebuild_def insert_rebuild_def upsert_lookup split: option.splits)
qed


lemma history_bytes_snoc: "history_bytes (rows @ [r]) = history_bytes rows @ event_bytes r"
  by (simp add: history_bytes_def)

lemma event_bytes_nonempty: "event_bytes r \<noteq> []"
proof -
  have "length (event_bytes r) \<ge> 8" by (simp add: event_bytes_def field64_def)
  then show ?thesis by auto
qed

text \<open>
  Once another event is recorded, a projection built from the shorter history is handed out
  without authority and as stale, unless the digest of the two histories collides in its
  leading 63 bits.
\<close>

theorem append_makes_stale:
  assumes "history_ok d" "append_event d e = (Inr (), d1)"
    and "row_with pr_id k (projections d) = Some row" "pr_status row \<noteq> ''failed''"
    and "pr_generation row = event_generation sha (event_rows d)"
    and "generation_of_digest (sha (history_bytes (event_rows d) @ event_bytes (new_event_row e)))
           \<noteq> generation_of_digest (sha (history_bytes (event_rows d)))"
  shows "\<exists>p d2. read_projection sha up d1 k = (Inr (Some p), d2) \<and> \<not> p_authoritative p
    \<and> p_status p = ''stale'' \<and> p_payload p = pr_payload row
    \<and> (\<forall>r\<in>set (projections d2). pr_id r = k \<longrightarrow> \<not> pr_authoritative r \<and> pr_status r = ''stale'')"
proof -
  from assms(2) have d1: "d1 = d\<lparr>events := events d @ [new_event_row e]\<rparr>"
    by (cases rule: append_event_cases [of d e]) simp_all
  have "history_ok d1" using append_event_history [OF assms(1), of e] assms(2) by simp
  then have "event_rows d1 = event_rows d @ [new_event_row e]"
    using assms(1) by (simp add: event_rows_history d1)
  then have "event_generation sha (event_rows d1) \<noteq> pr_generation row"
    using assms(5,6) by (simp add: event_generation_def history_bytes_snoc)
  then show ?thesis
    using assms(3,4) by (simp add: read_projection_def projection_check_def projection_of_row_def
        Let_def d1 mark_projection_status_def image_Un ball_Un)
qed

section \<open>Playback\<close>

lemma playback_exact_eq:
  "playback_exact up ps ts is os \<longleftrightarrow>
     map ev_transition ps = ts \<and> map ev_input ps = is \<and> map ev_outcome ps = map Some os
     \<and> (\<forall>(t, i, v)\<in>set (zip ts (zip is os)). derive up t i = Some v)"
proof (induction ps arbitrary: ts "is" os)
  case Nil
  show ?case by (auto simp: playback_exact_def)
next
  case (Cons p ps)
  show ?case
  proof (cases "ts = [] \<or> is = [] \<or> os = []")
    case True
    then show ?thesis by (auto simp: playback_exact_def)
  next
    case False
    then obtain t ts' i is' v os' where eq: "ts = t # ts'" "is = i # is'" "os = v # os'"
      by (meson neq_Nil_conv)
    have "playback_exact up (p # ps) ts is os \<longleftrightarrow>
        ev_transition p = t \<and> ev_input p = i \<and> ev_outcome p = Some v \<and> derive up t i = Some v
        \<and> playback_exact up ps ts' is' os'"
      by (auto simp: playback_exact_def eq opt_any_def split: option.splits)
    with Cons.IH [of ts' is' os'] show ?thesis by (auto simp: eq)
  qed
qed

text \<open>
  C12: the evidence a playback leaves is exact precisely when the generation names a prefix of
  the history and the supplied transitions, inputs and outcomes are, position by position, those
  recorded in it, with every outcome the one its transition derives. Anything else is recorded
  as a divergence with a reason.
\<close>

theorem playback_exact_iff:
  assumes "playback_with_inputs sha up d k g ts is os = (Inr r, d')"
  shows "(pr_is_exact r \<longleftrightarrow>
    (0 \<le> g \<and> (\<exists>n. selected_prefix sha (event_rows d) g = Some n
       \<and> map ev_transition (take n (event_rows d)) = ts \<and> map ev_input (take n (event_rows d)) = is
       \<and> map ev_outcome (take n (event_rows d)) = map Some os
       \<and> (\<forall>(t, i, v)\<in>set (zip ts (zip is os)). derive up t i = Some v))))
    \<and> (pr_outcome r = (if pr_is_exact r then ''exact_playback_succeeded'' else ''diverged''))
    \<and> (pr_divergence r = None \<longleftrightarrow> pr_is_exact r)
    \<and> d' = d\<lparr>playbacks := playbacks d @ [\<lparr>pb_id = k, pb_generation = g, pb_result = pr_outcome r,
       pb_divergence = pr_divergence r, pb_exact = pr_is_exact r\<rparr>]\<rparr>"
proof -
  let ?n = "selected_prefix sha (event_rows d) g"
  let ?ps = "take (case ?n of None \<Rightarrow> 0 | Some n \<Rightarrow> n) (event_rows d)"
  have x: "pr_is_exact r = (0 \<le> g \<and> ?n \<noteq> None \<and> playback_exact up ?ps ts is os)"
    and o: "pr_outcome r = (if pr_is_exact r then ''exact_playback_succeeded'' else ''diverged'')"
    and v: "pr_divergence r = None \<longleftrightarrow> pr_is_exact r"
    and i: "insert_playback d \<lparr>pb_id = k, pb_generation = g, pb_result = pr_outcome r,
       pb_divergence = pr_divergence r, pb_exact = pr_is_exact r\<rparr> = Some d'"
    using assms by (auto simp: playback_with_inputs_def Let_def split: option.splits if_splits)
  have "pr_is_exact r \<longleftrightarrow>
    (0 \<le> g \<and> (\<exists>n. ?n = Some n
       \<and> map ev_transition (take n (event_rows d)) = ts \<and> map ev_input (take n (event_rows d)) = is
       \<and> map ev_outcome (take n (event_rows d)) = map Some os
       \<and> (\<forall>(t, i, v)\<in>set (zip ts (zip is os)). derive up t i = Some v)))"
    unfolding x playback_exact_eq by (cases ?n) auto
  with o v insert_playback_db [OF i] show ?thesis by blast
qed

lemma prefix_of_generation_None:
  "prefix_of_generation sha rows g = None \<longleftrightarrow> (\<forall>n\<le>length rows. event_generation sha (take n rows) \<noteq> g)"
  unfolding prefix_of_generation_def find_None_iff by (auto simp: less_Suc_eq_le simp del: upt_Suc)

lemma find_snoc_first: "(\<forall>x\<in>set xs. \<not> P x) \<Longrightarrow> P r \<Longrightarrow> find P (xs @ [r]) = Some r"
  by (induction xs) auto

lemma prefix_of_generation_append:
  assumes "prefix_of_generation sha rows g \<noteq> None"
  shows "prefix_of_generation sha (rows @ later) g \<noteq> None"
proof -
  obtain n where n: "n \<le> length rows" "event_generation sha (take n rows) = g"
    using assms unfolding prefix_of_generation_None by blast
  have "take n (rows @ later) = take n rows" using n(1) by simp
  then have "event_generation sha (take n (rows @ later)) = g" by (simp only: n(2))
  moreover have "n \<le> length (rows @ later)" using n(1) by simp
  ultimately show ?thesis unfolding prefix_of_generation_None by blast
qed

definition append_events :: "db \<Rightarrow> event list \<Rightarrow> db" where
  "append_events d es = foldl (\<lambda>d e. snd (append_event d e)) d es"

lemma append_events_grow:
  "history_ok d \<Longrightarrow> history_ok (append_events d es) \<and> playbacks (append_events d es) = playbacks d
     \<and> (\<exists>later. events (append_events d es) = events d @ later)"
proof (induction es arbitrary: d)
  case (Cons e es)
  have "playbacks (snd (append_event d e)) = playbacks d \<and> (\<exists>later. events (snd (append_event d e)) = events d @ later)"
    by (cases rule: append_event_cases [of d e]) simp_all
  with Cons.IH [OF append_event_history [OF Cons.prems, of e]] show ?case
    by (auto simp: append_events_def)
qed (simp add: append_events_def)

text \<open>
  Exact playback evidence stays valid: whatever events are appended to the history after an
  exact playback, \<open>exact_playback_evidence\<close> still finds the prefix it was made for.
\<close>

theorem exact_evidence_stable:
  assumes "history_ok d" "playback_with_inputs sha up d k g ts is os = (Inr r, d1)" "pr_is_exact r"
  shows "exact_playback_evidence sha (append_events d1 es) k = Inr ()"
proof -
  let ?row = "\<lparr>pb_id = k, pb_generation = g, pb_result = ''exact_playback_succeeded'',
      pb_divergence = None, pb_exact = True\<rparr>"
  have i: "insert_playback d ?row = Some d1" and s: "selected_prefix sha (event_rows d) g \<noteq> None"
    using assms(2,3) by (auto simp: playback_with_inputs_def Let_def split: option.splits if_splits)
  have d1: "d1 = d\<lparr>playbacks := playbacks d @ [?row]\<rparr>" by (rule insert_playback_db [OF i])
  have fresh: "\<forall>x\<in>set (playbacks d). pb_id x \<noteq> k" using pb_tab.ins_fresh [OF i] by force
  have h1: "history_ok d1" using assms(1) by (simp add: history_ok_def d1)
  let ?d2 = "append_events d1 es"
  obtain later where g2: "history_ok ?d2" "playbacks ?d2 = playbacks d1" "events ?d2 = events d @ later"
    using append_events_grow [OF h1, of es] by (auto simp: d1)
  have "prefix_of_generation sha (events d) g \<noteq> None"
    using s assms(1) by (auto simp: selected_prefix_def event_rows_history split: if_splits)
  then have "prefix_of_generation sha (event_rows ?d2) g \<noteq> None"
    using g2 by (simp only: event_rows_history prefix_of_generation_append simp_thms)
  moreover have "find (\<lambda>r. pb_id r = k \<and> pb_result r = ''exact_playback_succeeded'' \<and> pb_exact r
      \<and> pb_divergence r = None) (playbacks ?d2) = Some ?row"
    using fresh unfolding g2(2) by (simp add: d1 find_snoc_first)
  ultimately show ?thesis by (simp add: exact_playback_evidence_def)
qed

text \<open>
  C13: the generation pins the history: two histories of bounded rows with the same generation
  are the same in every column the generation covers, unless their encodings collide in the
  leading 63 bits of the digest.
\<close>

theorem generation_pins_history:
  assumes "\<forall>r\<in>set as. key_bounded (event_key r)" "\<forall>r\<in>set bs. key_bounded (event_key r)"
    and "event_generation sha as = event_generation sha bs"
  shows "map event_key as = map event_key bs
    \<or> history_bytes as \<noteq> history_bytes bs
      \<and> generation_of_digest (sha (history_bytes as)) = generation_of_digest (sha (history_bytes bs))"
  using assms(3) history_bytes_inject [OF assms(1,2)] unfolding event_generation_def by blast


section \<open>Concrete runs\<close>

text \<open>A stand-in digest and upper-case table, and a two-event history.\<close>

definition demo_sha :: "bytes \<Rightarrow> bytes" where
  "demo_sha b = u64_be (length b)"

definition demo_up :: "nat \<Rightarrow> nat list" where
  "demo_up c = [if 97 \<le> c \<and> c \<le> 122 then c - 32 else c]"

definition demo_event1 :: event where
  "demo_event1 = \<lparr>e_id = ''e1'', e_sequence = 1, e_transition = ''uppercase'', e_input = ''ab'', e_outcome = ''AB''\<rparr>"

definition demo_event2 :: event where
  "demo_event2 = \<lparr>e_id = ''e2'', e_sequence = 2, e_transition = ''set'', e_input = ''x'', e_outcome = ''x''\<rparr>"

definition demo_history :: db where
  "demo_history = empty_db\<lparr>events := [new_event_row demo_event1]\<rparr>"

definition demo_rebuilt :: db where
  "demo_rebuilt = snd (rebuild_projection demo_sha demo_up demo_history ''p'' 1)"

lemmas demo_simps = demo_sha_def demo_up_def demo_event1_def demo_event2_def demo_history_def
  empty_db_def new_event_row_def

lemma demo_history_ok: "history_ok demo_history"
  by (simp add: history_ok_def demo_simps)

lemma demo_appended: "append_event demo_history demo_event2
    = (Inr (), demo_history\<lparr>events := [new_event_row demo_event1, new_event_row demo_event2]\<rparr>)"
  by code_simp

lemma append_event_spec_witness:
  "append_event demo_history demo_event2
     = (Inr (), demo_history\<lparr>events := events demo_history @ [new_event_row demo_event2]\<rparr>)
   \<and> append_event demo_history demo_event1 = (Inl OutOfOrder, demo_history)"
  using append_event_spec [OF demo_history_ok, of demo_event2] append_event_spec [OF demo_history_ok, of demo_event1]
  by (simp add: demo_simps)

lemma demo_rebuilt_authority: "authority_inv demo_rebuilt"
  unfolding demo_rebuilt_def
  by (rule authority_rebuild) (simp add: authority_inv_def demo_simps)

lemma demo_rebuilt_read: "read_projection demo_sha demo_up demo_rebuilt ''p''
    = (Inr (Some \<lparr>p_id = ''p'', p_schema = 1, p_generation = 57, p_source_generation = 57,
        p_authoritative = True, p_status = ''complete'', p_payload = ''AB''\<rparr>), demo_rebuilt)"
  by code_simp

lemma projection_authority_sound_witness:
  "map_option payload_of (derive_all demo_up (event_rows demo_rebuilt)) = Some ''AB''
   \<and> event_generation demo_sha (event_rows demo_rebuilt) = 57"
  using projection_authority_sound [OF demo_rebuilt_authority demo_rebuilt_read] by simp

lemma demo_rebuilt_row: "row_with pr_id ''p'' (projections demo_rebuilt)
    = Some \<lparr>pr_id = ''p'', pr_schema = 1, pr_generation = 57, pr_source_generation = 57,
        pr_authoritative = True, pr_status = ''complete'', pr_payload = ''AB''\<rparr>"
  by code_simp

lemma demo_rebuilt_history: "history_ok demo_rebuilt"
  unfolding history_ok_def demo_rebuilt_def rebuild_projection_events
  using demo_history_ok by (simp add: history_ok_def)

lemma append_makes_stale_witness:
  "\<exists>p d2. read_projection demo_sha demo_up (snd (append_event demo_rebuilt demo_event2)) ''p'' = (Inr (Some p), d2)
     \<and> \<not> p_authoritative p \<and> p_status p = ''stale''"
proof -
  have a: "append_event demo_rebuilt demo_event2 = (Inr (), snd (append_event demo_rebuilt demo_event2))"
    by code_simp
  have g: "57 = event_generation demo_sha (event_rows demo_rebuilt)"
    and n: "generation_of_digest (demo_sha (history_bytes (event_rows demo_rebuilt) @ event_bytes (new_event_row demo_event2)))
         \<noteq> generation_of_digest (demo_sha (history_bytes (event_rows demo_rebuilt)))"
    by code_simp+
  show ?thesis
    using append_makes_stale [OF demo_rebuilt_history a demo_rebuilt_row, of demo_sha demo_up] g n by auto
qed

lemma demo_prefix: "event_rows demo_history = [new_event_row demo_event1]"
    "event_generation demo_sha [] = 0" "event_generation demo_sha [new_event_row demo_event1] = 57"
  by code_simp+

lemma demo_playback:
  "playback_with_inputs demo_sha demo_up demo_history ''run'' 57 [''uppercase''] [''ab''] [''AB'']
     = (Inr \<lparr>pr_outcome = ''exact_playback_succeeded'', pr_divergence = None, pr_is_exact = True\<rparr>,
        demo_history\<lparr>playbacks := [\<lparr>pb_id = ''run'', pb_generation = 57,
          pb_result = ''exact_playback_succeeded'', pb_divergence = None, pb_exact = True\<rparr>]\<rparr>)"
  by (simp add: playback_with_inputs_def selected_prefix_def prefix_of_generation_def demo_prefix Let_def
      playback_exact_eq insert_playback_def new_key_def playback_coherent_def)
    (code_simp)

lemma playback_exact_iff_witness:
  "\<exists>n. selected_prefix demo_sha (event_rows demo_history) 57 = Some n
     \<and> map ev_transition (take n (event_rows demo_history)) = [''uppercase'']"
  using playback_exact_iff [OF demo_playback] by auto

lemma exact_evidence_stable_witness:
  "exact_playback_evidence demo_sha (append_events (snd (playback_with_inputs demo_sha demo_up demo_history
     ''run'' 57 [''uppercase''] [''ab''] [''AB''])) [demo_event2]) ''run'' = Inr ()"
  using exact_evidence_stable [OF demo_history_ok demo_playback, of "[demo_event2]"]
  by (simp add: demo_playback)

text \<open>Two histories of one length: the stand-in digest collides, as the property allows.\<close>

lemma generation_pins_history_witness:
  "history_bytes [new_event_row demo_event1] \<noteq> history_bytes [(new_event_row demo_event1)\<lparr>ev_id := ''e3''\<rparr>]"
proof -
  let ?a = "[new_event_row demo_event1]" and ?b = "[(new_event_row demo_event1)\<lparr>ev_id := ''e3''\<rparr>]"
  have "\<forall>r\<in>set ?a. key_bounded (event_key r)" "\<forall>r\<in>set ?b. key_bounded (event_key r)"
    by (simp_all add: key_bounded_def event_key_def short64_def demo_simps dec_int_def dec.simps)
  moreover have "event_generation demo_sha ?a = event_generation demo_sha ?b" by code_simp
  moreover have "map event_key ?a \<noteq> map event_key ?b" by (simp add: event_key_def demo_simps)
  ultimately show ?thesis using generation_pins_history [of ?a ?b demo_sha] by simp
qed

end
