(* ===== verification/Lineage.thy ===== *)
theory Lineage
  imports Replay
begin

text \<open>
  \<open>src/src/artifacts/lineage.rs\<close>: importing a version of an artifact. An import is one
  operation, named by its caller; a repeated operation answers from the record, a refused one
  leaves a rejected operation and a discrepancy, an accepted one appends a version to the
  artifact's chain. \<open>sha\<close> is the crate \<open>sha2\<close>'s digest and \<open>pr\<close> the table of characters
  outside ASCII that Rust's \<open>Debug\<close> prints as they are.

  \<open>import\<close> looks at the file system at five points; each look gets its own \<open>fs\<close>, so the
  model covers whatever another process does between two looks.
\<close>

section \<open>Fingerprints\<close>

definition SCHEMA1 :: int where
  "SCHEMA1 = 1"

text \<open>\<open>format!("{:?}", ..)\<close> of a string, of optional strings and of byte strings.\<close>

definition escape_unicode :: "nat \<Rightarrow> str" where
  "escape_unicode c = [CHR 0x5C] @ ''u{'' @ hex c @ ''}''"

definition debug_char :: "(nat \<Rightarrow> bool) \<Rightarrow> nat \<Rightarrow> str" where
  "debug_char pr c =
     (if c = 0 then [CHR 0x5C] @ ''0'' else if c = 9 then [CHR 0x5C] @ ''t''
      else if c = 13 then [CHR 0x5C] @ ''r'' else if c = 10 then [CHR 0x5C] @ ''n''
      else if c = 0x22 then [CHR 0x5C, CHR 0x22] else if c = 0x5C then [CHR 0x5C, CHR 0x5C]
      else if c < 0x80 then (if 0x20 \<le> c \<and> c < 0x7F then utf8_encode c else escape_unicode c)
      else if pr c then utf8_encode c else escape_unicode c)"

definition debug_str :: "(nat \<Rightarrow> bool) \<Rightarrow> str \<Rightarrow> str" where
  "debug_str pr s = [CHR 0x22] @ concat (map (debug_char pr) (chars s)) @ [CHR 0x22]"

definition debug_opt_str :: "(nat \<Rightarrow> bool) \<Rightarrow> str option \<Rightarrow> str" where
  "debug_opt_str pr v = (case v of None \<Rightarrow> ''None'' | Some s \<Rightarrow> ''Some('' @ debug_str pr s @ '')'')"

definition debug_opt_bytes :: "bytes option \<Rightarrow> str" where
  "debug_opt_bytes v = (case v of None \<Rightarrow> ''None''
     | Some b \<Rightarrow> ''Some(['' @ join_with '', '' (map (\<lambda>c. dec (byte_of c)) b) @ ''])'')"

definition NUL :: str where
  "NUL = [CHR 0x00]"

definition fingerprint_parts ::
  "(bytes \<Rightarrow> bytes) \<Rightarrow> (nat \<Rightarrow> bool) \<Rightarrow> str \<Rightarrow> str \<Rightarrow> str option \<Rightarrow> str \<Rightarrow> str option \<Rightarrow> str option \<Rightarrow> str" where
  "fingerprint_parts sha pr actor source artifact content' expected ancestry =
     hash_str sha (''actor='' @ actor @ NUL @ ''source='' @ source @ NUL @ ''artifact=''
       @ debug_opt_str pr artifact @ NUL @ ''content='' @ content' @ NUL @ ''ancestry=''
       @ debug_opt_str pr ancestry)"

record import_request =
  i_operation :: str
  i_actor :: str
  i_source :: str
  i_content :: str
  i_file :: "str option"
  i_expected_hash :: "str option"
  i_ancestry :: "str option"
  i_artifact :: "str option"
  i_expected_identity :: "str option"

definition import_new :: "str \<Rightarrow> str \<Rightarrow> str \<Rightarrow> str \<Rightarrow> import_request" where
  "import_new operation actor source content' =
     \<lparr>i_operation = operation, i_actor = actor, i_source = source, i_content = content',
      i_file = None, i_expected_hash = None, i_ancestry = None, i_artifact = None,
      i_expected_identity = None\<rparr>"

text \<open>\<open>Import::file\<close> remembers the identity the file has when the request is built.\<close>

definition import_file :: "fs \<Rightarrow> str \<Rightarrow> import_request \<Rightarrow> import_request" where
  "import_file f path r = r\<lparr>i_file := Some path,
     i_expected_identity := (case symlink_metadata f path of
         Found m \<Rightarrow> if kind m = RegularFile then Some (identity_text m) else None
       | _ \<Rightarrow> None)\<rparr>"

definition import_artifact :: "str \<Rightarrow> import_request \<Rightarrow> import_request" where
  "import_artifact a r = r\<lparr>i_artifact := Some a\<rparr>"

definition import_expected_hash :: "str \<Rightarrow> import_request \<Rightarrow> import_request" where
  "import_expected_hash h r = r\<lparr>i_expected_hash := Some h\<rparr>"

definition import_ancestry :: "str option \<Rightarrow> import_request \<Rightarrow> import_request" where
  "import_ancestry a r = r\<lparr>i_ancestry := a\<rparr>"

text \<open>\<open>r.artifact.unwrap_or(r.source)\<close>.\<close>

definition target_artifact :: "import_request \<Rightarrow> str" where
  "target_artifact r = (case i_artifact r of Some a \<Rightarrow> a | None \<Rightarrow> i_source r)"

definition base_fingerprint :: "(bytes \<Rightarrow> bytes) \<Rightarrow> (nat \<Rightarrow> bool) \<Rightarrow> import_request \<Rightarrow> str" where
  "base_fingerprint sha pr r = fingerprint_parts sha pr (i_actor r) (i_source r)
     (Some (target_artifact r)) (hash_str sha (i_content r)) None (i_ancestry r)"

definition fingerprint :: "(bytes \<Rightarrow> bytes) \<Rightarrow> (nat \<Rightarrow> bool) \<Rightarrow> import_request \<Rightarrow> bytes option \<Rightarrow> str" where
  "fingerprint sha pr r logical_path =
     hash_str sha (base_fingerprint sha pr r @ NUL @ ''logical_path='' @ debug_opt_bytes logical_path)"

definition normalize_logical_path :: "fs \<Rightarrow> str \<Rightarrow> error + bytes" where
  "normalize_logical_path f path =
     (case path_parent path of None \<Rightarrow> Inl Conflict | Some p \<Rightarrow>
      case canonicalize f p of None \<Rightarrow> Inl Conflict | Some parent \<Rightarrow>
      case path_file_name path of None \<Rightarrow> Inl Conflict | Some name \<Rightarrow>
        Inr (parent @ ''/'' @ name))"

section \<open>Reading versions\<close>

record version =
  v_artifact_id :: str
  v_version_id :: str
  v_hash :: str
  v_canonical :: str
  v_ancestry :: "str option"

definition read_version :: "db \<Rightarrow> str \<Rightarrow> error + version" where
  "read_version d vid =
     (case row_with ver_id vid (versions d) of
        None \<Rightarrow> Inl (Sql QueryReturnedNoRows)
      | Some r \<Rightarrow> Inr \<lparr>v_artifact_id = ver_artifact r, v_version_id = vid, v_hash = ver_hash r,
                      v_canonical = ver_canonical r, v_ancestry = ver_ancestry r\<rparr>)"

definition version_count :: "db \<Rightarrow> int" where
  "version_count d = int (length (versions d))"

definition discrepancy_count :: "db \<Rightarrow> int" where
  "discrepancy_count d = int (length (discrepancies d)) + int (length (recons d))"

definition discrepancy_context :: "db \<Rightarrow> str \<Rightarrow> str option" where
  "discrepancy_context d operation = map_option disc_context (row_with disc_operation operation (discrepancies d))"

definition discrepancy :: "db \<Rightarrow> str \<Rightarrow> discrepancy_row option" where
  "discrepancy d operation = row_with disc_operation operation (discrepancies d)"

definition operation_lineage :: "db \<Rightarrow> str \<Rightarrow> str option option" where
  "operation_lineage d operation = map_option op_lineage (row_with op_id operation (operations d))"

text \<open>\<open>SELECT .. FROM versions WHERE artifact_id=? ORDER BY rowid DESC LIMIT 1\<close>.\<close>

definition latest_version :: "db \<Rightarrow> str \<Rightarrow> version_row option" where
  "latest_version d a = last_row (\<lambda>v. ver_artifact v = a) (versions d)"

definition bound_path :: "db \<Rightarrow> str \<Rightarrow> bytes option" where
  "bound_path d a = (case find (\<lambda>v. ver_artifact v = a \<and> ver_path v \<noteq> None) (versions d) of
       None \<Rightarrow> None | Some v \<Rightarrow> ver_path v)"

section \<open>Refusing an import\<close>

datatype look = AtNormalize | AtDurable | AtBefore | AtFinal | AtReject

definition accepted_version :: "db \<Rightarrow> str \<Rightarrow> str option" where
  "accepted_version d operation =
     (case find (\<lambda>r. op_id r = operation \<and> op_result r = ''accepted'') (operations d) of
        None \<Rightarrow> None | Some r \<Rightarrow> op_version r)"

text \<open>\<open>reject\<close>: one transaction; its SQL errors are reported as \<open>Error::Discrepancy\<close>.\<close>

definition reject ::
  "(bytes \<Rightarrow> bytes) \<Rightarrow> fs \<Rightarrow> db \<Rightarrow> import_request \<Rightarrow> str \<Rightarrow> str \<Rightarrow> error \<Rightarrow> str \<Rightarrow> (error + version) \<times> db" where
  "reject sha f d r reason code err fp =
     (let seen = (case i_file r of None \<Rightarrow> None | Some path \<Rightarrow> to_ok (observe sha f path None));
          accepted = accepted_version d (i_operation r);
          artifact = target_artifact r
      in case (if accepted = None
               then insert_operation_or_ignore d \<lparr>op_id = i_operation r, op_fingerprint = fp,
                   op_result = ''rejected'', op_version = None, op_lineage = None,
                   op_code = Some code, op_schema = SCHEMA1\<rparr>
               else Some d) of
          None \<Rightarrow> (Inl (Discrepancy ConstraintViolation), d)
        | Some d1 \<Rightarrow>
            (Inl err, insert_discrepancy d1
               \<lparr>disc_id = 0, disc_operation = i_operation r, disc_actor = i_actor r,
                disc_artifact = artifact, disc_source = i_source r, disc_ancestry = i_ancestry r,
                disc_reason = reason, disc_status = ''rejected'',
                disc_result = (case accepted of Some v \<Rightarrow> v | None \<Rightarrow> i_operation r),
                disc_expected_hash = i_expected_hash r, disc_observed_hash = map_option snd seen,
                disc_expected_identity = i_expected_identity r,
                disc_observed_identity = map_option fst seen,
                disc_proposed_hash = Some (hash_str sha (i_content r)),
                disc_context = ''schema=1;code='' @ code @ '';original=''
                  @ (case accepted of Some v \<Rightarrow> v | None \<Rightarrow> []),
                disc_schema = SCHEMA1,
                disc_observed_owner = map_option art_owner (row_with art_id artifact (artifacts d1)),
                disc_observed_source = map_option art_source (row_with art_id artifact (artifacts d1)),
                disc_observed_ancestry = map_option ver_id (latest_version d1 artifact)\<rparr>))"

section \<open>Importing\<close>

text \<open>
  What \<open>import\<close> decides before its transaction: refuse (the request to record, a reason, a code
  and the error), fail with an error, answer from the record of an earlier run, or go ahead
  with the observed identity and digest of the file.
\<close>

datatype verdict =
    Refuse import_request str str error
  | Fail error
  | Recorded "str option"
  | Proceed "(str \<times> str) option"

definition retry_verdict ::
  "(bytes \<Rightarrow> bytes) \<Rightarrow> (nat \<Rightarrow> bool) \<Rightarrow> import_request \<Rightarrow> str \<Rightarrow> operation_row \<Rightarrow> verdict" where
  "retry_verdict sha pr r fp row =
     (let legacy_match = (i_file r = None \<and> op_fingerprint row = base_fingerprint sha pr r) in
      if op_fingerprint row \<noteq> fp \<and> \<not> legacy_match
      then Refuse r ''operation fingerprint conflict'' ''conflict'' Conflict
      else if op_result row = ''rejected''
      then Fail (if op_code row = Some ''drift'' then Drift else Conflict)
      else Recorded (op_version row))"

text \<open>The recorded file of the latest version must still be what was recorded.\<close>

definition durable_verdict ::
  "(bytes \<Rightarrow> bytes) \<Rightarrow> fs \<Rightarrow> db \<Rightarrow> import_request \<Rightarrow> bytes option \<Rightarrow> bytes \<Rightarrow> str \<Rightarrow> verdict option" where
  "durable_verdict sha f d r bound path version_id =
     (case row_with ver_id version_id (versions d) of
        None \<Rightarrow> Some (Fail (Sql QueryReturnedNoRows))
      | Some v \<Rightarrow>
          if opt_any (\<lambda>b. b \<noteq> path) (case bound of Some b \<Rightarrow> Some b | None \<Rightarrow> ver_path v)
          then Some (Refuse r ''logical path conflict'' ''conflict'' Conflict)
          else let current = to_ok (observe sha f path (ver_identity v)) in
            if map_option fst current \<noteq> ver_identity v \<or> map_option snd current \<noteq> Some (ver_hash v)
            then Some (Refuse (r\<lparr>i_expected_hash := Some (ver_hash v), i_expected_identity := ver_identity v\<rparr>)
                   ''durable file identity drift'' ''drift'' Drift)
            else None)"

definition ancestry_valid :: "db \<Rightarrow> import_request \<Rightarrow> bool" where
  "ancestry_valid d r = opt_all (\<lambda>parent. \<exists>v\<in>set (versions d). ver_id v = parent
       \<and> ver_artifact v = target_artifact r \<and> ver_actor v = i_actor r \<and> ver_source v = i_source r)
     (i_ancestry r)"

definition content_verdict ::
  "(bytes \<Rightarrow> bytes) \<Rightarrow> (look \<Rightarrow> fs) \<Rightarrow> db \<Rightarrow> import_request \<Rightarrow> bytes option \<Rightarrow> verdict" where
  "content_verdict sha fs d r path =
     (let content_hash = hash_str sha (i_content r) in
      if map_option ver_id (latest_version d (target_artifact r)) \<noteq> i_ancestry r
      then Refuse r ''lineage conflict'' ''conflict'' Conflict
      else if \<not> ancestry_valid d r then Refuse r ''invalid version ancestry'' ''conflict'' Conflict
      else if opt_any (\<lambda>h. h \<noteq> content_hash) (i_expected_hash r)
      then Refuse r ''expected hash mismatch'' ''drift'' Drift
      else case path of
          None \<Rightarrow> Proceed None
        | Some p \<Rightarrow> (case observe sha (fs AtBefore) p (i_expected_identity r) of
              Inl e \<Rightarrow> Refuse r ''file observation failed'' ''drift'' e
            | Inr (identity, h) \<Rightarrow>
                if h \<noteq> content_hash then Refuse r ''file content drift'' ''drift'' Drift
                else Proceed (Some (identity, h))))"

definition import_verdict ::
  "(bytes \<Rightarrow> bytes) \<Rightarrow> (nat \<Rightarrow> bool) \<Rightarrow> (look \<Rightarrow> fs) \<Rightarrow> db \<Rightarrow> import_request \<Rightarrow> bytes option \<Rightarrow> verdict" where
  "import_verdict sha pr fs d r path =
     (let artifact = target_artifact r; latest = latest_version d artifact; bound = bound_path d artifact in
      if i_file r \<noteq> None \<and> i_artifact r = None
      then Refuse r ''implicit artifact discovery is forbidden'' ''conflict'' Conflict
      else case row_with op_id (i_operation r) (operations d) of
          Some row \<Rightarrow> retry_verdict sha pr r (fingerprint sha pr r path) row
        | None \<Rightarrow>
            if opt_any (\<lambda>a. (art_owner a, art_source a) \<noteq> (i_actor r, i_source r))
                 (row_with art_id artifact (artifacts d))
            then Refuse r ''artifact owner/source conflict'' ''conflict'' Conflict
            else if i_file r = None \<and> bound \<noteq> None
            then Refuse r ''file binding conflict'' ''conflict'' Conflict
            else case (case (path, latest) of
                   (Some p, Some v) \<Rightarrow> durable_verdict sha (fs AtDurable) d r bound p (ver_id v)
                 | _ \<Rightarrow> None) of
                Some w \<Rightarrow> w
              | None \<Rightarrow> content_verdict sha fs d r path)"

definition new_version_id :: "(bytes \<Rightarrow> bytes) \<Rightarrow> import_request \<Rightarrow> str" where
  "new_version_id sha r = ''v-'' @ hash_str sha (''artifact='' @ target_artifact r @ NUL @ ''hash=''
     @ hash_str sha (i_content r) @ NUL @ ''operation='' @ i_operation r @ NUL @ ''actor='' @ i_actor r
     @ NUL @ ''source='' @ i_source r)"

definition new_version_row ::
  "(bytes \<Rightarrow> bytes) \<Rightarrow> import_request \<Rightarrow> bytes option \<Rightarrow> (str \<times> str) option \<Rightarrow> version_row" where
  "new_version_row sha r path observed =
     \<lparr>ver_id = new_version_id sha r, ver_artifact = target_artifact r,
      ver_hash = hash_str sha (i_content r), ver_canonical = i_content r, ver_ancestry = i_ancestry r,
      ver_operation = i_operation r, ver_actor = i_actor r, ver_source = i_source r,
      ver_identity = map_option fst observed, ver_expected_hash = i_expected_hash r,
      ver_schema = SCHEMA1, ver_source_schema = SCHEMA1, ver_lineage = ''native'', ver_path = path,
      ver_git = map_option (\<lambda>_. ''not_applicable'') path, ver_git_repository = None,
      ver_git_head_state = None, ver_git_head_oid = None, ver_git_index_present = None,
      ver_git_index_fingerprint = None\<rparr>"

text \<open>The transaction of \<open>import\<close>; an error rolls it back.\<close>

definition import_commit ::
  "(bytes \<Rightarrow> bytes) \<Rightarrow> (look \<Rightarrow> fs) \<Rightarrow> db \<Rightarrow> import_request \<Rightarrow> str \<Rightarrow> bytes option \<Rightarrow> (str \<times> str) option
     \<Rightarrow> (error + version) \<times> db" where
  "import_commit sha fs d r fp path observed =
     (let vid = new_version_id sha r;
          d1 = insert_artifact d \<lparr>art_id = target_artifact r, art_owner = i_actor r,
                 art_source = i_source r, art_schema = SCHEMA1\<rparr>
      in case insert_version d1 (new_version_row sha r path observed) of
          None \<Rightarrow> (Inl (Sql ConstraintViolation), d)
        | Some d2 \<Rightarrow>
            if opt_any (\<lambda>p. to_ok (observe sha (fs AtFinal) p (map_option fst observed)) \<noteq> observed) path
            then (Inl Drift, d)
            else case insert_operation d2 \<lparr>op_id = i_operation r, op_fingerprint = fp,
                   op_result = ''accepted'', op_version = Some vid, op_lineage = i_ancestry r,
                   op_code = None, op_schema = SCHEMA1\<rparr> of
                None \<Rightarrow> (Inl (Sql ConstraintViolation), d)
              | Some d3 \<Rightarrow>
                  (case insert_lineage d3 \<lparr>lin_operation = i_operation r, lin_version = vid,
                       lin_parent = i_ancestry r, lin_schema = SCHEMA1\<rparr> of
                     None \<Rightarrow> (Inl (Sql ConstraintViolation), d)
                   | Some d4 \<Rightarrow> (read_version d4 vid, d4)))"

definition import_path :: "fs \<Rightarrow> import_request \<Rightarrow> error + bytes option" where
  "import_path f r = (case i_file r of None \<Rightarrow> Inr None
     | Some path \<Rightarrow> (case normalize_logical_path f path of Inl e \<Rightarrow> Inl e | Inr p \<Rightarrow> Inr (Some p)))"

text \<open>\<open>Store::import\<close>. \<open>None\<close> is the panic of \<open>version.unwrap()\<close>.\<close>

definition import_artifact_version ::
  "(bytes \<Rightarrow> bytes) \<Rightarrow> (nat \<Rightarrow> bool) \<Rightarrow> (look \<Rightarrow> fs) \<Rightarrow> db \<Rightarrow> import_request \<Rightarrow> ((error + version) \<times> db) option" where
  "import_artifact_version sha pr fs d r =
     (case import_path (fs AtNormalize) r of
        Inl e \<Rightarrow> Some (Inl e, d)
      | Inr path \<Rightarrow>
          let fp = fingerprint sha pr r path in
          case import_verdict sha pr fs d r path of
            Refuse r' reason code err \<Rightarrow> Some (reject sha (fs AtReject) d r' reason code err fp)
          | Fail e \<Rightarrow> Some (Inl e, d)
          | Recorded None \<Rightarrow> None
          | Recorded (Some vid) \<Rightarrow> Some (read_version d vid, d)
          | Proceed observed \<Rightarrow> Some (import_commit sha fs d r fp path observed))"


section \<open>Well-formed lineage\<close>

text \<open>Each version's parent is the version its artifact had last: one chain per artifact.\<close>

definition head_of :: "version_row list \<Rightarrow> str \<Rightarrow> str option" where
  "head_of vs a = map_option ver_id (last_row (\<lambda>x. ver_artifact x = a) vs)"

definition chained :: "version_row list \<Rightarrow> bool" where
  "chained vs = (\<forall>n<length vs. ver_ancestry (vs ! n) = head_of (take n vs) (ver_artifact (vs ! n)))"

definition lineage_of :: "version_row \<Rightarrow> lineage_row" where
  "lineage_of v = \<lparr>lin_operation = ver_operation v, lin_version = ver_id v,
     lin_parent = ver_ancestry v, lin_schema = SCHEMA1\<rparr>"

definition operation_ok :: "operation_row \<Rightarrow> bool" where
  "operation_ok r = (op_result r = ''accepted'' \<and> op_version r \<noteq> None
     \<or> op_result r = ''rejected'' \<and> op_version r = None \<and> op_code r \<in> {Some ''conflict'', Some ''drift''})"

definition version_ok :: "(bytes \<Rightarrow> bytes) \<Rightarrow> db \<Rightarrow> version_row \<Rightarrow> bool" where
  "version_ok sha d v = (ver_hash v = hash_str sha (ver_canonical v)
     \<and> (\<exists>a\<in>set (artifacts d). art_id a = ver_artifact v \<and> art_owner a = ver_actor v \<and> art_source a = ver_source v))"

definition lineage_inv :: "(bytes \<Rightarrow> bytes) \<Rightarrow> db \<Rightarrow> bool" where
  "lineage_inv sha d =
     (distinct (map art_id (artifacts d)) \<and> distinct (map ver_id (versions d))
      \<and> distinct (map op_id (operations d)) \<and> distinct (map disc_operation (discrepancies d))
      \<and> map (\<lambda>r. (op_id r, op_version r, op_lineage r)) (filter (\<lambda>r. op_result r = ''accepted'') (operations d))
          = map (\<lambda>v. (ver_operation v, Some (ver_id v), ver_ancestry v)) (versions d)
      \<and> lineage d = map lineage_of (versions d)
      \<and> list_all operation_ok (operations d) \<and> list_all (version_ok sha d) (versions d)
      \<and> chained (versions d))"

lemma head_of_simps [simp]:
  "head_of [] a = None"
  "head_of (vs @ [v]) a = (if ver_artifact v = a then Some (ver_id v) else head_of vs a)"
  by (simp_all add: head_of_def)

lemma head_of_in: "head_of vs a = Some h \<Longrightarrow> h \<in> ver_id ` set vs"
  by (auto simp: head_of_def dest: last_row_Some)

lemma head_of_None: "head_of vs a = None \<longleftrightarrow> (\<forall>v\<in>set vs. ver_artifact v \<noteq> a)"
  by (simp add: head_of_def last_row_None)

lemma chained_Nil [simp]: "chained []"
  by (simp add: chained_def)

lemma chained_snoc: "chained (vs @ [v]) \<longleftrightarrow> chained vs \<and> ver_ancestry v = head_of vs (ver_artifact v)"
  by (auto simp: chained_def nth_append less_Suc_eq)

lemma chain_parent_in:
  "chained vs \<Longrightarrow> t \<in> set vs \<Longrightarrow> ver_ancestry t = Some p \<Longrightarrow> p \<in> ver_id ` set vs"
proof (induction vs rule: rev_induct)
  case (snoc u us)
  then have "chained us" "ver_ancestry u = head_of us (ver_artifact u)" by (simp_all add: chained_snoc)
  with snoc.IH snoc.prems(2,3) head_of_in [of us "ver_artifact u" p] show ?case
    by (cases "t = u") simp_all
qed simp

lemma chain_head_childless:
  "chained vs \<Longrightarrow> distinct (map ver_id vs) \<Longrightarrow> head_of vs a = Some z
   \<Longrightarrow> y \<in> set vs \<Longrightarrow> ver_artifact y = a \<Longrightarrow> ver_ancestry y \<noteq> Some z"
proof (induction vs rule: rev_induct)
  case (snoc u us)
  have c: "chained us" "distinct (map ver_id us)" and new: "ver_id u \<notin> ver_id ` set us"
    and au: "ver_ancestry u = head_of us (ver_artifact u)"
    using snoc.prems(1,2) by (simp_all add: chained_snoc)
  show ?case
  proof (cases "ver_artifact u = a")
    case True
    then have z: "z = ver_id u" using snoc.prems(3) by simp
    show ?thesis
    proof
      assume y: "ver_ancestry y = Some z"
      have "z \<in> ver_id ` set us"
      proof (cases "y = u")
        case True
        then show ?thesis using y au head_of_in by simp
      next
        case False
        then show ?thesis using chain_parent_in [OF c(1) _ y] snoc.prems(4) by simp
      qed
      with new z show False by simp
    qed
  next
    case False
    then have "head_of us a = Some z" "y \<in> set us" using snoc.prems(3-5) by auto
    with snoc.IH [OF c] snoc.prems(5) show ?thesis by blast
  qed
qed simp

lemma chain_no_fork:
  "chained vs \<Longrightarrow> distinct (map ver_id vs) \<Longrightarrow> v \<in> set vs \<Longrightarrow> w \<in> set vs
   \<Longrightarrow> ver_artifact v = ver_artifact w \<Longrightarrow> ver_ancestry v = ver_ancestry w \<Longrightarrow> v = w"
proof (induction vs rule: rev_induct)
  case (snoc x vs)
  have c: "chained vs" "distinct (map ver_id vs)" and x: "ver_ancestry x = head_of vs (ver_artifact x)"
    using snoc.prems(1,2) by (simp_all add: chained_snoc)
  have new: "ver_ancestry y \<noteq> ver_ancestry x" if y: "y \<in> set vs" "ver_artifact y = ver_artifact x" for y
  proof (cases "head_of vs (ver_artifact x)")
    case None
    then show ?thesis using y by (simp add: head_of_None)
  next
    case (Some z)
    then show ?thesis using chain_head_childless [OF c Some y] x by simp
  qed
  show ?case
    using snoc.IH [OF c] new [of v] new [of w] snoc.prems(3-6) by (cases "v = x"; cases "w = x") simp_all
qed simp

section \<open>What an import does to the store\<close>

definition committed ::
  "(bytes \<Rightarrow> bytes) \<Rightarrow> db \<Rightarrow> import_request \<Rightarrow> str \<Rightarrow> bytes option \<Rightarrow> (str \<times> str) option \<Rightarrow> db" where
  "committed sha d r fp path observed =
     (insert_artifact d \<lparr>art_id = target_artifact r, art_owner = i_actor r, art_source = i_source r,
        art_schema = SCHEMA1\<rparr>)
     \<lparr>versions := versions d @ [new_version_row sha r path observed],
      operations := operations d @ [\<lparr>op_id = i_operation r, op_fingerprint = fp, op_result = ''accepted'',
        op_version = Some (new_version_id sha r), op_lineage = i_ancestry r, op_code = None, op_schema = SCHEMA1\<rparr>],
      lineage := lineage d @ [lineage_of (new_version_row sha r path observed)]\<rparr>"

definition version_of :: "(bytes \<Rightarrow> bytes) \<Rightarrow> import_request \<Rightarrow> version" where
  "version_of sha r = \<lparr>v_artifact_id = target_artifact r, v_version_id = new_version_id sha r,
     v_hash = hash_str sha (i_content r), v_canonical = i_content r, v_ancestry = i_ancestry r\<rparr>"

lemma insert_artifact_frame [simp]:
  "versions (insert_artifact d a) = versions d" "operations (insert_artifact d a) = operations d"
  "lineage (insert_artifact d a) = lineage d" "discrepancies (insert_artifact d a) = discrepancies d"
  by (simp_all add: insert_artifact_def)

lemma new_version_row_simps [simp]:
  "ver_id (new_version_row sha r p ob) = new_version_id sha r"
  "ver_artifact (new_version_row sha r p ob) = target_artifact r"
  "ver_ancestry (new_version_row sha r p ob) = i_ancestry r"
  "ver_operation (new_version_row sha r p ob) = i_operation r"
  "ver_hash (new_version_row sha r p ob) = hash_str sha (i_content r)"
  "ver_canonical (new_version_row sha r p ob) = i_content r"
  "ver_actor (new_version_row sha r p ob) = i_actor r" "ver_source (new_version_row sha r p ob) = i_source r"
  "ver_path (new_version_row sha r p ob) = p" "ver_identity (new_version_row sha r p ob) = map_option fst ob"
  by (simp_all add: new_version_row_def)

lemma import_commit_cases:
  assumes "import_commit sha fs d r fp path observed = (res, d')"
  obtains (Failed) e where "res = Inl e" "d' = d"
  | (Done) "res = Inr (version_of sha r)" "d' = committed sha d r fp path observed"
      "new_version_id sha r \<notin> ver_id ` set (versions d)" "i_operation r \<notin> op_id ` set (operations d)"
      "i_operation r \<notin> ver_operation ` set (versions d)"
      "opt_all (\<lambda>p. to_ok (observe sha (fs AtFinal) p (map_option fst observed)) = observed) path"
proof (cases "\<exists>e. res = Inl e \<and> d' = d")
  case True
  then show ?thesis using that(1) by blast
next
  case False
  let ?d1 = "insert_artifact d \<lparr>art_id = target_artifact r, art_owner = i_actor r,
      art_source = i_source r, art_schema = SCHEMA1\<rparr>"
  obtain d2 d3 d4 where
    v: "insert_version ?d1 (new_version_row sha r path observed) = Some d2"
    and f: "\<not> opt_any (\<lambda>p. to_ok (observe sha (fs AtFinal) p (map_option fst observed)) \<noteq> observed) path"
    and p: "insert_operation d2 \<lparr>op_id = i_operation r, op_fingerprint = fp, op_result = ''accepted'',
        op_version = Some (new_version_id sha r), op_lineage = i_ancestry r, op_code = None, op_schema = SCHEMA1\<rparr> = Some d3"
    and l: "insert_lineage d3 \<lparr>lin_operation = i_operation r, lin_version = new_version_id sha r,
        lin_parent = i_ancestry r, lin_schema = SCHEMA1\<rparr> = Some d4"
    and res: "res = read_version d4 (new_version_id sha r)" "d' = d4"
    using False assms by (auto simp: import_commit_def Let_def split: option.splits if_splits)
  note dbs = insert_version_db [OF v] insert_operation_db [OF p] insert_lineage_db [OF l]
  have d': "d' = committed sha d r fp path observed"
    by (simp add: res dbs committed_def lineage_of_def)
  have fresh: "new_version_id sha r \<notin> ver_id ` set (versions d)"
    using ver_tab.ins_fresh [OF v] by simp
  moreover have "i_operation r \<notin> op_id ` set (operations d)"
    using op_tab.ins_fresh [OF p] by (simp add: dbs)
  moreover have "i_operation r \<notin> ver_operation ` set (versions d)"
    using ver_op_tab.ins_fresh [OF v] by simp
  moreover have "res = Inr (version_of sha r)"
    using fresh row_with_None [of ver_id "new_version_id sha r" "versions d"]
    by (simp add: res dbs read_version_def version_of_def)
  ultimately show ?thesis using that(2) d' f by (simp add: opt_all_def opt_any_def split: option.splits)
qed

text \<open>What has been established when an import goes ahead.\<close>

lemma content_verdict_Proceed:
  assumes "content_verdict sha fs d r path = Proceed observed"
  shows "i_ancestry r = head_of (versions d) (target_artifact r)
    \<and> opt_all (\<lambda>h. h = hash_str sha (i_content r)) (i_expected_hash r)
    \<and> (observed = None \<longleftrightarrow> path = None)
    \<and> opt_all (\<lambda>p. \<exists>i. observe sha (fs AtBefore) p (i_expected_identity r) = Inr (i, hash_str sha (i_content r))
           \<and> observed = Some (i, hash_str sha (i_content r))) path"
  using assms
  by (auto simp: content_verdict_def Let_def head_of_def latest_version_def opt_all_def opt_any_def
      split: if_splits option.splits sum.splits prod.splits)

lemma durable_verdict_not_Proceed [simp]: "durable_verdict sha f d r b p v \<noteq> Some (Proceed ob)"
  by (auto simp: durable_verdict_def Let_def split: if_splits option.splits)

lemma retry_verdict_not_Proceed [simp]: "retry_verdict sha pr r fp row \<noteq> Proceed ob"
  by (simp add: retry_verdict_def Let_def)

lemma import_verdict_Proceed:
  assumes "import_verdict sha pr fs d r path = Proceed observed"
  shows "row_with op_id (i_operation r) (operations d) = None
    \<and> opt_all (\<lambda>a. art_owner a = i_actor r \<and> art_source a = i_source r)
           (row_with art_id (target_artifact r) (artifacts d))
    \<and> content_verdict sha fs d r path = Proceed observed \<and> \<not> (i_file r \<noteq> None \<and> i_artifact r = None)"
  using assms
  by (auto simp: import_verdict_def Let_def opt_all_def opt_any_def split: if_splits option.splits)

definition rejected_row :: "import_request \<Rightarrow> str \<Rightarrow> str \<Rightarrow> operation_row" where
  "rejected_row r fp code = \<lparr>op_id = i_operation r, op_fingerprint = fp, op_result = ''rejected'',
     op_version = None, op_lineage = None, op_code = Some code, op_schema = SCHEMA1\<rparr>"

text \<open>A refusal writes at most a rejected operation and a discrepancy, and returns its error.\<close>

lemma reject_spec:
  obtains row where "reject sha f d r reason code err fp =
      (Inl err, insert_discrepancy
         (if accepted_version d (i_operation r) = None \<and> i_operation r \<notin> op_id ` set (operations d)
          then d\<lparr>operations := operations d @ [rejected_row r fp code]\<rparr> else d) row)"
    "disc_operation row = i_operation r" "disc_reason row = reason" "disc_artifact row = target_artifact r"
proof (cases "accepted_version d (i_operation r) = None \<and> i_operation r \<notin> op_id ` set (operations d)")
  case True
  then show ?thesis
    by (intro that)
      (simp add: reject_def Let_def insert_operation_or_ignore_def insert_operation_def new_key_def
         rejected_row_def, simp_all)
next
  case False
  then show ?thesis
    by (intro that)
      (auto simp add: reject_def Let_def insert_operation_or_ignore_def new_key_def)
qed

lemma durable_verdict_refuses:
  "durable_verdict sha f d r b p v = Some (Refuse r' reason code err) \<Longrightarrow>
     i_operation r' = i_operation r \<and> target_artifact r' = target_artifact r
     \<and> (code = ''conflict'' \<and> err = Conflict \<or> code = ''drift'' \<and> err = Drift)"
  by (auto simp: durable_verdict_def Let_def target_artifact_def split: if_splits option.splits)

lemma content_verdict_refuses:
  "content_verdict sha fs d r path = Refuse r' reason code err \<Longrightarrow>
     r' = r \<and> (code = ''conflict'' \<and> err = Conflict \<or> code = ''drift'' \<and> err = Drift)"
  by (auto simp: content_verdict_def Let_def dest: observe_error split: if_splits option.splits sum.splits)

lemma verdict_refuses:
  "import_verdict sha pr fs d r path = Refuse r' reason code err \<Longrightarrow>
     i_operation r' = i_operation r \<and> target_artifact r' = target_artifact r
     \<and> (code = ''conflict'' \<and> err = Conflict \<or> code = ''drift'' \<and> err = Drift)"
  by (auto simp: import_verdict_def retry_verdict_def Let_def split: if_splits option.splits
      dest!: content_verdict_refuses durable_verdict_refuses)


lemma import_cases:
  assumes "import_artifact_version sha pr fs d r = Some (res, d')"
  obtains (Unchanged) "d' = d" "case res of Inl e \<Rightarrow> True | Inr v \<Rightarrow>
        \<exists>path. import_path (fs AtNormalize) r = Inr path
          \<and> import_verdict sha pr fs d r path = Recorded (Some (v_version_id v))
          \<and> read_version d (v_version_id v) = Inr v"
  | (Refused) path r' reason code err row where "import_path (fs AtNormalize) r = Inr path"
      "import_verdict sha pr fs d r path = Refuse r' reason code err"
      "res = Inl err" "code = ''conflict'' \<and> err = Conflict \<or> code = ''drift'' \<and> err = Drift"
      "disc_operation row = i_operation r"
      "d' = insert_discrepancy
         (if accepted_version d (i_operation r) = None \<and> i_operation r \<notin> op_id ` set (operations d)
          then d\<lparr>operations := operations d @ [rejected_row r (fingerprint sha pr r path) code]\<rparr> else d) row"
  | (Accepted) path observed where "res = Inr (version_of sha r)"
      "d' = committed sha d r (fingerprint sha pr r path) path observed"
      "new_version_id sha r \<notin> ver_id ` set (versions d)" "i_operation r \<notin> op_id ` set (operations d)"
      "import_verdict sha pr fs d r path = Proceed observed"
      "opt_all (\<lambda>p. to_ok (observe sha (fs AtFinal) p (map_option fst observed)) = observed) path"
      "path = None \<longleftrightarrow> i_file r = None" "import_path (fs AtNormalize) r = Inr path"
proof -
  show ?thesis
  proof (cases "import_path (fs AtNormalize) r")
    case (Inl e)
    then show ?thesis using assms by (intro Unchanged) (auto simp: import_artifact_version_def)
  next
    case (Inr path)
    note eq = assms [unfolded import_artifact_version_def Inr, simplified sum.case Let_def]
    have pf: "path = None \<longleftrightarrow> i_file r = None"
      using Inr by (auto simp: import_path_def split: option.splits sum.splits)
    show ?thesis
    proof (cases "import_verdict sha pr fs d r path")
      case (Refuse r' reason code err)
      note v = verdict_refuses [OF Refuse]
      have row: "rejected_row r' fp c = rejected_row r fp c" for fp c
        using v by (simp add: rejected_row_def)
      obtain row where "reject sha (fs AtReject) d r' reason code err (fingerprint sha pr r path) =
          (Inl err, insert_discrepancy
             (if accepted_version d (i_operation r') = None \<and> i_operation r' \<notin> op_id ` set (operations d)
              then d\<lparr>operations := operations d @ [rejected_row r' (fingerprint sha pr r path) code]\<rparr> else d) row)"
        "disc_operation row = i_operation r'"
        by (rule reject_spec [of sha "fs AtReject" d r' reason code err "fingerprint sha pr r path"])
      then show ?thesis using eq Refuse v Refused [OF Inr Refuse, of row] unfolding row by simp
    next
      case (Fail e)
      then show ?thesis using eq by (intro Unchanged) auto
    next
      case (Recorded vid)
      then show ?thesis using eq Inr
        by (cases vid) (auto intro!: Unchanged simp: read_version_def split: option.splits)
    next
      case (Proceed observed)
      then have c: "import_commit sha fs d r (fingerprint sha pr r path) path observed = (res, d')"
        using eq by simp
      then show ?thesis
      proof (cases rule: import_commit_cases)
        case Failed
        then show ?thesis using Unchanged by simp
      next
        case Done
        then show ?thesis using Accepted [of path observed] Proceed Inr pf by simp
      qed
    qed
  qed
qed


lemma insert_discrepancy_frame [simp]:
  "versions (insert_discrepancy d a) = versions d" "operations (insert_discrepancy d a) = operations d"
  "lineage (insert_discrepancy d a) = lineage d" "artifacts (insert_discrepancy d a) = artifacts d"
  by (simp_all add: insert_discrepancy_def)

lemma insert_discrepancy_distinct:
  "distinct (map disc_operation (discrepancies d)) \<Longrightarrow> distinct (map disc_operation (discrepancies (insert_discrepancy d x)))"
  by (auto simp: insert_discrepancy_def new_key_def)

lemma insert_artifact_artifacts:
  "artifacts (insert_artifact d a) = artifacts d \<or> artifacts (insert_artifact d a) = artifacts d @ [a]"
  "distinct (map art_id (artifacts d)) \<Longrightarrow> distinct (map art_id (artifacts (insert_artifact d a)))"
  by (auto simp: insert_artifact_def new_key_def)

lemma version_ok_mono:
  "set (artifacts d) \<subseteq> set (artifacts d') \<Longrightarrow> version_ok sha d v \<Longrightarrow> version_ok sha d' v"
  by (auto simp: version_ok_def)

lemma lineage_inv_refused:
  assumes "lineage_inv sha d" "i_operation r \<notin> op_id ` set (operations d)" "code \<in> {''conflict'', ''drift''}"
  shows "lineage_inv sha (d\<lparr>operations := operations d @ [rejected_row r fp code]\<rparr>)"
  using assms
  by (auto simp: lineage_inv_def rejected_row_def operation_ok_def list_all_iff version_ok_def)

lemma lineage_inv_discrepancy: "lineage_inv sha d \<Longrightarrow> lineage_inv sha (insert_discrepancy d x)"
  by (simp add: lineage_inv_def insert_discrepancy_distinct version_ok_def list_all_iff)

lemma lineage_inv_committed:
  assumes inv: "lineage_inv sha d" and new: "new_version_id sha r \<notin> ver_id ` set (versions d)"
    and op: "i_operation r \<notin> op_id ` set (operations d)"
    and owner: "opt_all (\<lambda>a. art_owner a = i_actor r \<and> art_source a = i_source r)
           (row_with art_id (target_artifact r) (artifacts d))"
    and head: "i_ancestry r = head_of (versions d) (target_artifact r)"
  shows "lineage_inv sha (committed sha d r fp path observed)"
proof -
  let ?a = "\<lparr>art_id = target_artifact r, art_owner = i_actor r, art_source = i_source r, art_schema = SCHEMA1\<rparr>"
  let ?d1 = "insert_artifact d ?a"
  let ?d' = "committed sha d r fp path observed"
  have arts: "artifacts ?d' = artifacts ?d1" by (simp add: committed_def)
  have sub: "set (artifacts d) \<subseteq> set (artifacts ?d')"
    using insert_artifact_artifacts(1) [of d ?a] by (auto simp: arts)
  have mine: "\<exists>a\<in>set (artifacts ?d'). art_id a = target_artifact r \<and> art_owner a = i_actor r \<and> art_source a = i_source r"
  proof (cases "row_with art_id (target_artifact r) (artifacts d)")
    case None
    then show ?thesis by (simp add: arts insert_artifact_def new_key_def row_with_None)
  next
    case (Some x)
    then show ?thesis using owner row_with_Some [OF Some] sub by auto
  qed
  have "\<forall>v\<in>set (versions d). version_ok sha ?d' v"
    using inv version_ok_mono [OF sub] by (simp add: lineage_inv_def list_all_iff)
  moreover have "version_ok sha ?d' (new_version_row sha r path observed)"
    using mine by (simp add: version_ok_def)
  moreover have "distinct (map art_id (artifacts ?d'))"
    using inv insert_artifact_artifacts(2) by (simp add: arts lineage_inv_def)
  moreover have "chained (versions ?d')"
    using inv head by (simp add: committed_def chained_snoc lineage_inv_def)
  ultimately show ?thesis
    using inv new op
    by (simp add: lineage_inv_def list_all_iff committed_def operation_ok_def)
qed

lemma import_lineage_inv [step_inv]:
  assumes "lineage_inv sha d" "import_artifact_version sha pr fs d r = Some (res, d')"
  shows "lineage_inv sha d'"
  using assms(2)
proof (cases rule: import_cases)
  case Unchanged
  then show ?thesis using assms(1) by simp
next
  case (Refused path r' reason code err row)
  then show ?thesis using assms(1)
    by (auto intro!: lineage_inv_discrepancy lineage_inv_refused)
next
  case (Accepted path observed)
  note p = import_verdict_Proceed [OF Accepted(5)]
  with Accepted show ?thesis
    using content_verdict_Proceed [of sha fs d r path observed] assms(1)
    by (simp add: lineage_inv_committed)
qed

text \<open>The record tables only grow.\<close>

definition lineage_grows :: "db \<Rightarrow> db \<Rightarrow> bool" where
  "lineage_grows d d' = (prefix (artifacts d) (artifacts d') \<and> prefix (versions d) (versions d')
     \<and> prefix (operations d) (operations d') \<and> prefix (lineage d) (lineage d')
     \<and> prefix (discrepancies d) (discrepancies d'))"

lemma lineage_grows_refl [simp]: "lineage_grows d d"
  by (simp add: lineage_grows_def)

lemma lineage_grows_trans: "lineage_grows a b \<Longrightarrow> lineage_grows b c \<Longrightarrow> lineage_grows a c"
  unfolding lineage_grows_def by (meson prefix_order.trans)

lemma lineage_grows_discrepancy: "lineage_grows d (insert_discrepancy d x)"
  by (simp add: lineage_grows_def insert_discrepancy_def)

lemma lineage_grows_operation: "lineage_grows d (d\<lparr>operations := operations d @ [x]\<rparr>)"
  by (simp add: lineage_grows_def)

lemma insert_artifact_prefix: "prefix (artifacts d) (artifacts (insert_artifact d a))"
  using insert_artifact_artifacts(1) [of d a] by auto

lemma import_grows:
  assumes "import_artifact_version sha pr fs d r = Some (res, d')"
  shows "lineage_grows d d'"
  using assms
proof (cases rule: import_cases)
  case (Refused path r' reason code err row)
  show ?thesis
    unfolding Refused(6) using lineage_grows_trans [OF lineage_grows_operation lineage_grows_discrepancy]
    by (simp add: lineage_grows_discrepancy)
next
  case (Accepted path observed)
  then show ?thesis by (simp add: committed_def lineage_grows_def insert_artifact_prefix)
qed simp

lemma row_with_prefix: "prefix rows rows' \<Longrightarrow> row_with key k rows = Some x \<Longrightarrow> row_with key k rows' = Some x"
  by (auto simp: prefix_def row_with_def find_Some_iff nth_append)

lemma read_version_grows: "lineage_grows d d' \<Longrightarrow> read_version d k = Inr v \<Longrightarrow> read_version d' k = Inr v"
  by (auto simp: read_version_def lineage_grows_def dest: row_with_prefix split: option.splits)

lemma import_verdict_Recorded:
  "import_verdict sha pr fs d r path = Recorded x \<longleftrightarrow>
     \<not> (i_file r \<noteq> None \<and> i_artifact r = None)
     \<and> (\<exists>row. row_with op_id (i_operation r) (operations d) = Some row
          \<and> retry_verdict sha pr r (fingerprint sha pr r path) row = Recorded x)"
proof -
  have "durable_verdict sha f d r b p v \<noteq> Some (Recorded x)" for f b p v
    by (auto simp: durable_verdict_def Let_def split: if_splits option.splits)
  moreover have "content_verdict sha fs d r path \<noteq> Recorded x" for path
    by (auto simp: content_verdict_def Let_def split: if_splits option.splits sum.splits)
  ultimately show ?thesis
    by (auto simp: import_verdict_def Let_def split: option.splits)
qed

lemma verdict_recorded_grows:
  assumes "lineage_grows d d'" "import_verdict sha pr fs d r path = Recorded x"
  shows "import_verdict sha pr fs' d' r path = Recorded x"
  using assms unfolding import_verdict_Recorded lineage_grows_def by (meson row_with_prefix)

lemma accepted_is_recorded:
  assumes "lineage_inv sha d" "import_artifact_version sha pr fs d r = Some (Inr v, d')"
  shows "\<exists>path. import_path (fs AtNormalize) r = Inr path
    \<and> import_verdict sha pr fs d' r path = Recorded (Some (v_version_id v)) \<and> read_version d' (v_version_id v) = Inr v"
  using assms(2)
proof (cases rule: import_cases)
  case Unchanged
  then show ?thesis by auto
next
  case (Accepted path observed)
  let ?vid = "new_version_id sha r"
  have none: "row_with op_id (i_operation r) (operations d) = None" "row_with ver_id ?vid (versions d) = None"
    using Accepted(3,4) by (simp_all add: row_with_None)
  have guard: "\<not> (i_file r \<noteq> None \<and> i_artifact r = None)"
    using import_verdict_Proceed [OF Accepted(5)] by blast
  have v: "v = version_of sha r" using Accepted(1) by simp
  have "read_version d' ?vid = Inr v"
    using none by (simp add: Accepted(2) committed_def read_version_def v version_of_def)
  moreover have "import_verdict sha pr fs d' r path = Recorded (Some ?vid)"
    using none guard unfolding import_verdict_Recorded
    by (simp add: Accepted(2) committed_def retry_verdict_def)
  ultimately show ?thesis using Accepted(8) by (auto simp: v version_of_def)
qed simp

text \<open>
  C15: an import that was answered with a version is idempotent: the same request, made again
  at any later time and with whatever is on disk by then, as long as its path still names the
  same place, gets the same version back and leaves the store as it is.
\<close>

theorem import_idempotent:
  assumes "lineage_inv sha d" "import_artifact_version sha pr fs d r = Some (Inr v, d1)"
    and "lineage_grows d1 d2" "import_path (fs' AtNormalize) r = import_path (fs AtNormalize) r"
  shows "import_artifact_version sha pr fs' d2 r = Some (Inr v, d2)"
proof -
  obtain path where p: "import_path (fs AtNormalize) r = Inr path"
    "import_verdict sha pr fs d1 r path = Recorded (Some (v_version_id v))" "read_version d1 (v_version_id v) = Inr v"
    using accepted_is_recorded [OF assms(1,2)] by blast
  have "import_verdict sha pr fs' d2 r path = Recorded (Some (v_version_id v))"
    using verdict_recorded_grows [OF assms(3) p(2)] .
  moreover have "read_version d2 (v_version_id v) = Inr v"
    using read_version_grows [OF assms(3) p(3)] .
  ultimately show ?thesis
    unfolding import_artifact_version_def assms(4) p(1) by (simp add: Let_def)
qed

text \<open>
  C16: a refused import stays refused: once a fresh operation has been recorded as rejected,
  repeating the request at any later time fails with the same error and records nothing more,
  even if the reason for the refusal has gone.
\<close>

theorem rejection_is_final:
  assumes "i_operation r \<notin> op_id ` set (operations d)"
    and "import_artifact_version sha pr fs d r = Some (Inl e, d1)"
    and "operations d1 \<noteq> operations d"
    and "lineage_grows d1 d2" "import_path (fs' AtNormalize) r = import_path (fs AtNormalize) r"
  shows "import_artifact_version sha pr fs' d2 r = Some (Inl e, d2)"
  using assms(2)
proof (cases rule: import_cases)
  case (Refused path r' reason code err row)
  let ?fp = "fingerprint sha pr r path"
  have d1: "d1 = insert_discrepancy (d\<lparr>operations := operations d @ [rejected_row r ?fp code]\<rparr>) row"
    using Refused(6) assms(3) by (simp split: if_splits)
  have "row_with op_id (i_operation r) (operations d1) = Some (rejected_row r ?fp code)"
    using assms(1) row_with_None [of op_id "i_operation r" "operations d"] by (simp add: d1 rejected_row_def)
  then have op: "row_with op_id (i_operation r) (operations d2) = Some (rejected_row r ?fp code)"
    using assms(4) row_with_prefix by (auto simp: lineage_grows_def)
  then have known: "i_operation r \<in> op_id ` set (operations d2)"
    using row_with_None [of op_id "i_operation r" "operations d2"] by simp
  have "i_operation r \<in> disc_operation ` set (discrepancies d1)"
    using Refused(5) by (auto simp: d1 insert_discrepancy_def new_key_def)
  then have disc: "i_operation r \<in> disc_operation ` set (discrepancies d2)"
    using assms(4) set_mono_prefix by (fastforce simp: lineage_grows_def)
  note path = Refused(1) [folded assms(5)]
  show ?thesis
  proof (cases "i_file r \<noteq> None \<and> i_artifact r = None")
    case True
    then have e: "e = Conflict" using Refused(2,3) by (simp add: import_verdict_def Let_def)
    obtain row' where "reject sha (fs' AtReject) d2 r ''implicit artifact discovery is forbidden'' ''conflict'' Conflict ?fp
        = (Inl Conflict, insert_discrepancy d2 row')" "disc_operation row' = i_operation r"
      by (rule reject_spec [of sha "fs' AtReject" d2 r "''implicit artifact discovery is forbidden''" "''conflict''" Conflict ?fp])
        (use known in simp)
    then show ?thesis using True disc
      by (simp add: import_artifact_version_def path import_verdict_def Let_def e insert_discrepancy_def new_key_def)
  next
    case False
    have "import_verdict sha pr fs' d2 r path = Fail err"
      using False op Refused(4)
      by (auto simp: import_verdict_def Let_def retry_verdict_def rejected_row_def)
    then show ?thesis using Refused(3) by (simp add: import_artifact_version_def path Let_def)
  qed
qed (use assms(3) in simp_all)


text \<open>
  A failed import changes no artifact, version or lineage row and no operation already
  recorded; all it may leave is one rejected operation under its own name, and a discrepancy.
\<close>

theorem failed_import_frame:
  assumes "import_artifact_version sha pr fs d r = Some (Inl e, d')"
  shows "artifacts d' = artifacts d \<and> versions d' = versions d \<and> lineage d' = lineage d
    \<and> (operations d' = operations d \<or> (\<exists>fp code. operations d' = operations d @ [rejected_row r fp code]))
    \<and> (discrepancies d' = discrepancies d
        \<or> (\<exists>row. discrepancies d' = discrepancies d @ [row] \<and> disc_operation row = i_operation r))"
  using assms
proof (cases rule: import_cases)
  case (Refused path r' reason code err row)
  then show ?thesis by (auto simp: insert_discrepancy_def)
qed simp_all

text \<open>
  C17: what a fresh accepted import records: one version under the artifact, whose parent is the
  artifact's latest version, whose hash is the digest of the content; and, when the content
  comes from a file, the identity of a file that was seen with exactly that content both before
  and after the row was written.
\<close>

theorem accepted_import_records:
  assumes "i_operation r \<notin> op_id ` set (operations d)"
    and "import_artifact_version sha pr fs d r = Some (Inr v, d')"
  shows "\<exists>row path. versions d' = versions d @ [row] \<and> import_path (fs AtNormalize) r = Inr path
    \<and> v = version_of sha r \<and> ver_id row = v_version_id v \<and> ver_path row = path
    \<and> ver_artifact row = target_artifact r \<and> ver_ancestry row = head_of (versions d) (target_artifact r)
    \<and> ver_hash row = hash_str sha (i_content r) \<and> operation_lineage d' (i_operation r) = Some (ver_ancestry row)
    \<and> opt_all (\<lambda>p. \<exists>i. ver_identity row = Some i
         \<and> observe sha (fs AtBefore) p (i_expected_identity r) = Inr (i, ver_hash row)
         \<and> observe sha (fs AtFinal) p (Some i) = Inr (i, ver_hash row)) path"
  using assms(2)
proof (cases rule: import_cases)
  case Unchanged
  then show ?thesis using assms(1) row_with_None [of op_id "i_operation r" "operations d"]
    by (auto simp: import_verdict_Recorded)
next
  case (Accepted path observed)
  have fresh: "row_with op_id (i_operation r) (operations d) = None"
    using Accepted(4) by (simp add: row_with_None)
  have c: "content_verdict sha fs d r path = Proceed observed"
    using import_verdict_Proceed [OF Accepted(5)] by blast
  have "\<exists>i. map_option fst observed = Some i
         \<and> observe sha (fs AtBefore) p (i_expected_identity r) = Inr (i, hash_str sha (i_content r))
         \<and> observe sha (fs AtFinal) p (Some i) = Inr (i, hash_str sha (i_content r))" if ps: "path = Some p" for p
  proof -
    obtain i where i: "observe sha (fs AtBefore) p (i_expected_identity r) = Inr (i, hash_str sha (i_content r))"
      "observed = Some (i, hash_str sha (i_content r))"
      using content_verdict_Proceed [OF c] unfolding ps by auto
    then have "to_ok (observe sha (fs AtFinal) p (Some i)) = Some (i, hash_str sha (i_content r))"
      using Accepted(6) ps by simp
    then show ?thesis using i by (auto simp: to_ok_def split: sum.splits)
  qed
  then have "opt_all (\<lambda>p. \<exists>i. map_option fst observed = Some i
         \<and> observe sha (fs AtBefore) p (i_expected_identity r) = Inr (i, hash_str sha (i_content r))
         \<and> observe sha (fs AtFinal) p (Some i) = Inr (i, hash_str sha (i_content r))) path"
    by (cases path) simp_all
  moreover have "i_ancestry r = head_of (versions d) (target_artifact r)"
    using content_verdict_Proceed [OF c] by blast
  ultimately show ?thesis using Accepted(1,8) fresh
    by (intro exI [of _ "new_version_row sha r path observed"] exI [of _ path])
      (simp add: Accepted(2) committed_def version_of_def operation_lineage_def)
qed simp

lemma head_of_row: "head_of vs a = Some h \<Longrightarrow> \<exists>w\<in>set vs. ver_id w = h \<and> ver_artifact w = a"
  by (auto simp: head_of_def dest: last_row_Some)

text \<open>
  The versions of an artifact form one chain: in a well-formed store no two versions of an
  artifact share a parent, and every parent is an earlier version of the same artifact.
\<close>

lemma versions_never_fork:
  assumes "lineage_inv sha d" "n < length (versions d)"
  shows "(\<forall>m<length (versions d). ver_artifact (versions d ! m) = ver_artifact (versions d ! n)
        \<and> ver_ancestry (versions d ! m) = ver_ancestry (versions d ! n) \<longrightarrow> m = n)
    \<and> opt_all (\<lambda>p. \<exists>m<n. ver_id (versions d ! m) = p
        \<and> ver_artifact (versions d ! m) = ver_artifact (versions d ! n)) (ver_ancestry (versions d ! n))"
proof -
  let ?vs = "versions d"
  have c: "chained ?vs" and di: "distinct (map ver_id ?vs)" using assms(1) by (simp_all add: lineage_inv_def)
  have "m = n" if "m < length ?vs" "ver_artifact (?vs ! m) = ver_artifact (?vs ! n)"
      "ver_ancestry (?vs ! m) = ver_ancestry (?vs ! n)" for m
  proof -
    have "?vs ! m = ?vs ! n" by (rule chain_no_fork [OF c di]) (use that assms(2) in simp_all)
    then show ?thesis using di that(1) assms(2) by (simp add: distinct_map nth_eq_iff_index_eq)
  qed
  moreover have "\<exists>m<n. ver_id (?vs ! m) = p \<and> ver_artifact (?vs ! m) = ver_artifact (?vs ! n)"
    if p: "ver_ancestry (?vs ! n) = Some p" for p
  proof -
    have "head_of (take n ?vs) (ver_artifact (?vs ! n)) = Some p"
      using c assms(2) p by (simp add: chained_def)
    then obtain w where "w \<in> set (take n ?vs)" "ver_id w = p" "ver_artifact w = ver_artifact (?vs ! n)"
      using head_of_row by blast
    then show ?thesis by (auto simp: in_set_conv_nth)
  qed
  ultimately show ?thesis by (simp add: opt_all_def split: option.splits)
qed

text \<open>
  C14: whatever sequence of imports a store sees, and whatever the files do meanwhile, its
  lineage stays well-formed: every accepted operation stands for exactly one version and one
  lineage edge, in order, no two versions of an artifact share a parent, and every parent is an
  earlier version of the same artifact.
\<close>

theorem import_preserves_lineage:
  assumes "lineage_inv sha d" "import_artifact_version sha pr fs d r = Some (res, d')"
  shows "lineage_inv sha d' \<and> length (lineage d') = length (versions d')
    \<and> length (filter (\<lambda>o'. op_result o' = ''accepted'') (operations d')) = length (versions d')
    \<and> (\<forall>n<length (versions d'). (\<forall>m<length (versions d').
          ver_artifact (versions d' ! m) = ver_artifact (versions d' ! n)
          \<and> ver_ancestry (versions d' ! m) = ver_ancestry (versions d' ! n) \<longrightarrow> m = n)
        \<and> opt_all (\<lambda>p. \<exists>m<n. ver_id (versions d' ! m) = p
            \<and> ver_artifact (versions d' ! m) = ver_artifact (versions d' ! n)) (ver_ancestry (versions d' ! n)))"
proof -
  have inv: "lineage_inv sha d'" using import_lineage_inv [OF assms] .
  then have "map (\<lambda>r. (op_id r, op_version r, op_lineage r)) (filter (\<lambda>r. op_result r = ''accepted'') (operations d'))
      = map (\<lambda>v. (ver_operation v, Some (ver_id v), ver_ancestry v)) (versions d')"
    by (simp add: lineage_inv_def)
  from arg_cong [OF this, of length]
  have "length (filter (\<lambda>o'. op_result o' = ''accepted'') (operations d')) = length (versions d')"
    by (simp only: length_map)
  moreover have "length (lineage d') = length (versions d')" using inv by (simp add: lineage_inv_def)
  ultimately show ?thesis using inv versions_never_fork [OF inv] by blast
qed

text \<open>C18: \<open>import\<close> does not panic: an operation recorded as accepted always has its version.\<close>

theorem import_never_panics:
  assumes "lineage_inv sha d"
  shows "import_artifact_version sha pr fs d r \<noteq> None"
proof
  assume "import_artifact_version sha pr fs d r = None"
  then obtain path where "import_verdict sha pr fs d r path = Recorded None"
    by (auto simp: import_artifact_version_def Let_def split: sum.splits verdict.splits option.splits)
  then obtain row where "row_with op_id (i_operation r) (operations d) = Some row"
      "retry_verdict sha pr r (fingerprint sha pr r path) row = Recorded None"
    by (auto simp: import_verdict_Recorded)
  moreover from this have "operation_ok row"
    using assms row_with_Some [of op_id _ "operations d" row] by (auto simp: lineage_inv_def list_all_iff)
  ultimately show False
    by (auto simp: retry_verdict_def Let_def operation_ok_def split: if_splits)
qed


text \<open>The tables an import does not touch.\<close>

lemma import_other_tables:
  assumes "import_artifact_version sha pr fs d r = Some (res, d')"
  shows "events d' = events d \<and> projections d' = projections d \<and> rebuilds d' = rebuilds d
    \<and> rebuild_status d' = rebuild_status d \<and> playbacks d' = playbacks d \<and> simulations d' = simulations d
    \<and> runs d' = runs d \<and> recons d' = recons d \<and> evidence d' = evidence d \<and> actions d' = actions d
    \<and> outcomes d' = outcomes d"
  using assms
proof (cases rule: import_cases)
  case (Accepted path observed)
  then show ?thesis by (simp add: committed_def insert_artifact_def)
qed (simp_all add: insert_discrepancy_def)

section \<open>Concrete runs\<close>

text \<open>One directory with one file of content \<open>hello\<close>, seen the same way at every look.\<close>

definition demo_meta :: file_meta where
  "demo_meta = \<lparr>dev = 1, ino = 7, uid = 1000, mode = 0x180, kind = RegularFile, len = 5\<rparr>"

definition demo_fs :: fs where
  "demo_fs = \<lparr>canonicalize = Some, symlink_metadata = (\<lambda>_. Found demo_meta), metadata = (\<lambda>_. Some demo_meta),
     open_nofollow = (\<lambda>_. Some \<lparr>meta_before = Some demo_meta, content = Some ''hello'', meta_after = Some demo_meta\<rparr>)\<rparr>"

definition demo_import :: import_request where
  "demo_import = import_artifact ''a'' (import_file demo_fs ''/w/f'' (import_new ''op1'' ''me'' ''src'' ''hello''))"

definition demo_bad_import :: import_request where
  "demo_bad_import = import_artifact ''a'' (import_new ''op2'' ''you'' ''src'' ''hello'')"

definition demo_imported :: db where
  "demo_imported = snd (the (import_artifact_version demo_sha (\<lambda>_. True) (\<lambda>_. demo_fs) empty_db demo_import))"

lemma empty_lineage_inv: "lineage_inv sha empty_db"
  by (simp add: lineage_inv_def empty_db_def)

lemma demo_import_run: "import_artifact_version demo_sha (\<lambda>_. True) (\<lambda>_. demo_fs) empty_db demo_import
    = Some (Inr (version_of demo_sha demo_import), demo_imported)"
  by code_simp


definition demo_rejected :: db where
  "demo_rejected = snd (the (import_artifact_version demo_sha (\<lambda>_. True) (\<lambda>_. demo_fs) demo_imported demo_bad_import))"

lemma demo_reject_run: "import_artifact_version demo_sha (\<lambda>_. True) (\<lambda>_. demo_fs) demo_imported demo_bad_import
    = Some (Inl Conflict, demo_rejected)"
  by code_simp

lemma demo_imported_ops: "map op_id (operations demo_imported) = [''op1'']"
  "map op_id (operations demo_rejected) = [''op1'', ''op2'']" "length (versions demo_imported) = 1"
  by code_simp+

lemma demo_bad_import_fresh: "i_operation demo_bad_import \<notin> op_id ` set (operations demo_imported)"
  using arg_cong [OF demo_imported_ops(1), of set]
  by (simp add: demo_bad_import_def import_artifact_def import_new_def)

lemma import_preserves_lineage_witness:
  "lineage_inv demo_sha demo_imported \<and> length (lineage demo_imported) = length (versions demo_imported)"
  using import_preserves_lineage [OF empty_lineage_inv demo_import_run] by blast

lemma import_idempotent_witness:
  "import_artifact_version demo_sha (\<lambda>_. True) (\<lambda>_. demo_fs) demo_rejected demo_import
     = Some (Inr (version_of demo_sha demo_import), demo_rejected)"
  by (rule import_idempotent [OF empty_lineage_inv demo_import_run import_grows [OF demo_reject_run] refl])

lemma rejection_is_final_witness:
  "import_artifact_version demo_sha (\<lambda>_. True) (\<lambda>_. demo_fs) demo_rejected demo_bad_import
     = Some (Inl Conflict, demo_rejected)"
proof -
  have "operations demo_rejected \<noteq> operations demo_imported"
    using demo_imported_ops(1,2) by (metis list.distinct(1) list.inject)
  then show ?thesis
    by (rule rejection_is_final [OF demo_bad_import_fresh demo_reject_run _ lineage_grows_refl refl])
qed

lemma failed_import_frame_witness:
  "versions demo_rejected = versions demo_imported \<and> lineage demo_rejected = lineage demo_imported"
  using failed_import_frame [OF demo_reject_run] by blast

lemma accepted_import_records_witness:
  "\<exists>row. versions demo_imported = [row] \<and> ver_hash row = hash_str demo_sha ''hello'' \<and> ver_ancestry row = None"
proof -
  have "i_operation demo_import \<notin> op_id ` set (operations empty_db)" by (simp add: empty_db_def)
  from accepted_import_records [OF this demo_import_run] show ?thesis
    by (auto simp: empty_db_def demo_import_def import_artifact_def import_new_def import_file_def)
qed

lemma versions_never_fork_witness:
  "opt_all (\<lambda>p. \<exists>m<0. ver_id (versions demo_imported ! m) = p
     \<and> ver_artifact (versions demo_imported ! m) = ver_artifact (versions demo_imported ! 0))
     (ver_ancestry (versions demo_imported ! 0))"
  using versions_never_fork [OF import_lineage_inv [OF empty_lineage_inv demo_import_run], of 0] demo_imported_ops(3)
  by simp

lemma import_never_panics_witness:
  "import_artifact_version demo_sha (\<lambda>_. True) (\<lambda>_. demo_fs) empty_db demo_bad_import \<noteq> None"
  by (rule import_never_panics [OF empty_lineage_inv])

end
