(* ===== verification/Reconcile.thy ===== *)
theory Reconcile
  imports Lineage
begin

text \<open>
  The reconciliation half of \<open>src/src/artifacts/recovery.rs\<close>: comparing the recorded history,
  projections and files with what is there now, and recording the comparison as a run with one
  discrepancy per surface that differs.
\<close>

section \<open>Requests and results\<close>

definition timestamp :: str where
  "timestamp = ''1970-01-01T00:00:00.000000Z''"

record reconciliation_input =
  ri_event_generation :: str
  ri_event_schema :: int
  ri_projection_generation :: str
  ri_projection_schema :: int
  ri_projection_authority :: bool
  ri_expected_identity :: "str option"
  ri_observed_identity :: "str option"
  ri_expected_hash :: "str option"
  ri_observed_hash :: "str option"
  ri_expected_git :: "str option"
  ri_observed_git :: "str option"

definition reconciliation_matching :: reconciliation_input where
  "reconciliation_matching = \<lparr>ri_event_generation = ''e'', ri_event_schema = 1,
     ri_projection_generation = ''p'', ri_projection_schema = 1, ri_projection_authority = True,
     ri_expected_identity = Some ''i'', ri_observed_identity = Some ''i'',
     ri_expected_hash = Some ''h'', ri_observed_hash = Some ''h'',
     ri_expected_git = Some ''g'', ri_observed_git = Some ''g''\<rparr>"

definition reconciliation_mismatching :: reconciliation_input where
  "reconciliation_mismatching = \<lparr>ri_event_generation = ''expected-e'', ri_event_schema = 1,
     ri_projection_generation = ''expected-p'', ri_projection_schema = 1, ri_projection_authority = True,
     ri_expected_identity = Some ''expected-i'', ri_observed_identity = Some ''observed-i'',
     ri_expected_hash = Some ''expected-h'', ri_observed_hash = Some ''observed-h'',
     ri_expected_git = Some ''expected-g'', ri_observed_git = Some ''observed-g''\<rparr>"

record provenance =
  pv_expected :: str
  pv_observed :: str

text \<open>The two \<open>BTreeMap\<close>s are lists of pairs with distinct keys.\<close>

record reconciliation_result =
  rr_status :: str
  rr_repair_applied :: bool
  rr_mismatches :: "str list"
  rr_authoritative :: bool
  rr_provenance :: "(str \<times> provenance) list"
  rr_run_id :: int
  rr_scope_id :: str
  rr_source_lineage :: str
  rr_discrepancy_ids :: "(str \<times> int) list"

definition result_provenance :: "reconciliation_result \<Rightarrow> str \<Rightarrow> provenance" where
  "result_provenance r surface = (case map_of (rr_provenance r) surface of Some p \<Rightarrow> p
     | None \<Rightarrow> \<lparr>pv_expected = ''unknown'', pv_observed = ''unknown''\<rparr>)"

record reconciliation_scope =
  sc_id :: str
  sc_path :: str
  sc_artifact_id :: str
  sc_version_id :: str

text \<open>The join that both \<open>ReconciliationScope::accepted\<close> and \<open>reconcile_accepted\<close> run.\<close>

definition accepted_latest :: "db \<Rightarrow> str \<Rightarrow> version_row option" where
  "accepted_latest d operation =
     (case find (\<lambda>r. op_id r = operation \<and> op_result r = ''accepted'') (operations d) of
        None \<Rightarrow> None
      | Some r \<Rightarrow> (case op_version r of None \<Rightarrow> None | Some vid \<Rightarrow>
          (case row_with ver_id vid (versions d) of None \<Rightarrow> None | Some v \<Rightarrow>
             if map_option ver_id (latest_version d (ver_artifact v)) = Some (ver_id v) then Some v else None)))"

definition scope_accepted :: "db \<Rightarrow> str \<Rightarrow> str \<Rightarrow> error + reconciliation_scope" where
  "scope_accepted d operation path =
     (case accepted_latest d operation of
        None \<Rightarrow> Inl Conflict
      | Some v \<Rightarrow> Inr \<lparr>sc_id = operation, sc_path = path, sc_artifact_id = ver_artifact v,
                      sc_version_id = ver_id v\<rparr>)"

definition scope_owned_store :: "str \<Rightarrow> str list \<Rightarrow> reconciliation_scope" where
  "scope_owned_store sid paths = \<lparr>sc_id = sid, sc_path = (case paths of [] \<Rightarrow> [] | p # _ \<Rightarrow> p),
     sc_artifact_id = [], sc_version_id = []\<rparr>"

section \<open>Reconciliation\<close>

definition reconciliation_count :: "db \<Rightarrow> int" where
  "reconciliation_count d = int (length (runs d))"

definition next_run_sequence :: "db \<Rightarrow> str \<Rightarrow> int" where
  "next_run_sequence d scope = next_sequence (map run_sequence (filter (\<lambda>r. run_scope r = scope) (runs d)))"

definition next_run_id :: "db \<Rightarrow> int" where
  "next_run_id d = next_id (map run_id (runs d))"

text \<open>The INSERTs into \<open>reconciliation_discrepancies\<close> of one run, in order, with the ids they get.\<close>

fun insert_recons :: "db \<Rightarrow> recon_row list \<Rightarrow> (db \<times> int list) option" where
  "insert_recons d [] = Some (d, [])"
| "insert_recons d (r # rs) =
     (let new = next_id (map rd_id (recons d)) in
      case insert_recon d (r\<lparr>rd_id := new\<rparr>) of None \<Rightarrow> None
      | Some d1 \<Rightarrow> map_option (\<lambda>(d2, ids). (d2, new # ids)) (insert_recons d1 rs))"

definition surface_row :: "int \<Rightarrow> str \<Rightarrow> str \<Rightarrow> str \<Rightarrow> str \<Rightarrow> int option \<Rightarrow> str \<Rightarrow> recon_row" where
  "surface_row run scope lineage' kind' provenance observation surface =
     \<lparr>rd_id = 0, rd_run = run, rd_scope = scope, rd_lineage = lineage', rd_correction = None,
      rd_correction_run = None, rd_kind = Some kind', rd_provenance = Some provenance,
      rd_observation = observation, rd_observed_at = timestamp, rd_surface = Some surface,
      rd_expected = None, rd_observed = None, rd_status = None, rd_reason = None\<rparr>"

text \<open>
  \<open>reconcile\<close>: the statement binds the surface's name, not a number, to the column
  \<open>observation_sequence\<close>, so its rows hold a text there (\<open>None\<close>).
\<close>

definition reconcile_surfaces :: "reconciliation_input \<Rightarrow> (str \<times> bool) list" where
  "reconcile_surfaces i =
     [(''events'', ri_event_generation i = ''e'' \<and> ri_event_schema i = 1),
      (''projection'', ri_projection_generation i = ''p'' \<and> ri_projection_schema i = 1
         \<and> ri_projection_authority i),
      (''filesystem_artifact'', ri_expected_identity i = ri_observed_identity i
         \<and> ri_expected_hash i = ri_observed_hash i),
      (''git'', ri_expected_git i = ri_observed_git i)]"

definition reconcile :: "db \<Rightarrow> reconciliation_input \<Rightarrow> (error + reconciliation_result) \<times> db" where
  "reconcile d i =
     (let surfaces = reconcile_surfaces i;
          status = (if list_all snd surfaces then ''clean'' else ''blocked'');
          run = next_run_id d;
          bad = map (\<lambda>(s, _). if s = ''filesystem_artifact'' then ''filesystem'' else s)
                  (filter (\<lambda>(_, ok). \<not> ok) surfaces)
      in case insert_run d \<lparr>run_id = run, run_scope = ''store'', run_sequence = next_run_sequence d ''store'',
                run_event_generation = ''legacy'', run_projection_generation = ''legacy'',
                run_projection_authority = False, run_fs_identity = None, run_fs_hash = None,
                run_git_state = None, run_status = status, run_repair_applied = False,
                run_lineage = ''legacy''\<rparr> of
          None \<Rightarrow> (Inl (Sql ConstraintViolation), d)
        | Some d1 \<Rightarrow>
            (case insert_recons d1 (map (\<lambda>s. surface_row run ''store'' ''legacy'' ''surface'' s None s) bad) of
               None \<Rightarrow> (Inl (Sql ConstraintViolation), d)
             | Some (d2, ids) \<Rightarrow>
                 (Inr \<lparr>rr_status = status, rr_repair_applied = False, rr_mismatches = bad,
                       rr_authoritative = (status = ''clean''), rr_provenance = [], rr_run_id = run,
                       rr_scope_id = ''store'', rr_source_lineage = ''legacy'',
                       rr_discrepancy_ids = zip bad ids\<rparr>, d2)))"

text \<open>\<open>.all(|id| self.projection_status(id) ..)\<close>: each status may demote; it stops at the first that fails.\<close>

fun all_projections_complete ::
  "(bytes \<Rightarrow> bytes) \<Rightarrow> (nat \<Rightarrow> nat list) \<Rightarrow> db \<Rightarrow> str list \<Rightarrow> bool \<times> db" where
  "all_projections_complete sha up d [] = (True, d)"
| "all_projections_complete sha up d (i # is) =
     (case projection_status sha up d i of
        (Inl _, d1) \<Rightarrow> (False, d1)
      | (Inr s, d1) \<Rightarrow> if s = ''complete'' then all_projections_complete sha up d1 is else (False, d1))"

datatype reconcile_look = AtObserve | AtTarget

definition owned_row ::
  "(reconcile_look \<Rightarrow> fs) \<Rightarrow> reconciliation_scope \<Rightarrow> (str \<times> str) option \<Rightarrow> int \<Rightarrow> str \<Rightarrow> str \<Rightarrow> recon_row" where
  "owned_row fs scope observed run status surface =
     (surface_row run (sc_id scope) ''native'' (if surface = ''filesystem'' then ''filesystem'' else ''surface'')
        (if surface = ''filesystem''
         then (case observed of Some (i, _) \<Rightarrow> i
               | None \<Rightarrow> (case logical_target_identity (fs AtTarget) (sc_path scope) of
                    Some t \<Rightarrow> t | None \<Rightarrow> []))
         else surface) (Some 0) surface)
     \<lparr>rd_expected := Some (sc_id scope), rd_observed := Some ''observed'', rd_status := Some status,
      rd_reason := Some ''surface mismatch''\<rparr>"

definition owned_provenance :: "bool \<Rightarrow> str \<times> bool \<Rightarrow> str \<times> provenance" where
  "owned_provenance applicable x = (case x of (surface, ok) \<Rightarrow>
     (surface, \<lparr>pv_expected = ''store'', pv_observed =
        (if surface = ''git'' \<and> \<not> applicable then ''not_applicable''
         else if ok then (if surface = ''filesystem'' then ''filesystem'' else ''store'')
         else ''observed'')\<rparr>))"

text \<open>The run and the discrepancies \<open>reconcile_owned_with_change\<close> writes for the surfaces it found.\<close>

definition reconcile_record ::
  "(reconcile_look \<Rightarrow> fs) \<Rightarrow> db \<Rightarrow> reconciliation_scope \<Rightarrow> bool \<Rightarrow> str \<Rightarrow> (str \<times> str) option \<Rightarrow> (str \<times> bool) list
     \<Rightarrow> (error + reconciliation_result) \<times> db" where
  "reconcile_record fs d scope applicable changed observed surfaces =
     (let bad = (if changed = [] then map fst (filter (\<lambda>(_, ok). \<not> ok) surfaces) else [changed]);
          status = (if bad = [] then ''clean'' else ''blocked'');
          ok = (\<lambda>s. map_of surfaces s = Some True);
          hit = filter (\<lambda>s. list_ex (\<lambda>x. x = s \<or> (s = ''events'' \<and> x = ''event'')) bad) (map fst surfaces);
          run = next_run_id d
      in case insert_run d \<lparr>run_id = run, run_scope = sc_id scope,
                run_sequence = next_run_sequence d (sc_id scope),
                run_event_generation = (if ok ''events'' then ''ok'' else ''mismatch''),
                run_projection_generation = (if ok ''projection'' then ''ok'' else ''mismatch''),
                run_projection_authority = ok ''projection'',
                run_fs_identity = map_option fst observed, run_fs_hash = map_option snd observed,
                run_git_state = Some (if ok ''git'' then ''clean'' else ''mismatch''),
                run_status = status, run_repair_applied = False, run_lineage = ''native''\<rparr> of
          None \<Rightarrow> (Inl (Sql ConstraintViolation), d)
        | Some d1 \<Rightarrow>
            (case insert_recons d1 (map (owned_row fs scope observed run status) hit) of
               None \<Rightarrow> (Inl (Sql ConstraintViolation), d)
             | Some (d2, ids) \<Rightarrow>
                 (Inr \<lparr>rr_status = status, rr_repair_applied = False, rr_mismatches = bad,
                       rr_authoritative = (status = ''clean''),
                       rr_provenance = map (owned_provenance applicable) surfaces, rr_run_id = run,
                       rr_scope_id = sc_id scope, rr_source_lineage = ''native'',
                       rr_discrepancy_ids = zip hit ids\<rparr>, d2)))"

definition reconcile_owned_with_change ::
  "(bytes \<Rightarrow> bytes) \<Rightarrow> (nat \<Rightarrow> nat list) \<Rightarrow> (reconcile_look \<Rightarrow> fs) \<Rightarrow> db \<Rightarrow> reconciliation_scope \<Rightarrow> str list
     \<Rightarrow> bool \<Rightarrow> str \<Rightarrow> (error + reconciliation_result) \<times> db" where
  "reconcile_owned_with_change sha up fs d scope ids applicable changed =
     (let event_ok = list_all (\<lambda>i. length (filter (\<lambda>r. ev_id r = i) (events d)) = 1)
                       (filter (starts_with ''event-'') ids);
          (projection_ok, d1) = all_projections_complete sha up d (filter (starts_with ''projection-'') ids)
      in if sc_artifact_id scope = [] \<or> sc_version_id scope = [] then (Inl Conflict, d1)
         else case find (\<lambda>v. ver_id v = sc_version_id scope \<and> ver_artifact v = sc_artifact_id scope) (versions d1) of
           None \<Rightarrow> (Inl (Sql QueryReturnedNoRows), d1)
         | Some v \<Rightarrow>
             let observed = to_ok (observe sha (fs AtObserve) (sc_path scope) (ver_identity v)) in
             reconcile_record fs d1 scope applicable changed observed
               [(''events'', event_ok), (''projection'', projection_ok),
                (''filesystem'', opt_any (\<lambda>(_, h). h = ver_hash v) observed), (''git'', \<not> applicable)])"

definition reconcile_owned ::
  "(bytes \<Rightarrow> bytes) \<Rightarrow> (nat \<Rightarrow> nat list) \<Rightarrow> (reconcile_look \<Rightarrow> fs) \<Rightarrow> db \<Rightarrow> reconciliation_scope \<Rightarrow> str list
     \<Rightarrow> bool \<Rightarrow> (error + reconciliation_result) \<times> db" where
  "reconcile_owned sha up fs d scope ids applicable =
     reconcile_owned_with_change sha up fs d scope ids applicable []"


text \<open>
  What \<open>reconcile_accepted\<close> finds, in the order in which it hands it to its
  \<open>INSERT INTO reconciliation_runs\<close>: the scope twice, the generation of the history twice, identity
  and digest of the file, and the status.
\<close>

definition accepted_status :: "(bytes \<Rightarrow> bytes) \<Rightarrow> (str \<times> str) option \<Rightarrow> db \<Rightarrow> version_row \<Rightarrow> str" where
  "accepted_status sha observed d v =
     (let file_ok = opt_any (\<lambda>(_, h). h = ver_hash v) observed;
          rows = event_rows d;
          generation = event_generation sha rows;
          event_ok = (\<not> list_ex (\<lambda>r. ev_id r = []) rows
            \<and> list_all (\<lambda>(a, b). ev_sequence a < ev_sequence b) (zip rows (tl rows)));
          ps = sort_key pr_id (projections d);
          projection_ok = (ps \<noteq> [] \<and> list_all (\<lambda>p. pr_schema p = 1 \<and> pr_generation p = generation
            \<and> pr_source_generation p = generation \<and> pr_status p = ''complete'' \<and> pr_authoritative p) ps);
          authoritative = (event_ok \<and> projection_ok \<and> file_ok \<and> ver_git v = Some ''not_applicable'')
      in if authoritative then ''clean'' else ''blocked'')"

definition accepted_parameters ::
  "(bytes \<Rightarrow> bytes) \<Rightarrow> (str \<times> str) option \<Rightarrow> db \<Rightarrow> str \<Rightarrow> version_row \<Rightarrow> str option list" where
  "accepted_parameters sha observed d operation v =
     (let generation = dec_int (event_generation sha (event_rows d)) in
      [Some operation, Some operation, Some generation, Some generation, map_option fst observed,
       map_option snd observed, Some (accepted_status sha observed d v)])"

text \<open>
  \<open>Statement::execute\<close> of \<open>rusqlite\<close> binds before it runs anything, and refuses when the number of
  values is not the number of placeholders of the text. The text here has eight: \<open>scope_id\<close> and the
  scope of the subquery, \<open>event_generation\<close>, \<open>projection_generation\<close>, \<open>projection_authority\<close>,
  \<open>filesystem_identity\<close>, \<open>filesystem_hash\<close> and \<open>status\<close>.
\<close>

definition bind_parameters :: "nat \<Rightarrow> 'a list \<Rightarrow> error + 'a list" where
  "bind_parameters placeholders values =
     (if length values = placeholders then Inr values
      else Inl (Sql (InvalidParameterCount (length values) placeholders)))"

definition accepted_placeholders :: nat where
  "accepted_placeholders = 8"

text \<open>What the function goes on to write and to answer once the values are bound.\<close>

definition accepted_run :: "db \<Rightarrow> str option list \<Rightarrow> run_row" where
  "accepted_run d values =
     (let text = (\<lambda>k. case values ! k of Some s \<Rightarrow> s | None \<Rightarrow> []) in
      \<lparr>run_id = next_run_id d, run_scope = text 0, run_sequence = next_run_sequence d (text 1),
       run_event_generation = text 2, run_projection_generation = text 3,
       run_projection_authority = (values ! 4 = Some ''1''), run_fs_identity = values ! 5,
       run_fs_hash = values ! 6, run_git_state = None, run_status = text 7,
       run_repair_applied = False, run_lineage = ''native''\<rparr>)"

definition accepted_evidence :: "(bytes \<Rightarrow> bytes) \<Rightarrow> db \<Rightarrow> str \<Rightarrow> evidence_row list" where
  "accepted_evidence sha d operation =
     map (\<lambda>p. \<lparr>pe_run = next_run_id d, pe_projection = pr_id p, pe_scope = operation,
         pe_schema = pr_schema p, pe_event_generation = pr_generation p,
         pe_source_generation = pr_source_generation p, pe_status = pr_status p,
         pe_authority = pr_authoritative p, pe_rebuild_status = ''complete'', pe_rebuild_authority = 1,
         pe_generation_match = (pr_generation p = event_generation sha (event_rows d)), pe_lineage = ''native''\<rparr>)
       (sort_key pr_id (projections d))"

fun insert_evidences :: "db \<Rightarrow> evidence_row list \<Rightarrow> db option" where
  "insert_evidences d [] = Some d"
| "insert_evidences d (r # rs) = (case insert_evidence d r of None \<Rightarrow> None | Some d1 \<Rightarrow> insert_evidences d1 rs)"

definition accepted_result :: "db \<Rightarrow> str \<Rightarrow> str \<Rightarrow> reconciliation_result" where
  "accepted_result d operation status =
     \<lparr>rr_status = status, rr_repair_applied = False,
      rr_mismatches = (if status = ''clean'' then [] else [''reconciliation'']),
      rr_authoritative = (status = ''clean''), rr_provenance = [], rr_run_id = next_run_id d,
      rr_scope_id = operation, rr_source_lineage = ''native'', rr_discrepancy_ids = []\<rparr>"

text \<open>
  \<open>reconcile_accepted\<close>. No value is handed over for \<open>projection_authority\<close>, so the binding fails,
  the transaction is dropped, and the rest of the function is never reached.
\<close>

definition reconcile_accepted ::
  "(bytes \<Rightarrow> bytes) \<Rightarrow> fs \<Rightarrow> db \<Rightarrow> str \<Rightarrow> (error + reconciliation_result) \<times> db" where
  "reconcile_accepted sha f d operation =
     (case accepted_latest d operation of
        None \<Rightarrow> (Inl (Sql QueryReturnedNoRows), d)
      | Some v \<Rightarrow>
          (case ver_path v of
             None \<Rightarrow> (Inl Conflict, d)
           | Some path \<Rightarrow>
               (let observed = to_ok (observe sha f path (ver_identity v)) in
                case bind_parameters accepted_placeholders (accepted_parameters sha observed d operation v) of
                  Inl e \<Rightarrow> (Inl e, d)
                | Inr values \<Rightarrow>
                    (case insert_run d (accepted_run d values) of
                       None \<Rightarrow> (Inl (Sql ConstraintViolation), d)
                     | Some d1 \<Rightarrow>
                         (case insert_evidences d1 (accepted_evidence sha d operation) of
                            None \<Rightarrow> (Inl (Sql ConstraintViolation), d)
                          | Some d2 \<Rightarrow> (Inr (accepted_result d operation (accepted_status sha observed d v)), d2))))))"

text \<open>An accepted operation is never reconciled by this function: it fails in every case and writes nothing.\<close>

theorem reconcile_accepted_fails:
  "reconcile_accepted sha f d operation =
     (Inl (case accepted_latest d operation of
        None \<Rightarrow> Sql QueryReturnedNoRows
      | Some v \<Rightarrow> if ver_path v = None then Conflict else Sql (InvalidParameterCount 7 8)), d)"
  by (auto simp: reconcile_accepted_def bind_parameters_def accepted_parameters_def accepted_placeholders_def
      Let_def split: option.splits)

section \<open>Recording a run\<close>

lemma next_run_fresh:
  "run_id r = next_run_id d \<Longrightarrow> run_scope r = s \<Longrightarrow> run_sequence r = next_run_sequence d s
   \<Longrightarrow> insert_run d r = Some (d\<lparr>runs := runs d @ [r]\<rparr>)"
  using next_id_fresh [of "map run_id (runs d)"]
    next_sequence_fresh [of "map run_sequence (filter (\<lambda>r. run_scope r = s) (runs d))"]
  by (auto simp: insert_run_def new_key_def next_run_id_def next_run_sequence_def)

text \<open>The rows as stored, with their ids.\<close>

definition number_recons :: "recon_row list \<Rightarrow> int list \<Rightarrow> recon_row list" where
  "number_recons rows ids = map2 (\<lambda>r i. r\<lparr>rd_id := i\<rparr>) rows ids"

lemma insert_recons_Some:
  assumes "\<forall>r\<in>set rows. rd_correction r = None \<and> rd_correction_run r = None \<and> rd_run r \<in> run_id ` set (runs d)"
  shows "\<exists>ids. insert_recons d rows = Some (d\<lparr>recons := recons d @ number_recons rows ids\<rparr>, ids)
     \<and> length ids = length rows \<and> distinct ids \<and> set ids \<inter> rd_id ` set (recons d) = {}"
  using assms
proof (induction rows arbitrary: d)
  case (Cons r rows)
  let ?new = "next_id (map rd_id (recons d))"
  let ?r = "r\<lparr>rd_id := ?new\<rparr>"
  let ?d1 = "d\<lparr>recons := recons d @ [?r]\<rparr>"
  have "insert_recon d ?r = Some ?d1"
    using Cons.prems next_id_fresh [of "map rd_id (recons d)"]
    by (auto simp: insert_recon_def new_key_def recon_guard_def)
  moreover obtain ids where "insert_recons ?d1 rows = Some (?d1\<lparr>recons := recons ?d1 @ number_recons rows ids\<rparr>, ids)"
    "length ids = length rows" "distinct ids" "set ids \<inter> rd_id ` set (recons ?d1) = {}"
    using Cons.IH [of ?d1] Cons.prems by auto
  ultimately show ?case
    using next_id_fresh [of "map rd_id (recons d)"]
    by (intro exI [of _ "?new # ids"]) (auto simp: number_recons_def Let_def)
qed (auto simp: number_recons_def)

lemma surface_row_simps [simp]:
  "rd_correction (surface_row run sc l k p n s) = None" "rd_correction_run (surface_row run sc l k p n s) = None"
  "rd_run (surface_row run sc l k p n s) = run" "rd_surface (surface_row run sc l k p n s) = Some s"
  "rd_scope (surface_row run sc l k p n s) = sc" "rd_lineage (surface_row run sc l k p n s) = l"
  "rd_observation (surface_row run sc l k p n s) = n" "rd_kind (surface_row run sc l k p n s) = Some k"
  "rd_provenance (surface_row run sc l k p n s) = Some p"
  by (simp_all add: surface_row_def)

lemma owned_row_simps [simp]:
  "rd_correction (owned_row fs scope ob run st s) = None" "rd_correction_run (owned_row fs scope ob run st s) = None"
  "rd_run (owned_row fs scope ob run st s) = run" "rd_surface (owned_row fs scope ob run st s) = Some s"
  "rd_scope (owned_row fs scope ob run st s) = sc_id scope" "rd_lineage (owned_row fs scope ob run st s) = ''native''"
  "rd_observation (owned_row fs scope ob run st s) = Some 0"
  "rd_kind (owned_row fs scope ob run st s) = Some (if s = ''filesystem'' then ''filesystem'' else ''surface'')"
  by (simp_all add: owned_row_def)

text \<open>The surfaces a run reports, and the ones it records a discrepancy for.\<close>

definition bad_surfaces :: "str \<Rightarrow> (str \<times> bool) list \<Rightarrow> str list" where
  "bad_surfaces changed surfaces =
     (if changed = [] then map fst (filter (\<lambda>(_, ok). \<not> ok) surfaces) else [changed])"

definition recorded_surfaces :: "str \<Rightarrow> (str \<times> bool) list \<Rightarrow> str list" where
  "recorded_surfaces changed surfaces =
     filter (\<lambda>s. list_ex (\<lambda>x. x = s \<or> (s = ''events'' \<and> x = ''event'')) (bad_surfaces changed surfaces))
       (map fst surfaces)"

text \<open>
  Recording a reconciliation always succeeds: it appends one run, whose status is clean
  exactly when no surface is reported, and one discrepancy for each surface recorded, whose ids
  the result returns under the surfaces' names.
\<close>

theorem reconcile_record_spec:
  "\<exists>run ids res d'. reconcile_record fs d scope applicable changed observed surfaces = (Inr res, d')
     \<and> d' = d\<lparr>runs := runs d @ [run],
          recons := recons d @ number_recons (map (owned_row fs scope observed (run_id run) (rr_status res))
             (recorded_surfaces changed surfaces)) ids\<rparr>
     \<and> run_id run = rr_run_id res \<and> run_id run \<notin> run_id ` set (runs d) \<and> run_scope run = sc_id scope
     \<and> run_status run = rr_status res \<and> run_lineage run = rr_source_lineage res
     \<and> rr_mismatches res = bad_surfaces changed surfaces
     \<and> rr_status res = (if bad_surfaces changed surfaces = [] then ''clean'' else ''blocked'')
     \<and> (rr_authoritative res \<longleftrightarrow> rr_status res = ''clean'')
     \<and> rr_discrepancy_ids res = zip (recorded_surfaces changed surfaces) ids
     \<and> length ids = length (recorded_surfaces changed surfaces) \<and> distinct ids
     \<and> set ids \<inter> rd_id ` set (recons d) = {}"
proof -
  let ?bad = "bad_surfaces changed surfaces"
  let ?hit = "recorded_surfaces changed surfaces"
  let ?status = "if ?bad = [] then ''clean'' else ''blocked''"
  let ?ok = "\<lambda>s. map_of surfaces s = Some True"
  let ?run = "\<lparr>run_id = next_run_id d, run_scope = sc_id scope,
      run_sequence = next_run_sequence d (sc_id scope),
      run_event_generation = (if ?ok ''events'' then ''ok'' else ''mismatch''),
      run_projection_generation = (if ?ok ''projection'' then ''ok'' else ''mismatch''),
      run_projection_authority = ?ok ''projection'',
      run_fs_identity = map_option fst observed, run_fs_hash = map_option snd observed,
      run_git_state = Some (if ?ok ''git'' then ''clean'' else ''mismatch''),
      run_status = ?status, run_repair_applied = False, run_lineage = ''native''\<rparr>"
  let ?d1 = "d\<lparr>runs := runs d @ [?run]\<rparr>"
  let ?rows = "map (owned_row fs scope observed (next_run_id d) ?status) ?hit"
  have run: "insert_run d ?run = Some ?d1" by (rule next_run_fresh) simp_all
  obtain ids where ids: "insert_recons ?d1 ?rows = Some (?d1\<lparr>recons := recons ?d1 @ number_recons ?rows ids\<rparr>, ids)"
    "length ids = length ?rows" "distinct ids" "set ids \<inter> rd_id ` set (recons ?d1) = {}"
    using insert_recons_Some [of ?rows ?d1] by auto
  have eq: "reconcile_record fs d scope applicable changed observed surfaces =
      (Inr \<lparr>rr_status = ?status, rr_repair_applied = False, rr_mismatches = ?bad,
         rr_authoritative = (?status = ''clean''), rr_provenance = map (owned_provenance applicable) surfaces,
         rr_run_id = next_run_id d, rr_scope_id = sc_id scope, rr_source_lineage = ''native'',
         rr_discrepancy_ids = zip ?hit ids\<rparr>, ?d1\<lparr>recons := recons ?d1 @ number_recons ?rows ids\<rparr>)"
    unfolding reconcile_record_def Let_def bad_surfaces_def [symmetric] recorded_surfaces_def [symmetric]
    by (simp only: run ids(1) option.case prod.case)
  have "next_run_id d \<notin> run_id ` set (runs d)"
    using next_id_fresh [of "map run_id (runs d)"] by (simp add: next_run_id_def)
  with eq ids(2-4) show ?thesis by (intro exI [of _ ?run] exI [of _ ids]) simp
qed

text \<open>Reading projections touches the projection tables alone.\<close>

definition projection_only :: "db \<Rightarrow> db \<Rightarrow> bool" where
  "projection_only d d' = (d' = d\<lparr>projections := projections d', rebuild_status := rebuild_status d'\<rparr>)"

lemma projection_only_refl [simp]: "projection_only d d"
  by (simp add: projection_only_def)

lemma projection_only_trans: "projection_only a b \<Longrightarrow> projection_only b c \<Longrightarrow> projection_only a c"
  by (cases a; cases b; cases c) (simp add: projection_only_def)

lemma projection_only_mark [simp]: "projection_only d (mark_projection_status d k s)"
  by (cases d) (simp add: projection_only_def mark_projection_status_def)

lemma projection_only_read: "read_projection sha up d k = (res, d') \<Longrightarrow> projection_only d d'"
  by (auto simp: read_projection_def Let_def split: option.splits if_splits)

lemma projection_only_status: "projection_status sha up d k = (res, d') \<Longrightarrow> projection_only d d'"
  using projection_only_trans [OF projection_only_read projection_only_mark]
  by (auto simp: projection_status_def Let_def intro: projection_only_read
      split: prod.splits sum.splits option.splits if_splits)

lemma projection_only_all: "all_projections_complete sha up d ks = (b, d') \<Longrightarrow> projection_only d d'"
proof (induction ks arbitrary: d)
  case (Cons k ks)
  obtain res d1 where s: "projection_status sha up d k = (res, d1)" by (cases "projection_status sha up d k")
  have o: "projection_only d d1" by (rule projection_only_status [OF s])
  show ?case
  proof (cases "\<exists>x. res = Inr x \<and> x = ''complete''")
    case True
    then have "all_projections_complete sha up d1 ks = (b, d')" using Cons.prems s by simp
    then show ?thesis using Cons.IH o projection_only_trans by blast
  next
    case False
    then show ?thesis using Cons.prems s o by (auto split: sum.splits)
  qed
qed simp

lemma projection_only_frame:
  assumes "projection_only d d'"
  shows "artifacts d' = artifacts d" "versions d' = versions d" "operations d' = operations d"
    "lineage d' = lineage d" "discrepancies d' = discrepancies d" "events d' = events d"
    "rebuilds d' = rebuilds d" "playbacks d' = playbacks d" "simulations d' = simulations d"
    "runs d' = runs d" "recons d' = recons d" "evidence d' = evidence d" "actions d' = actions d"
    "outcomes d' = outcomes d"
  using assms unfolding projection_only_def by (cases d; cases d'; simp)+

text \<open>
  A reconciliation leaves the store as it was but for demoted projections, or with one more run
  and its discrepancies, which are no corrections and carry a non-negative observation.
\<close>

definition run_appended :: "db \<Rightarrow> db \<Rightarrow> bool" where
  "run_appended d d' = (\<exists>run rows w. d' = d\<lparr>runs := runs d @ [run], recons := recons d @ rows, evidence := w\<rparr>
     \<and> run_id run \<notin> run_id ` set (runs d) \<and> distinct (map rd_id rows)
     \<and> rd_id ` set rows \<inter> rd_id ` set (recons d) = {}
     \<and> (\<forall>r\<in>set rows. rd_run r = run_id run \<and> opt_all (\<lambda>n. 0 \<le> n) (rd_observation r)))"

lemma number_recons_ids: "length ids = length rows \<Longrightarrow> map rd_id (number_recons rows ids) = ids"
  by (induction rows arbitrary: ids) (auto simp: number_recons_def Suc_length_conv length_Suc_conv)

lemma number_recons_row: "r \<in> set (number_recons rows ids) \<Longrightarrow> \<exists>x\<in>set rows. \<exists>i. r = x\<lparr>rd_id := i\<rparr>"
  by (auto simp: number_recons_def dest: set_zip_leftD)

lemma run_appended_record:
  assumes "reconcile_record fs d scope applicable changed observed surfaces = (res, d')"
  shows "run_appended d d'"
proof -
  obtain run ids r d1 where eq: "reconcile_record fs d scope applicable changed observed surfaces = (Inr r, d1)"
    and d1: "d1 = d\<lparr>runs := runs d @ [run],
        recons := recons d @ number_recons (map (owned_row fs scope observed (run_id run) (rr_status r))
             (recorded_surfaces changed surfaces)) ids\<rparr>"
    and f: "run_id run \<notin> run_id ` set (runs d)" "length ids = length (recorded_surfaces changed surfaces)"
      "distinct ids" "set ids \<inter> rd_id ` set (recons d) = {}"
    using reconcile_record_spec [of fs d scope applicable changed observed surfaces] by blast
  have d': "d' = d1" using assms eq by simp
  let ?rows = "number_recons (map (owned_row fs scope observed (run_id run) (rr_status r))
      (recorded_surfaces changed surfaces)) ids"
  have "map rd_id ?rows = ids" using f(2) by (simp add: number_recons_ids)
  then have "rd_id ` set ?rows = set ids" "distinct (map rd_id ?rows)" using f(3) by (metis list.set_map, simp)
  moreover have "\<forall>r\<in>set ?rows. rd_run r = run_id run \<and> opt_all (\<lambda>n. 0 \<le> n) (rd_observation r)"
    using number_recons_row by fastforce
  moreover have "d' = d\<lparr>runs := runs d @ [run], recons := recons d @ ?rows, evidence := evidence d\<rparr>"
    by (simp add: d' d1)
  ultimately show ?thesis unfolding run_appended_def using f(1,4) by (metis inf_commute)
qed


lemma run_appended_reconcile:
  assumes "reconcile d i = (res, d')"
  shows "run_appended d d'" "\<exists>r. res = Inr r \<and> (rr_status r = ''clean'' \<longleftrightarrow> list_all snd (reconcile_surfaces i))"
proof -
  let ?surfaces = "reconcile_surfaces i"
  let ?status = "if list_all snd ?surfaces then ''clean'' else ''blocked''"
  let ?bad = "map (\<lambda>(s, _). if s = ''filesystem_artifact'' then ''filesystem'' else s) (filter (\<lambda>(_, ok). \<not> ok) ?surfaces)"
  let ?run = "\<lparr>run_id = next_run_id d, run_scope = ''store'', run_sequence = next_run_sequence d ''store'',
      run_event_generation = ''legacy'', run_projection_generation = ''legacy'',
      run_projection_authority = False, run_fs_identity = None, run_fs_hash = None,
      run_git_state = None, run_status = ?status, run_repair_applied = False, run_lineage = ''legacy''\<rparr>"
  let ?d1 = "d\<lparr>runs := runs d @ [?run]\<rparr>"
  let ?rows = "map (\<lambda>s. surface_row (next_run_id d) ''store'' ''legacy'' ''surface'' s None s) ?bad"
  have run: "insert_run d ?run = Some ?d1" by (rule next_run_fresh) simp_all
  obtain ids where ids: "insert_recons ?d1 ?rows = Some (?d1\<lparr>recons := recons ?d1 @ number_recons ?rows ids\<rparr>, ids)"
    "length ids = length ?rows" "distinct ids" "set ids \<inter> rd_id ` set (recons ?d1) = {}"
    using insert_recons_Some [of ?rows ?d1] by auto
  have eq: "\<exists>r. res = Inr r \<and> rr_status r = ?status" "d' = ?d1\<lparr>recons := recons ?d1 @ number_recons ?rows ids\<rparr>"
    using assms unfolding reconcile_def Let_def by (simp_all only: run ids(1) option.case prod.case prod.inject) auto
  have "map rd_id (number_recons ?rows ids) = ids" using ids(2) by (simp add: number_recons_ids)
  then have "rd_id ` set (number_recons ?rows ids) = set ids" "distinct (map rd_id (number_recons ?rows ids))"
    using ids(3) by (metis list.set_map, simp)
  moreover have "\<forall>r\<in>set (number_recons ?rows ids). rd_run r = run_id ?run \<and> opt_all (\<lambda>n. 0 \<le> n) (rd_observation r)"
    using number_recons_row by fastforce
  moreover have "run_id ?run \<notin> run_id ` set (runs d)"
    using next_id_fresh [of "map run_id (runs d)"] by (simp add: next_run_id_def)
  moreover have "d' = d\<lparr>runs := runs d @ [?run], recons := recons d @ number_recons ?rows ids, evidence := evidence d\<rparr>"
    by (simp add: eq(2))
  ultimately show "run_appended d d'"
    unfolding run_appended_def using ids(4) by (intro exI [of _ ?run] exI [of _ "number_recons ?rows ids"] exI [of _ "evidence d"]) simp
  show "\<exists>r. res = Inr r \<and> (rr_status r = ''clean'' \<longleftrightarrow> list_all snd ?surfaces)"
    using eq(1) by auto
qed

lemma reconcile_accepted_frame: "reconcile_accepted sha f d operation = (res, d') \<Longrightarrow> d' = d"
  by (simp add: reconcile_accepted_fails)


end
