(* ===== verification/Recovery.thy ===== *)
theory Recovery
  imports Reconcile
begin

text \<open>
  The recovery half of \<open>src/src/artifacts/recovery.rs\<close>: restoring a missing file from a
  blocked reconciliation. A recovery records an action and two outcomes in one transaction, and
  between them creates the file; the model returns the file operations a call has performed
  beside its result and the store it leaves, because a rolled back transaction does not undo
  them.
\<close>

section \<open>Requests\<close>

datatype recovery_checkpoint =
  BeforePrepareCommit | AfterPrepare | AfterEffectBeforeOutcome | OutcomeCommitUnknown

record recovery_result =
  rv_operation_id :: str
  rv_status :: str

record recovery_request =
  rq_operation_id :: str
  rq_path :: "str option"
  rq_replacement :: "bytes option"
  rq_authorization_identity :: str
  rq_authorization_scope :: str

definition request_safe :: "str \<Rightarrow> str \<Rightarrow> bytes \<Rightarrow> recovery_request" where
  "request_safe rid path b = \<lparr>rq_operation_id = rid, rq_path = Some path, rq_replacement = Some b,
     rq_authorization_identity = ''test-authorized'', rq_authorization_scope = ''store''\<rparr>"

definition request_unsafe :: "str \<Rightarrow> str \<Rightarrow> recovery_request" where
  "request_unsafe rid path = \<lparr>rq_operation_id = rid, rq_path = Some path,
     rq_replacement = Some ''replacement'',
     rq_authorization_identity = ''test-unauthorized'', rq_authorization_scope = ''store''\<rparr>"

definition request_blocked :: "str \<Rightarrow> recovery_request" where
  "request_blocked rid = \<lparr>rq_operation_id = rid, rq_path = None, rq_replacement = None,
     rq_authorization_identity = [], rq_authorization_scope = []\<rparr>"

definition request_uncertain :: "str \<Rightarrow> recovery_request" where
  "request_uncertain rid = \<lparr>rq_operation_id = rid, rq_path = None, rq_replacement = None,
     rq_authorization_identity = ''test-authorized'', rq_authorization_scope = ''store''\<rparr>"

section \<open>The recovery fingerprint\<close>

record recovery_key =
  rk_scope :: str
  rk_lineage :: str
  rk_kind :: str
  rk_provenance :: str
  rk_observation :: int
  rk_target :: str
  rk_pre_hash :: "str option"
  rk_pre_identity :: "str option"
  rk_post_hash :: "str option"
  rk_post_identity :: "str option"
  rk_authorization :: str
  rk_authorization_scope :: str

definition recovery_bytes :: "recovery_key \<Rightarrow> bytes" where
  "recovery_bytes k = ''akashic/recovery/v1'' @ NUL @ field32 (rk_scope k) @ field32 (rk_lineage k)
     @ field32 (rk_kind k) @ field32 (rk_provenance k) @ i64_be (rk_observation k) @ i64_be 1
     @ opt_field32 (Some (rk_target k)) @ opt_field32 (rk_pre_hash k) @ opt_field32 (rk_pre_identity k)
     @ opt_field32 (rk_post_hash k) @ opt_field32 (rk_post_identity k)
     @ opt_field32 (Some (rk_authorization k)) @ opt_field32 (Some (rk_authorization_scope k))"

definition recovery_fingerprint :: "(bytes \<Rightarrow> bytes) \<Rightarrow> recovery_key \<Rightarrow> str" where
  "recovery_fingerprint sha k = hash_bytes sha (recovery_bytes k)"

section \<open>Recovery\<close>

definition recover_blocked :: "reconciliation_result \<Rightarrow> recovery_request \<Rightarrow> error + recovery_result" where
  "recover_blocked run request = Inl Conflict"

record recovery_binding =
  bd_key :: recovery_key
  bd_fingerprint :: str

text \<open>The persisted run and discrepancy that \<open>recovery_binding\<close> joins.\<close>

definition persisted_discrepancy :: "db \<Rightarrow> int \<Rightarrow> int \<Rightarrow> (run_row \<times> recon_row) option" where
  "persisted_discrepancy d run disc =
     (case row_with run_id run (runs d) of None \<Rightarrow> None
      | Some r \<Rightarrow> map_option (Pair r)
          (find (\<lambda>x. rd_run x = run \<and> rd_id x = disc \<and> rd_surface x = Some ''filesystem'') (recons d)))"

datatype recovery_look = AtExisting | AtBind | AtPrepare | AtEffect

definition recovery_target :: "fs \<Rightarrow> recovery_request \<Rightarrow> error + str" where
  "recovery_target f request =
     (case rq_path request of None \<Rightarrow> Inl Conflict | Some path \<Rightarrow>
      case validate_parent f path of Inl e \<Rightarrow> Inl Conflict | Inr u \<Rightarrow>
      case logical_target_identity f path of None \<Rightarrow> Inl Conflict | Some target \<Rightarrow> Inr target)"

definition recovery_binding ::
  "(bytes \<Rightarrow> bytes) \<Rightarrow> fs \<Rightarrow> db \<Rightarrow> reconciliation_result \<Rightarrow> recovery_request \<Rightarrow> error + recovery_binding" where
  "recovery_binding sha f d run request =
     (if rr_authoritative run \<or> rr_status run \<noteq> ''blocked'' \<or> length (rr_discrepancy_ids run) \<noteq> 1 then Inl Conflict
      else if fst (hd (rr_discrepancy_ids run)) \<noteq> ''filesystem'' \<or> rr_mismatches run \<noteq> [''filesystem''] then Inl Conflict
      else case persisted_discrepancy d (rr_run_id run) (snd (hd (rr_discrepancy_ids run))) of
        None \<Rightarrow> Inl Conflict
      | Some (r, x) \<Rightarrow>
         (case (rd_kind x, rd_provenance x, rd_observation x) of
            (Some kind', Some provenance, Some sequence) \<Rightarrow>
              if run_scope r \<noteq> rr_scope_id run \<or> run_lineage r \<noteq> rr_source_lineage run
                 \<or> run_status r \<noteq> rr_status run \<or> kind' \<noteq> ''filesystem'' then Inl Conflict
              else (case recovery_target f request of Inl e \<Rightarrow> Inl e | Inr target \<Rightarrow>
                case rq_replacement request of None \<Rightarrow> Inl Conflict | Some replacement \<Rightarrow>
                  if target \<noteq> provenance \<or> rq_authorization_identity request = []
                     \<or> rq_authorization_scope request = [] then Inl Conflict
                  else let observed = (case rq_path request of None \<Rightarrow> None | Some path \<Rightarrow> to_ok (observe sha f path None));
                           key = \<lparr>rk_scope = run_scope r, rk_lineage = run_lineage r, rk_kind = kind',
                             rk_provenance = provenance, rk_observation = sequence, rk_target = target,
                             rk_pre_hash = map_option snd observed, rk_pre_identity = map_option fst observed,
                             rk_post_hash = Some (hash_bytes sha replacement), rk_post_identity = Some target,
                             rk_authorization = rq_authorization_identity request,
                             rk_authorization_scope = rq_authorization_scope request\<rparr>
                       in Inr \<lparr>bd_key = key, bd_fingerprint = recovery_fingerprint sha key\<rparr>)
          | _ \<Rightarrow> Inl (Sql InvalidColumnType)))"

text \<open>
  The file operations of a recovery, and what the operating system answers to them: whether the
  file could be created, written and synced.
\<close>

datatype file_op = CreateNew str "32 word" | WriteAll str bytes | SyncAll str

record file_answers =
  fa_create :: bool
  fa_write :: bool
  fa_sync :: bool

text \<open>An earlier action of the same name answers for the call, when it is for the same effect.\<close>

definition replay_recovery ::
  "(bytes \<Rightarrow> bytes) \<Rightarrow> fs \<Rightarrow> db \<Rightarrow> reconciliation_result \<Rightarrow> recovery_request \<Rightarrow> action_row \<Rightarrow> error + recovery_result" where
  "replay_recovery sha f d run request a =
     (case recovery_target f request of Inl e \<Rightarrow> Inl e | Inr target \<Rightarrow>
      case rq_replacement request of None \<Rightarrow> Inl Conflict | Some replacement \<Rightarrow>
        if target \<noteq> act_target a \<or> act_post_hash a \<noteq> Some (hash_bytes sha replacement)
           \<or> rq_authorization_identity request \<noteq> act_auth a \<or> rq_authorization_scope request \<noteq> act_auth_scope a
           \<or> rr_scope_id run \<noteq> act_scope a
        then Inl Conflict
        else case find (\<lambda>o'. out_action o' = act_id a \<and> out_sequence o' = 2) (outcomes d) of
            None \<Rightarrow> Inl Conflict
          | Some o' \<Rightarrow> Inr \<lparr>rv_operation_id = rq_operation_id request, rv_status = out_result o'\<rparr>)"

text \<open>The effect: what was observed before and after, and the file operations performed.\<close>

definition recovery_effect ::
  "(bytes \<Rightarrow> bytes) \<Rightarrow> fs \<Rightarrow> file_answers \<Rightarrow> recovery_request \<Rightarrow> recovery_binding \<Rightarrow> recovery_checkpoint
     \<Rightarrow> (error + str \<times> str option \<times> str option) \<times> file_op list" where
  "recovery_effect sha f fa request b checkpoint =
     (let pre = (case rk_pre_hash (bd_key b) of Some h \<Rightarrow> Some h | None \<Rightarrow> Some ''missing'') in
      if checkpoint = AfterPrepare then (Inr (''effect_not_started'', pre, None), [])
      else if checkpoint = OutcomeCommitUnknown then (Inr (''effect_unknown'', pre, Some ''unknown''), [])
      else let path = the (rq_path request); data = the (rq_replacement request) in
        if \<not> fa_create fa then (Inl Conflict, [])
        else if \<not> fa_write fa then (Inl Conflict, [CreateNew path 0x180])
        else if \<not> fa_sync fa then (Inl Conflict, [CreateNew path 0x180, WriteAll path data])
        else let ops = [CreateNew path 0x180, WriteAll path data, SyncAll path] in
          case observe sha f path None of
            Inl e \<Rightarrow> (Inl Conflict, ops)
          | Inr (i, actual_hash) \<Rightarrow>
              if Some actual_hash \<noteq> rk_post_hash (bd_key b) then (Inl Conflict, ops)
              else (Inr (''effect_applied'', pre, Some actual_hash), ops))"

definition terminal_status :: "str \<Rightarrow> str" where
  "terminal_status effect = (if effect = ''effect_applied'' then ''applied''
     else if effect = ''effect_unknown'' then ''unknown'' else ''blocked'')"

definition outcome_row_of ::
  "int \<Rightarrow> action_row \<Rightarrow> recovery_binding \<Rightarrow> int \<Rightarrow> str \<Rightarrow> str \<Rightarrow> str option \<Rightarrow> str option \<Rightarrow> int option \<Rightarrow> outcome_row" where
  "outcome_row_of oid a b n stage result pre post supersedes =
     \<lparr>out_id = oid, out_action = act_id a, out_run = act_run a, out_scope = act_scope a, out_sequence = n,
      out_status = result, out_lineage = act_lineage a, out_stage = stage, out_result = result,
      out_pre = pre, out_post = post, out_kind = ''recovery_action'', out_provenance = act_id a,
      out_observation = rk_observation (bd_key b), out_observed_at = timestamp, out_supersedes = supersedes,
      out_supersedes_action = map_option (\<lambda>_. act_id a) supersedes\<rparr>"

definition action_row_of :: "db \<Rightarrow> reconciliation_result \<Rightarrow> recovery_request \<Rightarrow> recovery_binding \<Rightarrow> int \<Rightarrow> action_row" where
  "action_row_of d run request b disc =
     \<lparr>act_id = next_id (map act_id (actions d)), act_operation = rq_operation_id request,
      act_run = rr_run_id run, act_discrepancy = disc, act_scope = rk_scope (bd_key b),
      act_fingerprint = bd_fingerprint b, act_target = rk_target (bd_key b),
      act_pre_hash = rk_pre_hash (bd_key b), act_pre_identity = rk_pre_identity (bd_key b),
      act_post_hash = rk_post_hash (bd_key b), act_post_identity = rk_post_identity (bd_key b),
      act_auth = rk_authorization (bd_key b), act_auth_scope = rk_authorization_scope (bd_key b),
      act_stage = ''prepared'', act_sequence = 0, act_lineage = rk_lineage (bd_key b)\<rparr>"

text \<open>The two outcome rows: the observed effect, and the terminal outcome that supersedes it.\<close>

definition record_outcomes ::
  "db \<Rightarrow> action_row \<Rightarrow> recovery_binding \<Rightarrow> str \<times> str option \<times> str option \<Rightarrow> db option" where
  "record_outcomes d a b x =
     (let (effect, pre, post) = x; effect_id = next_id (map out_id (outcomes d)) in
      (case insert_outcome d (outcome_row_of effect_id a b 1 ''effect_observed'' effect pre post None) of
         None \<Rightarrow> None
       | Some d2 \<Rightarrow> insert_outcome d2 (outcome_row_of (next_id (map out_id (outcomes d2))) a b 2 ''terminal''
             (terminal_status effect) pre post (Some effect_id))))"

text \<open>The transaction of \<open>recover_with_checkpoint\<close>; an error rolls the store back, not the files.\<close>

definition recovery_transaction ::
  "(bytes \<Rightarrow> bytes) \<Rightarrow> fs \<Rightarrow> file_answers \<Rightarrow> db \<Rightarrow> action_row \<Rightarrow> recovery_request \<Rightarrow> recovery_binding
     \<Rightarrow> recovery_checkpoint \<Rightarrow> (error + recovery_result) \<times> db \<times> file_op list" where
  "recovery_transaction sha f fa d a request b checkpoint =
     (case insert_action d a of
        None \<Rightarrow> (Inl (Sql ConstraintViolation), d, [])
      | Some d1 \<Rightarrow>
          (let (effect, ops) = recovery_effect sha f fa request b checkpoint in
           (case effect of
              Inl e \<Rightarrow> (Inl e, d, ops)
            | Inr x \<Rightarrow>
                (case record_outcomes d1 a b x of
                   None \<Rightarrow> (Inl (Sql ConstraintViolation), d, ops)
                 | Some d3 \<Rightarrow> (Inr \<lparr>rv_operation_id = rq_operation_id request,
                                 rv_status = terminal_status (fst x)\<rparr>, d3, ops)))))"

definition recover_with_checkpoint ::
  "(bytes \<Rightarrow> bytes) \<Rightarrow> (recovery_look \<Rightarrow> fs) \<Rightarrow> file_answers \<Rightarrow> db \<Rightarrow> reconciliation_result \<Rightarrow> recovery_request
     \<Rightarrow> recovery_checkpoint \<Rightarrow> (error + recovery_result) \<times> db \<times> file_op list" where
  "recover_with_checkpoint sha fs fa d run request checkpoint =
     (case row_with act_operation (rq_operation_id request) (actions d) of
        Some a \<Rightarrow> (replay_recovery sha (fs AtExisting) d run request a, d, [])
      | None \<Rightarrow>
          (case recovery_binding sha (fs AtBind) d run request of
             Inl e \<Rightarrow> (Inl e, d, [])
           | Inr b \<Rightarrow>
               if opt_any (\<lambda>path. is_ok (validate_parent (fs AtPrepare) path)) (rq_path request)
               then (case map_of (rr_discrepancy_ids run) ''filesystem'' of
                       None \<Rightarrow> (Inl Conflict, d, [])
                     | Some disc \<Rightarrow> recovery_transaction sha (fs AtEffect) fa d
                         (action_row_of d run request b disc) request b checkpoint)
               else (Inl Conflict, d, [])))"

definition recover_uniquely_safe ::
  "(bytes \<Rightarrow> bytes) \<Rightarrow> (recovery_look \<Rightarrow> fs) \<Rightarrow> file_answers \<Rightarrow> db \<Rightarrow> reconciliation_result \<Rightarrow> recovery_request
     \<Rightarrow> (error + recovery_result) \<times> db \<times> file_op list" where
  "recover_uniquely_safe sha fs fa d run request =
     recover_with_checkpoint sha fs fa d run request BeforePrepareCommit"


section \<open>The fingerprint identifies the recovery\<close>

lemma hex_digits_inject:
  assumes "a < 256" "b < (256::nat)" "hex_digit (a div 16) = hex_digit (b div 16)" "hex_digit (a mod 16) = hex_digit (b mod 16)"
  shows "a = b"
proof -
  have d: "a div 16 < 16" "b div 16 < 16" using assms(1,2) by simp_all
  have "a div 16 = b div 16"
    using arg_cong [OF assms(3), of hex_val] hex_digit_val [OF d(1)] hex_digit_val [OF d(2)] by metis
  moreover have m: "a mod 16 < 16" "b mod 16 < 16" by simp_all
  have "a mod 16 = b mod 16"
    using arg_cong [OF assms(4), of hex_val] hex_digit_val [OF m(1)] hex_digit_val [OF m(2)] by metis
  ultimately show ?thesis by (metis div_mult_mod_eq)
qed

lemma hex_bytes_inject [code_inj]: "hex_bytes a = hex_bytes b \<longleftrightarrow> a = b"
proof
  assume "hex_bytes a = hex_bytes b"
  then show "a = b"
  proof (induction a arbitrary: b)
    case Nil
    then show ?case by (cases b) (simp_all add: hex_bytes_def)
  next
    case (Cons c a)
    then obtain e b' where b: "b = e # b'" by (cases b) (simp_all add: hex_bytes_def)
    with Cons.prems have "byte_of c = (byte_of e :: nat)" "hex_bytes a = hex_bytes b'"
      using hex_digits_inject [of "byte_of c" "byte_of e"] by (simp_all add: hex_bytes_def)
    then show ?case using Cons.IH by (simp add: b)
  qed
qed simp

definition recovery_bounded :: "recovery_key \<Rightarrow> bool" where
  "recovery_bounded k = (short32 (rk_scope k) \<and> short32 (rk_lineage k) \<and> short32 (rk_kind k)
     \<and> short32 (rk_provenance k) \<and> is_i64 (rk_observation k) \<and> short32 (rk_target k)
     \<and> opt_all short32 (rk_pre_hash k) \<and> opt_all short32 (rk_pre_identity k)
     \<and> opt_all short32 (rk_post_hash k) \<and> opt_all short32 (rk_post_identity k)
     \<and> short32 (rk_authorization k) \<and> short32 (rk_authorization_scope k))"

lemma recovery_bytes_inject:
  assumes "recovery_bounded a" "recovery_bounded b" "recovery_bytes a = recovery_bytes b"
  shows "a = b"
proof -
  note ok = assms(1,2) [unfolded recovery_bounded_def]
  have one: "is_i64 1" by (simp add: is_i64_def)
  have "rk_scope a = rk_scope b" "rk_lineage a = rk_lineage b" "rk_kind a = rk_kind b"
    "rk_provenance a = rk_provenance b" "rk_observation a = rk_observation b"
    and rest: "opt_field32 (Some (rk_target a)) @ opt_field32 (rk_pre_hash a) @ opt_field32 (rk_pre_identity a)
     @ opt_field32 (rk_post_hash a) @ opt_field32 (rk_post_identity a)
     @ opt_field32 (Some (rk_authorization a)) @ opt_field32 (Some (rk_authorization_scope a))
     = opt_field32 (Some (rk_target b)) @ opt_field32 (rk_pre_hash b) @ opt_field32 (rk_pre_identity b)
     @ opt_field32 (rk_post_hash b) @ opt_field32 (rk_post_identity b)
     @ opt_field32 (Some (rk_authorization b)) @ opt_field32 (Some (rk_authorization_scope b))"
    using assms(3) ok unfolding recovery_bytes_def
    by (simp_all add: f32.enc_split_iff i64.enc_split_iff i64_be_inject one)
  moreover have "rk_target a = rk_target b \<and> rk_pre_hash a = rk_pre_hash b \<and> rk_pre_identity a = rk_pre_identity b
     \<and> rk_post_hash a = rk_post_hash b \<and> rk_post_identity a = rk_post_identity b
     \<and> rk_authorization a = rk_authorization b
     \<and> opt_field32 (Some (rk_authorization_scope a)) @ [] = opt_field32 (Some (rk_authorization_scope b)) @ []"
    using rest ok by (simp add: o32.enc_split_iff)
  moreover from this have "rk_authorization_scope a = rk_authorization_scope b"
    using ok o32.enc_split_iff [of "Some (rk_authorization_scope a)" "Some (rk_authorization_scope b)" "[]" "[]"] by simp
  ultimately show ?thesis by simp
qed

text \<open>
  Two recoveries with the same fingerprint are the same recovery, in all twelve fields, or
  the digest collides: the length-prefixed encoding confuses no two bounded bindings.
\<close>

theorem recovery_fingerprint_identifies:
  assumes "recovery_bounded a" "recovery_bounded b" "recovery_fingerprint sha a = recovery_fingerprint sha b"
  shows "a = b \<or> recovery_bytes a \<noteq> recovery_bytes b \<and> sha (recovery_bytes a) = sha (recovery_bytes b)"
  using assms recovery_bytes_inject [of a b]
  by (auto simp: recovery_fingerprint_def hash_bytes_def hex_bytes_inject)


section \<open>What a recovery does to the store\<close>

text \<open>Every recorded action has its two outcomes, in order, and nothing else has any.\<close>

definition outcomes_ok :: "action_row \<Rightarrow> outcome_row \<Rightarrow> outcome_row \<Rightarrow> bool" where
  "outcomes_ok a e t = (out_action e = act_id a \<and> out_action t = act_id a \<and> out_sequence e = 1
     \<and> out_sequence t = 2 \<and> out_supersedes t = Some (out_id e) \<and> out_pre t = out_pre e \<and> out_post t = out_post e
     \<and> out_result t = terminal_status (out_result e)
     \<and> (out_result e = ''effect_applied'' \<longrightarrow> out_post e = act_post_hash a))"

fun paired :: "action_row list \<Rightarrow> outcome_row list \<Rightarrow> bool" where
  "paired [] os = (os = [])"
| "paired (a # as) (e # t # os) = (outcomes_ok a e t \<and> paired as os)"
| "paired (a # as) os = False"

definition recovery_inv :: "db \<Rightarrow> bool" where
  "recovery_inv d =
     (distinct (map act_id (actions d)) \<and> distinct (map act_operation (actions d))
      \<and> distinct (map act_fingerprint (actions d)) \<and> distinct (map out_id (outcomes d))
      \<and> paired (actions d) (outcomes d)
      \<and> distinct (map rd_id (recons d))
      \<and> (\<forall>x\<in>set (recons d). opt_all (\<lambda>n. 0 \<le> n) (rd_observation x)))"

lemma paired_snoc: "paired as os \<Longrightarrow> outcomes_ok a e t \<Longrightarrow> paired (as @ [a]) (os @ [e, t])"
  by (induction as os rule: paired.induct) auto

lemma paired_actions: "paired as os \<Longrightarrow> x \<in> set os \<Longrightarrow> out_action x \<in> act_id ` set as"
  by (induction as os rule: paired.induct) (auto simp: outcomes_ok_def)

lemma paired_terminal:
  "paired as os \<Longrightarrow> distinct (map act_id as) \<Longrightarrow> a \<in> set as \<Longrightarrow>
     \<exists>e t. outcomes_ok a e t \<and> find (\<lambda>x. out_action x = act_id a \<and> out_sequence x = 2) os = Some t"
proof (induction as os rule: paired.induct)
  case (2 b as e t os)
  show ?case
  proof (cases "a = b")
    case True
    then show ?thesis using 2 by (auto simp: outcomes_ok_def)
  next
    case False
    then have a: "a \<in> set as" using 2(4) by simp
    then have "act_id a \<in> act_id ` set as" by simp
    moreover have "act_id b \<notin> act_id ` set as" using 2(3) by simp
    ultimately have "act_id b \<noteq> act_id a" by metis
    then show ?thesis using 2(1) [OF _ _ a] 2(2,3) by (simp add: outcomes_ok_def)
  qed
qed auto

lemma outcome_row_of_simps [simp]:
  "out_id (outcome_row_of i a b n s r pre post su) = i"
  "out_action (outcome_row_of i a b n s r pre post su) = act_id a"
  "out_run (outcome_row_of i a b n s r pre post su) = act_run a"
  "out_scope (outcome_row_of i a b n s r pre post su) = act_scope a"
  "out_sequence (outcome_row_of i a b n s r pre post su) = n"
  "out_status (outcome_row_of i a b n s r pre post su) = r"
  "out_lineage (outcome_row_of i a b n s r pre post su) = act_lineage a"
  "out_stage (outcome_row_of i a b n s r pre post su) = s"
  "out_result (outcome_row_of i a b n s r pre post su) = r"
  "out_pre (outcome_row_of i a b n s r pre post su) = pre"
  "out_post (outcome_row_of i a b n s r pre post su) = post"
  "out_observation (outcome_row_of i a b n s r pre post su) = rk_observation (bd_key b)"
  "out_supersedes (outcome_row_of i a b n s r pre post su) = su"
  "out_supersedes_action (outcome_row_of i a b n s r pre post su) = map_option (\<lambda>_. act_id a) su"
  by (simp_all add: outcome_row_of_def)

text \<open>The three effects, with what the triggers demand of them.\<close>

definition effect_ok :: "str \<times> str option \<times> str option \<Rightarrow> bool" where
  "effect_ok x = (case x of (effect, pre, post) \<Rightarrow> pre \<noteq> None
     \<and> (effect = ''effect_applied'' \<and> post \<noteq> None \<or> effect = ''effect_not_started'' \<and> post = None
        \<or> effect = ''effect_unknown'' \<and> post \<noteq> None))"

lemma record_outcomes_Some:
  assumes a: "a \<in> set (actions d)" and new: "\<forall>x\<in>set (outcomes d). out_action x \<noteq> act_id a"
    and obs: "0 \<le> rk_observation (bd_key b)" and x: "effect_ok (effect, pre, post)"
  shows "\<exists>i j. record_outcomes d a b (effect, pre, post) = Some (d\<lparr>outcomes := outcomes d @
      [outcome_row_of i a b 1 ''effect_observed'' effect pre post None,
       outcome_row_of j a b 2 ''terminal'' (terminal_status effect) pre post (Some i)]\<rparr>)
    \<and> distinct [i, j] \<and> {i, j} \<inter> out_id ` set (outcomes d) = {}"
proof -
  let ?i = "next_id (map out_id (outcomes d))"
  let ?e = "outcome_row_of ?i a b 1 ''effect_observed'' effect pre post None"
  let ?d2 = "d\<lparr>outcomes := outcomes d @ [?e]\<rparr>"
  let ?j = "next_id (map out_id (outcomes ?d2))"
  let ?t = "outcome_row_of ?j a b 2 ''terminal'' (terminal_status effect) pre post (Some ?i)"
  have i: "?i \<notin> out_id ` set (outcomes d)" using next_id_fresh [of "map out_id (outcomes d)"] by simp
  have j: "?j \<notin> out_id ` set (outcomes ?d2)" using next_id_fresh [of "map out_id (outcomes ?d2)"] by (metis list.set_map)
  have "insert_outcome d ?e = Some ?d2"
    using a new obs x i
    by (auto simp: insert_outcome_def new_key_def outcome_guard_def effect_guard_def terminal_guard_def
        correction_guard_def effect_ok_def)
  moreover have "insert_outcome ?d2 ?t = Some (?d2\<lparr>outcomes := outcomes ?d2 @ [?t]\<rparr>)"
  proof -
    have keys: "new_key out_id ?t (outcomes ?d2)" "new_key (\<lambda>x. (out_action x, out_sequence x)) ?t (outcomes ?d2)"
      "new_key (\<lambda>x. (out_action x, out_supersedes x)) ?t (outcomes ?d2)"
      using new j by (auto simp: new_key_def)
    have only: "x = ?e" if "x \<in> set (outcomes ?d2)" "out_action x = act_id a" for x
      using that new by auto
    have e: "?e \<in> set (outcomes ?d2)" by simp
    have act: "\<exists>y\<in>set (actions ?d2). act_id y = out_action ?t \<and> act_run y = out_run ?t
        \<and> act_scope y = out_scope ?t \<and> act_lineage y = out_lineage ?t"
      using a by auto
    have "out_result ?t \<in> set terminal_results"
      by (simp add: terminal_results_def terminal_status_def)
    moreover have "\<exists>x\<in>set (outcomes ?d2). supersedes_row ?t x \<and> out_sequence x = 1 \<and> out_stage x = ''effect_observed''"
      using e by (intro bexI [of _ ?e]) (simp_all add: supersedes_row_def)
    moreover have "(out_result ?t = ''applied'' \<longrightarrow> out_result ?e = ''effect_applied'')
        \<and> (out_result ?t \<in> {''blocked'', ''same''} \<longrightarrow> out_result ?e = ''effect_not_started'')
        \<and> (out_result ?t = ''unknown'' \<longrightarrow> out_result ?e = ''effect_unknown'')"
      using x by (auto simp: terminal_status_def effect_ok_def)
    moreover have "x = ?e" if "x \<in> set (outcomes ?d2)" "Some (out_action x) = out_supersedes_action ?t" for x
      by (rule only [OF that(1)]) (use that(2) in simp)
    ultimately have "terminal_guard ?d2 ?t"
      unfolding terminal_guard_def by (metis outcome_row_of_simps(8))
    moreover have "\<exists>x\<in>set (outcomes ?d2). out_action x = out_action ?t \<and> out_sequence x = out_sequence ?t - 1"
      using e by (intro bexI [of _ ?e]) simp_all
    ultimately have "outcome_guard ?d2 ?t"
      unfolding outcome_guard_def using act by (simp add: effect_guard_def correction_guard_def)
    then show ?thesis using keys obs by (simp add: insert_outcome_def)
  qed
  ultimately show ?thesis using i j
    by (intro exI [of _ ?i] exI [of _ ?j]) (auto simp: record_outcomes_def Let_def)
qed


lemma recovery_effect_ok:
  assumes "recovery_effect sha f fa request b checkpoint = (Inr x, ops)"
  shows "effect_ok x \<and> (fst x = ''effect_applied'' \<longrightarrow> snd (snd x) = rk_post_hash (bd_key b))"
proof -
  define pre where "pre = (case rk_pre_hash (bd_key b) of Some h \<Rightarrow> Some h | None \<Rightarrow> Some ''missing'')"
  have pre: "pre \<noteq> None" by (simp add: pre_def split: option.splits)
  note eq = assms [unfolded recovery_effect_def pre_def [symmetric] Let_def]
  consider "x = (''effect_not_started'', pre, None)" | "x = (''effect_unknown'', pre, Some ''unknown'')"
    | h where "x = (''effect_applied'', pre, Some h)" "rk_post_hash (bd_key b) = Some h"
    using eq by (auto simp: eq_commute [of "Some _" "rk_post_hash (bd_key b)"] split: if_splits sum.splits prod.splits)
  then show ?thesis by cases (use pre in \<open>auto simp: effect_ok_def\<close>)
qed

lemma recovery_effect_error: "recovery_effect sha f fa request b checkpoint = (Inl e, ops) \<Longrightarrow> e = Conflict"
  by (auto simp: recovery_effect_def Let_def split: if_splits sum.splits)

lemma recovery_effect_ops:
  assumes "recovery_effect sha f fa request b checkpoint = (res, ops)"
  shows "prefix ops [CreateNew (the (rq_path request)) 0x180,
      WriteAll (the (rq_path request)) (the (rq_replacement request)), SyncAll (the (rq_path request))]"
    and "ops \<noteq> [] \<Longrightarrow> checkpoint \<notin> {AfterPrepare, OutcomeCommitUnknown}"
  using assms by (auto simp: recovery_effect_def Let_def split: if_splits sum.splits)

lemma insert_action_facts:
  assumes "insert_action d a = Some d1"
  shows "d1 = d\<lparr>actions := actions d @ [a]\<rparr> \<and> act_id a \<notin> act_id ` set (actions d)
    \<and> act_operation a \<notin> act_operation ` set (actions d) \<and> act_fingerprint a \<notin> act_fingerprint ` set (actions d)"
  using assms by (auto simp: insert_action_def new_key_def split: if_splits)

lemma recovery_transaction_cases:
  assumes inv: "recovery_inv d" and obs: "0 \<le> rk_observation (bd_key b)"
    and post: "rk_post_hash (bd_key b) = act_post_hash a"
    and run: "recovery_transaction sha f fa d a request b checkpoint = (res, d', ops)"
  obtains (Refused) "res = Inl (Sql ConstraintViolation)" "d' = d" "ops = []"
  | (Failed) "res = Inl Conflict" "d' = d"
      "recovery_effect sha f fa request b checkpoint = (Inl Conflict, ops)"
  | (Recovered) x e t where "res = Inr \<lparr>rv_operation_id = rq_operation_id request, rv_status = terminal_status (fst x)\<rparr>"
      "recovery_effect sha f fa request b checkpoint = (Inr x, ops)"
      "d' = d\<lparr>actions := actions d @ [a], outcomes := outcomes d @ [e, t]\<rparr>" "outcomes_ok a e t"
      "out_result e = fst x" "recovery_inv d'"
proof (cases "insert_action d a")
  case None
  then show ?thesis using Refused run by (simp add: recovery_transaction_def)
next
  case (Some d1)
  note f = insert_action_facts [OF Some]
  obtain eff ops' where eff: "recovery_effect sha f fa request b checkpoint = (eff, ops')"
    by (cases "recovery_effect sha f fa request b checkpoint")
  show ?thesis
  proof (cases eff)
    case (Inl err)
    then show ?thesis
      using Failed run Some eff recovery_effect_error [of sha f fa request b checkpoint err ops']
      by (simp add: recovery_transaction_def Let_def)
  next
    case (Inr x)
    obtain effect pre post' where x: "x = (effect, pre, post')" by (cases x)
    have ok: "effect_ok x" "fst x = ''effect_applied'' \<longrightarrow> snd (snd x) = rk_post_hash (bd_key b)"
      using recovery_effect_ok eff Inr by blast+
    have new: "\<forall>y\<in>set (outcomes d1). out_action y \<noteq> act_id a"
    proof -
      have "\<forall>y\<in>set (outcomes d). out_action y \<in> act_id ` set (actions d)"
        using inv paired_actions [of "actions d" "outcomes d"] unfolding recovery_inv_def by blast
      with f show ?thesis by simp metis
    qed
    obtain i j where rec: "record_outcomes d1 a b x = Some (d1\<lparr>outcomes := outcomes d1 @
        [outcome_row_of i a b 1 ''effect_observed'' effect pre post' None,
         outcome_row_of j a b 2 ''terminal'' (terminal_status effect) pre post' (Some i)]\<rparr>)"
      and ids: "distinct [i, j]" "{i, j} \<inter> out_id ` set (outcomes d1) = {}"
      using record_outcomes_Some [of a d1 b effect pre post'] f new obs ok(1) unfolding x by auto
    let ?e = "outcome_row_of i a b 1 ''effect_observed'' effect pre post' None"
    let ?t = "outcome_row_of j a b 2 ''terminal'' (terminal_status effect) pre post' (Some i)"
    have res: "res = Inr \<lparr>rv_operation_id = rq_operation_id request, rv_status = terminal_status (fst x)\<rparr>"
      "d' = d\<lparr>actions := actions d @ [a], outcomes := outcomes d @ [?e, ?t]\<rparr>" "ops = ops'"
      using run Some eff Inr rec f by (simp_all add: recovery_transaction_def Let_def)
    have pair: "outcomes_ok a ?e ?t" using ok(2) post by (simp add: outcomes_ok_def x)
    have "recovery_inv d'"
      using inv f ids pair paired_snoc [of "actions d" "outcomes d" a ?e ?t]
      by (auto simp: recovery_inv_def res(2))
    then show ?thesis using Recovered [of x ?e ?t] res eff Inr pair x by simp
  qed
qed

lemma recovery_binding_Inr:
  assumes "recovery_binding sha f d run request = Inr b"
  obtains r x path data where
    "persisted_discrepancy d (rr_run_id run) (snd (hd (rr_discrepancy_ids run))) = Some (r, x)"
    "rq_path request = Some path" "rq_replacement request = Some data" "run_status r = ''blocked''"
    "rd_kind x = Some ''filesystem''" "validate_parent f path = Inr ()"
    "logical_target_identity f path = rd_provenance x" "rd_provenance x = Some (rk_target (bd_key b))"
    "rq_authorization_identity request \<noteq> []" "rq_authorization_scope request \<noteq> []"
    "rk_authorization (bd_key b) = rq_authorization_identity request"
    "rk_authorization_scope (bd_key b) = rq_authorization_scope request"
    "rk_post_hash (bd_key b) = Some (hash_bytes sha data)" "rk_post_identity (bd_key b) = Some (rk_target (bd_key b))"
    "rd_observation x = Some (rk_observation (bd_key b))" "rk_scope (bd_key b) = rr_scope_id run"
    "bd_fingerprint b = recovery_fingerprint sha (bd_key b)" "length (rr_discrepancy_ids run) = 1"
    "fst (hd (rr_discrepancy_ids run)) = ''filesystem''"
proof -
  have c1: "\<not> (rr_authoritative run \<or> rr_status run \<noteq> ''blocked'' \<or> length (rr_discrepancy_ids run) \<noteq> 1)"
    by (rule notI) (use assms in \<open>simp only: recovery_binding_def if_True sum.distinct\<close>)
  note eq = assms [unfolded recovery_binding_def if_not_P [OF c1]]
  have c2: "\<not> (fst (hd (rr_discrepancy_ids run)) \<noteq> ''filesystem'' \<or> rr_mismatches run \<noteq> [''filesystem''])"
    by (rule notI) (use eq in \<open>simp only: if_True sum.distinct\<close>)
  note eq = eq [unfolded if_not_P [OF c2]]
  obtain r x where px: "persisted_discrepancy d (rr_run_id run) (snd (hd (rr_discrepancy_ids run))) = Some (r, x)"
    using eq by (cases "persisted_discrepancy d (rr_run_id run) (snd (hd (rr_discrepancy_ids run)))") auto
  note eq = eq [unfolded px option.case prod.case]
  obtain k prov n where cols: "rd_kind x = Some k" "rd_provenance x = Some prov" "rd_observation x = Some n"
    using eq by (cases "rd_kind x"; cases "rd_provenance x"; cases "rd_observation x") simp_all
  note eq = eq [unfolded cols option.case prod.case]
  have c3: "\<not> (run_scope r \<noteq> rr_scope_id run \<or> run_lineage r \<noteq> rr_source_lineage run
      \<or> run_status r \<noteq> rr_status run \<or> k \<noteq> ''filesystem'')"
    by (rule notI) (use eq in \<open>simp only: if_True sum.distinct\<close>)
  note eq = eq [unfolded if_not_P [OF c3]]
  obtain target where target: "recovery_target f request = Inr target"
    using eq by (cases "recovery_target f request") simp_all
  obtain path where path: "rq_path request = Some path" "validate_parent f path = Inr ()"
      "logical_target_identity f path = Some target"
    using target by (auto simp: recovery_target_def split: option.splits sum.splits)
  obtain data where data: "rq_replacement request = Some data"
    using eq target by (cases "rq_replacement request") simp_all
  note eq = eq [unfolded target data sum.case option.case]
  have c4: "\<not> (target \<noteq> prov \<or> rq_authorization_identity request = [] \<or> rq_authorization_scope request = [])"
    by (rule notI) (use eq in \<open>simp only: if_True sum.distinct\<close>)
  note eq = eq [unfolded if_not_P [OF c4] Let_def]
  show ?thesis
    by (rule that [OF px path(1) data _ _ path(2)])
      (use c1 c2 c3 c4 cols path(3) eq in \<open>auto simp: split: option.splits\<close>)
qed

text \<open>What a call of \<open>recover_with_checkpoint\<close> can be: a replay, a refusal before any effect, or a transaction.\<close>

lemma recover_cases:
  assumes "recover_with_checkpoint sha fs fa d run request checkpoint = (res, d', ops)"
  obtains (Replayed) a where "row_with act_operation (rq_operation_id request) (actions d) = Some a"
      "res = replay_recovery sha (fs AtExisting) d run request a" "d' = d" "ops = []"
  | (Refused) e where "row_with act_operation (rq_operation_id request) (actions d) = None" "res = Inl e" "d' = d" "ops = []"
      "\<nexists>b. recovery_binding sha (fs AtBind) d run request = Inr b
          \<and> opt_any (\<lambda>path. is_ok (validate_parent (fs AtPrepare) path)) (rq_path request)"
  | (Started) b where "row_with act_operation (rq_operation_id request) (actions d) = None"
      "recovery_binding sha (fs AtBind) d run request = Inr b"
      "opt_any (\<lambda>path. is_ok (validate_parent (fs AtPrepare) path)) (rq_path request)"
      "recovery_transaction sha (fs AtEffect) fa d
         (action_row_of d run request b (snd (hd (rr_discrepancy_ids run)))) request b checkpoint = (res, d', ops)"
proof (cases "row_with act_operation (rq_operation_id request) (actions d)")
  case (Some a)
  show ?thesis by (rule Replayed [OF Some]) (use assms Some in \<open>auto simp: recover_with_checkpoint_def\<close>)
next
  case None
  show ?thesis
  proof (cases "recovery_binding sha (fs AtBind) d run request")
    case (Inl e)
    show ?thesis by (rule Refused [of e, OF None]) (use assms None Inl in \<open>simp_all add: recover_with_checkpoint_def\<close>)
  next
    case (Inr b)
    have l: "length (rr_discrepancy_ids run) = 1 \<and> fst (hd (rr_discrepancy_ids run)) = ''filesystem''"
      using Inr by (rule recovery_binding_Inr) (rule conjI)
    obtain k v where ids: "rr_discrepancy_ids run = [(k, v)]" "k = ''filesystem''"
      using l by (cases "rr_discrepancy_ids run") auto
    show ?thesis
    proof (cases "opt_any (\<lambda>path. is_ok (validate_parent (fs AtPrepare) path)) (rq_path request)")
      case True
      show ?thesis by (rule Started [OF None Inr True])
        (use assms None Inr ids True in \<open>simp add: recover_with_checkpoint_def\<close>)
    next
      case False
      show ?thesis by (rule Refused [of Conflict, OF None])
        (use assms None Inr False in \<open>simp_all add: recover_with_checkpoint_def\<close>)
    qed
  qed
qed

lemma row_with_find: "persisted_discrepancy d run disc = Some (r, x) \<Longrightarrow> x \<in> set (recons d) \<and> r \<in> set (runs d) \<and> rd_id x = disc"
  by (auto simp: persisted_discrepancy_def find_Some_iff dest: row_with_Some split: option.splits)

lemma action_row_of_simps [simp]:
  "act_post_hash (action_row_of d run request b disc) = rk_post_hash (bd_key b)"
  "act_operation (action_row_of d run request b disc) = rq_operation_id request"
  "act_target (action_row_of d run request b disc) = rk_target (bd_key b)"
  "act_auth (action_row_of d run request b disc) = rk_authorization (bd_key b)"
  "act_auth_scope (action_row_of d run request b disc) = rk_authorization_scope (bd_key b)"
  "act_scope (action_row_of d run request b disc) = rk_scope (bd_key b)"
  "act_fingerprint (action_row_of d run request b disc) = bd_fingerprint b"
  by (simp_all add: action_row_of_def)

lemma binding_observation:
  assumes "recovery_inv d" "recovery_binding sha f d run request = Inr b"
  shows "0 \<le> rk_observation (bd_key b)"
  using assms(2)
proof (cases rule: recovery_binding_Inr)
  case (1 r x path data)
  then have "x \<in> set (recons d)" using row_with_find by blast
  then show ?thesis using assms(1) 1 unfolding recovery_inv_def by (metis opt_all_simps(2))
qed

text \<open>
  C19: recovery keeps the books consistent whatever the files do: every action keeps its own
  operation name and its own fingerprint (so no effect is ever performed for a binding that has
  one), and exactly one observed effect with one terminal outcome that matches it. A failed
  call leaves the store as it was, and once a file has been touched the only failure left is
  the file operation's own: no row is refused after the effect.
\<close>

theorem recovery_consistent:
  assumes "recovery_inv d" "recover_with_checkpoint sha fs fa d run request checkpoint = (res, d', ops)"
  shows "recovery_inv d' \<and> (\<forall>e. res = Inl e \<longrightarrow> d' = d \<and> (ops \<noteq> [] \<longrightarrow> e = Conflict))"
  using assms(2)
proof (cases rule: recover_cases)
  case (Started b)
  show ?thesis
    using assms(1) binding_observation [OF assms(1) Started(2)] action_row_of_simps(1) [symmetric] Started(4)
    by (rule recovery_transaction_cases) (use assms(1) in auto)
qed (use assms(1) in auto)


text \<open>
  C21: a recovery that a fresh call reports as applied has happened: the file was created,
  written and synced, and the file seen afterwards at the path has the digest of the content
  that was asked for.
\<close>

theorem applied_means_written:
  assumes "recovery_inv d" "rq_operation_id request \<notin> act_operation ` set (actions d)"
    and "recover_with_checkpoint sha fs fa d run request checkpoint = (Inr v, d', ops)"
    and "rv_status v = ''applied''"
  shows "\<exists>path data i. rq_path request = Some path \<and> rq_replacement request = Some data
    \<and> ops = [CreateNew path 0x180, WriteAll path data, SyncAll path]
    \<and> observe sha (fs AtEffect) path None = Inr (i, hash_bytes sha data)"
  using assms(3)
proof (cases rule: recover_cases)
  case (Replayed a)
  then show ?thesis using assms(2) row_with_Some [of act_operation _ "actions d" a] by force
next
  case (Started b)
  from Started(2) obtain path data where p: "rq_path request = Some path" "rq_replacement request = Some data"
      "rk_post_hash (bd_key b) = Some (hash_bytes sha data)"
    by (rule recovery_binding_Inr)
  show ?thesis
    using assms(1) binding_observation [OF assms(1) Started(2)] action_row_of_simps(1) [symmetric] Started(4)
  proof (rule recovery_transaction_cases)
    fix x e t
    assume r: "Inr v = Inr \<lparr>rv_operation_id = rq_operation_id request, rv_status = terminal_status (fst x)\<rparr>"
      and eff: "recovery_effect sha (fs AtEffect) fa request b checkpoint = (Inr x, ops)"
    have "fst x = ''effect_applied''"
      using r assms(4) by (auto simp: terminal_status_def split: if_splits)
    with eff p show ?thesis
      by (auto simp: recovery_effect_def Let_def split: if_splits sum.splits)
  qed simp_all
qed simp


lemma find_prefix: "prefix xs ys \<Longrightarrow> find P xs = Some x \<Longrightarrow> find P ys = Some x"
  by (auto simp: prefix_def find_Some_iff nth_append)

lemma find_append_None: "find P xs = None \<Longrightarrow> find P (xs @ ys) = find P ys"
  by (induction xs) (auto split: if_splits)

text \<open>The target a fresh recovery was bound to.\<close>

lemma recovery_binding_target:
  "recovery_binding sha f d run request = Inr b \<Longrightarrow> recovery_target f request = Inr (rk_target (bd_key b))"
  by (erule recovery_binding_Inr) (simp add: recovery_target_def)

text \<open>
  C22: recovery is idempotent: asking again for a recovery that succeeded, at any later time,
  with the same content, authorization and scope and while the path still names the same place,
  returns the recorded status, performs no file operation and changes nothing.
\<close>

theorem recovery_idempotent:
  assumes "recovery_inv d" "rq_operation_id request \<notin> act_operation ` set (actions d)"
    and "recover_with_checkpoint sha fs fa d run request checkpoint = (Inr v, d1, ops)"
    and "prefix (actions d1) (actions d2)" "prefix (outcomes d1) (outcomes d2)"
    and "rr_scope_id run' = rr_scope_id run"
    and "recovery_target (fs' AtExisting) request = recovery_target (fs AtBind) request"
  shows "recover_with_checkpoint sha fs' fa' d2 run' request checkpoint' = (Inr v, d2, [])"
  using assms(3)
proof (cases rule: recover_cases)
  case (Replayed a)
  then show ?thesis using assms(2) row_with_Some [of act_operation _ "actions d" a] by force
next
  case (Started b)
  let ?a = "action_row_of d run request b (snd (hd (rr_discrepancy_ids run)))"
  show ?thesis
    using assms(1) binding_observation [OF assms(1) Started(2)] action_row_of_simps(1) [symmetric] Started(4)
  proof (rule recovery_transaction_cases)
    fix x e t
    assume v: "Inr v = Inr \<lparr>rv_operation_id = rq_operation_id request, rv_status = terminal_status (fst x)\<rparr>"
      and d1: "d1 = d\<lparr>actions := actions d @ [?a], outcomes := outcomes d @ [e, t]\<rparr>"
      and ok: "outcomes_ok ?a e t" "out_result e = fst x" and inv: "recovery_inv d1"
    have "row_with act_operation (rq_operation_id request) (actions d1) = Some ?a"
      using Started(1) by (simp add: d1)
    then have row: "row_with act_operation (rq_operation_id request) (actions d2) = Some ?a"
      by (rule row_with_prefix [OF assms(4)])
    have "\<forall>y\<in>set (outcomes d). out_action y \<noteq> act_id ?a"
    proof -
      have "\<forall>y\<in>set (outcomes d). out_action y \<in> act_id ` set (actions d)"
        using assms(1) paired_actions [of "actions d" "outcomes d"] unfolding recovery_inv_def by blast
      moreover have "act_id ?a \<notin> act_id ` set (actions d)"
        using inv by (simp add: recovery_inv_def d1)
      ultimately show ?thesis by metis
    qed
    then have "find (\<lambda>y. out_action y = act_id ?a \<and> out_sequence y = 2) (outcomes d) = None"
      by (auto simp: find_None_iff)
    then have "find (\<lambda>y. out_action y = act_id ?a \<and> out_sequence y = 2) (outcomes d @ [e, t]) = Some t"
      using ok(1) by (simp add: find_append_None outcomes_ok_def)
    then have "find (\<lambda>y. out_action y = act_id ?a \<and> out_sequence y = 2) (outcomes d1) = Some t"
      by (simp add: d1)
    then have terminal: "find (\<lambda>y. out_action y = act_id ?a \<and> out_sequence y = 2) (outcomes d2) = Some t"
      by (rule find_prefix [OF assms(5)])
    from Started(2) obtain data where data: "rq_replacement request = Some data"
        "rk_post_hash (bd_key b) = Some (hash_bytes sha data)" "rk_scope (bd_key b) = rr_scope_id run"
        "rk_authorization (bd_key b) = rq_authorization_identity request"
        "rk_authorization_scope (bd_key b) = rq_authorization_scope request"
      by (rule recovery_binding_Inr)
    have "replay_recovery sha (fs' AtExisting) d2 run' request ?a = Inr v"
      using v terminal data ok assms(6)
      by (simp add: replay_recovery_def assms(7) recovery_binding_target [OF Started(2)] outcomes_ok_def)
    then show ?thesis by (simp add: recover_with_checkpoint_def row)
  qed simp_all
qed simp

text \<open>What a recovery touches.\<close>

lemma record_outcomes_frame:
  assumes "record_outcomes d a b x = Some d'"
  shows "\<exists>os. d' = d\<lparr>outcomes := outcomes d @ os\<rparr>"
proof -
  obtain e t d2 where "insert_outcome d e = Some d2" "insert_outcome d2 t = Some d'"
    using assms by (cases x) (auto simp: record_outcomes_def Let_def split: option.splits)
  from insert_outcome_db [OF this(1)] insert_outcome_db [OF this(2)] show ?thesis
    by (intro exI [of _ "[e, t]"]) simp
qed

lemma recover_frame:
  assumes "recover_with_checkpoint sha fs fa d run request checkpoint = (res, d', ops)"
  shows "d' = d \<or> (\<exists>a os. d' = d\<lparr>actions := actions d @ [a], outcomes := outcomes d @ os\<rparr>)"
  using assms
proof (cases rule: recover_cases)
  case (Started b)
  let ?a = "action_row_of d run request b (snd (hd (rr_discrepancy_ids run)))"
  note run = Started(4) [unfolded recovery_transaction_def Let_def]
  show ?thesis
  proof (cases "d' = d")
    case False
    then obtain d1 where d1: "insert_action d ?a = Some d1"
      using run by (cases "insert_action d ?a") simp_all
    obtain x where "record_outcomes d1 ?a b x = Some d'"
      using run d1 False by (auto split: prod.splits sum.splits option.splits)
    then obtain os where "d' = d1\<lparr>outcomes := outcomes d1 @ os\<rparr>"
      using record_outcomes_frame by blast
    then show ?thesis using insert_action_db [OF d1] by auto
  qed simp
qed simp_all


text \<open>The other operations keep the recovery tables in order.\<close>

lemma recovery_inv_run_appended [step_inv]: "recovery_inv d \<Longrightarrow> run_appended d d' \<Longrightarrow> recovery_inv d'"
  by (auto simp: run_appended_def recovery_inv_def Int_commute)

lemma recovery_inv_same:
  "recovery_inv d \<Longrightarrow> actions d' = actions d \<Longrightarrow> outcomes d' = outcomes d \<Longrightarrow> recons d' = recons d \<Longrightarrow> recovery_inv d'"
  by (simp add: recovery_inv_def)

lemma recovery_inv_import [step_inv]:
  "recovery_inv d \<Longrightarrow> import_artifact_version sha pr fs d r = Some (res, d') \<Longrightarrow> recovery_inv d'"
  using import_other_tables by (blast intro: recovery_inv_same)

lemma recovery_inv_projection_only [step_inv]: "recovery_inv d \<Longrightarrow> projection_only d d' \<Longrightarrow> recovery_inv d'"
  by (erule recovery_inv_same) (simp_all add: projection_only_frame)

lemma recovery_inv_empty: "recovery_inv empty_db"
  by (simp add: recovery_inv_def empty_db_def)

lemma reconcile_owned_steps:
  assumes "reconcile_owned_with_change sha up fs d scope ids applicable changed = (res, d')"
  shows "projection_only d d' \<or> (\<exists>d1. projection_only d d1 \<and> run_appended d1 d')"
proof -
  obtain p d1 where all: "all_projections_complete sha up d (filter (starts_with ''projection-'') ids) = (p, d1)"
    by (cases "all_projections_complete sha up d (filter (starts_with ''projection-'') ids)")
  note o = projection_only_all [OF all]
  note eq = assms [unfolded reconcile_owned_with_change_def Let_def all prod.case]
  show ?thesis
  proof (cases "d' = d1")
    case False
    then obtain ob surfaces where "reconcile_record fs d1 scope applicable changed ob surfaces = (res, d')"
      using eq by (auto split: if_splits option.splits)
    then show ?thesis using run_appended_record o by blast
  qed (use o in simp)
qed

section \<open>Concrete runs\<close>

text \<open>The file of \<open>demo_imported\<close> has gone; reconciling blocks, and a recovery brings it back.\<close>

definition demo_dir :: file_meta where
  "demo_dir = \<lparr>dev = 1, ino = 2, uid = 1000, mode = 0x1C0, kind = Directory, len = 0\<rparr>"

definition gone_fs :: fs where
  "gone_fs = \<lparr>canonicalize = Some,
     symlink_metadata = (\<lambda>p. if p = ''/w/f'' then NotFound else Found demo_dir),
     metadata = (\<lambda>p. if p = ''/w/f'' then None else Some demo_dir), open_nofollow = (\<lambda>_. None)\<rparr>"

definition back_fs :: fs where
  "back_fs = gone_fs\<lparr>open_nofollow := (\<lambda>_. Some \<lparr>meta_before = Some demo_meta,
     content = Some ''hello'', meta_after = Some demo_meta\<rparr>)\<rparr>"

definition recovery_fs :: "recovery_look \<Rightarrow> fs" where
  "recovery_fs l = (if l = AtEffect then back_fs else gone_fs)"

definition demo_scope :: reconciliation_scope where
  "demo_scope = \<lparr>sc_id = ''op1'', sc_path = ''/w/f'', sc_artifact_id = ''a'',
     sc_version_id = new_version_id demo_sha demo_import\<rparr>"

definition demo_run :: reconciliation_result where
  "demo_run = \<lparr>rr_status = ''blocked'', rr_repair_applied = False, rr_mismatches = [''filesystem''],
     rr_authoritative = False,
     rr_provenance = [(''events'', \<lparr>pv_expected = ''store'', pv_observed = ''store''\<rparr>),
       (''projection'', \<lparr>pv_expected = ''store'', pv_observed = ''store''\<rparr>),
       (''filesystem'', \<lparr>pv_expected = ''store'', pv_observed = ''observed''\<rparr>),
       (''git'', \<lparr>pv_expected = ''store'', pv_observed = ''not_applicable''\<rparr>)],
     rr_run_id = 1, rr_scope_id = ''op1'', rr_source_lineage = ''native'',
     rr_discrepancy_ids = [(''filesystem'', 1)]\<rparr>"

definition demo_reconciled :: db where
  "demo_reconciled = snd (reconcile_owned demo_sha demo_up (\<lambda>_. gone_fs) demo_imported demo_scope [] False)"

definition demo_answers :: file_answers where
  "demo_answers = \<lparr>fa_create = True, fa_write = True, fa_sync = True\<rparr>"

definition demo_recovered :: db where
  "demo_recovered = fst (snd (recover_uniquely_safe demo_sha recovery_fs demo_answers demo_reconciled demo_run
     (request_safe ''rec1'' ''/w/f'' ''hello'')))"

lemma demo_reconcile_run: "reconcile_owned demo_sha demo_up (\<lambda>_. gone_fs) demo_imported demo_scope [] False
    = (Inr demo_run, demo_reconciled)"
  by code_simp

lemma demo_recover_run: "recover_with_checkpoint demo_sha recovery_fs demo_answers demo_reconciled demo_run
      (request_safe ''rec1'' ''/w/f'' ''hello'') BeforePrepareCommit
    = (Inr \<lparr>rv_operation_id = ''rec1'', rv_status = ''applied''\<rparr>, demo_recovered,
       [CreateNew ''/w/f'' 0x180, WriteAll ''/w/f'' ''hello'', SyncAll ''/w/f''])"
  by code_simp


lemma demo_recovery_inv: "recovery_inv demo_imported" "recovery_inv demo_reconciled"
proof -
  show i: "recovery_inv demo_imported"
    by (rule recovery_inv_import [OF recovery_inv_empty demo_import_run])
  show "recovery_inv demo_reconciled"
    using reconcile_owned_steps [OF demo_reconcile_run [unfolded reconcile_owned_def]] i
    by (auto intro: step_inv)
qed

lemma demo_rec1_fresh: "rq_operation_id (request_safe ''rec1'' ''/w/f'' ''hello'') \<notin> act_operation ` set (actions demo_reconciled)"
proof -
  have "map act_operation (actions demo_reconciled) = []" by code_simp
  then show ?thesis by simp
qed


definition demo_key :: "str \<Rightarrow> recovery_key" where
  "demo_key s = \<lparr>rk_scope = s, rk_lineage = ''native'', rk_kind = ''filesystem'', rk_provenance = ''t'',
     rk_observation = 0, rk_target = ''t'', rk_pre_hash = None, rk_pre_identity = None,
     rk_post_hash = Some ''h'', rk_post_identity = Some ''t'', rk_authorization = ''me'',
     rk_authorization_scope = ''store''\<rparr>"

lemma recovery_fingerprint_identifies_witness:
  "recovery_bytes (demo_key ''a'') \<noteq> recovery_bytes (demo_key ''b'')
     \<and> demo_sha (recovery_bytes (demo_key ''a'')) = demo_sha (recovery_bytes (demo_key ''b''))"
proof -
  have "recovery_bounded (demo_key s)" if "length s = 1" for s
    using that by (simp add: recovery_bounded_def demo_key_def short32_def is_i64_def)
  moreover have "recovery_fingerprint demo_sha (demo_key ''a'') = recovery_fingerprint demo_sha (demo_key ''b'')"
    by code_simp
  moreover have "demo_key ''a'' \<noteq> demo_key ''b''" by (simp add: demo_key_def)
  ultimately show ?thesis
    using recovery_fingerprint_identifies [of "demo_key ''a''" "demo_key ''b''" demo_sha] by simp
qed

lemma recovery_consistent_witness: "recovery_inv demo_recovered"
  using recovery_consistent [OF demo_recovery_inv(2) demo_recover_run] by blast


lemma applied_means_written_witness:
  "\<exists>i. observe demo_sha back_fs ''/w/f'' None = Inr (i, hash_bytes demo_sha ''hello'')"
  using applied_means_written [OF demo_recovery_inv(2) demo_rec1_fresh demo_recover_run]
  by (simp add: recovery_fs_def request_safe_def)

lemma recovery_idempotent_witness:
  "recover_with_checkpoint demo_sha (\<lambda>_. gone_fs) demo_answers demo_recovered demo_run
      (request_safe ''rec1'' ''/w/f'' ''hello'') AfterPrepare
    = (Inr \<lparr>rv_operation_id = ''rec1'', rv_status = ''applied''\<rparr>, demo_recovered, [])"
  by (rule recovery_idempotent [OF demo_recovery_inv(2) demo_rec1_fresh demo_recover_run
        prefix_order.refl prefix_order.refl refl]) (simp add: recovery_fs_def)

end
