(* ===== verification/Catalogue.thy ===== *)
theory Catalogue
  imports Recovery
begin

text \<open>
  The SQL catalogue in \<open>src/src/artifacts/schema.rs\<close>: what the program asks SQLite about the tables,
  columns, keys, indexes, triggers and SQL texts of a file, and the DDL batches it runs. A
  \<open>catalogue\<close> holds SQLite's answers: the rows of \<open>sqlite_master\<close> and what the \<open>pragma\<close>
  functions return. What a DDL batch makes of a catalogue, whether a file is intact and Unicode's
  lower-case table are an \<open>engine\<close>, a parameter of every definition that needs them.
\<close>

section \<open>SQLite's answers\<close>

record column_info =
  ci_name :: str
  ci_type :: str
  ci_notnull :: int
  ci_default :: "str option"
  ci_pk :: int

text \<open>A row of \<open>pragma_index_list\<close> with the column names of \<open>pragma_index_info\<close> (NULL for an expression).\<close>

record index_info =
  ix_name :: str
  ix_unique :: int
  ix_origin :: str
  ix_columns :: "str option list"

record catalogue =
  ct_master :: "(str \<times> str \<times> str option) list"             \<comment> \<open>type, name and sql\<close>
  ct_columns :: "(str \<times> column_info list) list"               \<comment> \<open>per table, in \<open>cid\<close> order\<close>
  ct_foreign :: "(str \<times> (str \<times> str) list) list"              \<comment> \<open>per table: referenced table and column\<close>
  ct_indexes :: "(str \<times> index_info list) list"                \<comment> \<open>per table, in \<open>seq\<close> order\<close>

definition empty_catalogue :: catalogue where
  "empty_catalogue = \<lparr>ct_master = [], ct_columns = [], ct_foreign = [], ct_indexes = []\<rparr>"

definition answers :: "(str \<times> 'a list) list \<Rightarrow> str \<Rightarrow> 'a list" where
  "answers m table = (case map_of m table of None \<Rightarrow> [] | Some xs \<Rightarrow> xs)"

abbreviation table_info :: "catalogue \<Rightarrow> str \<Rightarrow> column_info list" where
  "table_info c \<equiv> answers (ct_columns c)"

text \<open>
  The DDL the program runs, one constructor for each text it hands to \<open>execute_batch\<close> (several,
  where it runs them one after the other and asks nothing in between).
\<close>

datatype ddl =
    CreateSchema                 \<comment> \<open>\<open>create_schema\<close>\<close>
  | DropDecisions                \<comment> \<open>\<open>DROP TABLE compatibility_decisions\<close>\<close>
  | EnsureDecisionsV2            \<comment> \<open>\<open>ensure_compatibility_decision_table\<close>\<close>
  | CreateDecisionsV3            \<comment> \<open>\<open>create_compatibility_v3\<close>\<close>
  | RenameDecisions              \<comment> \<open>\<open>compatibility_decisions\<close> to \<open>compatibility_decisions_v2\<close>\<close>
  | DropRenamedDecisions
  | EnsureRecordTables           \<comment> \<open>\<open>ensure_runtime_record_schema\<close>: \<open>events\<close> and the other record tables\<close>
  | EnsureProjectionTables       \<comment> \<open>the projection and playback tables with their triggers\<close>
  | AddColumn str str str        \<comment> \<open>\<open>ALTER TABLE .. ADD COLUMN ..\<close>: table, column, definition\<close>
  | EnsureImmutable str          \<comment> \<open>the two \<open>immutable_*\<close> triggers of a table\<close>
  | CreateEventTriggers          \<comment> \<open>the two triggers of \<open>events\<close>\<close>
  | EnsureEventTriggers          \<comment> \<open>the same with \<open>IF NOT EXISTS\<close>\<close>
  | EnsureSlice4                 \<comment> \<open>\<open>ensure_slice4_v3_schema\<close>\<close>
  | RenameLegacy                 \<comment> \<open>the tables of version 0 to \<open>legacy_*\<close>\<close>
  | DropLegacy

record engine =
  run_ddl :: "ddl \<Rightarrow> catalogue \<Rightarrow> error + catalogue"
  intact :: "catalogue \<Rightarrow> db \<Rightarrow> bool"                \<comment> \<open>\<open>integrity_check\<close> and \<open>foreign_key_check\<close>\<close>
  lower_char :: "nat \<Rightarrow> nat list"                   \<comment> \<open>\<open>char::to_lowercase\<close>\<close>
  final_sigma :: "nat list \<Rightarrow> nat list \<Rightarrow> bool"     \<comment> \<open>Unicode's condition on what is around a sigma\<close>

definition ambiguous_unless :: "bool \<Rightarrow> error + unit" where
  "ambiguous_unless ok = (if ok then Inr () else Inl AmbiguousSchema)"

lemma ambiguous_unless_Inr [simp]: "ambiguous_unless ok = Inr u \<longleftrightarrow> ok"
  by (simp add: ambiguous_unless_def)

lemma ambiguous_unless_eq [simp]: "ambiguous_unless True = Inr ()" "ambiguous_unless False = Inl AmbiguousSchema"
  by (simp_all add: ambiguous_unless_def)

section \<open>Questions to the catalogue\<close>

definition count_objects :: "catalogue \<Rightarrow> str \<Rightarrow> str \<Rightarrow> nat" where
  "count_objects c ty n = length (filter (\<lambda>(t, m, _). t = ty \<and> m = n) (ct_master c))"

definition table_exists :: "catalogue \<Rightarrow> str \<Rightarrow> bool" where
  "table_exists c n = (count_objects c ''table'' n \<noteq> 0)"

definition trigger_exists :: "catalogue \<Rightarrow> str \<Rightarrow> bool" where
  "trigger_exists c n = (count_objects c ''trigger'' n \<noteq> 0)"

definition index_exists :: "catalogue \<Rightarrow> str \<Rightarrow> bool" where
  "index_exists c n = (count_objects c ''index'' n = 1)"

text \<open>\<open>name LIKE 'sqlite_%'\<close>: case does not matter and the underscore stands for any character.\<close>

definition ascii_lower :: "char \<Rightarrow> char" where
  "ascii_lower a = (if 65 \<le> byte_of a \<and> byte_of a \<le> (90::nat) then char_of (byte_of a + 32 :: nat) else a)"

definition sqlite_name :: "str \<Rightarrow> bool" where
  "sqlite_name n = (6 < length n \<and> map ascii_lower (take 6 n) = ''sqlite'')"

definition nonempty :: "catalogue \<Rightarrow> bool" where
  "nonempty c = list_ex (\<lambda>(t, n, _). t \<in> {''table'', ''index'', ''trigger'', ''view''} \<and> \<not> sqlite_name n) (ct_master c)"

definition columns :: "catalogue \<Rightarrow> str \<Rightarrow> str list" where
  "columns c table = map ci_name (table_info c table)"

definition column_count :: "catalogue \<Rightarrow> str \<Rightarrow> str \<Rightarrow> nat" where
  "column_count c table column = length (filter (\<lambda>n. n = column) (columns c table))"

definition column_types :: "catalogue \<Rightarrow> str \<Rightarrow> (str \<times> str \<times> int \<times> int) list" where
  "column_types c table = map (\<lambda>i. (ci_name i, ci_type i, ci_notnull i, ci_pk i)) (table_info c table)"

text \<open>\<open>SELECT sql FROM sqlite_master WHERE type=.. AND name=..\<close>, the answer being optional or not.\<close>

definition optional_sql :: "catalogue \<Rightarrow> str \<Rightarrow> str \<Rightarrow> error + str option" where
  "optional_sql c ty n =
     (case find (\<lambda>(t, m, _). t = ty \<and> m = n) (ct_master c) of
        None \<Rightarrow> Inr None
      | Some (_, _, None) \<Rightarrow> Inl (Sql InvalidColumnType)
      | Some (_, _, Some sql) \<Rightarrow> Inr (Some sql))"

definition required_sql :: "catalogue \<Rightarrow> str \<Rightarrow> str \<Rightarrow> error + str" where
  "required_sql c ty n = and_then (optional_sql c ty n) (ok_or (Sql QueryReturnedNoRows))"

text \<open>The columns of an index, collected as strings.\<close>

definition index_columns :: "index_info \<Rightarrow> error + str list" where
  "index_columns ix = (if None \<in> set (ix_columns ix) then Inl (Sql InvalidColumnType)
     else Inr (map the (ix_columns ix)))"

definition collect_columns :: "index_info list \<Rightarrow> error + str list list" where
  "collect_columns ixs = for_each (\<lambda>ix out. and_then (index_columns ix) (\<lambda>cs. Inr (out @ [cs]))) ixs []"

definition is_unique :: "index_info \<Rightarrow> bool" where
  "is_unique ix = (ix_unique ix = 1)"

section \<open>SQL texts\<close>

text \<open>\<open>chars().filter(not whitespace).flat_map(char::to_lowercase)\<close>.\<close>

definition normalized :: "engine \<Rightarrow> str \<Rightarrow> str" where
  "normalized en sql = of_chars (concat (map (lower_char en) (filter (\<lambda>k. \<not> is_whitespace k) (chars sql))))"

text \<open>\<open>str::to_lowercase\<close>, which looks at what is before (nearest first) and after a capital sigma.\<close>

fun lower_after :: "engine \<Rightarrow> nat list \<Rightarrow> nat list \<Rightarrow> nat list" where
  "lower_after en before [] = []"
| "lower_after en before (k # ks) =
     (if k = 0x3A3 then [if final_sigma en before ks then 0x3C2 else 0x3C3] else lower_char en k)
     @ lower_after en (k # before) ks"

definition lowered :: "engine \<Rightarrow> str \<Rightarrow> str" where
  "lowered en sql = of_chars (filter (\<lambda>k. \<not> is_whitespace k) (lower_after en [] (chars sql)))"

text \<open>\<open>split_whitespace().collect().join(" ")\<close>.\<close>

fun words :: "nat list \<Rightarrow> nat list \<Rightarrow> nat list list" where
  "words word [] = (if word = [] then [] else [word])"
| "words word (k # ks) =
     (if is_whitespace k then (if word = [] then words [] ks else word # words [] ks)
      else words (word @ [k]) ks)"

definition single_spaced :: "str \<Rightarrow> str" where
  "single_spaced sql = join_with '' '' (map of_chars (words [] (chars sql)))"

definition trigger_text :: "str \<Rightarrow> str \<Rightarrow> bool" where
  "trigger_text head sql = (contains head sql \<and> contains ''raise(abort,'immutable')'' sql \<and> \<not> contains ''when'' sql)"

definition events_trigger_text :: "str \<Rightarrow> bool" where
  "events_trigger_text sql = (contains ''before'' sql \<and> contains ''onevents'' sql
     \<and> contains ''raise(abort,'immutable')'' sql \<and> \<not> contains ''when'' sql)"

definition valid_trigger :: "catalogue \<Rightarrow> (str \<Rightarrow> bool) \<Rightarrow> str \<Rightarrow> error + unit" where
  "valid_trigger c valid n = and_then (optional_sql c ''trigger'' n) (\<lambda>sql. ambiguous_unless (opt_any valid sql))"

definition event_triggers :: "str list" where
  "event_triggers = [''immutable_events_update'', ''immutable_events_delete'']"

definition events_triggers_valid :: "engine \<Rightarrow> catalogue \<Rightarrow> error + unit" where
  "events_triggers_valid en c =
     all_ok (map (valid_trigger c (\<lambda>sql. events_trigger_text (normalized en sql))) event_triggers)"

text \<open>The \<open>immutable_*\<close> triggers of a table: name, table, event in lower case.\<close>

definition table_triggers_valid :: "engine \<Rightarrow> catalogue \<Rightarrow> (str \<times> str \<times> str) list \<Rightarrow> error + unit" where
  "table_triggers_valid en c ts =
     all_ok (map (\<lambda>(n, table, event). valid_trigger c
       (\<lambda>sql. trigger_text (''before'' @ event @ ''on'' @ table) (normalized en sql)) n) ts)"

definition fragments_valid :: "engine \<Rightarrow> catalogue \<Rightarrow> (str \<times> str list) list \<Rightarrow> error + unit" where
  "fragments_valid en c rs =
     all_ok (map (\<lambda>(table, required). and_then (required_sql c ''table'' table) (\<lambda>sql.
       ambiguous_unless (list_all (\<lambda>f. contains f (normalized en sql)) required))) rs)"

section \<open>The checks of a version 1 file\<close>

definition legacy_core_columns :: "(str \<times> str list) list" where
  "legacy_core_columns =
     [(''artifacts'', [''id'', ''owner'', ''source'', ''schema_version'']),
      (''versions'', [''id'', ''artifact_id'', ''hash'', ''canonical'', ''operation'', ''actor'', ''source'',
         ''schema_version'']),
      (''operations'', [''id'', ''fingerprint'', ''result'', ''schema_version'']),
      (''lineage'', [''operation_id'', ''version_id'', ''schema_version'']),
      (''discrepancies'', [''id'', ''operation'', ''actor'', ''artifact_id'', ''source'', ''reason'', ''status'',
         ''operation_result_id'', ''context'', ''schema_version''])]"

definition validate_legacy_core :: "catalogue \<Rightarrow> error + unit" where
  "validate_legacy_core c = all_ok (map (\<lambda>(table, required).
     ambiguous_unless (table_exists c table \<and> \<not> list_ex (\<lambda>n. column_count c table n \<noteq> 1) required))
     legacy_core_columns)"

definition slice3_tables :: "str list" where
  "slice3_tables = [''projections'', ''projection_rebuilds'', ''projection_rebuild_status'', ''playback_results'',
     ''captured_outcome_simulations'']"

definition later_event_columns :: "(str \<times> str) list" where
  "later_event_columns = [(''event_sequence'', ''INTEGER NOT NULL DEFAULT 0''),
     (''transition'', ''TEXT NOT NULL DEFAULT '' @ [CHR 0x27, CHR 0x27]),
     (''deterministic_input'', ''TEXT NOT NULL DEFAULT '' @ [CHR 0x27, CHR 0x27]), (''outcome'', ''TEXT'')]"

text \<open>The \<open>events\<close> table of a version 1 file: four columns, the later four all there or all missing.\<close>

definition check_legacy_events :: "engine \<Rightarrow> bool \<Rightarrow> catalogue \<Rightarrow> error + catalogue" where
  "check_legacy_events en slice3_present c =
     (if table_exists c ''events'' then
        and_then (all_ok (map (\<lambda>n. ambiguous_unless (column_count c ''events'' n = 1))
            [''id'', ''schema_version'', ''source_lineage'', ''correction_of''])) (\<lambda>_.
        let present = length (filter (\<lambda>(n, _). column_count c ''events'' n = 1) later_event_columns) in
        and_then (ambiguous_unless (present = 0 \<or> present = length later_event_columns)) (\<lambda>_.
        if \<not> slice3_present \<and> present = 0
        then for_each (\<lambda>(n, definition'). run_ddl en (AddColumn ''events'' n definition')) later_event_columns c
        else Inr c))
      else Inr c)"

section \<open>The checks of a version 0 file\<close>

definition legacy_columns :: "(str \<times> (str \<times> str \<times> int \<times> int) list) list" where
  "legacy_columns =
     [(''schema_metadata'', [(''key'', ''TEXT'', 0, 1), (''value'', ''INTEGER'', 1, 0)]),
      (''artifacts'', [(''id'', ''TEXT'', 0, 1), (''owner'', ''TEXT'', 1, 0), (''source'', ''TEXT'', 1, 0)]),
      (''versions'',
        [(''id'', ''TEXT'', 0, 1), (''artifact_id'', ''TEXT'', 1, 0), (''hash'', ''TEXT'', 1, 0),
         (''canonical'', ''TEXT'', 1, 0), (''ancestry'', ''TEXT'', 0, 0), (''operation'', ''TEXT'', 1, 0),
         (''actor'', ''TEXT'', 1, 0), (''source'', ''TEXT'', 1, 0)])]"

text \<open>A table has exactly the columns listed: first their names are compared, then the whole rows.\<close>

definition exact_columns :: "catalogue \<Rightarrow> str \<Rightarrow> (str \<times> str \<times> int \<times> int) list \<Rightarrow> error + unit" where
  "exact_columns c table expected =
     and_then (ambiguous_unless (columns c table = map fst expected)) (\<lambda>_.
     ambiguous_unless (column_types c table = expected))"

definition legacy_objects :: "catalogue \<Rightarrow> error + unit" where
  "legacy_objects c =
     and_then (ambiguous_unless (table_exists c ''artifacts'' \<and> table_exists c ''versions'')) (\<lambda>_.
     ambiguous_unless (sort (map (\<lambda>(t, n, _). t @ '':'' @ n) (filter (\<lambda>(_, n, _). \<not> sqlite_name n) (ct_master c)))
       = [''table:artifacts'', ''table:schema_metadata'', ''table:versions'']))"

definition legacy_shape :: "catalogue \<Rightarrow> error + unit" where
  "legacy_shape c =
     and_then (all_ok (map (\<lambda>(table, expected). exact_columns c table expected) legacy_columns)) (\<lambda>_.
     and_then (ambiguous_unless (answers (ct_foreign c) ''artifacts'' = [] \<and> answers (ct_foreign c) ''versions'' = [])) (\<lambda>_.
     and_then (collect_columns (filter (\<lambda>ix. is_unique ix \<and> ix_origin ix = ''u'') (answers (ct_indexes c) ''versions''))) (\<lambda>unique.
     ambiguous_unless (unique = [[''operation'']]))))"

section \<open>\<open>validate_runtime_record_schema\<close>\<close>

definition runtime_tables :: "(str \<times> str) list" where
  "runtime_tables =
     [(''events'',
        ''id:TEXT:0:1,schema_version:INTEGER:1:0,source_lineage:TEXT:1:0,correction_of:TEXT:0:0,''
        @ ''event_sequence:INTEGER:1:0,transition:TEXT:1:0,deterministic_input:TEXT:1:0,''
        @ ''outcome:TEXT:0:0''),
      (''findings'',
        ''id:TEXT:0:1,schema_version:INTEGER:1:0,source_lineage:TEXT:1:0,correction_of:TEXT:0:0''),
      (''evidence'',
        ''id:TEXT:0:1,schema_version:INTEGER:1:0,source_lineage:TEXT:1:0,correction_of:TEXT:0:0''),
      (''history'',
        ''id:TEXT:0:1,schema_version:INTEGER:1:0,source_lineage:TEXT:1:0,correction_of:TEXT:0:0''),
      (''replay_metadata'',
        ''id:TEXT:0:1,schema_version:INTEGER:1:0,source_lineage:TEXT:1:0,correction_of:TEXT:0:0''),
      (''lifecycle_evidence'',
        ''id:TEXT:0:1,schema_version:INTEGER:1:0,status:TEXT:1:0,actor:TEXT:1:0,reason:TEXT:1:0,''
        @ ''content_version:TEXT:1:0,operation_lineage:TEXT:1:0,source_lineage:TEXT:1:0,''
        @ ''correction_of:TEXT:0:0''),
      (''reviewer_findings'',
        ''id:TEXT:0:1,schema_version:INTEGER:1:0,state:TEXT:1:0,source_lineage:TEXT:1:0,''
        @ ''correction_of:TEXT:0:0''),
      (''outcomes'',
        ''id:TEXT:0:1,schema_version:INTEGER:1:0,outcome:TEXT:1:0,source_lineage:TEXT:1:0,''
        @ ''correction_of:TEXT:0:0''),
      (''retrospectives'',
        ''id:TEXT:0:1,schema_version:INTEGER:1:0,sequence:INTEGER:1:0,source_lineage:TEXT:1:0,''
        @ ''correction_of:TEXT:0:0''),
      (''acceptance_requirements'',
        ''id:TEXT:0:1,schema_version:INTEGER:1:0,sequence:INTEGER:1:0,source_lineage:TEXT:1:0,''
        @ ''correction_of:TEXT:0:0''),
      (''projections'',
        ''id:TEXT:0:1,projection_schema_version:INTEGER:1:0,event_history_generation:INTEGER:1:0,''
        @ ''source_generation:INTEGER:1:0,authoritative:INTEGER:1:0,status:TEXT:1:0,payload:TEXT:1:0,''
        @ ''schema_version:INTEGER:1:0,source_lineage:TEXT:1:0''),
      (''projection_rebuilds'',
        ''id:INTEGER:0:1,projection_id:TEXT:1:0,event_id:TEXT:1:0,event_sequence:INTEGER:1:0,''
        @ ''status:TEXT:1:0,failure:TEXT:0:0,drift:TEXT:0:0,schema_version:INTEGER:1:0,''
        @ ''source_lineage:TEXT:1:0''),
      (''projection_rebuild_status'',
        ''projection_id:TEXT:0:1,status:TEXT:1:0,authoritative:INTEGER:1:0,failure:TEXT:0:0,''
        @ ''drift:TEXT:0:0,schema_version:INTEGER:1:0,source_lineage:TEXT:1:0''),
      (''playback_results'',
        ''id:TEXT:0:1,event_history_generation:INTEGER:1:0,result:TEXT:1:0,divergence:TEXT:0:0,''
        @ ''exact:INTEGER:1:0,schema_version:INTEGER:1:0,source_lineage:TEXT:1:0''),
      (''captured_outcome_simulations'',
        ''id:TEXT:0:1,label:TEXT:1:0,outcome:TEXT:1:0,exact_playback_evidence:INTEGER:1:0,''
        @ ''schema_version:INTEGER:1:0,source_lineage:TEXT:1:0'')]"

text \<open>\<open>column.split(':')\<close>: name, type, and two numbers.\<close>

definition column_spec :: "str \<Rightarrow> str \<times> str \<times> int \<times> int" where
  "column_spec text = (case split_on (CHR '':'') text of
       [n, ty, nn, pk] \<Rightarrow> (n, ty, int (undec nn), int (undec pk)) | _ \<Rightarrow> ([], [], 0, 0))"

definition column_specs :: "str \<Rightarrow> (str \<times> str \<times> int \<times> int) list" where
  "column_specs text = map column_spec (split_on (CHR '','') text)"

definition runtime_fragments :: "(str \<times> str) list" where
  "runtime_fragments =
     [(''events'', ''check(schema_version=1)''), (''findings'', ''check(schema_version=1)''),
      (''evidence'', ''check(schema_version=1)''), (''history'', ''check(schema_version=1)''),
      (''replay_metadata'', ''check(schema_version=1)''), (''lifecycle_evidence'', ''check(schema_version=1)''),
      (''reviewer_findings'', ''check(schema_version=1)''), (''outcomes'', ''check(schema_version=1)''),
      (''lifecycle_evidence'', ''check(statusin('created','invalidated'))''),
      (''reviewer_findings'', ''check(statein('open','acknowledged','fixed','waived','rejected','stale'))''),
      (''outcomes'', ''check(outcomein('verified','accepted_with_waivers','accepted_partial','blocked','aborted','failed'))''),
      (''projections'', ''check(authoritativein(0,1))''), (''projection_rebuilds'', ''check(statusin('complete','failed'))''),
      (''projection_rebuild_status'', ''check(authoritativein(0,1))''),
      (''playback_results'', ''check(resultin('exact_playback_succeeded','diverged'))''),
      (''playback_results'', ''check(exactin(0,1))''),
      (''captured_outcome_simulations'', ''check(label='captured_outcome_simulation')''),
      (''captured_outcome_simulations'', ''check(exact_playback_evidence=0)'')]"

definition runtime_immutable :: "str list" where
  "runtime_immutable = [''events'', ''findings'', ''evidence'', ''history'', ''replay_metadata'',
     ''lifecycle_evidence'', ''reviewer_findings'', ''outcomes'', ''retrospectives'', ''acceptance_requirements'',
     ''projection_rebuilds'', ''playback_results'', ''captured_outcome_simulations'']"

definition coherence_trigger_text :: "str \<Rightarrow> bool" where
  "coherence_trigger_text sql = (contains ''before'' sql \<and> contains ''onplayback_results'' sql
     \<and> contains (''new.result='exact_playback_succeeded'' @ [CHR 0x27]) sql
     \<and> contains (''new.result='diverged'' @ [CHR 0x27]) sql \<and> contains ''raise(abort'' sql)"

text \<open>
  The loop over the tables, which also looks at the text of \<open>events\<close>. The rows of
  \<open>retrospectives\<close> and \<open>acceptance_requirements\<close>, which nothing inserts, have no negative sequence.
  The table of expected defaults is computed and dropped (\<open>let _ = expected_defaults\<close>).
\<close>

definition runtime_table :: "engine \<Rightarrow> catalogue \<Rightarrow> str \<times> str \<Rightarrow> error + unit" where
  "runtime_table en c = (\<lambda>(table, text).
     and_then (ambiguous_unless (table_exists c table)) (\<lambda>_.
     and_then (exact_columns c table (column_specs text)) (\<lambda>_.
     if table = ''events'' then and_then (required_sql c ''table'' table) (\<lambda>sql.
       ambiguous_unless (contains ''check(schema_version=1)'' (lowered en sql)))
     else Inr ())))"

definition validate_runtime_record_schema :: "engine \<Rightarrow> catalogue \<Rightarrow> error + unit" where
  "validate_runtime_record_schema en c =
     all_ok (map (runtime_table en c) runtime_tables
       @ map (\<lambda>(table, fragment). and_then (required_sql c ''table'' table) (\<lambda>sql.
           ambiguous_unless (contains fragment (lowered en sql)))) runtime_fragments
       @ map (\<lambda>(table, operation). valid_trigger c
           (\<lambda>sql. trigger_text (''before'' @ operation @ ''on'' @ table) (lowered en sql))
           (''immutable_'' @ table @ ''_'' @ operation))
         (List.product runtime_immutable [''update'', ''delete''])
       @ map (valid_trigger c (\<lambda>sql. coherence_trigger_text (lowered en sql)))
         [''immutable_playback_results_coherence_insert'', ''immutable_playback_results_coherence_update''])"

section \<open>The catalogue half of \<open>validate_core\<close>\<close>

definition core_columns :: "(str \<times> str list) list" where
  "core_columns =
     [(''schema_metadata'',
        [''key'', ''value'']),
      (''artifacts'',
        [''id'', ''owner'', ''source'', ''schema_version'']),
      (''versions'',
        [''id'', ''artifact_id'', ''hash'', ''canonical'', ''ancestry'', ''operation'', ''actor'',
         ''source'', ''observed_identity'', ''expected_hash'', ''schema_version'',
         ''source_schema_version'', ''source_lineage'', ''logical_path'', ''git_applicability'',
         ''git_repository_path'', ''git_head_state'', ''git_head_oid'', ''git_index_present'',
         ''git_index_fingerprint'']),
      (''operations'',
        [''id'', ''fingerprint'', ''result'', ''version_id'', ''lineage'', ''rejection_code'',
         ''schema_version'']),
      (''lineage'',
        [''operation_id'', ''version_id'', ''parent_version_id'', ''schema_version'']),
      (''discrepancies'',
        [''id'', ''operation'', ''actor'', ''artifact_id'', ''source'', ''ancestry'', ''reason'',
         ''status'', ''operation_result_id'', ''expected_hash'', ''observed_hash'', ''context'',
         ''expected_identity'', ''observed_identity'', ''schema_version'', ''proposed_hash'',
         ''observed_owner'', ''observed_source'', ''observed_ancestry'']),
      (''projections'',
        [''id'', ''projection_schema_version'', ''event_history_generation'', ''source_generation'',
         ''authoritative'', ''status'', ''payload'', ''schema_version'', ''source_lineage'']),
      (''projection_rebuilds'',
        [''id'', ''projection_id'', ''event_id'', ''event_sequence'', ''status'', ''failure'', ''drift'',
         ''schema_version'', ''source_lineage'']),
      (''projection_rebuild_status'',
        [''projection_id'', ''status'', ''authoritative'', ''failure'', ''drift'', ''schema_version'',
         ''source_lineage'']),
      (''playback_results'',
        [''id'', ''event_history_generation'', ''result'', ''divergence'', ''exact'', ''schema_version'',
         ''source_lineage'']),
      (''captured_outcome_simulations'',
        [''id'', ''label'', ''outcome'', ''exact_playback_evidence'', ''schema_version'',
         ''source_lineage''])]"

text \<open>
  The \<open>expected_types\<close> of the same tables. The arms for \<open>compatibility_decisions\<close>, a table the
  loop does not visit, are left out.
\<close>

definition core_tables :: "(str \<times> (str \<times> str \<times> int \<times> int) list) list" where
  "core_tables =
     [(''schema_metadata'',
        [(''key'', ''TEXT'', 0, 1), (''value'', ''INTEGER'', 1, 0)]),
      (''artifacts'',
        [(''id'', ''TEXT'', 0, 1), (''owner'', ''TEXT'', 1, 0), (''source'', ''TEXT'', 1, 0),
         (''schema_version'', ''INTEGER'', 1, 0)]),
      (''versions'',
        [(''id'', ''TEXT'', 0, 1), (''artifact_id'', ''TEXT'', 1, 0), (''hash'', ''TEXT'', 1, 0),
         (''canonical'', ''TEXT'', 1, 0), (''ancestry'', ''TEXT'', 0, 0),
         (''operation'', ''TEXT'', 1, 0), (''actor'', ''TEXT'', 1, 0), (''source'', ''TEXT'', 1, 0),
         (''observed_identity'', ''TEXT'', 0, 0), (''expected_hash'', ''TEXT'', 0, 0),
         (''schema_version'', ''INTEGER'', 1, 0), (''source_schema_version'', ''INTEGER'', 1, 0),
         (''source_lineage'', ''TEXT'', 1, 0), (''logical_path'', ''BLOB'', 0, 0),
         (''git_applicability'', ''TEXT'', 0, 0), (''git_repository_path'', ''BLOB'', 0, 0),
         (''git_head_state'', ''TEXT'', 0, 0), (''git_head_oid'', ''TEXT'', 0, 0),
         (''git_index_present'', ''INTEGER'', 0, 0), (''git_index_fingerprint'', ''TEXT'', 0, 0)]),
      (''operations'',
        [(''id'', ''TEXT'', 0, 1), (''fingerprint'', ''TEXT'', 1, 0), (''result'', ''TEXT'', 1, 0),
         (''version_id'', ''TEXT'', 0, 0), (''lineage'', ''TEXT'', 0, 0),
         (''rejection_code'', ''TEXT'', 0, 0), (''schema_version'', ''INTEGER'', 1, 0)]),
      (''lineage'',
        [(''operation_id'', ''TEXT'', 0, 1), (''version_id'', ''TEXT'', 1, 0),
         (''parent_version_id'', ''TEXT'', 0, 0), (''schema_version'', ''INTEGER'', 1, 0)]),
      (''discrepancies'',
        [(''id'', ''INTEGER'', 0, 1), (''operation'', ''TEXT'', 1, 0), (''actor'', ''TEXT'', 1, 0),
         (''artifact_id'', ''TEXT'', 1, 0), (''source'', ''TEXT'', 1, 0),
         (''ancestry'', ''TEXT'', 0, 0), (''reason'', ''TEXT'', 1, 0), (''status'', ''TEXT'', 1, 0),
         (''operation_result_id'', ''TEXT'', 1, 0), (''expected_hash'', ''TEXT'', 0, 0),
         (''observed_hash'', ''TEXT'', 0, 0), (''context'', ''TEXT'', 1, 0),
         (''expected_identity'', ''TEXT'', 0, 0), (''observed_identity'', ''TEXT'', 0, 0),
         (''schema_version'', ''INTEGER'', 1, 0), (''proposed_hash'', ''TEXT'', 0, 0),
         (''observed_owner'', ''TEXT'', 0, 0), (''observed_source'', ''TEXT'', 0, 0),
         (''observed_ancestry'', ''TEXT'', 0, 0)]),
      (''projections'',
        [(''id'', ''TEXT'', 0, 1), (''projection_schema_version'', ''INTEGER'', 1, 0),
         (''event_history_generation'', ''INTEGER'', 1, 0), (''source_generation'', ''INTEGER'', 1, 0),
         (''authoritative'', ''INTEGER'', 1, 0), (''status'', ''TEXT'', 1, 0),
         (''payload'', ''TEXT'', 1, 0), (''schema_version'', ''INTEGER'', 1, 0),
         (''source_lineage'', ''TEXT'', 1, 0)]),
      (''projection_rebuilds'',
        [(''id'', ''INTEGER'', 0, 1), (''projection_id'', ''TEXT'', 1, 0),
         (''event_id'', ''TEXT'', 1, 0), (''event_sequence'', ''INTEGER'', 1, 0),
         (''status'', ''TEXT'', 1, 0), (''failure'', ''TEXT'', 0, 0), (''drift'', ''TEXT'', 0, 0),
         (''schema_version'', ''INTEGER'', 1, 0), (''source_lineage'', ''TEXT'', 1, 0)]),
      (''projection_rebuild_status'',
        [(''projection_id'', ''TEXT'', 0, 1), (''status'', ''TEXT'', 1, 0),
         (''authoritative'', ''INTEGER'', 1, 0), (''failure'', ''TEXT'', 0, 0),
         (''drift'', ''TEXT'', 0, 0), (''schema_version'', ''INTEGER'', 1, 0),
         (''source_lineage'', ''TEXT'', 1, 0)]),
      (''playback_results'',
        [(''id'', ''TEXT'', 0, 1), (''event_history_generation'', ''INTEGER'', 1, 0),
         (''result'', ''TEXT'', 1, 0), (''divergence'', ''TEXT'', 0, 0),
         (''exact'', ''INTEGER'', 1, 0), (''schema_version'', ''INTEGER'', 1, 0),
         (''source_lineage'', ''TEXT'', 1, 0)]),
      (''captured_outcome_simulations'',
        [(''id'', ''TEXT'', 0, 1), (''label'', ''TEXT'', 1, 0), (''outcome'', ''TEXT'', 1, 0),
         (''exact_playback_evidence'', ''INTEGER'', 1, 0), (''schema_version'', ''INTEGER'', 1, 0),
         (''source_lineage'', ''TEXT'', 1, 0)])]"

definition core_table :: "catalogue \<Rightarrow> str \<times> str list \<Rightarrow> error + unit" where
  "core_table c = (\<lambda>(table, names).
     and_then (ambiguous_unless (columns c table = names)) (\<lambda>_.
     case map_of core_tables table of
       None \<Rightarrow> Inl AmbiguousSchema
     | Some expected \<Rightarrow> ambiguous_unless (column_types c table = expected)))"

definition events_columns :: "(str \<times> str \<times> int \<times> int) list" where
  "events_columns =
     [(''id'', ''TEXT'', 0, 1), (''schema_version'', ''INTEGER'', 1, 0), (''source_lineage'', ''TEXT'', 1, 0),
      (''correction_of'', ''TEXT'', 0, 0), (''event_sequence'', ''INTEGER'', 1, 0), (''transition'', ''TEXT'', 1, 0),
      (''deterministic_input'', ''TEXT'', 1, 0), (''outcome'', ''TEXT'', 0, 0)]"

definition core_required_tables :: "str list" where
  "core_required_tables = [''schema_metadata'', ''artifacts'', ''versions'', ''operations'', ''lineage'', ''discrepancies'']"

definition status_fragment :: str where
  "status_fragment = ''check(statusin('missing','stale','drifted','complete','failed'))''"

definition core_fragments :: "(str \<times> str list) list" where
  "core_fragments =
     [(''projections'', [''check(authoritativein(0,1))'', status_fragment]),
      (''projection_rebuilds'', [''check(statusin('complete','failed'))'']),
      (''projection_rebuild_status'', [''check(authoritativein(0,1))'', status_fragment]),
      (''playback_results'', [''check(resultin('exact_playback_succeeded','diverged'))'', ''check(exactin(0,1))'']),
      (''captured_outcome_simulations'', [''check(label='captured_outcome_simulation')'',
         ''check(exact_playback_evidence=0)''])]"

definition immutable_pair :: "str \<Rightarrow> (str \<times> str \<times> str) list" where
  "immutable_pair table = [(''immutable_'' @ table @ ''_update'', table, ''update''),
     (''immutable_'' @ table @ ''_delete'', table, ''delete'')]"

definition replay_triggers :: "(str \<times> str \<times> str) list" where
  "replay_triggers = concat (map immutable_pair
     [''projection_rebuilds'', ''playback_results'', ''captured_outcome_simulations''])"

definition core_triggers :: "(str \<times> str \<times> str) list" where
  "core_triggers = concat (map immutable_pair [''versions'', ''operations'', ''lineage'', ''discrepancies''])"

definition core_foreign_keys :: "(str \<times> (str \<times> str) list) list" where
  "core_foreign_keys =
     [(''versions'', [(''versions'', ''ancestry''), (''artifacts'', ''artifact_id'')]),
      (''operations'', [(''versions'', ''version_id'')]),
      (''lineage'', [(''versions'', ''parent_version_id''), (''versions'', ''version_id''),
         (''operations'', ''operation_id'')])]"

definition v3_compat :: "catalogue \<Rightarrow> bool" where
  "v3_compat c = list_ex (\<lambda>n. n = ''legacy_fingerprint'') (columns c ''compatibility_decisions'')"

definition compatibility_indexes :: "bool \<Rightarrow> (str \<times> str list list) list" where
  "compatibility_indexes v3 =
     [(''schema_metadata'', [[''key'']]), (''artifacts'', [[''id'']]), (''versions'', [[''id''], [''operation'']]),
      (''operations'', [[''id'']]), (''lineage'', [[''operation_id'']]), (''discrepancies'', [[''operation'']]),
      (''compatibility_decisions'',
        (if v3 then [[''source_schema_version'', ''target_schema_version'', ''operation'', ''scope_id''],
           [''fingerprint_version'', ''fingerprint'']] else [[''fingerprint'']]))]"

definition versions_index_valid :: "catalogue \<Rightarrow> error + unit" where
  "versions_index_valid c =
     (let ixs = sort_key ix_name (filter (\<lambda>ix. ix_origin ix = ''c'') (answers (ct_indexes c) ''versions'')) in
      and_then (collect_columns ixs) (\<lambda>cols.
      ambiguous_unless (zip (map (\<lambda>ix. (ix_name ix, ix_unique ix)) ixs) cols
        = [((''versions_artifact'', 0), [''artifact_id''])])))"

definition unique_indexes_valid :: "catalogue \<Rightarrow> str \<times> str list list \<Rightarrow> error + unit" where
  "unique_indexes_valid c = (\<lambda>(table, expected).
     and_then (collect_columns (filter is_unique (answers (ct_indexes c) table))) (\<lambda>actual.
     ambiguous_unless (sort actual = sort expected)))"

definition events_text_valid :: "engine \<Rightarrow> catalogue \<Rightarrow> error + unit" where
  "events_text_valid en c = and_then (required_sql c ''table'' ''events'') (\<lambda>sql.
     ambiguous_unless (contains ''check(schema_version=1)'' (normalized en sql)))"

text \<open>
  The foreign keys of a table. The loop skips \<open>compatibility_decisions\<close> of version 3, which is not
  one of its tables.
\<close>

definition foreign_keys_valid :: "catalogue \<Rightarrow> str \<times> (str \<times> str) list \<Rightarrow> error + unit" where
  "foreign_keys_valid c = (\<lambda>(table, expected).
     ambiguous_unless (sort (answers (ct_foreign c) table) = sort expected))"

definition core_catalogue :: "engine \<Rightarrow> catalogue \<Rightarrow> error + unit" where
  "core_catalogue en c =
     all_ok (map (\<lambda>t. ambiguous_unless (table_exists c t)) core_required_tables
       @ map (core_table c) core_columns
       @ [exact_columns c ''events'' events_columns,
          events_text_valid en c,
          events_triggers_valid en c,
          fragments_valid en c core_fragments,
          table_triggers_valid en c replay_triggers]
       @ map (foreign_keys_valid c) core_foreign_keys
       @ [versions_index_valid c]
       @ map (unique_indexes_valid c) (compatibility_indexes (v3_compat c))
       @ [table_triggers_valid en c core_triggers,
          validate_runtime_record_schema en c])"

text \<open>The object names of the query in the middle of the record checks.\<close>

definition known_objects :: "str list" where
  "known_objects =
     [''schema_metadata'', ''artifacts'', ''versions'', ''operations'', ''lineage'', ''discrepancies'',
      ''compatibility_decisions'', ''versions_artifact'', ''versions_observation_guard'',
      ''immutable_versions_update'', ''immutable_versions_delete'', ''immutable_operations_update'',
      ''immutable_operations_delete'', ''immutable_lineage_update'', ''immutable_lineage_delete'',
      ''immutable_discrepancies_update'', ''immutable_discrepancies_delete'', ''events'', ''findings'',
      ''evidence'', ''history'', ''replay_metadata'', ''lifecycle_evidence'', ''reviewer_findings'',
      ''outcomes'', ''retrospectives'', ''acceptance_requirements'', ''projections'',
      ''projection_rebuilds'', ''projection_rebuild_status'', ''playback_results'',
      ''captured_outcome_simulations'', ''immutable_projections_insert'',
      ''immutable_projections_update'', ''immutable_projection_rebuild_status_insert'',
      ''immutable_projection_rebuild_status_update'', ''immutable_projection_rebuilds_update'',
      ''immutable_projection_rebuilds_delete'', ''immutable_playback_results_update'',
      ''immutable_playback_results_delete'', ''immutable_playback_results_coherence_insert'',
      ''immutable_playback_results_coherence_update'',
      ''immutable_captured_outcome_simulations_update'',
      ''immutable_captured_outcome_simulations_delete'', ''immutable_events_update'',
      ''immutable_events_delete'', ''immutable_findings_update'', ''immutable_findings_delete'',
      ''immutable_evidence_update'', ''immutable_evidence_delete'', ''immutable_history_update'',
      ''immutable_history_delete'', ''immutable_replay_metadata_update'',
      ''immutable_replay_metadata_delete'', ''immutable_lifecycle_evidence_update'',
      ''immutable_lifecycle_evidence_delete'', ''immutable_reviewer_findings_update'',
      ''immutable_reviewer_findings_delete'', ''immutable_outcomes_update'',
      ''immutable_outcomes_delete'', ''immutable_retrospectives_update'',
      ''immutable_retrospectives_delete'', ''immutable_acceptance_requirements_update'',
      ''immutable_acceptance_requirements_delete'', ''reconciliation_runs'',
      ''reconciliation_discrepancies'', ''reconciliation_projection_evidence'', ''recovery_actions'',
      ''recovery_outcomes'', ''reconciliation_discrepancies_guards'', ''recovery_actions_guards'',
      ''recovery_outcomes_guards'', ''reconciliation_runs_scope_sequence'',
      ''reconciliation_discrepancies_run_correction'', ''reconciliation_projection_evidence_run'',
      ''recovery_actions_fingerprint'', ''recovery_outcomes_action_sequence'',
      ''reconciliation_runs_immutable_update'', ''reconciliation_runs_immutable_delete'',
      ''reconciliation_discrepancies_immutable_update'',
      ''reconciliation_discrepancies_immutable_delete'', ''recovery_actions_immutable_update'',
      ''recovery_actions_immutable_delete'', ''recovery_outcomes_immutable_update'',
      ''recovery_outcomes_immutable_delete'']"

definition only_known_objects :: "catalogue \<Rightarrow> bool" where
  "only_known_objects c = (table_exists c ''compatibility_decisions''
     \<and> \<not> list_ex (\<lambda>(_, n, _). \<not> sqlite_name n \<and> n \<notin> set known_objects) (ct_master c))"

section \<open>The checks around a migration\<close>

definition slice4_tables :: "str list" where
  "slice4_tables = [''reconciliation_runs'', ''reconciliation_discrepancies'', ''recovery_actions'', ''recovery_outcomes'']"

definition decision_columns_v2 :: "str list" where
  "decision_columns_v2 = [''id'', ''source_schema_version'', ''target_schema_version'', ''operation'', ''actor'',
     ''source'', ''outcome'', ''fingerprint'', ''result'']"

definition decision_columns_v3 :: "str list" where
  "decision_columns_v3 = [''id'', ''source_schema_version'', ''target_schema_version'', ''operation'', ''actor'',
     ''source'', ''outcome'', ''result'', ''legacy_fingerprint'', ''scope_id'', ''fingerprint_version'',
     ''fingerprint'', ''created_at'']"

text \<open>The questions of \<open>validate_v2_compatibility\<close>, after those to the metadata.\<close>

definition v2_columns :: "catalogue \<Rightarrow> error + unit" where
  "v2_columns c =
     all_ok (map (\<lambda>t. ambiguous_unless (\<not> table_exists c t)) slice4_tables
       @ [ambiguous_unless (columns c ''events'' = map fst events_columns),
          ambiguous_unless (columns c ''compatibility_decisions'' = decision_columns_v2)])"

definition v3_columns :: "catalogue \<Rightarrow> error + unit" where
  "v3_columns c = ambiguous_unless (columns c ''compatibility_decisions'' = decision_columns_v3)"

definition observation_columns :: "(str \<times> str) list" where
  "observation_columns = [(''logical_path'', ''BLOB''), (''git_applicability'', ''TEXT''),
     (''git_repository_path'', ''BLOB''), (''git_head_state'', ''TEXT''), (''git_head_oid'', ''TEXT''),
     (''git_index_present'', ''INTEGER''), (''git_index_fingerprint'', ''TEXT'')]"

definition add_missing_column :: "engine \<Rightarrow> str \<Rightarrow> str \<times> str \<Rightarrow> catalogue \<Rightarrow> error + catalogue" where
  "add_missing_column en table = (\<lambda>(n, definition') c.
     if column_count c table n = 0 then run_ddl en (AddColumn table n definition') c else Inr c)"

definition install_version_observation_columns :: "engine \<Rightarrow> catalogue \<Rightarrow> error + catalogue" where
  "install_version_observation_columns en = for_each (add_missing_column en ''versions'') observation_columns"

text \<open>What \<open>migrate_v2_to_v3\<close> asks and executes before it copies the decisions.\<close>

definition migration_catalogue :: "engine \<Rightarrow> catalogue \<Rightarrow> error + catalogue" where
  "migration_catalogue en c =
     and_then (ambiguous_unless (\<not> list_ex (table_exists c) slice4_tables)) (\<lambda>_.
     and_then (all_ok (map (\<lambda>t. ambiguous_unless (trigger_exists c t)) event_triggers)) (\<lambda>_.
     and_then (install_version_observation_columns en c) (\<lambda>c1.
     and_then (ambiguous_unless (length (columns c1 ''events'') = 8)) (\<lambda>_.
     and_then (all_ok (map (\<lambda>n. ambiguous_unless (column_count c1 ''compatibility_decisions'' n = 1))
         decision_columns_v2)) (\<lambda>_.
     and_then (run_ddl en RenameDecisions c1) (\<lambda>c2.
     and_then (run_ddl en CreateDecisionsV3 c2) (\<lambda>c3.
     run_ddl en EnsureSlice4 c3)))))))"

definition slice4_indexes :: "str list" where
  "slice4_indexes = [''reconciliation_runs_scope_sequence'', ''reconciliation_discrepancies_run_correction'',
     ''recovery_actions_fingerprint'', ''recovery_outcomes_action_sequence'']"

definition slice4_columns :: "(str \<times> str list) list" where
  "slice4_columns =
     [(''reconciliation_runs'', [''event_generation'', ''event_schema'', ''projection_generation'',
         ''projection_schema'', ''projection_authority'', ''filesystem_identity'', ''filesystem_hash'', ''git_state'',
         ''repair_applied'', ''schema_version'']),
      (''reconciliation_discrepancies'', [''surface'', ''expected'', ''observed'', ''status'', ''reason'',
         ''schema_version''])]"

definition slice4_table_columns :: "catalogue \<Rightarrow> str \<times> str list \<Rightarrow> error + unit" where
  "slice4_table_columns c = (\<lambda>(table, required).
     let defaults = map_of (rev (map (\<lambda>i. (ci_name i, ci_default i)) (table_info c table))) in
     ambiguous_unless (\<not> (list_ex (\<lambda>n. defaults n = None) required
       \<or> table = ''reconciliation_runs'' \<and> defaults ''schema_version'' \<noteq> Some (Some ''1''))))"

definition validate_slice4_v3_schema :: "catalogue \<Rightarrow> error + unit" where
  "validate_slice4_v3_schema c =
     all_ok (map (\<lambda>t. ambiguous_unless (table_exists c t)) slice4_tables
       @ map (\<lambda>n. ambiguous_unless (index_exists c n)) slice4_indexes
       @ map (\<lambda>(t, suffix). ambiguous_unless (trigger_exists c (t @ ''_immutable_'' @ suffix)))
           (List.product slice4_tables [''update'', ''delete''])
       @ map (slice4_table_columns c) slice4_columns)"

definition guard_triggers :: "catalogue \<Rightarrow> error + unit" where
  "guard_triggers c = all_ok (map (\<lambda>t. ambiguous_unless (trigger_exists c t))
     [''immutable_projections_insert'', ''immutable_projections_update'',
      ''immutable_projection_rebuild_status_insert'', ''immutable_projection_rebuild_status_update''])"

text \<open>\<open>physical_descriptor\<close>: every object with its text, in order.\<close>

definition physical_descriptor :: "catalogue \<Rightarrow> (str \<times> str \<times> str) list" where
  "physical_descriptor c =
     map (\<lambda>(t, n, sql). (t, n, single_spaced (case sql of None \<Rightarrow> [] | Some s \<Rightarrow> s)))
       (sort_key (\<lambda>(t, n, _). (t, n)) (filter (\<lambda>(_, n, _). \<not> sqlite_name n) (ct_master c)))"

end
