(* ===== verification/Schema.thy ===== *)
theory Schema
  imports Catalogue
begin

text \<open>
  The records \<open>src/src/artifacts/schema.rs\<close> works on when it opens a store: the compatibility
  decisions, every query \<open>validate_core\<close> and its callees ask of the records, the rows
  \<open>validate_slice3_guards\<close> tries out, and the rows the migration of a version 0 store copies.
\<close>

definition STORE_SCHEMA :: int where
  "STORE_SCHEMA = 3"

section \<open>Compatibility decisions\<close>

text \<open>A row of \<open>compatibility_decisions\<close>, in the version 2 and in the version 3 shape.\<close>

record decision_v2 =
  d2_id :: int
  d2_from :: int
  d2_to :: int
  d2_operation :: str
  d2_actor :: str
  d2_origin :: str
  d2_outcome :: str
  d2_fingerprint :: str
  d2_result :: str

record decision =
  cd_id :: int
  cd_from :: int
  cd_to :: int
  cd_operation :: str
  cd_actor :: str
  cd_origin :: str
  cd_outcome :: str
  cd_result :: str
  cd_legacy :: "str option"
  cd_scope :: str
  cd_version :: int
  cd_fingerprint :: str
  cd_created :: str

definition decision_fingerprint ::
  "(bytes \<Rightarrow> bytes) \<Rightarrow> int \<Rightarrow> int \<Rightarrow> str \<Rightarrow> str \<Rightarrow> str \<Rightarrow> str \<Rightarrow> str \<Rightarrow> str \<Rightarrow> str" where
  "decision_fingerprint sha source target operation actor origin outcome' result scope =
     hex_bytes (sha (''akashic/decision/v1'' @ NUL @ i64_be source @ i64_be target
       @ concat (map field32 [operation, actor, origin, outcome', result, scope])))"

text \<open>The keys of the version 3 table: the row id and its two UNIQUE constraints.\<close>

definition insert_decision_row :: "decision list \<Rightarrow> decision \<Rightarrow> decision list option" where
  "insert_decision_row ds r =
     (if new_key cd_id r ds \<and> new_key (\<lambda>x. (cd_from x, cd_to x, cd_operation x, cd_scope x)) r ds
         \<and> new_key (\<lambda>x. (cd_version x, cd_fingerprint x)) r ds \<and> cd_version r = 1
      then Some (ds @ [r]) else None)"

definition insert_decision ::
  "(bytes \<Rightarrow> bytes) \<Rightarrow> decision list \<Rightarrow> int \<Rightarrow> int \<Rightarrow> str \<Rightarrow> str \<Rightarrow> str \<Rightarrow> str \<Rightarrow> str \<Rightarrow> str \<Rightarrow> str option \<Rightarrow> str
     \<Rightarrow> error + decision list" where
  "insert_decision sha ds source target operation actor origin outcome' result scope legacy created =
     ok_or (Sql ConstraintViolation) (insert_decision_row ds
       \<lparr>cd_id = next_id (map cd_id ds), cd_from = source, cd_to = target, cd_operation = operation,
        cd_actor = actor, cd_origin = origin, cd_outcome = outcome', cd_result = result,
        cd_legacy = legacy, cd_scope = scope, cd_version = 1,
        cd_fingerprint = decision_fingerprint sha source target operation actor origin outcome' result scope,
        cd_created = created\<rparr>)"

definition slice4_decision :: "(bytes \<Rightarrow> bytes) \<Rightarrow> decision list \<Rightarrow> error + decision list" where
  "slice4_decision sha ds = insert_decision sha ds 2 3 ''slice-4-additive-compatibility'' ''system'' ''store''
     ''migrated'' ''migrated'' ''store'' None timestamp"

text \<open>The version 2 table: the row id and UNIQUE fingerprint.\<close>

definition insert_decision_v2 :: "decision_v2 list \<Rightarrow> decision_v2 \<Rightarrow> decision_v2 list option" where
  "insert_decision_v2 ds r =
     (if new_key d2_fingerprint r ds then Some (ds @ [r\<lparr>d2_id := next_id (map d2_id ds)\<rparr>]) else None)"

definition migration_decision :: decision_v2 where
  "migration_decision = \<lparr>d2_id = 0, d2_from = 0, d2_to = 1, d2_operation = ''migration'', d2_actor = ''system'',
     d2_origin = ''artifact-store'', d2_outcome = ''accepted'', d2_fingerprint = ''legacy-0-to-1'',
     d2_result = ''migrated''\<rparr>"

definition slice3_decision :: decision_v2 where
  "slice3_decision = \<lparr>d2_id = 0, d2_from = 1, d2_to = 2, d2_operation = ''slice-3-additive-compatibility'',
     d2_actor = ''system'', d2_origin = ''artifact-store'', d2_outcome = ''accepted'',
     d2_fingerprint = ''slice-3-additive-compatibility'', d2_result = ''migrated''\<rparr>"

definition require_slice3_decision :: "decision_v2 list \<Rightarrow> error + unit" where
  "require_slice3_decision ds =
     ambiguous_unless (length (filter (\<lambda>x. d2_from x = 1 \<and> d2_to x = 2) ds) = 1
       \<and> length (filter (\<lambda>x. x\<lparr>d2_id := 0\<rparr> = slice3_decision) ds) = 1)"

definition require_slice4_decision :: "decision list \<Rightarrow> error + unit" where
  "require_slice4_decision ds =
     ambiguous_unless (length (filter (\<lambda>x. cd_from x = 2 \<and> cd_to x = 3) ds) = 1)"

text \<open>
  The loop of \<open>migrate_v2_to_v3\<close> over the version 2 rows in id order: a fingerprint already seen
  stops it, and so does a constraint of the new table.
\<close>

definition migrated_decision :: "(bytes \<Rightarrow> bytes) \<Rightarrow> decision_v2 \<Rightarrow> decision" where
  "migrated_decision sha x =
     \<lparr>cd_id = d2_id x, cd_from = d2_from x, cd_to = d2_to x, cd_operation = d2_operation x,
      cd_actor = d2_actor x, cd_origin = d2_origin x, cd_outcome = d2_outcome x, cd_result = d2_result x,
      cd_legacy = Some (d2_fingerprint x), cd_scope = ''store'', cd_version = 1,
      cd_fingerprint = decision_fingerprint sha (d2_from x) (d2_to x) (d2_operation x) (d2_actor x)
        (d2_origin x) (d2_outcome x) (d2_result x) ''store'',
      cd_created = timestamp\<rparr>"

fun migrate_decisions ::
  "(bytes \<Rightarrow> bytes) \<Rightarrow> str set \<Rightarrow> decision list \<Rightarrow> decision_v2 list \<Rightarrow> error + decision list" where
  "migrate_decisions sha seen out [] = Inr out"
| "migrate_decisions sha seen out (x # xs) =
     (if d2_fingerprint x \<in> seen then Inl AmbiguousSchema
      else case insert_decision_row out (migrated_decision sha x) of
          None \<Rightarrow> Inl (Sql ConstraintViolation)
        | Some out' \<Rightarrow> migrate_decisions sha (insert (d2_fingerprint x) seen) out' xs)"

definition decisions_v3 :: "(bytes \<Rightarrow> bytes) \<Rightarrow> decision_v2 list \<Rightarrow> error + decision list" where
  "decisions_v3 sha ds =
     and_then (migrate_decisions sha {} [] (sort_key d2_id ds)) (slice4_decision sha)"

text \<open>\<open>validate_v3_compatibility\<close>: the rows in id order; the transitions must be a known history.\<close>

definition expected_decision :: "int \<times> int \<Rightarrow> ((str \<times> str \<times> str \<times> str) \<times> str option) option" where
  "expected_decision t =
     (if t = (0, 1) then Some ((''migration'', ''artifact-store'', ''accepted'', ''migrated''), Some ''legacy-0-to-1'')
      else if t = (1, 2) then Some ((''slice-3-additive-compatibility'', ''artifact-store'', ''accepted'', ''migrated''),
        Some ''slice-3-additive-compatibility'')
      else if t = (2, 3) then Some ((''slice-4-additive-compatibility'', ''store'', ''migrated'', ''migrated''), None)
      else None)"

definition decision_valid :: "(bytes \<Rightarrow> bytes) \<Rightarrow> decision \<Rightarrow> bool" where
  "decision_valid sha r =
     (cd_created r \<noteq> [] \<and> cd_actor r = ''system'' \<and> cd_version r = 1 \<and> cd_scope r = ''store''
      \<and> cd_fingerprint r = decision_fingerprint sha (cd_from r) (cd_to r) (cd_operation r) (cd_actor r)
           (cd_origin r) (cd_outcome r) (cd_result r) ''store''
      \<and> expected_decision (cd_from r, cd_to r)
          = Some ((cd_operation r, cd_origin r, cd_outcome r, cd_result r), cd_legacy r))"

definition validate_v3_compatibility :: "(bytes \<Rightarrow> bytes) \<Rightarrow> decision list \<Rightarrow> error + unit" where
  "validate_v3_compatibility sha ds =
     (let rows = sort_key cd_id ds
      in ambiguous_unless (list_all (decision_valid sha) rows
           \<and> map (\<lambda>r. (cd_from r, cd_to r)) rows
               \<in> {[(2, 3)], [(1, 2), (2, 3)], [(0, 1), (1, 2), (2, 3)]}))"


section \<open>The records of a store\<close>

text \<open>\<open>ValidationContext\<close>.\<close>

record validation_context =
  vc_origin :: int
  vc_target :: int
  vc_finalized :: bool

definition expected_metadata :: "validation_context \<Rightarrow> int \<times> int" where
  "expected_metadata c = (if vc_finalized c then vc_target c else vc_origin c, 1)"

text \<open>The join of a version with its artifact and its parent version.\<close>

definition version_row_valid :: "(bytes \<Rightarrow> bytes) \<Rightarrow> db \<Rightarrow> version_row \<Rightarrow> bool" where
  "version_row_valid sha d v =
     (let a = row_with art_id (ver_artifact v) (artifacts d);
          p = (case ver_ancestry v of None \<Rightarrow> None | Some q \<Rightarrow> row_with ver_id q (versions d))
      in ver_hash v = hash_str sha (ver_canonical v) \<and> a \<noteq> None
         \<and> map_option art_owner a = Some (ver_actor v) \<and> map_option art_source a = Some (ver_source v)
         \<and> (ver_ancestry v \<noteq> None \<longrightarrow> p \<noteq> None
              \<and> map_option ver_artifact p = map_option art_id a
              \<and> map_option ver_actor p = Some (ver_actor v) \<and> map_option ver_source p = Some (ver_source v))
         \<and> ver_schema v = 1 \<and> map_option art_schema a = Some 1)"

text \<open>\<open>SELECT count(*)\<close> with a condition.\<close>

definition count :: "('r \<Rightarrow> bool) \<Rightarrow> 'r list \<Rightarrow> nat" where
  "count P rows = length (filter P rows)"

definition recorded_as :: "db \<Rightarrow> operation_row \<Rightarrow> nat" where
  "recorded_as d r = count (\<lambda>v. Some (ver_id v) = op_version r \<and> ver_operation v = op_id r) (versions d)"

definition lineage_of_op :: "db \<Rightarrow> operation_row \<Rightarrow> nat" where
  "lineage_of_op d r = count (\<lambda>l. lin_operation l = op_id r \<and> Some (lin_version l) = op_version r
     \<and> lin_parent l = op_lineage r) (lineage d)"

text \<open>The query \<open>malformed_operations\<close>.\<close>

definition operation_malformed :: "db \<Rightarrow> operation_row \<Rightarrow> bool" where
  "operation_malformed d r =
     (op_result r \<notin> {''accepted'', ''rejected''}
      \<or> op_result r = ''accepted'' \<and> (op_version r = None \<or> op_code r \<noteq> None
           \<or> recorded_as d r = 0 \<or> lineage_of_op d r = 0)
      \<or> op_result r = ''rejected'' \<and> (op_version r \<noteq> None \<or> op_lineage r \<noteq> None \<or> op_code r = None
           \<or> count (\<lambda>c. disc_operation c = op_id r \<and> disc_status c = ''rejected''
                 \<and> disc_result c = op_id r) (discrepancies d) \<noteq> 1)
      \<or> op_result r = ''accepted'' \<and> list_ex (\<lambda>c. disc_operation c = op_id r
           \<and> (disc_status c \<noteq> ''rejected'' \<or> opt_any (\<lambda>v. disc_result c \<noteq> v) (op_version r))) (discrepancies d))"

text \<open>The query \<open>broken_relations\<close>: the sum of its three counts is not zero.\<close>

definition lineage_row_broken :: "db \<Rightarrow> lineage_row \<Rightarrow> bool" where
  "lineage_row_broken d l =
     (lin_schema l \<noteq> 1
      \<or> count (\<lambda>r. op_id r = lin_operation l) (operations d) \<noteq> 1
      \<or> count (\<lambda>v. ver_id v = lin_version l) (versions d) \<noteq> 1
      \<or> count (\<lambda>(r, v). op_version r = Some (ver_id v) \<and> op_id r = lin_operation l
            \<and> op_result r = ''accepted'' \<and> ver_id v = lin_version l \<and> op_lineage r = lin_parent l)
          (List.product (operations d) (versions d)) \<noteq> 1)"

definition version_row_broken :: "db \<Rightarrow> version_row \<Rightarrow> bool" where
  "version_row_broken d v =
     (count (\<lambda>r. op_result r = ''accepted'' \<and> op_id r = ver_operation v \<and> op_version r = Some (ver_id v)
          \<and> op_lineage r = ver_ancestry v) (operations d) \<noteq> 1
      \<or> count (\<lambda>l. lin_operation l = ver_operation v \<and> lin_version l = ver_id v
          \<and> lin_parent l = ver_ancestry v) (lineage d) \<noteq> 1)"

definition relations_broken :: "db \<Rightarrow> bool" where
  "relations_broken d =
     (list_ex (lineage_row_broken d) (lineage d)
      \<or> list_ex (\<lambda>r. op_result r = ''accepted'' \<and> (recorded_as d r \<noteq> 1 \<or> lineage_of_op d r \<noteq> 1)) (operations d)
      \<or> list_ex (version_row_broken d) (versions d))"

text \<open>The join of a discrepancy with its operation.\<close>

definition discrepancy_bad :: "db \<Rightarrow> discrepancy_row \<Rightarrow> bool" where
  "discrepancy_bad d c =
     (disc_schema c \<noteq> 1 \<or> disc_status c \<noteq> ''rejected''
      \<or> (case row_with op_id (disc_operation c) (operations d) of
           None \<Rightarrow> True
         | Some r \<Rightarrow> op_result r = ''rejected'' \<and> disc_result c \<noteq> disc_operation c
             \<or> op_result r = ''accepted'' \<and> opt_any (\<lambda>v. disc_result c \<noteq> v) (op_version r)))"

definition source_lineage_bad :: "version_row \<Rightarrow> bool" where
  "source_lineage_bad v =
     (ver_source_schema v \<notin> {0, 1} \<or> ver_lineage v \<notin> {''native'', ''legacy''}
      \<or> ver_source_schema v = 1 \<and> ver_lineage v \<noteq> ''native''
      \<or> ver_source_schema v = 0 \<and> ver_lineage v \<noteq> ''legacy'')"

definition playback_incoherent :: "playback_row \<Rightarrow> bool" where
  "playback_incoherent r =
     (pb_result r = ''exact_playback_succeeded'' \<and> (\<not> pb_exact r \<or> pb_divergence r \<noteq> None)
      \<or> pb_result r = ''diverged'' \<and> (pb_exact r \<or> pb_divergence r = None))"

text \<open>What \<open>validate_core\<close> asks of the decisions of a version 2 table.\<close>

definition decision_v2_bad :: "decision_v2 \<Rightarrow> bool" where
  "decision_v2_bad x =
     (d2_from x \<notin> {0, 1} \<or> d2_to x \<notin> {1, 2} \<or> d2_outcome x \<notin> {''accepted'', ''rejected''}
      \<or> d2_result x \<notin> {''migrated'', ''rejected''}
      \<or> d2_outcome x = ''accepted'' \<and> d2_result x \<noteq> ''migrated'')"

datatype decisions = NoDecisions | DecisionsV2 "decision_v2 list" | DecisionsV3 "decision list"

text \<open>
  The record checks of \<open>validate_core\<close>, in its order. The metadata are the rows of
  \<open>schema_metadata\<close> in key order; \<open>known\<close> is the answer of the catalogue to the question asked in
  between; the decisions have the shape of their table (\<open>v3_compat\<close>). Columns that every INSERT of the program leaves at their default
  (\<open>schema_version\<close>, \<open>source_lineage\<close> of the projection tables) hold it and are not modelled.
\<close>

definition validate_records ::
  "(bytes \<Rightarrow> bytes) \<Rightarrow> validation_context \<Rightarrow> (str \<times> int) list \<Rightarrow> bool \<Rightarrow> decisions \<Rightarrow> db \<Rightarrow> error + unit" where
  "validate_records sha ctxt meta known ds d =
     and_then (ambiguous_unless (list_all (version_row_valid sha d) (versions d))) (\<lambda>_.
     and_then (ambiguous_unless (\<not> list_ex (operation_malformed d) (operations d))) (\<lambda>_.
     and_then (ambiguous_unless (\<not> relations_broken d)) (\<lambda>_.
     and_then (ambiguous_unless (\<not> list_ex (discrepancy_bad d) (discrepancies d))) (\<lambda>_.
     and_then (ambiguous_unless (meta = [(''migration_lineage'', snd (expected_metadata ctxt)),
                                        (''schema_version'', fst (expected_metadata ctxt))])) (\<lambda>_.
     and_then (ambiguous_unless known) (\<lambda>_.
     and_then (ambiguous_unless (list_all (\<lambda>a. art_schema a = 1) (artifacts d)
        \<and> list_all (\<lambda>v. ver_schema v = 1) (versions d) \<and> list_all (\<lambda>r. op_schema r = 1) (operations d)
        \<and> list_all (\<lambda>l. lin_schema l = 1) (lineage d) \<and> list_all (\<lambda>c. disc_schema c = 1) (discrepancies d))) (\<lambda>_.
     ambiguous_unless (\<not> list_ex source_lineage_bad (versions d)
        \<and> (case ds of DecisionsV2 xs \<Rightarrow> \<not> list_ex decision_v2_bad xs | _ \<Rightarrow> True)
        \<and> \<not> list_ex playback_incoherent (playbacks d)))))))))"

section \<open>The guard rows\<close>

text \<open>
  \<open>validate_slice3_guards\<close> tries the table constraints out: inside a savepoint that is rolled back
  it inserts rows of its own and looks whether the constraints answer as they should. The rows
  have fixed ids. The UPDATEs and DELETEs it expects to fail are refused by the \<open>immutable_*\<close>
  triggers, whose presence the catalogue checks establish; the INSERTs meet the records.
\<close>

definition insert_projection :: "db \<Rightarrow> projection_row \<Rightarrow> db option" where
  "insert_projection d r =
     (if new_key pr_id r (projections d) \<and> authority_ok (pr_status r) (pr_authoritative r)
      then Some (d\<lparr>projections := projections d @ [r]\<rparr>) else None)"

definition insert_rebuild_status :: "db \<Rightarrow> rebuild_status_row \<Rightarrow> db option" where
  "insert_rebuild_status d r =
     (if new_key rs_projection r (rebuild_status d) \<and> authority_ok (rs_status r) (rs_authoritative r)
      then Some (d\<lparr>rebuild_status := rebuild_status d @ [r]\<rparr>) else None)"

definition guard_projection :: "str \<Rightarrow> str \<Rightarrow> projection_row" where
  "guard_projection k status = \<lparr>pr_id = k, pr_schema = 1, pr_generation = 0, pr_source_generation = 0,
     pr_authoritative = True, pr_status = status, pr_payload = []\<rparr>"

definition guard_status :: "str \<Rightarrow> str \<Rightarrow> rebuild_status_row" where
  "guard_status k status = \<lparr>rs_projection = k, rs_status = status, rs_authoritative = True,
     rs_failure = None, rs_drift = None\<rparr>"

definition guard_playback :: "str \<Rightarrow> str \<Rightarrow> str option \<Rightarrow> bool \<Rightarrow> playback_row" where
  "guard_playback k result divergence exact = \<lparr>pb_id = k, pb_generation = 1, pb_result = result,
     pb_divergence = divergence, pb_exact = exact\<rparr>"

definition guard_simulation :: simulation_row where
  "guard_simulation = \<lparr>sim_id = ''guard'', sim_label = ''captured_outcome_simulation'',
     sim_outcome = ''ok'', sim_exact_evidence = False\<rparr>"

text \<open>The table of coherent and incoherent playback results both loops run over.\<close>

definition coherence_cases :: "(nat \<times> str \<times> bool \<times> str option \<times> bool) list" where
  "coherence_cases =
     [(0, ''exact_playback_succeeded'', True, None, True),
      (1, ''exact_playback_succeeded'', False, None, False),
      (2, ''exact_playback_succeeded'', True, Some ''drift'', False),
      (3, ''diverged'', False, Some ''drift'', True),
      (4, ''diverged'', True, Some ''drift'', False),
      (5, ''diverged'', False, None, False)]"

fun strictly_increasing :: "int option \<Rightarrow> int list \<Rightarrow> bool" where
  "strictly_increasing previous [] = True"
| "strictly_increasing previous (n # ns) =
     (\<not> opt_any (\<lambda>p. n \<le> p) previous \<and> strictly_increasing (Some n) ns)"

definition guard_name :: "str \<Rightarrow> nat \<Rightarrow> str" where
  "guard_name kind' n = kind' @ dec n"

text \<open>
  The last loop: insert a coherent row, then set its columns to the case's values under the
  trigger \<open>immutable_playback_results_coherence_update\<close>.
\<close>

fun update_guards :: "db \<Rightarrow> (nat \<times> str \<times> bool \<times> str option \<times> bool) list \<Rightarrow> error + bool" where
  "update_guards d [] = Inr True"
| "update_guards d ((n, result, exact, divergence, accepted) # cs) =
     (let k = guard_name ''guard-update-'' n in
      case insert_playback d (guard_playback k ''exact_playback_succeeded'' None True) of
        None \<Rightarrow> Inl (Sql ConstraintViolation)
      | Some d1 \<Rightarrow>
          let row = guard_playback k result divergence exact;
              changed = playback_coherent row;
              d2 = (if changed then d1\<lparr>playbacks := butlast (playbacks d1) @ [row]\<rparr> else d1)
          in and_then (update_guards d2 cs) (\<lambda>rest. Inr (changed = accepted \<and> rest)))"

definition coherence_guard :: "db \<Rightarrow> nat \<times> str \<times> bool \<times> str option \<times> bool \<Rightarrow> bool" where
  "coherence_guard d c = (case c of (n, result, exact, divergence, accepted) \<Rightarrow>
     (insert_playback d (guard_playback (guard_name ''guard-coherence-'' n) result divergence exact) \<noteq> None) = accepted)"

definition validate_slice3_guards :: "db \<Rightarrow> error + unit" where
  "validate_slice3_guards d =
     and_then (ambiguous_unless (strictly_increasing None
        (map ev_sequence (filter (\<lambda>r. ev_schema r = 1) (events d))))) (\<lambda>_.
     and_then (ambiguous_unless (insert_playback d (guard_playback ''guard'' ''exact_playback_succeeded'' None True) \<noteq> None)) (\<lambda>_.
     and_then (ambiguous_unless (insert_simulation d guard_simulation \<noteq> None)) (\<lambda>_.
     and_then (ok_or (Sql ConstraintViolation) (insert_projection d (guard_projection ''authority-guard'' ''complete''))) (\<lambda>d1.
     and_then (ambiguous_unless (insert_projection d1 (guard_projection ''authority-guard-bad'' ''stale'') = None
        \<and> \<not> authority_ok ''failed'' True)) (\<lambda>_.
     and_then (ok_or (Sql ConstraintViolation) (insert_rebuild_status d (guard_status ''authority-guard'' ''complete''))) (\<lambda>d1.
     and_then (ambiguous_unless (insert_rebuild_status d1 (guard_status ''authority-guard-bad'' ''stale'') = None
        \<and> \<not> authority_ok ''failed'' True)) (\<lambda>_.
     and_then (ambiguous_unless (list_all (coherence_guard d) coherence_cases)) (\<lambda>_.
     and_then (update_guards d coherence_cases) (\<lambda>ok. ambiguous_unless ok)))))))))"


section \<open>Legacy stores\<close>

text \<open>The \<open>artifacts\<close> and \<open>versions\<close> tables of a version 0 store, in rowid order.\<close>

record legacy_artifact =
  la_id :: str
  la_owner :: str
  la_source :: str

record legacy_version =
  lv_id :: str
  lv_artifact :: str
  lv_hash :: str
  lv_canonical :: str
  lv_ancestry :: "str option"
  lv_operation :: str
  lv_actor :: str
  lv_source :: str

definition legacy_row_bad :: "legacy_artifact list \<Rightarrow> legacy_version list \<Rightarrow> legacy_version \<Rightarrow> bool" where
  "legacy_row_bad as vs v =
     (case row_with la_id (lv_artifact v) as of
        None \<Rightarrow> True
      | Some a \<Rightarrow> lv_id v = []
          \<or> (case lv_ancestry v of None \<Rightarrow> False | Some q \<Rightarrow>
               (case row_with lv_id q vs of None \<Rightarrow> True
                | Some p \<Rightarrow> lv_artifact p \<noteq> lv_artifact v \<or> lv_actor p \<noteq> lv_actor v \<or> lv_source p \<noteq> lv_source v))
          \<or> lv_actor v \<noteq> la_owner a \<or> lv_source v \<noteq> la_source a \<or> lv_operation v = [])"

definition migrated_artifact :: "legacy_artifact \<Rightarrow> artifact_row" where
  "migrated_artifact a = \<lparr>art_id = la_id a, art_owner = la_owner a, art_source = la_source a, art_schema = 1\<rparr>"

definition migrated_version :: "legacy_version \<Rightarrow> version_row" where
  "migrated_version v =
     \<lparr>ver_id = lv_id v, ver_artifact = lv_artifact v, ver_hash = lv_hash v, ver_canonical = lv_canonical v,
      ver_ancestry = lv_ancestry v, ver_operation = lv_operation v, ver_actor = lv_actor v,
      ver_source = lv_source v, ver_identity = None, ver_expected_hash = None, ver_schema = 1,
      ver_source_schema = 0, ver_lineage = ''legacy'', ver_path = None, ver_git = None,
      ver_git_repository = None, ver_git_head_state = None, ver_git_head_oid = None,
      ver_git_index_present = None, ver_git_index_fingerprint = None\<rparr>"

text \<open>
  \<open>INSERT .. SELECT\<close> into the new tables: the keys must be distinct, and the foreign keys hold
  when the statement ends.
\<close>

definition copy_legacy :: "legacy_artifact list \<Rightarrow> legacy_version list \<Rightarrow> db option" where
  "copy_legacy as vs =
     (if distinct (map la_id as) \<and> distinct (map lv_id vs) \<and> distinct (map lv_operation vs)
         \<and> list_all (\<lambda>v. lv_artifact v \<in> la_id ` set as \<and> opt_all (\<lambda>p. p \<in> lv_id ` set vs) (lv_ancestry v)) vs
      then Some (empty_db\<lparr>artifacts := map migrated_artifact as, versions := map migrated_version vs\<rparr>)
      else None)"

definition migrated_operation :: "(bytes \<Rightarrow> bytes) \<Rightarrow> (nat \<Rightarrow> bool) \<Rightarrow> legacy_version \<Rightarrow> operation_row" where
  "migrated_operation sha pr v =
     \<lparr>op_id = lv_operation v,
      op_fingerprint = fingerprint_parts sha pr (lv_actor v) (lv_source v) (Some (lv_artifact v))
        (hash_str sha (lv_canonical v)) None (lv_ancestry v),
      op_result = ''accepted'', op_version = Some (lv_id v), op_lineage = lv_ancestry v,
      op_code = None, op_schema = 1\<rparr>"

definition migrated_lineage :: "legacy_version \<Rightarrow> lineage_row" where
  "migrated_lineage v = \<lparr>lin_operation = lv_operation v, lin_version = lv_id v,
     lin_parent = lv_ancestry v, lin_schema = 1\<rparr>"

fun migrate_operations ::
  "(bytes \<Rightarrow> bytes) \<Rightarrow> (nat \<Rightarrow> bool) \<Rightarrow> db \<Rightarrow> legacy_version list \<Rightarrow> db option" where
  "migrate_operations sha pr d [] = Some d"
| "migrate_operations sha pr d (v # vs) =
     (case insert_operation d (migrated_operation sha pr v) of None \<Rightarrow> None
      | Some d1 \<Rightarrow> (case insert_lineage d1 (migrated_lineage v) of None \<Rightarrow> None
        | Some d2 \<Rightarrow> migrate_operations sha pr d2 vs))"

end
