(* ===== verification/Opening.thy ===== *)
theory Opening
  imports Schema
begin

text \<open>
  \<open>schema::initialize\<close> (\<open>src/src/artifacts/schema.rs\<close>): how a file of any earlier schema, or an empty
  one, becomes a version 3 store, and what is checked before the program works on it. Every
  function takes the file with its catalogue and returns it as it is left; an error rolls the
  transaction back. The checks of the catalogue are those of \<open>Catalogue\<close>, those of the records
  are in \<open>Schema\<close>, in the order of the code.
\<close>

record store_file =
  sf_catalogue :: catalogue
  sf_metadata :: "(str \<times> int) list"                         \<comment> \<open>\<open>schema_metadata\<close>, in key order\<close>
  sf_legacy :: "legacy_artifact list \<times> legacy_version list"  \<comment> \<open>the tables of version 0\<close>
  sf_decisions :: decisions
  sf_db :: db

definition empty_file :: store_file where
  "empty_file = \<lparr>sf_catalogue = empty_catalogue, sf_metadata = [], sf_legacy = ([], []),
     sf_decisions = NoDecisions, sf_db = empty_db\<rparr>"

definition schema_value :: "store_file \<Rightarrow> int option" where
  "schema_value f =
     (if table_exists (sf_catalogue f) ''schema_metadata'' then map_of (sf_metadata f) ''schema_version'' else None)"

definition fresh_metadata :: "(str \<times> int) list" where
  "fresh_metadata = [(''migration_lineage'', 1), (''schema_version'', 1)]"

definition set_schema_value :: "int \<Rightarrow> store_file \<Rightarrow> store_file" where
  "set_schema_value n f =
     f\<lparr>sf_metadata := map (\<lambda>(k, v). if k = ''schema_version'' then (k, n) else (k, v)) (sf_metadata f)\<rparr>"

section \<open>The tables of the records\<close>

definition slice3_guards :: "catalogue \<Rightarrow> db \<Rightarrow> error + unit" where
  "slice3_guards c d = and_then (guard_triggers c) (\<lambda>_. validate_slice3_guards d)"

definition record_defaults :: "(str \<times> str \<times> str) list" where
  "record_defaults = [(''schema_version'', ''INTEGER NOT NULL DEFAULT 1'', ''1''),
     (''source_lineage'', ''TEXT NOT NULL DEFAULT 'native'' @ [CHR 0x27], [CHR 0x27] @ ''native'' @ [CHR 0x27])]"

text \<open>\<open>SELECT "notnull",dflt_value FROM pragma_table_info(..) WHERE name=..\<close>.\<close>

definition default_valid :: "catalogue \<Rightarrow> str \<Rightarrow> str \<Rightarrow> str \<Rightarrow> error + unit" where
  "default_valid c table column default' =
     (case find (\<lambda>i. ci_name i = column) (table_info c table) of
        None \<Rightarrow> Inl (Sql QueryReturnedNoRows)
      | Some i \<Rightarrow> ambiguous_unless (ci_notnull i = 1 \<and> ci_default i = Some default'))"

definition record_tables :: "str list" where
  "record_tables = [''events'', ''findings'', ''evidence'', ''history'', ''replay_metadata'', ''lifecycle_evidence'',
     ''reviewer_findings'', ''outcomes'', ''retrospectives'', ''acceptance_requirements'']"

text \<open>One pass of the loop over the record tables; only \<open>events\<close> ever holds rows.\<close>

definition record_table :: "engine \<Rightarrow> db \<Rightarrow> str \<Rightarrow> catalogue \<Rightarrow> error + catalogue" where
  "record_table en d table c =
     and_then (if table \<in> {''projections'', ''projection_rebuild_status'', ''events''} then Inr c
       else run_ddl en (EnsureImmutable table) c) (\<lambda>c1.
     and_then (ambiguous_unless (table = ''events'' \<longrightarrow>
       list_all (\<lambda>r. ev_schema r = 1 \<and> ev_lineage r \<noteq> []) (events d))) (\<lambda>_. Inr c1))"

definition ensure_runtime_record_schema :: "engine \<Rightarrow> db \<Rightarrow> catalogue \<Rightarrow> error + catalogue" where
  "ensure_runtime_record_schema en d c =
     and_then (run_ddl en EnsureRecordTables c) (\<lambda>c1.
     and_then (ambiguous_unless (\<not> (table_exists c1 ''projections''
         \<and> (\<not> trigger_exists c1 ''immutable_projections_insert''
            \<or> \<not> trigger_exists c1 ''immutable_projection_rebuild_status_insert'')))) (\<lambda>_.
     and_then (run_ddl en EnsureProjectionTables c1) (\<lambda>c2.
     and_then (for_each (\<lambda>table. for_each (\<lambda>(column, definition', _). add_missing_column en table (column, definition'))
         record_defaults) slice3_tables c2) (\<lambda>c3.
     and_then (all_ok (map (\<lambda>(table, column, _, default'). default_valid c3 table column default')
         (List.product slice3_tables record_defaults))) (\<lambda>_.
     and_then (for_each (add_missing_column en ''events'') later_event_columns c3) (\<lambda>c4.
     and_then (for_each (record_table en d) record_tables c4) (\<lambda>c5.
     and_then (slice3_guards c5 d) (\<lambda>_.
     and_then (if table_exists c ''events'' then Inr c5 else run_ddl en CreateEventTriggers c5) (\<lambda>c6.
     and_then (events_triggers_valid en c6) (\<lambda>_. Inr c6))))))))))"

definition ensure_record_schema :: "engine \<Rightarrow> db \<Rightarrow> catalogue \<Rightarrow> error + catalogue" where
  "ensure_record_schema = ensure_runtime_record_schema"

definition prepare_canonical_v2 :: "engine \<Rightarrow> db \<Rightarrow> catalogue \<Rightarrow> error + catalogue" where
  "prepare_canonical_v2 en d c =
     and_then (if table_exists c ''compatibility_decisions'' then run_ddl en DropDecisions c else Inr c) (\<lambda>c1.
     and_then (run_ddl en EnsureDecisionsV2 c1) (ensure_record_schema en d))"

text \<open>The reference catalogues are built in an empty database in memory.\<close>

definition canonical_v2 :: "engine \<Rightarrow> catalogue \<Rightarrow> error + catalogue" where
  "canonical_v2 en c = and_then (run_ddl en CreateSchema c) (prepare_canonical_v2 en empty_db)"

definition canonical_v3 :: "engine \<Rightarrow> catalogue \<Rightarrow> error + catalogue" where
  "canonical_v3 en c =
     and_then (canonical_v2 en c) (\<lambda>c1.
     and_then (install_version_observation_columns en c1) (\<lambda>c2.
     and_then (run_ddl en DropDecisions c2) (\<lambda>c3.
     and_then (run_ddl en CreateDecisionsV3 c3) (run_ddl en EnsureSlice4))))"

definition reference_catalogue :: "engine \<Rightarrow> int \<Rightarrow> error + catalogue" where
  "reference_catalogue en version =
     (if version = 2 then canonical_v2 en empty_catalogue
      else if version = 3 then canonical_v3 en empty_catalogue
      else and_then (run_ddl en CreateSchema empty_catalogue) (\<lambda>_. Inl AmbiguousSchema))"

definition validate_canonical_physical_schema :: "engine \<Rightarrow> int \<Rightarrow> catalogue \<Rightarrow> error + unit" where
  "validate_canonical_physical_schema en version c =
     and_then (reference_catalogue en version) (\<lambda>r.
     ambiguous_unless (physical_descriptor c = physical_descriptor r))"

section \<open>Validation\<close>

definition validate_core ::
  "(bytes \<Rightarrow> bytes) \<Rightarrow> engine \<Rightarrow> validation_context \<Rightarrow> store_file \<Rightarrow> error + unit" where
  "validate_core sha en ctxt f =
     (let c = sf_catalogue f; d = sf_db f in
      and_then (core_catalogue en c) (\<lambda>_.
      and_then (slice3_guards c d) (\<lambda>_.
      and_then (ambiguous_unless (intact en c d)) (\<lambda>_.
      validate_records sha ctxt (sf_metadata f) (only_known_objects c) (sf_decisions f) d))))"

definition validate_v2_compatibility :: "engine \<Rightarrow> validation_context \<Rightarrow> store_file \<Rightarrow> error + unit" where
  "validate_v2_compatibility en ctxt f =
     and_then (validate_canonical_physical_schema en 2 (sf_catalogue f)) (\<lambda>_.
     and_then (ambiguous_unless (count (\<lambda>(k, v). k = ''schema_version'' \<and> v = fst (expected_metadata ctxt)
         \<or> k = ''migration_lineage'' \<and> v = 1) (sf_metadata f) = 2)) (\<lambda>_.
     and_then (v2_columns (sf_catalogue f)) (\<lambda>_.
     and_then (case sf_decisions f of DecisionsV2 ds \<Rightarrow> require_slice3_decision ds | _ \<Rightarrow> Inl AmbiguousSchema) (\<lambda>_.
     and_then (validate_runtime_record_schema en (sf_catalogue f)) (\<lambda>_.
     slice3_guards (sf_catalogue f) (sf_db f))))))"

definition validate_v3 :: "(bytes \<Rightarrow> bytes) \<Rightarrow> engine \<Rightarrow> store_file \<Rightarrow> error + unit" where
  "validate_v3 sha en f =
     and_then (validate_canonical_physical_schema en 3 (sf_catalogue f)) (\<lambda>_.
     and_then (validate_slice4_v3_schema (sf_catalogue f)) (\<lambda>_.
     and_then (v3_columns (sf_catalogue f)) (\<lambda>_.
     case sf_decisions f of DecisionsV3 ds \<Rightarrow> validate_v3_compatibility sha ds | _ \<Rightarrow> Inl AmbiguousSchema)))"

section \<open>Migrations\<close>

text \<open>\<open>Error::Sql(_) => Error::AmbiguousSchema\<close>.\<close>

fun sql_is_ambiguous :: "error \<Rightarrow> error" where
  "sql_is_ambiguous (Sql e) = AmbiguousSchema"
| "sql_is_ambiguous e = e"

definition map_err :: "('e \<Rightarrow> 'f) \<Rightarrow> 'e + 'a \<Rightarrow> 'f + 'a" where
  "map_err g x = (case x of Inl e \<Rightarrow> Inl (g e) | Inr a \<Rightarrow> Inr a)"

definition migrate ::
  "(bytes \<Rightarrow> bytes) \<Rightarrow> (nat \<Rightarrow> bool) \<Rightarrow> engine \<Rightarrow> store_file \<Rightarrow> error + store_file" where
  "migrate sha pr en f =
     (case sf_legacy f of (as, vs) \<Rightarrow>
      and_then (legacy_objects (sf_catalogue f)) (\<lambda>_.
      and_then (ambiguous_unless (sf_metadata f = [(''migration_lineage'', 0), (''schema_version'', 0)])) (\<lambda>_.
      and_then (legacy_shape (sf_catalogue f)) (\<lambda>_.
      and_then (ambiguous_unless (\<not> list_ex (legacy_row_bad as vs) vs)) (\<lambda>_.
      and_then (ambiguous_unless (list_all (\<lambda>v. lv_hash v = hash_str sha (lv_canonical v)) vs)) (\<lambda>_.
      and_then (run_ddl en RenameLegacy (sf_catalogue f)) (\<lambda>c1.
      and_then (run_ddl en CreateSchema c1) (\<lambda>c2.
      and_then (ok_or (Sql ConstraintViolation) (copy_legacy as vs)) (\<lambda>d.
      and_then (ok_or (Sql ConstraintViolation) (insert_decision_v2 [] migration_decision)) (\<lambda>ds.
      and_then (ok_or (Sql ConstraintViolation) (migrate_operations sha pr d vs)) (\<lambda>d1.
      and_then (run_ddl en DropLegacy c2) (\<lambda>c3.
      Inr \<lparr>sf_catalogue = c3, sf_metadata = fresh_metadata, sf_legacy = ([], []), sf_decisions = DecisionsV2 ds,
           sf_db = d1\<rparr>))))))))))))"

definition migrate_v2_to_v3 :: "(bytes \<Rightarrow> bytes) \<Rightarrow> engine \<Rightarrow> store_file \<Rightarrow> error + store_file" where
  "migrate_v2_to_v3 sha en f =
     and_then (migration_catalogue en (sf_catalogue f)) (\<lambda>c1.
     case sf_decisions f of
       DecisionsV2 ds \<Rightarrow>
         and_then (migrate_decisions sha {} [] (sort_key d2_id ds)) (\<lambda>out.
         and_then (run_ddl en DropRenamedDecisions c1) (\<lambda>c2.
         and_then (slice4_decision sha out) (\<lambda>ds3.
         Inr (f\<lparr>sf_catalogue := c2, sf_decisions := DecisionsV3 ds3\<rparr>))))
     | _ \<Rightarrow> Inl AmbiguousSchema)"

text \<open>The steps from a version 2 file to version 3, common to the three migrations.\<close>

definition upgrade :: "(bytes \<Rightarrow> bytes) \<Rightarrow> engine \<Rightarrow> int \<Rightarrow> store_file \<Rightarrow> error + store_file" where
  "upgrade sha en origin f =
     (let before = \<lparr>vc_origin = origin, vc_target = 3, vc_finalized = False\<rparr> in
      and_then (validate_v2_compatibility en before f) (\<lambda>_.
      and_then (migrate_v2_to_v3 sha en f) (\<lambda>f1.
      and_then (run_ddl en EnsureSlice4 (sf_catalogue f1)) (\<lambda>c.
      let f2 = f1\<lparr>sf_catalogue := c\<rparr> in
      and_then (validate_v3 sha en f2) (\<lambda>_.
      and_then (validate_core sha en before f2) (\<lambda>_.
      and_then (ambiguous_unless (intact en c (sf_db f2))) (\<lambda>_.
      let f3 = set_schema_value 3 f2 in
      and_then (validate_core sha en (before\<lparr>vc_finalized := True\<rparr>) f3) (\<lambda>_. Inr f3))))))))"

definition create_v3 :: "(bytes \<Rightarrow> bytes) \<Rightarrow> engine \<Rightarrow> store_file \<Rightarrow> error + store_file" where
  "create_v3 sha en f =
     and_then (canonical_v3 en (sf_catalogue f)) (\<lambda>c.
     and_then (slice4_decision sha []) (\<lambda>ds.
     Inr (set_schema_value 3 \<lparr>sf_catalogue = c, sf_metadata = fresh_metadata, sf_legacy = ([], []),
       sf_decisions = DecisionsV3 ds, sf_db = empty_db\<rparr>)))"

definition migrate_v0 ::
  "(bytes \<Rightarrow> bytes) \<Rightarrow> (nat \<Rightarrow> bool) \<Rightarrow> engine \<Rightarrow> store_file \<Rightarrow> error + store_file" where
  "migrate_v0 sha pr en f =
     and_then (map_err sql_is_ambiguous (migrate sha pr en f)) (\<lambda>f1.
     let ds = (case sf_decisions f1 of DecisionsV2 ds \<Rightarrow>
                 DecisionsV2 (case insert_decision_v2 ds slice3_decision of Some ds1 \<Rightarrow> ds1 | None \<Rightarrow> ds)
               | x \<Rightarrow> x)
     in and_then (ensure_runtime_record_schema en (sf_db f1) (sf_catalogue f1)) (\<lambda>c.
        and_then (run_ddl en EnsureEventTriggers c) (\<lambda>c1.
        upgrade sha en 1 (f1\<lparr>sf_catalogue := c1, sf_decisions := ds\<rparr>))))"

definition migrate_v1 :: "(bytes \<Rightarrow> bytes) \<Rightarrow> engine \<Rightarrow> store_file \<Rightarrow> error + store_file" where
  "migrate_v1 sha en f =
     (let before = \<lparr>vc_origin = 1, vc_target = 3, vc_finalized = False\<rparr>;
          slice3_present = list_ex (table_exists (sf_catalogue f)) slice3_tables in
      and_then (if slice3_present then Inr () else validate_legacy_core (sf_catalogue f)) (\<lambda>_.
      and_then (check_legacy_events en slice3_present (sf_catalogue f)) (\<lambda>c1.
      and_then (if slice3_present then map_err sql_is_ambiguous (validate_core sha en before (f\<lparr>sf_catalogue := c1\<rparr>))
        else Inr ()) (\<lambda>_.
      let canonical = (slice3_present \<or> \<not> table_exists c1 ''compatibility_decisions'') in
      and_then (if canonical then prepare_canonical_v2 en (sf_db f) c1 else Inr c1) (\<lambda>c2.
      and_then (run_ddl en EnsureDecisionsV2 c2) (\<lambda>c3.
      case (if canonical then DecisionsV2 [] else sf_decisions f) of
        DecisionsV2 ds \<Rightarrow>
          and_then (ok_or (Sql ConstraintViolation) (insert_decision_v2 ds slice3_decision)) (\<lambda>ds1.
          upgrade sha en 1 (f\<lparr>sf_catalogue := c3, sf_decisions := DecisionsV2 ds1\<rparr>))
      | _ \<Rightarrow> Inl (Sql ConstraintViolation)))))))"

definition reopen_v3 :: "(bytes \<Rightarrow> bytes) \<Rightarrow> engine \<Rightarrow> store_file \<Rightarrow> error + store_file" where
  "reopen_v3 sha en f =
     and_then (run_ddl en EnsureSlice4 (sf_catalogue f)) (\<lambda>c.
     let f1 = f\<lparr>sf_catalogue := c\<rparr> in
     and_then (validate_v3 sha en f1) (\<lambda>_.
     and_then (validate_core sha en \<lparr>vc_origin = 3, vc_target = 3, vc_finalized = True\<rparr> f1) (\<lambda>_.
     and_then (case sf_decisions f1 of DecisionsV3 ds \<Rightarrow> require_slice4_decision ds | _ \<Rightarrow> Inl AmbiguousSchema) (\<lambda>_.
     Inr f1))))"

text \<open>\<open>schema::initialize\<close>, inside the transaction of \<open>Store::from_connection\<close>: an error rolls back.\<close>

definition initialize ::
  "(bytes \<Rightarrow> bytes) \<Rightarrow> (nat \<Rightarrow> bool) \<Rightarrow> engine \<Rightarrow> store_file \<Rightarrow> error + store_file" where
  "initialize sha pr en f =
     and_then
       (case schema_value f of
          None \<Rightarrow> if nonempty (sf_catalogue f) then Inl AmbiguousSchema else create_v3 sha en f
        | Some v \<Rightarrow>
            if v = 0 then migrate_v0 sha pr en f
            else if v = 1 then migrate_v1 sha en f
            else if v = 2 then and_then (validate_canonical_physical_schema en 2 (sf_catalogue f)) (\<lambda>_. upgrade sha en 2 f)
            else if v = STORE_SCHEMA then reopen_v3 sha en f
            else if STORE_SCHEMA < v then Inl (UnsupportedSchema v)
            else Inl AmbiguousSchema)
       (\<lambda>f1. if schema_value f \<noteq> Some STORE_SCHEMA
              then and_then (ensure_record_schema en (sf_db f1) (sf_catalogue f1)) (\<lambda>c. Inr (f1\<lparr>sf_catalogue := c\<rparr>))
              else Inr f1)"

end
