(* ===== verification/Sqlite.thy ===== *)
theory Sqlite
  imports Opening
begin

text \<open>
  A concrete engine: what SQLite makes of the program's DDL. The tables, columns, keys, indexes
  and texts below are those SQLite 3.46 reports after running the texts of
  \<open>src/src/artifacts/schema.rs\<close>; \<open>sqlite_run\<close> executes the batches on a catalogue. With it the
  program's own checks can be run on the program's own schema.
\<close>

section \<open>The interface\<close>

text \<open>The objects of a batch of \<open>CREATE .. IF NOT EXISTS\<close> statements: type and name.\<close>

definition immutable_names :: "str \<Rightarrow> (str \<times> str) list" where
  "immutable_names table = map (\<lambda>(n, _, _). (''trigger'', n)) (immutable_pair table)"

definition projection_trigger_names :: "str list" where
  "projection_trigger_names =
     [''immutable_playback_results_coherence_insert'', ''immutable_playback_results_coherence_update'',
      ''immutable_projections_insert'', ''immutable_projections_update'',
      ''immutable_projection_rebuild_status_insert'', ''immutable_projection_rebuild_status_update'']"

fun created :: "ddl \<Rightarrow> (str \<times> str) list" where
  "created EnsureRecordTables = map (Pair ''table'') record_tables"
| "created EnsureProjectionTables = map (Pair ''table'') slice3_tables
     @ map (Pair ''trigger'') projection_trigger_names
     @ concat (map immutable_names [''projection_rebuilds'', ''playback_results'', ''captured_outcome_simulations''])"
| "created (EnsureImmutable table) = immutable_names table"
| "created EnsureSlice4 = map (Pair ''table'') (slice4_tables @ [''reconciliation_projection_evidence''])
     @ map (Pair ''index'') (slice4_indexes @ [''reconciliation_projection_evidence_run''])
     @ map (\<lambda>(t, e). (''trigger'', t @ ''_immutable_'' @ e)) (List.product slice4_tables [''update'', ''delete''])
     @ map (Pair ''trigger'') [''versions_observation_guard'', ''reconciliation_discrepancies_guards'',
         ''recovery_actions_guards'', ''recovery_outcomes_guards'']"
| "created s = []"

definition exists_all :: "catalogue \<Rightarrow> (str \<times> str) list \<Rightarrow> bool" where
  "exists_all c os = list_all (\<lambda>(ty, n). 0 < count_objects c ty n) os"

text \<open>
  What the program relies on when it runs the same batch again: after a batch its objects exist,
  and a batch all of whose objects exist does nothing.
\<close>

locale if_not_exists =
  fixes run :: "ddl \<Rightarrow> catalogue \<Rightarrow> error + catalogue"
  assumes run_creates: "created s \<noteq> [] \<Longrightarrow> run s c = Inr c' \<Longrightarrow> exists_all c' (created s)"
    and run_nothing: "created s \<noteq> [] \<Longrightarrow> exists_all c (created s) \<Longrightarrow> run s c = Inr c"
begin

lemma run_again: "created s \<noteq> [] \<Longrightarrow> run s c = Inr c' \<Longrightarrow> run s c' = Inr c'"
  using run_creates run_nothing by blast

lemma run_unchanged: "created s \<noteq> [] \<Longrightarrow> exists_all c (created s) \<Longrightarrow> run s c = Inr c' \<Longrightarrow> c' = c"
  using run_nothing by fastforce

end

section \<open>The program's tables as SQLite reports them\<close>

text \<open>Name, text, columns (name, type, not null, default, key), foreign keys and indexes of a table.\<close>

type_synonym table_text = "str \<times> str \<times> (str \<times> str \<times> int \<times> str option \<times> int) list \<times> (str \<times> str) list
  \<times> (str \<times> int \<times> str \<times> str list) list"

text \<open>The tables of \<open>create_schema\<close>, after its own \<open>ALTER TABLE\<close> statements.\<close>

definition tbl_schema_metadata :: table_text where
  "tbl_schema_metadata =
     (''schema_metadata'',
      (''CREATE TABLE schema_metadata(key TEXT PRIMARY KEY,value INTEGER NOT NULL)''),
      [(''key'', ''TEXT'', 0, None, 1), (''value'', ''INTEGER'', 1, None, 0)],
      [],
      [(''sqlite_autoindex_schema_metadata_1'', 1, ''pk'', [''key''])])"

definition tbl_artifacts :: table_text where
  "tbl_artifacts =
     (''artifacts'',
      (''CREATE TABLE artifacts(id TEXT PRIMARY KEY,owner TEXT NOT NULL,source TEXT NOT NULL, ''
       @ ''schema_version INTEGER NOT NULL DEFAULT 1)''),
      [(''id'', ''TEXT'', 0, None, 1), (''owner'', ''TEXT'', 1, None, 0), (''source'', ''TEXT'', 1, None, 0),
       (''schema_version'', ''INTEGER'', 1, Some ''1'', 0)],
      [],
      [(''sqlite_autoindex_artifacts_1'', 1, ''pk'', [''id''])])"

definition tbl_versions :: table_text where
  "tbl_versions =
     (''versions'',
      (''CREATE TABLE versions(id TEXT PRIMARY KEY,artifact_id TEXT NOT NULL,hash TEXT NOT ''
       @ ''NULL,canonical TEXT NOT NULL,ancestry TEXT,operation TEXT NOT NULL UNIQUE,actor TEXT NOT ''
       @ ''NULL,source TEXT NOT NULL,observed_identity TEXT,expected_hash TEXT,schema_version INTEGER NOT ''
       @ ''NULL, source_schema_version INTEGER NOT NULL DEFAULT 1, source_lineage TEXT NOT NULL DEFAULT''
       @ '' 'native',FOREIGN KEY(artifact_id) REFERENCES artifacts(id),FOREIGN KEY(ancestry) REFERENCES ''
       @ ''versions(id))''),
      [(''id'', ''TEXT'', 0, None, 1), (''artifact_id'', ''TEXT'', 1, None, 0),
       (''hash'', ''TEXT'', 1, None, 0), (''canonical'', ''TEXT'', 1, None, 0),
       (''ancestry'', ''TEXT'', 0, None, 0), (''operation'', ''TEXT'', 1, None, 0),
       (''actor'', ''TEXT'', 1, None, 0), (''source'', ''TEXT'', 1, None, 0),
       (''observed_identity'', ''TEXT'', 0, None, 0), (''expected_hash'', ''TEXT'', 0, None, 0),
       (''schema_version'', ''INTEGER'', 1, None, 0),
       (''source_schema_version'', ''INTEGER'', 1, Some ''1'', 0),
       (''source_lineage'', ''TEXT'', 1, Some ([CHR 0x27] @ ''native'' @ [CHR 0x27]), 0)],
      [(''versions'', ''ancestry''), (''artifacts'', ''artifact_id'')],
      [(''versions_artifact'', 0, ''c'', [''artifact_id'']),
       (''sqlite_autoindex_versions_2'', 1, ''u'', [''operation'']),
       (''sqlite_autoindex_versions_1'', 1, ''pk'', [''id''])])"

definition tbl_operations :: table_text where
  "tbl_operations =
     (''operations'',
      (''CREATE TABLE operations(id TEXT PRIMARY KEY,fingerprint TEXT NOT NULL,result TEXT NOT ''
       @ ''NULL,version_id TEXT,lineage TEXT,rejection_code TEXT,schema_version INTEGER NOT NULL,FOREIGN ''
       @ ''KEY(version_id) REFERENCES versions(id))''),
      [(''id'', ''TEXT'', 0, None, 1), (''fingerprint'', ''TEXT'', 1, None, 0),
       (''result'', ''TEXT'', 1, None, 0), (''version_id'', ''TEXT'', 0, None, 0),
       (''lineage'', ''TEXT'', 0, None, 0), (''rejection_code'', ''TEXT'', 0, None, 0),
       (''schema_version'', ''INTEGER'', 1, None, 0)],
      [(''versions'', ''version_id'')],
      [(''sqlite_autoindex_operations_1'', 1, ''pk'', [''id''])])"

definition tbl_lineage :: table_text where
  "tbl_lineage =
     (''lineage'',
      (''CREATE TABLE lineage(operation_id TEXT PRIMARY KEY,version_id TEXT NOT NULL,parent_version_id ''
       @ ''TEXT, schema_version INTEGER NOT NULL DEFAULT 1,FOREIGN KEY(operation_id) REFERENCES ''
       @ ''operations(id),FOREIGN KEY(version_id) REFERENCES versions(id),FOREIGN KEY(parent_version_id) ''
       @ ''REFERENCES versions(id))''),
      [(''operation_id'', ''TEXT'', 0, None, 1), (''version_id'', ''TEXT'', 1, None, 0),
       (''parent_version_id'', ''TEXT'', 0, None, 0), (''schema_version'', ''INTEGER'', 1, Some ''1'', 0)],
      [(''versions'', ''parent_version_id''), (''versions'', ''version_id''),
       (''operations'', ''operation_id'')],
      [(''sqlite_autoindex_lineage_1'', 1, ''pk'', [''operation_id''])])"

definition tbl_discrepancies :: table_text where
  "tbl_discrepancies =
     (''discrepancies'',
      (''CREATE TABLE discrepancies(id INTEGER PRIMARY KEY,operation TEXT NOT NULL UNIQUE,actor TEXT ''
       @ ''NOT NULL,artifact_id TEXT NOT NULL,source TEXT NOT NULL,ancestry TEXT,reason TEXT NOT ''
       @ ''NULL,status TEXT NOT NULL,operation_result_id TEXT NOT NULL,expected_hash TEXT,observed_hash ''
       @ ''TEXT,context TEXT NOT NULL, expected_identity TEXT, observed_identity TEXT, schema_version ''
       @ ''INTEGER NOT NULL DEFAULT 1, proposed_hash TEXT, observed_owner TEXT, observed_source TEXT, ''
       @ ''observed_ancestry TEXT)''),
      [(''id'', ''INTEGER'', 0, None, 1), (''operation'', ''TEXT'', 1, None, 0),
       (''actor'', ''TEXT'', 1, None, 0), (''artifact_id'', ''TEXT'', 1, None, 0),
       (''source'', ''TEXT'', 1, None, 0), (''ancestry'', ''TEXT'', 0, None, 0),
       (''reason'', ''TEXT'', 1, None, 0), (''status'', ''TEXT'', 1, None, 0),
       (''operation_result_id'', ''TEXT'', 1, None, 0), (''expected_hash'', ''TEXT'', 0, None, 0),
       (''observed_hash'', ''TEXT'', 0, None, 0), (''context'', ''TEXT'', 1, None, 0),
       (''expected_identity'', ''TEXT'', 0, None, 0), (''observed_identity'', ''TEXT'', 0, None, 0),
       (''schema_version'', ''INTEGER'', 1, Some ''1'', 0), (''proposed_hash'', ''TEXT'', 0, None, 0),
       (''observed_owner'', ''TEXT'', 0, None, 0), (''observed_source'', ''TEXT'', 0, None, 0),
       (''observed_ancestry'', ''TEXT'', 0, None, 0)],
      [],
      [(''sqlite_autoindex_discrepancies_1'', 1, ''u'', [''operation''])])"

definition schema_tables :: "table_text list" where
  "schema_tables = [tbl_schema_metadata, tbl_artifacts, tbl_versions, tbl_operations, tbl_lineage, tbl_discrepancies]"

text \<open>\<open>compatibility_decisions\<close> of version 2.\<close>

definition tbl_compatibility_decisions_v2 :: table_text where
  "tbl_compatibility_decisions_v2 =
     (''compatibility_decisions'',
      (''CREATE TABLE compatibility_decisions(id INTEGER PRIMARY KEY,source_schema_version INTEGER NOT ''
       @ ''NULL,target_schema_version INTEGER NOT NULL,operation TEXT NOT NULL,actor TEXT NOT NULL,source ''
       @ ''TEXT NOT NULL,outcome TEXT NOT NULL,fingerprint TEXT NOT NULL UNIQUE,result TEXT NOT NULL)''),
      [(''id'', ''INTEGER'', 0, None, 1), (''source_schema_version'', ''INTEGER'', 1, None, 0),
       (''target_schema_version'', ''INTEGER'', 1, None, 0), (''operation'', ''TEXT'', 1, None, 0),
       (''actor'', ''TEXT'', 1, None, 0), (''source'', ''TEXT'', 1, None, 0),
       (''outcome'', ''TEXT'', 1, None, 0), (''fingerprint'', ''TEXT'', 1, None, 0),
       (''result'', ''TEXT'', 1, None, 0)],
      [],
      [(''sqlite_autoindex_compatibility_decisions_1'', 1, ''u'', [''fingerprint''])])"

definition decisions_v2_table :: "table_text list" where
  "decisions_v2_table = [tbl_compatibility_decisions_v2]"

text \<open>\<open>compatibility_decisions\<close> of version 3.\<close>

definition tbl_compatibility_decisions_v3 :: table_text where
  "tbl_compatibility_decisions_v3 =
     (''compatibility_decisions'',
      (''CREATE TABLE compatibility_decisions(id INTEGER PRIMARY KEY,source_schema_version INTEGER NOT ''
       @ ''NULL,target_schema_version INTEGER NOT NULL,operation TEXT NOT NULL,actor TEXT NOT NULL,source ''
       @ ''TEXT NOT NULL,outcome TEXT NOT NULL,result TEXT NOT NULL,legacy_fingerprint TEXT,scope_id TEXT ''
       @ ''NOT NULL,fingerprint_version INTEGER NOT NULL DEFAULT 1 ''
       @ ''CHECK(fingerprint_version=1),fingerprint TEXT NOT NULL,created_at TEXT NOT ''
       @ ''NULL,UNIQUE(source_schema_version,target_schema_version,operation,scope_id),UNIQUE(fingerprint_''
       @ ''version,fingerprint))''),
      [(''id'', ''INTEGER'', 0, None, 1), (''source_schema_version'', ''INTEGER'', 1, None, 0),
       (''target_schema_version'', ''INTEGER'', 1, None, 0), (''operation'', ''TEXT'', 1, None, 0),
       (''actor'', ''TEXT'', 1, None, 0), (''source'', ''TEXT'', 1, None, 0),
       (''outcome'', ''TEXT'', 1, None, 0), (''result'', ''TEXT'', 1, None, 0),
       (''legacy_fingerprint'', ''TEXT'', 0, None, 0), (''scope_id'', ''TEXT'', 1, None, 0),
       (''fingerprint_version'', ''INTEGER'', 1, Some ''1'', 0), (''fingerprint'', ''TEXT'', 1, None, 0),
       (''created_at'', ''TEXT'', 1, None, 0)],
      [],
      [(''sqlite_autoindex_compatibility_decisions_2'', 1, ''u'', [''fingerprint_version'', ''fingerprint'']),
       (''sqlite_autoindex_compatibility_decisions_1'', 1, ''u'', [''source_schema_version'', ''target_schema_version'', ''operation'', ''scope_id''])])"

definition decisions_v3_table :: "table_text list" where
  "decisions_v3_table = [tbl_compatibility_decisions_v3]"

text \<open>The record tables of \<open>ensure_runtime_record_schema\<close>.\<close>

definition tbl_events :: table_text where
  "tbl_events =
     (''events'',
      (''CREATE TABLE events(id TEXT PRIMARY KEY,schema_version INTEGER NOT NULL ''
       @ ''CHECK(schema_version=1),source_lineage TEXT NOT NULL,correction_of TEXT,event_sequence INTEGER ''
       @ ''NOT NULL DEFAULT 0,transition TEXT NOT NULL DEFAULT ''
       @ [CHR 0x27]
       @ [CHR 0x27]
       @ '',deterministic_input TEXT NOT NULL DEFAULT ''
       @ [CHR 0x27]
       @ [CHR 0x27]
       @ '',outcome TEXT)''),
      [(''id'', ''TEXT'', 0, None, 1), (''schema_version'', ''INTEGER'', 1, None, 0),
       (''source_lineage'', ''TEXT'', 1, None, 0), (''correction_of'', ''TEXT'', 0, None, 0),
       (''event_sequence'', ''INTEGER'', 1, Some ''0'', 0),
       (''transition'', ''TEXT'', 1, Some ([CHR 0x27] @ [CHR 0x27]), 0),
       (''deterministic_input'', ''TEXT'', 1, Some ([CHR 0x27] @ [CHR 0x27]), 0),
       (''outcome'', ''TEXT'', 0, None, 0)],
      [],
      [(''sqlite_autoindex_events_1'', 1, ''pk'', [''id''])])"

definition tbl_findings :: table_text where
  "tbl_findings =
     (''findings'',
      (''CREATE TABLE findings(id TEXT PRIMARY KEY,schema_version INTEGER NOT NULL ''
       @ ''CHECK(schema_version=1),source_lineage TEXT NOT NULL,correction_of TEXT)''),
      [(''id'', ''TEXT'', 0, None, 1), (''schema_version'', ''INTEGER'', 1, None, 0),
       (''source_lineage'', ''TEXT'', 1, None, 0), (''correction_of'', ''TEXT'', 0, None, 0)],
      [],
      [(''sqlite_autoindex_findings_1'', 1, ''pk'', [''id''])])"

definition tbl_evidence :: table_text where
  "tbl_evidence =
     (''evidence'',
      (''CREATE TABLE evidence(id TEXT PRIMARY KEY,schema_version INTEGER NOT NULL DEFAULT 1 ''
       @ ''CHECK(schema_version=1),source_lineage TEXT NOT NULL,correction_of TEXT)''),
      [(''id'', ''TEXT'', 0, None, 1), (''schema_version'', ''INTEGER'', 1, Some ''1'', 0),
       (''source_lineage'', ''TEXT'', 1, None, 0), (''correction_of'', ''TEXT'', 0, None, 0)],
      [],
      [(''sqlite_autoindex_evidence_1'', 1, ''pk'', [''id''])])"

definition tbl_history :: table_text where
  "tbl_history =
     (''history'',
      (''CREATE TABLE history(id TEXT PRIMARY KEY,schema_version INTEGER NOT NULL DEFAULT 1 ''
       @ ''CHECK(schema_version=1),source_lineage TEXT NOT NULL,correction_of TEXT)''),
      [(''id'', ''TEXT'', 0, None, 1), (''schema_version'', ''INTEGER'', 1, Some ''1'', 0),
       (''source_lineage'', ''TEXT'', 1, None, 0), (''correction_of'', ''TEXT'', 0, None, 0)],
      [],
      [(''sqlite_autoindex_history_1'', 1, ''pk'', [''id''])])"

definition tbl_replay_metadata :: table_text where
  "tbl_replay_metadata =
     (''replay_metadata'',
      (''CREATE TABLE replay_metadata(id TEXT PRIMARY KEY,schema_version INTEGER NOT NULL DEFAULT 1 ''
       @ ''CHECK(schema_version=1),source_lineage TEXT NOT NULL,correction_of TEXT)''),
      [(''id'', ''TEXT'', 0, None, 1), (''schema_version'', ''INTEGER'', 1, Some ''1'', 0),
       (''source_lineage'', ''TEXT'', 1, None, 0), (''correction_of'', ''TEXT'', 0, None, 0)],
      [],
      [(''sqlite_autoindex_replay_metadata_1'', 1, ''pk'', [''id''])])"

definition tbl_lifecycle_evidence :: table_text where
  "tbl_lifecycle_evidence =
     (''lifecycle_evidence'',
      (''CREATE TABLE lifecycle_evidence(id TEXT PRIMARY KEY,schema_version INTEGER NOT NULL DEFAULT 1 ''
       @ ''CHECK(schema_version=1),status TEXT NOT NULL CHECK(status IN ('created','invalidated')),actor ''
       @ ''TEXT NOT NULL,reason TEXT NOT NULL,content_version TEXT NOT NULL,operation_lineage TEXT NOT ''
       @ ''NULL,source_lineage TEXT NOT NULL DEFAULT 'native',correction_of TEXT)''),
      [(''id'', ''TEXT'', 0, None, 1), (''schema_version'', ''INTEGER'', 1, Some ''1'', 0),
       (''status'', ''TEXT'', 1, None, 0), (''actor'', ''TEXT'', 1, None, 0),
       (''reason'', ''TEXT'', 1, None, 0), (''content_version'', ''TEXT'', 1, None, 0),
       (''operation_lineage'', ''TEXT'', 1, None, 0),
       (''source_lineage'', ''TEXT'', 1, Some ([CHR 0x27] @ ''native'' @ [CHR 0x27]), 0),
       (''correction_of'', ''TEXT'', 0, None, 0)],
      [],
      [(''sqlite_autoindex_lifecycle_evidence_1'', 1, ''pk'', [''id''])])"

definition tbl_reviewer_findings :: table_text where
  "tbl_reviewer_findings =
     (''reviewer_findings'',
      (''CREATE TABLE reviewer_findings(id TEXT PRIMARY KEY,schema_version INTEGER NOT NULL ''
       @ ''CHECK(schema_version=1),state TEXT NOT NULL CHECK(state IN ''
       @ ''('open','acknowledged','fixed','waived','rejected','stale')),source_lineage TEXT NOT NULL ''
       @ ''DEFAULT 'native',correction_of TEXT)''),
      [(''id'', ''TEXT'', 0, None, 1), (''schema_version'', ''INTEGER'', 1, None, 0),
       (''state'', ''TEXT'', 1, None, 0),
       (''source_lineage'', ''TEXT'', 1, Some ([CHR 0x27] @ ''native'' @ [CHR 0x27]), 0),
       (''correction_of'', ''TEXT'', 0, None, 0)],
      [],
      [(''sqlite_autoindex_reviewer_findings_1'', 1, ''pk'', [''id''])])"

definition tbl_outcomes :: table_text where
  "tbl_outcomes =
     (''outcomes'',
      (''CREATE TABLE outcomes(id TEXT PRIMARY KEY,schema_version INTEGER NOT NULL DEFAULT 1 ''
       @ ''CHECK(schema_version=1),outcome TEXT NOT NULL CHECK(outcome IN ''
       @ ''('verified','accepted_with_waivers','accepted_partial','blocked','aborted','failed')),source_li''
       @ ''neage TEXT NOT NULL DEFAULT 'native',correction_of TEXT)''),
      [(''id'', ''TEXT'', 0, None, 1), (''schema_version'', ''INTEGER'', 1, Some ''1'', 0),
       (''outcome'', ''TEXT'', 1, None, 0),
       (''source_lineage'', ''TEXT'', 1, Some ([CHR 0x27] @ ''native'' @ [CHR 0x27]), 0),
       (''correction_of'', ''TEXT'', 0, None, 0)],
      [],
      [(''sqlite_autoindex_outcomes_1'', 1, ''pk'', [''id''])])"

definition tbl_retrospectives :: table_text where
  "tbl_retrospectives =
     (''retrospectives'',
      (''CREATE TABLE retrospectives(id TEXT PRIMARY KEY,schema_version INTEGER NOT NULL DEFAULT 1 ''
       @ ''CHECK(schema_version=1),sequence INTEGER NOT NULL CHECK(sequence >= 0),source_lineage TEXT NOT ''
       @ ''NULL DEFAULT 'native',correction_of TEXT)''),
      [(''id'', ''TEXT'', 0, None, 1), (''schema_version'', ''INTEGER'', 1, Some ''1'', 0),
       (''sequence'', ''INTEGER'', 1, None, 0),
       (''source_lineage'', ''TEXT'', 1, Some ([CHR 0x27] @ ''native'' @ [CHR 0x27]), 0),
       (''correction_of'', ''TEXT'', 0, None, 0)],
      [],
      [(''sqlite_autoindex_retrospectives_1'', 1, ''pk'', [''id''])])"

definition tbl_acceptance_requirements :: table_text where
  "tbl_acceptance_requirements =
     (''acceptance_requirements'',
      (''CREATE TABLE acceptance_requirements(id TEXT PRIMARY KEY,schema_version INTEGER NOT NULL ''
       @ ''DEFAULT 1 CHECK(schema_version=1),sequence INTEGER NOT NULL CHECK(sequence >= ''
       @ ''0),source_lineage TEXT NOT NULL DEFAULT 'native',correction_of TEXT)''),
      [(''id'', ''TEXT'', 0, None, 1), (''schema_version'', ''INTEGER'', 1, Some ''1'', 0),
       (''sequence'', ''INTEGER'', 1, None, 0),
       (''source_lineage'', ''TEXT'', 1, Some ([CHR 0x27] @ ''native'' @ [CHR 0x27]), 0),
       (''correction_of'', ''TEXT'', 0, None, 0)],
      [],
      [(''sqlite_autoindex_acceptance_requirements_1'', 1, ''pk'', [''id''])])"

definition record_tables_sql :: "table_text list" where
  "record_tables_sql = [tbl_events, tbl_findings, tbl_evidence, tbl_history, tbl_replay_metadata, tbl_lifecycle_evidence,
     tbl_reviewer_findings, tbl_outcomes, tbl_retrospectives, tbl_acceptance_requirements]"

text \<open>The projection and playback tables, before their two added columns.\<close>

definition tbl_projections :: table_text where
  "tbl_projections =
     (''projections'',
      (''CREATE TABLE projections(id TEXT PRIMARY KEY,projection_schema_version INTEGER NOT ''
       @ ''NULL,event_history_generation INTEGER NOT NULL,source_generation INTEGER NOT ''
       @ ''NULL,authoritative INTEGER NOT NULL CHECK(authoritative IN (0,1)),status TEXT NOT NULL ''
       @ ''CHECK(status IN ('missing','stale','drifted','complete','failed')),payload TEXT NOT NULL ''
       @ ''DEFAULT ''
       @ [CHR 0x27]
       @ [CHR 0x27]
       @ '')''),
      [(''id'', ''TEXT'', 0, None, 1), (''projection_schema_version'', ''INTEGER'', 1, None, 0),
       (''event_history_generation'', ''INTEGER'', 1, None, 0),
       (''source_generation'', ''INTEGER'', 1, None, 0), (''authoritative'', ''INTEGER'', 1, None, 0),
       (''status'', ''TEXT'', 1, None, 0), (''payload'', ''TEXT'', 1, Some ([CHR 0x27] @ [CHR 0x27]), 0)],
      [],
      [(''sqlite_autoindex_projections_1'', 1, ''pk'', [''id''])])"

definition tbl_projection_rebuilds :: table_text where
  "tbl_projection_rebuilds =
     (''projection_rebuilds'',
      (''CREATE TABLE projection_rebuilds(id INTEGER PRIMARY KEY,projection_id TEXT NOT NULL,event_id ''
       @ ''TEXT NOT NULL,event_sequence INTEGER NOT NULL,status TEXT NOT NULL CHECK(status IN ''
       @ ''('complete','failed')),failure TEXT,drift TEXT)''),
      [(''id'', ''INTEGER'', 0, None, 1), (''projection_id'', ''TEXT'', 1, None, 0),
       (''event_id'', ''TEXT'', 1, None, 0), (''event_sequence'', ''INTEGER'', 1, None, 0),
       (''status'', ''TEXT'', 1, None, 0), (''failure'', ''TEXT'', 0, None, 0),
       (''drift'', ''TEXT'', 0, None, 0)],
      [],
      [])"

definition tbl_projection_rebuild_status :: table_text where
  "tbl_projection_rebuild_status =
     (''projection_rebuild_status'',
      (''CREATE TABLE projection_rebuild_status(projection_id TEXT PRIMARY KEY,status TEXT NOT NULL ''
       @ ''CHECK(status IN ('missing','stale','drifted','complete','failed')),authoritative INTEGER NOT ''
       @ ''NULL CHECK(authoritative IN (0,1)),failure TEXT,drift TEXT)''),
      [(''projection_id'', ''TEXT'', 0, None, 1), (''status'', ''TEXT'', 1, None, 0),
       (''authoritative'', ''INTEGER'', 1, None, 0), (''failure'', ''TEXT'', 0, None, 0),
       (''drift'', ''TEXT'', 0, None, 0)],
      [],
      [(''sqlite_autoindex_projection_rebuild_status_1'', 1, ''pk'', [''projection_id''])])"

definition tbl_playback_results :: table_text where
  "tbl_playback_results =
     (''playback_results'',
      (''CREATE TABLE playback_results(id TEXT PRIMARY KEY,event_history_generation INTEGER NOT ''
       @ ''NULL,result TEXT NOT NULL CHECK(result IN ('exact_playback_succeeded','diverged')),divergence ''
       @ ''TEXT,exact INTEGER NOT NULL CHECK(exact IN (0,1)))''),
      [(''id'', ''TEXT'', 0, None, 1), (''event_history_generation'', ''INTEGER'', 1, None, 0),
       (''result'', ''TEXT'', 1, None, 0), (''divergence'', ''TEXT'', 0, None, 0),
       (''exact'', ''INTEGER'', 1, None, 0)],
      [],
      [(''sqlite_autoindex_playback_results_1'', 1, ''pk'', [''id''])])"

definition tbl_captured_outcome_simulations :: table_text where
  "tbl_captured_outcome_simulations =
     (''captured_outcome_simulations'',
      (''CREATE TABLE captured_outcome_simulations(id TEXT PRIMARY KEY,label TEXT NOT NULL ''
       @ ''CHECK(label='captured_outcome_simulation'),outcome TEXT NOT NULL,exact_playback_evidence ''
       @ ''INTEGER NOT NULL DEFAULT 0 CHECK(exact_playback_evidence=0))''),
      [(''id'', ''TEXT'', 0, None, 1), (''label'', ''TEXT'', 1, None, 0),
       (''outcome'', ''TEXT'', 1, None, 0), (''exact_playback_evidence'', ''INTEGER'', 1, Some ''0'', 0)],
      [],
      [(''sqlite_autoindex_captured_outcome_simulations_1'', 1, ''pk'', [''id''])])"

definition projection_tables_sql :: "table_text list" where
  "projection_tables_sql = [tbl_projections, tbl_projection_rebuilds, tbl_projection_rebuild_status, tbl_playback_results,
     tbl_captured_outcome_simulations]"

text \<open>Their triggers with conditions; the others are of the common form.\<close>

definition projection_triggers_sql :: "(str \<times> str \<times> str) list" where
  "projection_triggers_sql =
    [(''trigger'', ''immutable_playback_results_coherence_insert'',
       ''CREATE TRIGGER immutable_playback_results_coherence_insert BEFORE INSERT ON playback_results ''
       @ ''WHEN NOT ((NEW.result='exact_playback_succeeded' AND NEW.exact=1 AND NEW.divergence IS NULL) ''
       @ ''OR (NEW.result='diverged' AND NEW.exact=0 AND NEW.divergence IS NOT NULL)) BEGIN SELECT ''
       @ ''RAISE(ABORT,'incoherent playback result'); END''),
     (''trigger'', ''immutable_playback_results_coherence_update'',
       ''CREATE TRIGGER immutable_playback_results_coherence_update BEFORE UPDATE ON playback_results ''
       @ ''WHEN NOT ((NEW.result='exact_playback_succeeded' AND NEW.exact=1 AND NEW.divergence IS NULL) ''
       @ ''OR (NEW.result='diverged' AND NEW.exact=0 AND NEW.divergence IS NOT NULL)) BEGIN SELECT ''
       @ ''RAISE(ABORT,'incoherent playback result'); END''),
     (''trigger'', ''immutable_projections_insert'',
       ''CREATE TRIGGER immutable_projections_insert BEFORE INSERT ON projections WHEN NEW.status !=''
       @ '' 'complete' AND NEW.authoritative != 0 BEGIN SELECT RAISE(ABORT,'incoherent projection ''
       @ ''authority'); END''),
     (''trigger'', ''immutable_projections_update'',
       ''CREATE TRIGGER immutable_projections_update BEFORE UPDATE ON projections WHEN NEW.status !=''
       @ '' 'complete' AND NEW.authoritative != 0 BEGIN SELECT RAISE(ABORT,'incoherent projection ''
       @ ''authority'); END''),
     (''trigger'', ''immutable_projection_rebuild_status_insert'',
       ''CREATE TRIGGER immutable_projection_rebuild_status_insert BEFORE INSERT ON ''
       @ ''projection_rebuild_status WHEN NEW.status != 'complete' AND NEW.authoritative != 0 BEGIN ''
       @ ''SELECT RAISE(ABORT,'incoherent projection authority'); END''),
     (''trigger'', ''immutable_projection_rebuild_status_update'',
       ''CREATE TRIGGER immutable_projection_rebuild_status_update BEFORE UPDATE ON ''
       @ ''projection_rebuild_status WHEN NEW.status != 'complete' AND NEW.authoritative != 0 BEGIN ''
       @ ''SELECT RAISE(ABORT,'incoherent projection authority'); END'')]"

text \<open>The tables of \<open>ensure_slice4_v3_schema\<close>.\<close>

definition tbl_reconciliation_runs :: table_text where
  "tbl_reconciliation_runs =
     (''reconciliation_runs'',
      (''CREATE TABLE reconciliation_runs(id INTEGER PRIMARY KEY, schema_version INTEGER NOT NULL ''
       @ ''DEFAULT 1, scope_id TEXT NOT NULL, run_sequence INTEGER NOT NULL, event_generation TEXT NOT ''
       @ ''NULL DEFAULT 'legacy', event_schema INTEGER NOT NULL DEFAULT 1, projection_generation TEXT NOT ''
       @ ''NULL DEFAULT 'legacy', projection_schema INTEGER NOT NULL DEFAULT 1, projection_authority ''
       @ ''INTEGER NOT NULL DEFAULT 0 CHECK(projection_authority IN(0,1)), filesystem_identity TEXT, ''
       @ ''filesystem_hash TEXT, git_state TEXT, status TEXT NOT NULL, repair_applied INTEGER NOT NULL ''
       @ ''DEFAULT 0 CHECK(repair_applied IN(0,1)), expected_head TEXT, observed_head TEXT, ''
       @ ''source_lineage TEXT NOT NULL, created_at TEXT NOT NULL DEFAULT CURRENT_TIMESTAMP, ''
       @ ''UNIQUE(scope_id,run_sequence), UNIQUE(id,scope_id))''),
      [(''id'', ''INTEGER'', 0, None, 1), (''schema_version'', ''INTEGER'', 1, Some ''1'', 0),
       (''scope_id'', ''TEXT'', 1, None, 0), (''run_sequence'', ''INTEGER'', 1, None, 0),
       (''event_generation'', ''TEXT'', 1, Some ([CHR 0x27] @ ''legacy'' @ [CHR 0x27]), 0),
       (''event_schema'', ''INTEGER'', 1, Some ''1'', 0),
       (''projection_generation'', ''TEXT'', 1, Some ([CHR 0x27] @ ''legacy'' @ [CHR 0x27]), 0),
       (''projection_schema'', ''INTEGER'', 1, Some ''1'', 0),
       (''projection_authority'', ''INTEGER'', 1, Some ''0'', 0),
       (''filesystem_identity'', ''TEXT'', 0, None, 0), (''filesystem_hash'', ''TEXT'', 0, None, 0),
       (''git_state'', ''TEXT'', 0, None, 0), (''status'', ''TEXT'', 1, None, 0),
       (''repair_applied'', ''INTEGER'', 1, Some ''0'', 0), (''expected_head'', ''TEXT'', 0, None, 0),
       (''observed_head'', ''TEXT'', 0, None, 0), (''source_lineage'', ''TEXT'', 1, None, 0),
       (''created_at'', ''TEXT'', 1, Some ''CURRENT_TIMESTAMP'', 0)],
      [],
      [(''reconciliation_runs_scope_sequence'', 0, ''c'', [''scope_id'', ''run_sequence'']),
       (''sqlite_autoindex_reconciliation_runs_2'', 1, ''u'', [''id'', ''scope_id'']),
       (''sqlite_autoindex_reconciliation_runs_1'', 1, ''u'', [''scope_id'', ''run_sequence''])])"

definition tbl_reconciliation_discrepancies :: table_text where
  "tbl_reconciliation_discrepancies =
     (''reconciliation_discrepancies'',
      (''CREATE TABLE reconciliation_discrepancies(id INTEGER PRIMARY KEY, run_id INTEGER NOT NULL, ''
       @ ''scope_id TEXT NOT NULL, source_lineage TEXT NOT NULL, correction_of_id INTEGER, ''
       @ ''correction_of_run_id INTEGER, provenance_kind TEXT, provenance_id TEXT, observation_sequence ''
       @ ''INTEGER NOT NULL DEFAULT 0, observed_at TEXT NOT NULL DEFAULT CURRENT_TIMESTAMP, surface TEXT, ''
       @ ''expected TEXT, observed TEXT, status TEXT, reason TEXT, schema_version INTEGER NOT NULL ''
       @ ''DEFAULT 1, UNIQUE(id,run_id), UNIQUE(run_id,correction_of_id), FOREIGN KEY(run_id) REFERENCES ''
       @ ''reconciliation_runs(id))''),
      [(''id'', ''INTEGER'', 0, None, 1), (''run_id'', ''INTEGER'', 1, None, 0),
       (''scope_id'', ''TEXT'', 1, None, 0), (''source_lineage'', ''TEXT'', 1, None, 0),
       (''correction_of_id'', ''INTEGER'', 0, None, 0), (''correction_of_run_id'', ''INTEGER'', 0, None, 0),
       (''provenance_kind'', ''TEXT'', 0, None, 0), (''provenance_id'', ''TEXT'', 0, None, 0),
       (''observation_sequence'', ''INTEGER'', 1, Some ''0'', 0),
       (''observed_at'', ''TEXT'', 1, Some ''CURRENT_TIMESTAMP'', 0), (''surface'', ''TEXT'', 0, None, 0),
       (''expected'', ''TEXT'', 0, None, 0), (''observed'', ''TEXT'', 0, None, 0),
       (''status'', ''TEXT'', 0, None, 0), (''reason'', ''TEXT'', 0, None, 0),
       (''schema_version'', ''INTEGER'', 1, Some ''1'', 0)],
      [(''reconciliation_runs'', ''run_id'')],
      [(''reconciliation_discrepancies_run_correction'', 0, ''c'', [''run_id'', ''correction_of_id'']),
       (''sqlite_autoindex_reconciliation_discrepancies_2'', 1, ''u'', [''run_id'', ''correction_of_id'']),
       (''sqlite_autoindex_reconciliation_discrepancies_1'', 1, ''u'', [''id'', ''run_id''])])"

definition tbl_reconciliation_projection_evidence :: table_text where
  "tbl_reconciliation_projection_evidence =
     (''reconciliation_projection_evidence'',
      (''CREATE TABLE reconciliation_projection_evidence(run_id INTEGER NOT NULL, projection_id TEXT ''
       @ ''NOT NULL, scope TEXT NOT NULL, projection_schema INTEGER NOT NULL, event_generation INTEGER ''
       @ ''NOT NULL, source_generation INTEGER NOT NULL, status TEXT NOT NULL, authority INTEGER NOT ''
       @ ''NULL, rebuild_status TEXT NOT NULL, rebuild_authority INTEGER NOT NULL, generation_match ''
       @ ''INTEGER NOT NULL, schema_lineage TEXT NOT NULL, PRIMARY KEY(run_id,projection_id), FOREIGN ''
       @ ''KEY(run_id) REFERENCES reconciliation_runs(id))''),
      [(''run_id'', ''INTEGER'', 1, None, 1), (''projection_id'', ''TEXT'', 1, None, 2),
       (''scope'', ''TEXT'', 1, None, 0), (''projection_schema'', ''INTEGER'', 1, None, 0),
       (''event_generation'', ''INTEGER'', 1, None, 0), (''source_generation'', ''INTEGER'', 1, None, 0),
       (''status'', ''TEXT'', 1, None, 0), (''authority'', ''INTEGER'', 1, None, 0),
       (''rebuild_status'', ''TEXT'', 1, None, 0), (''rebuild_authority'', ''INTEGER'', 1, None, 0),
       (''generation_match'', ''INTEGER'', 1, None, 0), (''schema_lineage'', ''TEXT'', 1, None, 0)],
      [(''reconciliation_runs'', ''run_id'')],
      [(''reconciliation_projection_evidence_run'', 0, ''c'', [''run_id'']),
       (''sqlite_autoindex_reconciliation_projection_evidence_1'', 1, ''pk'', [''run_id'', ''projection_id''])])"

definition tbl_recovery_actions :: table_text where
  "tbl_recovery_actions =
     (''recovery_actions'',
      (''CREATE TABLE recovery_actions(action_id INTEGER PRIMARY KEY,schema_version INTEGER NOT NULL ''
       @ ''DEFAULT 1 CHECK(schema_version=1),operation_id TEXT NOT NULL UNIQUE,run_id INTEGER NOT ''
       @ ''NULL,discrepancy_id INTEGER NOT NULL,scope_id TEXT NOT NULL,fingerprint_version INTEGER NOT ''
       @ ''NULL DEFAULT 1 CHECK(fingerprint_version=1),fingerprint TEXT NOT NULL,target_identity TEXT NOT ''
       @ ''NULL,expected_pre_hash TEXT,expected_pre_identity TEXT,intended_post_hash ''
       @ ''TEXT,intended_post_identity TEXT,authorization_identity TEXT NOT NULL,authorization_scope TEXT ''
       @ ''NOT NULL,stage TEXT NOT NULL CHECK(stage='prepared'),sequence INTEGER NOT NULL ''
       @ ''CHECK(sequence=0),source_lineage TEXT NOT ''
       @ ''NULL,UNIQUE(action_id,run_id),UNIQUE(fingerprint_version,fingerprint),FOREIGN KEY(run_id) ''
       @ ''REFERENCES reconciliation_runs(id),FOREIGN KEY(discrepancy_id,run_id) REFERENCES ''
       @ ''reconciliation_discrepancies(id,run_id))''),
      [(''action_id'', ''INTEGER'', 0, None, 1), (''schema_version'', ''INTEGER'', 1, Some ''1'', 0),
       (''operation_id'', ''TEXT'', 1, None, 0), (''run_id'', ''INTEGER'', 1, None, 0),
       (''discrepancy_id'', ''INTEGER'', 1, None, 0), (''scope_id'', ''TEXT'', 1, None, 0),
       (''fingerprint_version'', ''INTEGER'', 1, Some ''1'', 0), (''fingerprint'', ''TEXT'', 1, None, 0),
       (''target_identity'', ''TEXT'', 1, None, 0), (''expected_pre_hash'', ''TEXT'', 0, None, 0),
       (''expected_pre_identity'', ''TEXT'', 0, None, 0), (''intended_post_hash'', ''TEXT'', 0, None, 0),
       (''intended_post_identity'', ''TEXT'', 0, None, 0),
       (''authorization_identity'', ''TEXT'', 1, None, 0), (''authorization_scope'', ''TEXT'', 1, None, 0),
       (''stage'', ''TEXT'', 1, None, 0), (''sequence'', ''INTEGER'', 1, None, 0),
       (''source_lineage'', ''TEXT'', 1, None, 0)],
      [(''reconciliation_discrepancies'', ''discrepancy_id''),
       (''reconciliation_discrepancies'', ''run_id''), (''reconciliation_runs'', ''run_id'')],
      [(''recovery_actions_fingerprint'', 0, ''c'', [''fingerprint_version'', ''fingerprint'']),
       (''sqlite_autoindex_recovery_actions_3'', 1, ''u'', [''fingerprint_version'', ''fingerprint'']),
       (''sqlite_autoindex_recovery_actions_2'', 1, ''u'', [''action_id'', ''run_id'']),
       (''sqlite_autoindex_recovery_actions_1'', 1, ''u'', [''operation_id''])])"

definition tbl_recovery_outcomes :: table_text where
  "tbl_recovery_outcomes =
     (''recovery_outcomes'',
      (''CREATE TABLE recovery_outcomes(outcome_id INTEGER PRIMARY KEY,schema_version INTEGER NOT NULL ''
       @ ''DEFAULT 1 CHECK(schema_version=1),action_id INTEGER NOT NULL,run_id INTEGER NOT NULL,scope_id ''
       @ ''TEXT NOT NULL,sequence INTEGER NOT NULL CHECK(sequence>=1),status TEXT NOT NULL,detail TEXT ''
       @ ''CHECK(detail IS NULL),source_lineage TEXT NOT NULL,stage TEXT NOT NULL,result TEXT NOT ''
       @ ''NULL,observed_pre_state TEXT,observed_post_state TEXT,provenance_kind TEXT NOT ''
       @ ''NULL,provenance_id TEXT NOT NULL,observation_sequence INTEGER NOT NULL ''
       @ ''CHECK(observation_sequence>=0),observed_at TEXT NOT NULL,supersedes_id ''
       @ ''INTEGER,supersedes_action_id INTEGER,UNIQUE(outcome_id,action_id),UNIQUE(action_id,sequence),UN''
       @ ''IQUE(action_id,supersedes_id),FOREIGN KEY(action_id,run_id) REFERENCES ''
       @ ''recovery_actions(action_id,run_id),FOREIGN KEY(supersedes_id,supersedes_action_id) REFERENCES ''
       @ ''recovery_outcomes(outcome_id,action_id),CHECK(status=result),CHECK((supersedes_id IS ''
       @ ''NULL)=(supersedes_action_id IS NULL)))''),
      [(''outcome_id'', ''INTEGER'', 0, None, 1), (''schema_version'', ''INTEGER'', 1, Some ''1'', 0),
       (''action_id'', ''INTEGER'', 1, None, 0), (''run_id'', ''INTEGER'', 1, None, 0),
       (''scope_id'', ''TEXT'', 1, None, 0), (''sequence'', ''INTEGER'', 1, None, 0),
       (''status'', ''TEXT'', 1, None, 0), (''detail'', ''TEXT'', 0, None, 0),
       (''source_lineage'', ''TEXT'', 1, None, 0), (''stage'', ''TEXT'', 1, None, 0),
       (''result'', ''TEXT'', 1, None, 0), (''observed_pre_state'', ''TEXT'', 0, None, 0),
       (''observed_post_state'', ''TEXT'', 0, None, 0), (''provenance_kind'', ''TEXT'', 1, None, 0),
       (''provenance_id'', ''TEXT'', 1, None, 0), (''observation_sequence'', ''INTEGER'', 1, None, 0),
       (''observed_at'', ''TEXT'', 1, None, 0), (''supersedes_id'', ''INTEGER'', 0, None, 0),
       (''supersedes_action_id'', ''INTEGER'', 0, None, 0)],
      [(''recovery_outcomes'', ''supersedes_id''), (''recovery_outcomes'', ''supersedes_action_id''),
       (''recovery_actions'', ''action_id''), (''recovery_actions'', ''run_id'')],
      [(''recovery_outcomes_action_sequence'', 0, ''c'', [''action_id'', ''sequence'']),
       (''sqlite_autoindex_recovery_outcomes_3'', 1, ''u'', [''action_id'', ''supersedes_id'']),
       (''sqlite_autoindex_recovery_outcomes_2'', 1, ''u'', [''action_id'', ''sequence'']),
       (''sqlite_autoindex_recovery_outcomes_1'', 1, ''u'', [''outcome_id'', ''action_id''])])"

definition slice4_tables_sql :: "table_text list" where
  "slice4_tables_sql = [tbl_reconciliation_runs, tbl_reconciliation_discrepancies, tbl_reconciliation_projection_evidence,
     tbl_recovery_actions, tbl_recovery_outcomes]"

text \<open>Their indexes and guards.\<close>

definition slice4_objects_sql :: "(str \<times> str \<times> str) list" where
  "slice4_objects_sql =
    [(''index'', ''reconciliation_projection_evidence_run'',
       ''CREATE INDEX reconciliation_projection_evidence_run ON ''
       @ ''reconciliation_projection_evidence(run_id)''),
     (''index'', ''reconciliation_runs_scope_sequence'',
       ''CREATE INDEX reconciliation_runs_scope_sequence ON reconciliation_runs(scope_id,run_sequence)''),
     (''index'', ''reconciliation_discrepancies_run_correction'',
       ''CREATE INDEX reconciliation_discrepancies_run_correction ON ''
       @ ''reconciliation_discrepancies(run_id,correction_of_id)''),
     (''index'', ''recovery_actions_fingerprint'',
       ''CREATE INDEX recovery_actions_fingerprint ON recovery_actions(fingerprint_version,fingerprint)''),
     (''index'', ''recovery_outcomes_action_sequence'',
       ''CREATE INDEX recovery_outcomes_action_sequence ON recovery_outcomes(action_id,sequence)''),
     (''trigger'', ''versions_observation_guard'',
       ''CREATE TRIGGER versions_observation_guard BEFORE INSERT ON versions WHEN NEW.schema_version=3 ''
       @ ''AND NOT (''
       @ [CHR 0x0A]
       @ '' (NEW.logical_path IS NULL AND NEW.observed_identity IS NULL AND NEW.git_applicability IS NULL ''
       @ ''AND NEW.git_repository_path IS NULL AND NEW.git_head_state IS NULL AND NEW.git_head_oid IS ''
       @ ''NULL AND NEW.git_index_present IS NULL AND NEW.git_index_fingerprint IS NULL)''
       @ [CHR 0x0A]
       @ '' OR''
       @ [CHR 0x0A]
       @ '' (length(NEW.logical_path)>0 AND length(NEW.observed_identity)>0 AND ''
       @ ''NEW.git_applicability='not_applicable' AND NEW.git_repository_path IS NULL AND ''
       @ ''NEW.git_head_state IS NULL AND NEW.git_head_oid IS NULL AND NEW.git_index_present IS NULL AND ''
       @ ''NEW.git_index_fingerprint IS NULL)''
       @ [CHR 0x0A]
       @ '' ) BEGIN SELECT RAISE(ABORT,'incoherent versions observation'); END''),
     (''trigger'', ''reconciliation_discrepancies_guards'',
       ''CREATE TRIGGER reconciliation_discrepancies_guards BEFORE INSERT ON ''
       @ ''reconciliation_discrepancies BEGIN''
       @ [CHR 0x0A]
       @ '' SELECT CASE WHEN (NEW.correction_of_id IS NULL) != (NEW.correction_of_run_id IS NULL) THEN ''
       @ ''RAISE(ABORT,'correction parent pair') END;''
       @ [CHR 0x0A]
       @ '' SELECT CASE WHEN NEW.correction_of_id IS NOT NULL AND (NEW.correction_of_id=NEW.id OR ''
       @ ''NEW.correction_of_run_id!=NEW.run_id OR NOT EXISTS(SELECT 1 FROM reconciliation_discrepancies ''
       @ ''WHERE id=NEW.correction_of_id AND run_id=NEW.correction_of_run_id AND scope_id=NEW.scope_id ''
       @ ''AND source_lineage=NEW.source_lineage) OR EXISTS(SELECT 1 FROM reconciliation_discrepancies ''
       @ ''WHERE correction_of_id=NEW.correction_of_id)) THEN RAISE(ABORT,'invalid correction') END;''
       @ [CHR 0x0A]
       @ ''END''),
     (''trigger'', ''recovery_actions_guards'',
       ''CREATE TRIGGER recovery_actions_guards BEFORE INSERT ON recovery_actions BEGIN''
       @ [CHR 0x0A]
       @ '' SELECT CASE WHEN NOT EXISTS(SELECT 1 FROM reconciliation_discrepancies WHERE ''
       @ ''id=NEW.discrepancy_id AND run_id=NEW.run_id AND scope_id=NEW.scope_id AND ''
       @ ''source_lineage=NEW.source_lineage) THEN RAISE(ABORT,'action discrepancy mismatch') END;''
       @ [CHR 0x0A]
       @ ''END''),
     (''trigger'', ''recovery_outcomes_guards'',
       ''CREATE TRIGGER recovery_outcomes_guards BEFORE INSERT ON recovery_outcomes BEGIN''
       @ [CHR 0x0A]
       @ '' SELECT CASE WHEN NOT EXISTS(SELECT 1 FROM recovery_actions WHERE action_id=NEW.action_id AND ''
       @ ''run_id=NEW.run_id AND scope_id=NEW.scope_id AND source_lineage=NEW.source_lineage) THEN ''
       @ ''RAISE(ABORT,'outcome action mismatch') END;''
       @ [CHR 0x0A]
       @ '' SELECT CASE WHEN NEW.sequence=1 AND (NEW.stage!='effect_observed' OR NEW.result NOT IN ''
       @ ''('effect_applied','effect_not_started','effect_unknown') OR NEW.supersedes_id IS NOT NULL) ''
       @ ''THEN RAISE(ABORT,'invalid effect') END;''
       @ [CHR 0x0A]
       @ '' SELECT CASE WHEN NEW.sequence=1 AND ((NEW.result='effect_applied' AND (NEW.observed_pre_state ''
       @ ''IS NULL OR NEW.observed_post_state IS NULL)) OR (NEW.result='effect_not_started' AND ''
       @ ''(NEW.observed_pre_state IS NULL OR NEW.observed_post_state IS NOT NULL)) OR ''
       @ ''(NEW.result='effect_unknown' AND NEW.observed_post_state IS NULL)) THEN RAISE(ABORT,'invalid ''
       @ ''observations') END;''
       @ [CHR 0x0A]
       @ '' SELECT CASE WHEN NEW.sequence=2 AND (NEW.stage!='terminal' OR NEW.result NOT IN ''
       @ ''('applied','blocked','unknown','same') OR NOT EXISTS(SELECT 1 FROM recovery_outcomes WHERE ''
       @ ''outcome_id=NEW.supersedes_id AND action_id=NEW.supersedes_action_id AND ''
       @ ''action_id=NEW.action_id AND sequence=1 AND stage='effect_observed')) THEN RAISE(ABORT,'invalid ''
       @ ''terminal') END;''
       @ [CHR 0x0A]
       @ '' SELECT CASE WHEN NEW.sequence>2 AND (NEW.stage!='correction' OR NEW.result NOT IN ''
       @ ''('applied','blocked','unknown','same') OR NEW.provenance_kind!='reconciliation_discrepancy' OR ''
       @ ''NOT EXISTS(SELECT 1 FROM recovery_outcomes WHERE outcome_id=NEW.supersedes_id AND ''
       @ ''action_id=NEW.supersedes_action_id AND action_id=NEW.action_id AND sequence=NEW.sequence-1) OR ''
       @ ''NOT EXISTS(SELECT 1 FROM reconciliation_discrepancies d JOIN recovery_actions a ON ''
       @ ''a.action_id=NEW.action_id WHERE d.id=NEW.provenance_id AND d.run_id=NEW.run_id AND ''
       @ ''d.scope_id=NEW.scope_id AND d.source_lineage=NEW.source_lineage AND d.correction_of_id=CASE ''
       @ ''WHEN NEW.sequence=3 THEN a.discrepancy_id ELSE (SELECT provenance_id FROM recovery_outcomes ''
       @ ''WHERE action_id=NEW.action_id AND sequence=NEW.sequence-1) END)) THEN RAISE(ABORT,'invalid ''
       @ ''correction outcome') END;''
       @ [CHR 0x0A]
       @ '' SELECT CASE WHEN NEW.sequence=2 AND ((NEW.result='applied' AND (SELECT result FROM ''
       @ ''recovery_outcomes WHERE outcome_id=NEW.supersedes_id AND ''
       @ ''action_id=NEW.supersedes_action_id)!='effect_applied') OR (NEW.result IN ('blocked','same') ''
       @ ''AND (SELECT result FROM recovery_outcomes WHERE outcome_id=NEW.supersedes_id AND ''
       @ ''action_id=NEW.supersedes_action_id)!='effect_not_started') OR (NEW.result='unknown' AND ''
       @ ''(SELECT result FROM recovery_outcomes WHERE outcome_id=NEW.supersedes_id AND ''
       @ ''action_id=NEW.supersedes_action_id)!='effect_unknown')) THEN RAISE(ABORT,'wrong terminal ''
       @ ''mapping') END;''
       @ [CHR 0x0A]
       @ '' SELECT CASE WHEN NEW.sequence>1 AND NOT EXISTS(SELECT 1 FROM recovery_outcomes WHERE ''
       @ ''action_id=NEW.action_id AND sequence=NEW.sequence-1) THEN RAISE(ABORT,'sequence gap') END;''
       @ [CHR 0x0A]
       @ ''END'')]"

lemma table_names:
  "fst tbl_schema_metadata = ''schema_metadata''"
  "fst tbl_artifacts = ''artifacts''"
  "fst tbl_versions = ''versions''"
  "fst tbl_operations = ''operations''"
  "fst tbl_lineage = ''lineage''"
  "fst tbl_discrepancies = ''discrepancies''"
  "fst tbl_compatibility_decisions_v2 = ''compatibility_decisions''"
  "fst tbl_compatibility_decisions_v3 = ''compatibility_decisions''"
  "fst tbl_events = ''events''"
  "fst tbl_findings = ''findings''"
  "fst tbl_evidence = ''evidence''"
  "fst tbl_history = ''history''"
  "fst tbl_replay_metadata = ''replay_metadata''"
  "fst tbl_lifecycle_evidence = ''lifecycle_evidence''"
  "fst tbl_reviewer_findings = ''reviewer_findings''"
  "fst tbl_outcomes = ''outcomes''"
  "fst tbl_retrospectives = ''retrospectives''"
  "fst tbl_acceptance_requirements = ''acceptance_requirements''"
  "fst tbl_projections = ''projections''"
  "fst tbl_projection_rebuilds = ''projection_rebuilds''"
  "fst tbl_projection_rebuild_status = ''projection_rebuild_status''"
  "fst tbl_playback_results = ''playback_results''"
  "fst tbl_captured_outcome_simulations = ''captured_outcome_simulations''"
  "fst tbl_reconciliation_runs = ''reconciliation_runs''"
  "fst tbl_reconciliation_discrepancies = ''reconciliation_discrepancies''"
  "fst tbl_reconciliation_projection_evidence = ''reconciliation_projection_evidence''"
  "fst tbl_recovery_actions = ''recovery_actions''"
  "fst tbl_recovery_outcomes = ''recovery_outcomes''"
  by (simp_all add: tbl_schema_metadata_def tbl_artifacts_def tbl_versions_def tbl_operations_def tbl_lineage_def
      tbl_discrepancies_def tbl_compatibility_decisions_v2_def tbl_compatibility_decisions_v3_def
      tbl_events_def tbl_findings_def tbl_evidence_def tbl_history_def tbl_replay_metadata_def
      tbl_lifecycle_evidence_def tbl_reviewer_findings_def tbl_outcomes_def tbl_retrospectives_def
      tbl_acceptance_requirements_def tbl_projections_def tbl_projection_rebuilds_def
      tbl_projection_rebuild_status_def tbl_playback_results_def tbl_captured_outcome_simulations_def
      tbl_reconciliation_runs_def tbl_reconciliation_discrepancies_def
      tbl_reconciliation_projection_evidence_def tbl_recovery_actions_def tbl_recovery_outcomes_def)

section \<open>Running the batches\<close>

definition trigger_sql :: "str \<Rightarrow> str \<Rightarrow> str \<Rightarrow> str \<Rightarrow> str \<times> str \<times> str" where
  "trigger_sql name event table message = (''trigger'', name, ''CREATE TRIGGER '' @ name @ '' BEFORE '' @ event
     @ '' ON '' @ table @ '' BEGIN SELECT RAISE(ABORT,'' @ [CHR 0x27] @ message @ [CHR 0x27] @ ''); END'')"

definition immutable_sql :: "str \<Rightarrow> (str \<times> str \<times> str) list" where
  "immutable_sql table =
     [trigger_sql (''immutable_'' @ table @ ''_update'') ''UPDATE'' table ''immutable'',
      trigger_sql (''immutable_'' @ table @ ''_delete'') ''DELETE'' table ''immutable'']"

definition slice4_triggers_sql :: "(str \<times> str \<times> str) list" where
  "slice4_triggers_sql = concat (map (\<lambda>t.
     [trigger_sql (t @ ''_immutable_update'') ''UPDATE'' t (''immutable '' @ t),
      trigger_sql (t @ ''_immutable_delete'') ''DELETE'' t (''immutable '' @ t)]) slice4_tables)"

text \<open>
  Tables are kept before the other objects, and the decisions before the other tables: the
  program reads \<open>sqlite_master\<close> only by name or sorted.
\<close>

definition is_table :: "str \<times> str \<times> str option \<Rightarrow> bool" where
  "is_table = (\<lambda>(ty, _, _). ty = ''table'')"

definition put :: "bool \<Rightarrow> 'a \<Rightarrow> 'a list \<Rightarrow> 'a list" where
  "put first x xs = (if first then x # xs else xs @ [x])"

definition column_of :: "str \<times> str \<times> int \<times> str option \<times> int \<Rightarrow> column_info" where
  "column_of = (\<lambda>(n, ty, nn, df, pk). \<lparr>ci_name = n, ci_type = ty, ci_notnull = nn, ci_default = df, ci_pk = pk\<rparr>)"

definition index_of :: "str \<times> int \<times> str \<times> str list \<Rightarrow> index_info" where
  "index_of = (\<lambda>(n, u, origin, cols).
     \<lparr>ix_name = n, ix_unique = u, ix_origin = origin, ix_columns = map Some cols\<rparr>)"

fun table_sql :: "table_text \<Rightarrow> str" where "table_sql (n, sql, cs, fks, ixs) = sql"
fun table_columns :: "table_text \<Rightarrow> column_info list" where "table_columns (n, sql, cs, fks, ixs) = map column_of cs"
fun table_foreign :: "table_text \<Rightarrow> (str \<times> str) list" where "table_foreign (n, sql, cs, fks, ixs) = fks"
fun table_indexes :: "table_text \<Rightarrow> index_info list" where "table_indexes (n, sql, cs, fks, ixs) = map index_of ixs"

definition put_table :: "bool \<Rightarrow> table_text \<Rightarrow> catalogue \<Rightarrow> catalogue" where
  "put_table first t c = c\<lparr>
     ct_master := put first (''table'', fst t, Some (table_sql t)) (takeWhile is_table (ct_master c))
       @ dropWhile is_table (ct_master c),
     ct_columns := put first (fst t, table_columns t) (ct_columns c),
     ct_foreign := put first (fst t, table_foreign t) (ct_foreign c),
     ct_indexes := put first (fst t, table_indexes t) (ct_indexes c)\<rparr>"

definition ensure_table :: "bool \<Rightarrow> table_text \<Rightarrow> catalogue \<Rightarrow> catalogue" where
  "ensure_table first t c = (if table_exists c (fst t) then c else put_table first t c)"

definition ensure_object :: "str \<times> str \<times> str \<Rightarrow> catalogue \<Rightarrow> catalogue" where
  "ensure_object = (\<lambda>(ty, n, sql) c. if 0 < count_objects c ty n then c
     else c\<lparr>ct_master := ct_master c @ [(ty, n, Some sql)]\<rparr>)"

definition ensure_all :: "table_text list \<Rightarrow> (str \<times> str \<times> str) list \<Rightarrow> catalogue \<Rightarrow> catalogue" where
  "ensure_all ts os c = fold ensure_object os (fold (ensure_table False) ts c)"

definition create_table :: "bool \<Rightarrow> table_text \<Rightarrow> catalogue \<Rightarrow> error + catalogue" where
  "create_table first t c = (if table_exists c (fst t) then Inl (Sql ConstraintViolation) else Inr (put_table first t c))"

definition drop_table :: "str \<Rightarrow> catalogue \<Rightarrow> error + catalogue" where
  "drop_table n c = (if \<not> table_exists c n then Inl (Sql ConstraintViolation) else Inr (c\<lparr>
     ct_master := filter (\<lambda>(ty, m, _). \<not> (ty = ''table'' \<and> m = n)) (ct_master c),
     ct_columns := filter (\<lambda>(m, _). m \<noteq> n) (ct_columns c),
     ct_foreign := filter (\<lambda>(m, _). m \<noteq> n) (ct_foreign c),
     ct_indexes := filter (\<lambda>(m, _). m \<noteq> n) (ct_indexes c)\<rparr>))"

definition rename_key :: "str \<Rightarrow> str \<Rightarrow> (str \<times> 'a) list \<Rightarrow> (str \<times> 'a) list" where
  "rename_key a b = map (\<lambda>(m, x). (if m = a then b else m, x))"

definition rename_table :: "str \<Rightarrow> str \<Rightarrow> catalogue \<Rightarrow> error + catalogue" where
  "rename_table a b c = (if \<not> table_exists c a \<or> table_exists c b then Inl (Sql ConstraintViolation) else Inr (c\<lparr>
     ct_master := map (\<lambda>(ty, m, sql). (ty, if ty = ''table'' \<and> m = a then b else m, sql)) (ct_master c),
     ct_columns := rename_key a b (ct_columns c), ct_foreign := rename_key a b (ct_foreign c),
     ct_indexes := rename_key a b (ct_indexes c)\<rparr>))"

text \<open>\<open>ALTER TABLE .. ADD COLUMN\<close>: the definition goes into the text, before its table constraints.\<close>

fun splice :: "str \<Rightarrow> str \<Rightarrow> str" where
  "splice new [] = new"
| "splice new (a # s) = (if prefix '',FOREIGN KEY('' (a # s) \<or> s = [] then new @ a # s else a # splice new s)"

fun after_text :: "str \<Rightarrow> str \<Rightarrow> str option" where
  "after_text p [] = None"
| "after_text p (a # s) = (if prefix p (a # s) then Some (drop (length p) (a # s)) else after_text p s)"

definition new_column :: "str \<Rightarrow> str \<Rightarrow> str \<times> str \<times> int \<times> str option \<times> int" where
  "new_column n definition' = (n, takeWhile (\<lambda>a. a \<noteq> CHR '' '') definition',
     if contains ''NOT NULL'' definition' then 1 else 0, after_text ''DEFAULT '' definition', 0)"

definition add_column :: "str \<Rightarrow> str \<Rightarrow> str \<Rightarrow> catalogue \<Rightarrow> error + catalogue" where
  "add_column table n definition' c =
     (if \<not> table_exists c table \<or> column_count c table n \<noteq> 0 then Inl (Sql ConstraintViolation) else Inr (c\<lparr>
        ct_master := map (\<lambda>(ty, m, sql). (ty, m, if ty = ''table'' \<and> m = table
          then map_option (splice ('', '' @ n @ '' '' @ definition')) sql else sql)) (ct_master c),
        ct_columns := map (\<lambda>(m, cs). (m, if m = table then cs @ [column_of (new_column n definition')] else cs)) (ct_columns c)\<rparr>))"

definition schema_objects :: "(str \<times> str \<times> str) list" where
  "schema_objects = (''index'', ''versions_artifact'', ''CREATE INDEX versions_artifact ON versions(artifact_id)'')
     # concat (map immutable_sql [''versions'', ''operations'', ''lineage'', ''discrepancies''])"

fun sqlite_run :: "ddl \<Rightarrow> catalogue \<Rightarrow> error + catalogue" where
  "sqlite_run CreateSchema c =
     (if list_ex (\<lambda>t. table_exists c (fst t)) (schema_tables @ decisions_v2_table) then Inl (Sql ConstraintViolation)
      else Inr (fold (ensure_table True) decisions_v2_table (ensure_all schema_tables schema_objects c)))"
| "sqlite_run DropDecisions c = drop_table ''compatibility_decisions'' c"
| "sqlite_run EnsureDecisionsV2 c = Inr (fold (ensure_table True) decisions_v2_table c)"
| "sqlite_run CreateDecisionsV3 c = for_each (create_table True) decisions_v3_table c"
| "sqlite_run RenameDecisions c = rename_table ''compatibility_decisions'' ''compatibility_decisions_v2'' c"
| "sqlite_run DropRenamedDecisions c = drop_table ''compatibility_decisions_v2'' c"
| "sqlite_run EnsureRecordTables c = Inr (ensure_all record_tables_sql [] c)"
| "sqlite_run EnsureProjectionTables c = Inr (ensure_all projection_tables_sql (projection_triggers_sql
     @ concat (map immutable_sql [''projection_rebuilds'', ''playback_results'', ''captured_outcome_simulations''])) c)"
| "sqlite_run (AddColumn table n definition') c = add_column table n definition' c"
| "sqlite_run (EnsureImmutable table) c = Inr (ensure_all [] (immutable_sql table) c)"
| "sqlite_run CreateEventTriggers c =
     (if list_ex (trigger_exists c) event_triggers then Inl (Sql ConstraintViolation)
      else Inr (ensure_all [] (immutable_sql ''events'') c))"
| "sqlite_run EnsureEventTriggers c = Inr (ensure_all [] (immutable_sql ''events'') c)"
| "sqlite_run EnsureSlice4 c = Inr (ensure_all slice4_tables_sql (slice4_objects_sql @ slice4_triggers_sql) c)"
| "sqlite_run RenameLegacy c =
     for_each (\<lambda>t. rename_table t (''legacy_'' @ t)) [''schema_metadata'', ''artifacts'', ''versions''] c"
| "sqlite_run DropLegacy c =
     for_each drop_table [''legacy_versions'', ''legacy_artifacts'', ''legacy_schema_metadata''] c"

definition sqlite :: engine where
  "sqlite = \<lparr>run_ddl = sqlite_run, intact = (\<lambda>_ _. True),
     lower_char = (\<lambda>k. [if 65 \<le> k \<and> k \<le> 90 then k + 32 else k]), final_sigma = (\<lambda>_ _. False)\<rparr>"

section \<open>The batches keep the interface\<close>

lemma count_put: "count_objects (put_table first t c) ty n
    = count_objects c ty n + (if ty = ''table'' \<and> n = fst t then 1 else 0)"
proof -
  have "count_objects c ty n = length (filter (\<lambda>(t, m, _). t = ty \<and> m = n) (takeWhile is_table (ct_master c)))
      + length (filter (\<lambda>(t, m, _). t = ty \<and> m = n) (dropWhile is_table (ct_master c)))"
    by (simp add: count_objects_def flip: length_append filter_append)
  then show ?thesis by (auto simp: put_table_def put_def count_objects_def)
qed

lemma count_object: "count_objects (c\<lparr>ct_master := ct_master c @ [(ty', n', x)]\<rparr>) ty n
    = count_objects c ty n + (if ty = ty' \<and> n = n' then 1 else 0)"
  by (auto simp: count_objects_def)

lemma ensure_table_grows: "0 < count_objects c ty n \<Longrightarrow> 0 < count_objects (ensure_table b t c) ty n"
  by (simp add: ensure_table_def count_put)

lemma ensure_object_grows: "0 < count_objects c ty n \<Longrightarrow> 0 < count_objects (ensure_object p c) ty n"
  by (cases p) (simp add: ensure_object_def count_object)

lemma ensure_table_creates: "0 < count_objects (ensure_table b t c) ''table'' (fst t)"
  by (simp add: ensure_table_def count_put table_exists_def)

lemma ensure_object_creates: "0 < count_objects (ensure_object (ty, n, x) c) ty n"
  by (simp add: ensure_object_def count_object)

lemma tables_grow: "0 < count_objects c ty n \<Longrightarrow> 0 < count_objects (fold (ensure_table b) ts c) ty n"
  by (induction ts arbitrary: c) (simp_all add: ensure_table_grows)

lemma objects_grow: "0 < count_objects c ty n \<Longrightarrow> 0 < count_objects (fold ensure_object os c) ty n"
  by (induction os arbitrary: c) (simp_all add: ensure_object_grows)

lemma tables_create: "t \<in> set ts \<Longrightarrow> 0 < count_objects (fold (ensure_table b) ts c) ''table'' (fst t)"
proof (induction ts arbitrary: c)
  case (Cons x ts)
  then show ?case by (cases "t = x") (simp_all add: tables_grow ensure_table_creates)
qed simp

lemma objects_create: "(ty, n, x) \<in> set os \<Longrightarrow> 0 < count_objects (fold ensure_object os c) ty n"
proof (induction os arbitrary: c)
  case (Cons p os)
  then show ?case by (cases "p = (ty, n, x)") (simp_all add: objects_grow ensure_object_creates)
qed simp

lemma fold_nothing: "(\<And>x. x \<in> set xs \<Longrightarrow> f x c = c) \<Longrightarrow> fold f xs c = c"
  by (induction xs) auto

lemma ensure_all_creates:
  "exists_all (ensure_all ts os c) (map (\<lambda>t. (''table'', fst t)) ts @ map (\<lambda>(ty, n, _). (ty, n)) os)"
proof -
  have "0 < count_objects (ensure_all ts os c) ''table'' (fst t)" if "t \<in> set ts" for t
    unfolding ensure_all_def by (rule objects_grow [OF tables_create [OF that]])
  moreover have "0 < count_objects (ensure_all ts os c) ty n" if "(ty, n, x) \<in> set os" for ty n x
    unfolding ensure_all_def by (rule objects_create [OF that])
  ultimately show ?thesis by (auto simp: exists_all_def list_all_iff)
qed

lemma exists_allD: "exists_all c xs \<Longrightarrow> (ty, n) \<in> set xs \<Longrightarrow> 0 < count_objects c ty n"
  by (auto simp: exists_all_def list_all_iff)

lemma ensure_all_nothing:
  assumes "exists_all c (map (\<lambda>t. (''table'', fst t)) ts @ map (\<lambda>(ty, n, _). (ty, n)) os)"
  shows "ensure_all ts os c = c"
proof -
  have "ensure_table False t c = c" if "t \<in> set ts" for t
    using exists_allD [OF assms, of "''table''" "fst t"] that by (simp add: ensure_table_def table_exists_def)
  moreover have "ensure_object p c = c" if "p \<in> set os" for p
    using exists_allD [OF assms, of "fst p" "fst (snd p)"] that
    by (cases p) (force simp: ensure_object_def)
  ultimately show ?thesis by (simp add: ensure_all_def fold_nothing)
qed

text \<open>Each batch that is run again is one \<open>ensure_all\<close> over its objects.\<close>

lemma exists_all_set: "set xs = set ys \<Longrightarrow> exists_all c xs = exists_all c ys"
  by (simp add: exists_all_def list_all_iff)

lemma sqlite_batch:
  assumes "created s \<noteq> []"
  obtains ts os where "\<And>c. sqlite_run s c = Inr (ensure_all ts os c)"
    "set (created s) = set (map (\<lambda>t. (''table'', fst t)) ts @ map (\<lambda>(ty, n, _). (ty, n)) os)"
proof (cases s)
  case EnsureRecordTables
  show ?thesis by (rule that [of record_tables_sql "[]"]) (simp add: EnsureRecordTables, (simp add: EnsureRecordTables), code_simp)
next
  case EnsureProjectionTables
  have "created s = map (\<lambda>t. (''table'', fst t)) projection_tables_sql @ map (\<lambda>(ty, n, _). (ty, n)) (projection_triggers_sql
     @ concat (map immutable_sql [''projection_rebuilds'', ''playback_results'', ''captured_outcome_simulations'']))"
    unfolding EnsureProjectionTables by code_simp
  then show ?thesis using that EnsureProjectionTables by (metis sqlite_run.simps(8))
next
  case (EnsureImmutable t)
  show ?thesis
    by (rule that [of "[]" "immutable_sql t"])
      (simp_all add: EnsureImmutable immutable_names_def immutable_sql_def immutable_pair_def trigger_sql_def)
next
  case EnsureSlice4
  have "list_all (\<lambda>x. x \<in> set (created EnsureSlice4)) (map (\<lambda>t. (''table'', fst t)) slice4_tables_sql @ map (\<lambda>(ty, n, _). (ty, n)) (slice4_objects_sql @ slice4_triggers_sql))"
    "list_all (\<lambda>x. x \<in> set (map (\<lambda>t. (''table'', fst t)) slice4_tables_sql @ map (\<lambda>(ty, n, _). (ty, n)) (slice4_objects_sql @ slice4_triggers_sql))) (created EnsureSlice4)"
    by code_simp+
  then have "set (created s) = set (map (\<lambda>t. (''table'', fst t)) slice4_tables_sql @ map (\<lambda>(ty, n, _). (ty, n)) (slice4_objects_sql @ slice4_triggers_sql))"
    unfolding EnsureSlice4 list_all_iff by blast
  then show ?thesis using that EnsureSlice4 by (metis sqlite_run.simps(13))
qed (use assms in simp_all)

interpretation sqlite: if_not_exists "run_ddl sqlite"
proof
  fix s c c' assume s: "created s \<noteq> []"
  obtain ts os where b: "\<And>c. sqlite_run s c = Inr (ensure_all ts os c)"
    "set (created s) = set (map (\<lambda>t. (''table'', fst t)) ts @ map (\<lambda>(ty, n, _). (ty, n)) os)"
    using sqlite_batch [OF s] by blast
  show "exists_all c' (created s)" if "run_ddl sqlite s c = Inr c'"
    using that ensure_all_creates [of ts os c] by (simp add: sqlite_def b(1) exists_all_set [OF b(2)])
  show "run_ddl sqlite s c = Inr c" if "exists_all c (created s)"
    using that ensure_all_nothing [of c ts os] by (simp add: sqlite_def b(1) exists_all_set [OF b(2)])
qed

end
