(* ===== verification/Books.thy ===== *)
theory Books
  imports Schema
begin

text \<open>
  What the record checks of \<open>Schema\<close> say: when the guard rows pass, which decision tables
  migrate, and which state of the record tables satisfies every record check (\<open>books_ok\<close>).
\<close>

section \<open>When the guard rows pass\<close>

lemma strictly_increasing_iff:
  "strictly_increasing p ns \<longleftrightarrow> sorted_wrt (<) ns \<and> opt_all (\<lambda>m. \<forall>n\<in>set ns. m < n) p"
proof (induction ns arbitrary: p)
  case (Cons n ns)
  show ?case using Cons.IH [of "Some n"] by (cases p) (force simp: not_le)+
qed (simp add: opt_all_def split: option.split)

definition reserved_playbacks :: "str list" where
  "reserved_playbacks = [''guard'', ''guard-coherence-0'', ''guard-coherence-3'', ''guard-update-0'',
     ''guard-update-1'', ''guard-update-2'', ''guard-update-3'', ''guard-update-4'', ''guard-update-5'']"

text \<open>No record has a name that the guard rows use.\<close>

definition guards_free :: "db \<Rightarrow> bool" where
  "guards_free d =
     ((\<forall>k\<in>set reserved_playbacks. k \<notin> pb_id ` set (playbacks d)) \<and> ''guard'' \<notin> sim_id ` set (simulations d)
      \<and> ''authority-guard'' \<notin> pr_id ` set (projections d)
      \<and> ''authority-guard'' \<notin> rs_projection ` set (rebuild_status d))"

lemma guard_playback_simps [simp]: "pb_id (guard_playback k r dv e) = k"
  by (simp add: guard_playback_def)

lemma guard_first_coherent: "playback_coherent (guard_playback k ''exact_playback_succeeded'' None True)"
  by (simp add: playback_coherent_def guard_playback_def)

lemma dec_small:
  "dec 0 = ''0''" "dec 1 = ''1''" "dec (Suc 0) = ''1''" "dec 2 = ''2''" "dec 3 = ''3''" "dec 4 = ''4''" "dec 5 = ''5''"
  by code_simp+

definition case_right :: "nat \<times> str \<times> bool \<times> str option \<times> bool \<Rightarrow> bool" where
  "case_right c = (case c of (n, result, exact, divergence, accepted) \<Rightarrow>
     playback_coherent (guard_playback [] result divergence exact) = accepted)"

lemma cases_right: "list_all case_right coherence_cases"
  by (simp add: coherence_cases_def case_right_def playback_coherent_def guard_playback_def)

lemma coherent_name: "playback_coherent (guard_playback k r dv e) = playback_coherent (guard_playback [] r dv e)"
  by (simp add: playback_coherent_def guard_playback_def)

lemma update_guards_iff:
  assumes "distinct (map fst cs)" "list_all case_right cs"
  shows "update_guards d cs =
    (if \<forall>c\<in>set cs. guard_name ''guard-update-'' (fst c) \<notin> pb_id ` set (playbacks d) then Inr True
     else Inl (Sql ConstraintViolation))"
  using assms
proof (induction cs arbitrary: d)
  case (Cons c cs)
  obtain n r e dv acc where c: "c = (n, r, e, dv, acc)" by (cases c)
  let ?k = "guard_name ''guard-update-'' n"
  have "playback_coherent (guard_playback [] r dv e) = acc"
    using Cons.prems(2) by (simp add: c case_right_def)
  then have right: "playback_coherent (guard_playback ?k r dv e) = acc" by (simp only: coherent_name [of ?k])
  show ?case
  proof (cases "?k \<in> pb_id ` set (playbacks d)")
    case True
    then show ?thesis by (simp add: c insert_playback_def new_key_def)
  next
    case False
    let ?d1 = "d\<lparr>playbacks := playbacks d @ [guard_playback ?k ''exact_playback_succeeded'' None True]\<rparr>"
    let ?d2 = "if acc then ?d1\<lparr>playbacks := butlast (playbacks ?d1) @ [guard_playback ?k r dv e]\<rparr> else ?d1"
    have ids: "pb_id ` set (playbacks ?d2) = insert ?k (pb_id ` set (playbacks d))" by auto
    have other: "guard_name ''guard-update-'' (fst x) \<noteq> ?k" if "x \<in> set cs" for x
      using Cons.prems(1) that by (auto simp: c dec_inject guard_name_def)
    have "update_guards d (c # cs) = and_then (update_guards ?d2 cs) (\<lambda>rest. Inr rest)"
      using False by (simp add: c insert_playback_def new_key_def guard_first_coherent right Let_def split: sum.split)
    also have "\<dots> = update_guards ?d2 cs" by (simp split: sum.split)
    also have "\<dots> = (if \<forall>x\<in>set cs. guard_name ''guard-update-'' (fst x) \<notin> pb_id ` set (playbacks d) then Inr True
        else Inl (Sql ConstraintViolation))"
      using Cons.IH [of ?d2] Cons.prems other unfolding ids by simp
    finally show ?thesis using False by (simp add: c)
  qed
qed simp

text \<open>When the guard rows pass: the history is in order and no record has a reserved name.\<close>

lemma validate_slice3_guards_iff:
  "validate_slice3_guards d = Inr () \<longleftrightarrow>
     sorted_wrt (<) (map ev_sequence (filter (\<lambda>r. ev_schema r = 1) (events d))) \<and> guards_free d"
proof -
  have u: "update_guards d coherence_cases = Inr b \<longleftrightarrow> b \<and> (\<forall>n\<in>set [''0'', ''1'', ''2'', ''3'', ''4'', ''5''].
      ''guard-update-'' @ n \<notin> pb_id ` set (playbacks d))" for b
    using update_guards_iff [of coherence_cases d, OF _ cases_right]
    by (simp add: coherence_cases_def dec_small guard_name_def del: update_guards.simps)
  have c: "list_all (coherence_guard d) coherence_cases \<longleftrightarrow>
      ''guard-coherence-0'' \<notin> pb_id ` set (playbacks d) \<and> ''guard-coherence-3'' \<notin> pb_id ` set (playbacks d)"
    by (simp add: coherence_cases_def coherence_guard_def insert_playback_def new_key_def dec_small guard_name_def
        playback_coherent_def guard_playback_def)
  show ?thesis
    by (simp add: validate_slice3_guards_def and_then_Inr strictly_increasing_iff u c guards_free_def
        reserved_playbacks_def insert_playback_def new_key_def guard_first_coherent insert_simulation_def
        guard_simulation_def insert_projection_def insert_rebuild_status_def guard_projection_def
        guard_status_def authority_ok_def) blast
qed


section \<open>Migrating the decisions\<close>

definition slice4_fingerprint :: "(bytes \<Rightarrow> bytes) \<Rightarrow> str" where
  "slice4_fingerprint sha = decision_fingerprint sha 2 3 ''slice-4-additive-compatibility'' ''system'' ''store''
     ''migrated'' ''migrated'' ''store''"

definition slice4_row :: "(bytes \<Rightarrow> bytes) \<Rightarrow> decision list \<Rightarrow> decision" where
  "slice4_row sha ds =
     \<lparr>cd_id = next_id (map cd_id ds), cd_from = 2, cd_to = 3, cd_operation = ''slice-4-additive-compatibility'',
      cd_actor = ''system'', cd_origin = ''store'', cd_outcome = ''migrated'', cd_result = ''migrated'',
      cd_legacy = None, cd_scope = ''store'', cd_version = 1,
      cd_fingerprint = slice4_fingerprint sha, cd_created = timestamp\<rparr>"

lemma slice4_decision_eq: "slice4_decision sha ds = ok_or (Sql ConstraintViolation) (insert_decision_row ds (slice4_row sha ds))"
  by (simp add: slice4_decision_def insert_decision_def slice4_row_def slice4_fingerprint_def)

lemma insert_decision_row_Some: "insert_decision_row ds r = Some ds' \<Longrightarrow> ds' = ds @ [r]"
  by (simp add: insert_decision_row_def split: if_splits)

lemma migrate_decisions_Inr:
  "migrate_decisions sha seen out xs = Inr out' \<Longrightarrow> out' = out @ map (migrated_decision sha) xs"
  by (induction sha seen out xs rule: migrate_decisions.induct)
    (auto split: if_splits option.splits dest: insert_decision_row_Some)

definition migrated_decisions :: "(bytes \<Rightarrow> bytes) \<Rightarrow> decision_v2 list \<Rightarrow> decision list" where
  "migrated_decisions sha ds = (let rows = map (migrated_decision sha) (sort_key d2_id ds) in rows @ [slice4_row sha rows])"

lemma decisions_v3_Inr:
  assumes "decisions_v3 sha ds = Inr out"
  shows "out = migrated_decisions sha ds"
  unfolding migrated_decisions_def Let_def
  using assms migrate_decisions_Inr insert_decision_row_Some
  by (fastforce simp: decisions_v3_def and_then_Inr slice4_decision_eq)

lemma migrated_decision_id [simp]: "cd_id (migrated_decision sha x) = d2_id x"
  by (simp add: migrated_decision_def)

lemma migrated_sorted:
  fixes sha ds
  defines "rows \<equiv> map (migrated_decision sha) (sort_key d2_id ds)"
  shows "sort_key cd_id (rows @ [slice4_row sha rows]) = rows @ [slice4_row sha rows]"
proof -
  have "d2_id x \<le> next_id (map cd_id rows)" if "x \<in> set ds" for x
    using foldr_max_ge [of "d2_id x" "map cd_id rows" 0] that by (auto simp: next_id_def rows_def)
  then have "sorted (map cd_id (rows @ [slice4_row sha rows]))"
    by (auto simp: sorted_append slice4_row_def rows_def comp_def)
  then show ?thesis by (rule sort_key_id_if_sorted)
qed

text \<open>A row without its number: what the program writes.\<close>

definition unnumbered :: "decision_v2 \<Rightarrow> decision_v2" where
  "unnumbered x = x\<lparr>d2_id := 0\<rparr>"

text \<open>A version 2 row passes the version 3 checks only as one of the two rows the program writes.\<close>

lemma migrated_decision_valid:
  "decision_valid sha (migrated_decision sha x) \<longleftrightarrow>
     unnumbered x = migration_decision \<or> unnumbered x = slice3_decision"
  by (cases x) (auto simp: decision_valid_def migrated_decision_def expected_decision_def
      migration_decision_def slice3_decision_def timestamp_def unnumbered_def)

lemma slice4_row_valid: "decision_valid sha (slice4_row sha ds)"
  by (simp add: decision_valid_def slice4_row_def slice4_fingerprint_def expected_decision_def timestamp_def)

definition known_history :: "decision_v2 list \<Rightarrow> bool" where
  "known_history ds = (map unnumbered (sort_key d2_id ds)
     \<in> {[], [slice3_decision], [migration_decision, slice3_decision]})"

definition decision_digests_differ :: "(bytes \<Rightarrow> bytes) \<Rightarrow> bool" where
  "decision_digests_differ sha =
     distinct [cd_fingerprint (migrated_decision sha migration_decision),
       cd_fingerprint (migrated_decision sha slice3_decision), slice4_fingerprint sha]"

lemma same_but_id:
  assumes "unnumbered x = y"
  shows "d2_from x = d2_from y" "d2_to x = d2_to y" "d2_operation x = d2_operation y"
    "d2_fingerprint x = d2_fingerprint y"
    "cd_fingerprint (migrated_decision sha x) = cd_fingerprint (migrated_decision sha y)"
  using assms by (auto simp: migrated_decision_def unnumbered_def)

lemma map_upto_two: "map f xs \<in> {[], [b], [a, b]} \<longleftrightarrow>
    xs = [] \<or> (\<exists>y. xs = [y] \<and> f y = b) \<or> (\<exists>x y. xs = [x, y] \<and> f x = a \<and> f y = b)"
  by (auto simp: map_eq_Cons_conv)

lemma kinds_upto_two:
  assumes "\<And>x. A x \<Longrightarrow> t x = a" "\<And>x. B x \<Longrightarrow> t x = b" "a \<noteq> b"
  shows "(\<forall>x\<in>set xs. A x \<or> B x) \<and> map t xs \<in> {[], [b], [a, b]} \<longleftrightarrow>
    xs = [] \<or> (\<exists>y. xs = [y] \<and> B y) \<or> (\<exists>x y. xs = [x, y] \<and> A x \<and> B y)"
proof -
  have no: "A x \<Longrightarrow> t x \<noteq> b" "B x \<Longrightarrow> t x \<noteq> a" for x using assms by simp_all
  show ?thesis (is "?L \<longleftrightarrow> ?R")
  proof
    assume L: ?L
    then have m: "xs = [] \<or> (\<exists>y. xs = [y] \<and> t y = b) \<or> (\<exists>x y. xs = [x, y] \<and> t x = a \<and> t y = b)"
      unfolding map_upto_two by blast
    have k: "x \<in> set xs \<Longrightarrow> A x \<or> B x" for x using L by blast
    from m show ?R using k no by (elim disjE exE conjE) (fastforce, metis list.set_intros(1), metis list.set_intros)
  next
    assume ?R
    then show ?L unfolding map_upto_two using assms(1,2) by (elim disjE exE conjE) simp_all
  qed
qed

lemma known_history_migrates:
  assumes "distinct (map d2_id ds)" "decision_digests_differ sha" "known_history ds"
  shows "decisions_v3 sha ds = Inr (migrated_decisions sha ds)"
proof -
  let ?xs = "sort_key d2_id ds"
  have d: "distinct (map d2_id ?xs)" using assms(1) by (simp add: distinct_map)
  have fresh: "cd_id (slice4_row sha rows) \<notin> cd_id ` set rows" for rows
    using next_id_fresh [of "map cd_id rows"] by (simp add: slice4_row_def)
  have s4: "cd_fingerprint (slice4_row sha rows) = slice4_fingerprint sha"
    "cd_from (slice4_row sha rows) = 2" "cd_version (slice4_row sha rows) = 1" for rows
    by (simp_all add: slice4_row_def)
  have md: "cd_version (migrated_decision sha x) = 1" "cd_from (migrated_decision sha x) = d2_from x" for x
    by (simp_all add: migrated_decision_def)
  have c: "d2_from migration_decision = 0" "d2_from slice3_decision = 1"
    "d2_fingerprint migration_decision \<noteq> d2_fingerprint slice3_decision"
    by (simp_all add: migration_decision_def slice3_decision_def)
  consider "?xs = []" | x where "?xs = [x]" "unnumbered x = slice3_decision"
    | x y where "?xs = [x, y]" "unnumbered x = migration_decision" "unnumbered y = slice3_decision"
    using assms(3) [unfolded known_history_def map_upto_two] by metis
  then show ?thesis
  proof cases
    case 1
    then show ?thesis by (simp add: migrated_decisions_def Let_def decisions_v3_def slice4_decision_eq insert_decision_row_def new_key_def s4)
  next
    case (2 x)
    then show ?thesis
      using same_but_id [OF 2(2)] fresh [of "[migrated_decision sha x]"] assms(2)
      by (auto simp: migrated_decisions_def Let_def decisions_v3_def slice4_decision_eq insert_decision_row_def new_key_def s4 md c
          decision_digests_differ_def)
  next
    case (3 x y)
    then show ?thesis
      using same_but_id [OF 3(2)] same_but_id [OF 3(3)] fresh [of "[migrated_decision sha x, migrated_decision sha y]"]
        assms(2) d
      by (auto simp: migrated_decisions_def Let_def decisions_v3_def slice4_decision_eq insert_decision_row_def new_key_def s4 md c
          c(3) [symmetric] decision_digests_differ_def)
  qed
qed

text \<open>The table that the migration of known rows leaves is exactly what version 3 accepts.\<close>

lemma validate_migrated_iff:
  "validate_v3_compatibility sha (migrated_decisions sha ds) = Inr () \<longleftrightarrow> known_history ds"
  unfolding migrated_decisions_def Let_def
proof -
  let ?xs = "sort_key d2_id ds"
  let ?rows = "map (migrated_decision sha) ?xs"
  let ?out = "?rows @ [slice4_row sha ?rows]"
  have t: "map (\<lambda>r. (cd_from r, cd_to r)) ?out = map (\<lambda>x. (d2_from x, d2_to x)) ?xs @ [(2, 3)]"
    by (simp add: migrated_decision_def slice4_row_def)
  have m: "d2_from migration_decision = 0" "d2_to migration_decision = 1"
    "d2_from slice3_decision = 1" "d2_to slice3_decision = 2"
    by (simp_all add: migration_decision_def slice3_decision_def)
  have "validate_v3_compatibility sha ?out = Inr () \<longleftrightarrow>
      (\<forall>x\<in>set ?xs. unnumbered x = migration_decision \<or> unnumbered x = slice3_decision)
      \<and> map (\<lambda>x. (d2_from x, d2_to x)) ?xs \<in> {[], [(1, 2)], [(0, 1), (1, 2)]}"
  proof -
    have "map (\<lambda>x. (d2_from x, d2_to x)) ?xs @ [(2, 3)] \<in> {[(2, 3)], [(1, 2), (2, 3)], [(0, 1), (1, 2), (2, 3)]}
        \<longleftrightarrow> map (\<lambda>x. (d2_from x, d2_to x)) ?xs \<in> {[], [(1, 2)], [(0, 1), (1, 2)]}"
      by (simp add: append_eq_Cons_conv)
    moreover have "list_all (decision_valid sha) ?out \<longleftrightarrow>
        (\<forall>x\<in>set ?xs. unnumbered x = migration_decision \<or> unnumbered x = slice3_decision)"
      by (simp add: list_all_iff slice4_row_valid migrated_decision_valid)
    ultimately show ?thesis
      by (simp only: validate_v3_compatibility_def Let_def migrated_sorted t ambiguous_unless_Inr)
  qed
  also have "\<dots> \<longleftrightarrow> known_history ds"
    unfolding known_history_def map_upto_two [of unnumbered]
    by (rule kinds_upto_two) (simp_all add: same_but_id(1,2) [of _ migration_decision]
        same_but_id(1,2) [of _ slice3_decision] m)
  finally show "validate_v3_compatibility sha ?out = Inr () \<longleftrightarrow> known_history ds" .
qed

text \<open>
  A version 2 decision table migrates to a table that version 3 accepts exactly when it
  records one of the histories the program itself writes (no decision, the step from 1 to 2,
  or the steps from 0 to 1 and from 1 to 2, in this order): an added, altered, reordered or
  missing decision is refused. The digests of the three decisions are assumed to differ, since
  the table keeps them unique.
\<close>

lemma decisions_migrate_iff:
  assumes "distinct (map d2_id ds)" "decision_digests_differ sha"
  shows "(\<exists>out. decisions_v3 sha ds = Inr out \<and> validate_v3_compatibility sha out = Inr ())
    \<longleftrightarrow> map unnumbered (sort_key d2_id ds)
          \<in> {[], [slice3_decision], [migration_decision, slice3_decision]}"
  unfolding known_history_def [symmetric]
  using decisions_v3_Inr known_history_migrates [OF assms] validate_migrated_iff
  by metis


section \<open>Well-kept books\<close>

text \<open>
  The state of the record tables that the program maintains, from which every record check
  follows: keys are unique, accepted operations, versions and lineage rows run in parallel, a
  rejected operation has its discrepancy and a discrepancy its operation.
\<close>

definition operation_booked :: "db \<Rightarrow> operation_row \<Rightarrow> bool" where
  "operation_booked d r = (op_schema r = 1
     \<and> (op_result r = ''accepted'' \<and> op_code r = None
        \<or> op_result r = ''rejected'' \<and> op_version r = None \<and> op_lineage r = None \<and> op_code r \<noteq> None
            \<and> op_id r \<in> disc_operation ` set (discrepancies d)))"

definition discrepancy_booked :: "db \<Rightarrow> discrepancy_row \<Rightarrow> bool" where
  "discrepancy_booked d c = (disc_schema c = 1 \<and> disc_status c = ''rejected''
     \<and> (\<exists>r\<in>set (operations d). op_id r = disc_operation c
          \<and> disc_result c = (case op_version r of Some v \<Rightarrow> v | None \<Rightarrow> op_id r)))"

definition books_ok :: "(bytes \<Rightarrow> bytes) \<Rightarrow> db \<Rightarrow> bool" where
  "books_ok sha d =
     (distinct (map art_id (artifacts d)) \<and> distinct (map ver_id (versions d))
      \<and> distinct (map op_id (operations d)) \<and> distinct (map disc_operation (discrepancies d))
      \<and> map (\<lambda>r. (op_id r, op_version r, op_lineage r)) (filter (\<lambda>r. op_result r = ''accepted'') (operations d))
          = map (\<lambda>v. (ver_operation v, Some (ver_id v), ver_ancestry v)) (versions d)
      \<and> lineage d = map lineage_of (versions d)
      \<and> (\<forall>a\<in>set (artifacts d). art_schema a = 1)
      \<and> (\<forall>v\<in>set (versions d). version_row_valid sha d v \<and> \<not> source_lineage_bad v)
      \<and> (\<forall>r\<in>set (operations d). operation_booked d r)
      \<and> (\<forall>c\<in>set (discrepancies d). discrepancy_booked d c)
      \<and> (\<forall>p\<in>set (playbacks d). playback_coherent p))"

lemma count_one:
  assumes "distinct (map key xs)" "x \<in> set xs" "P x" "\<And>y. y \<in> set xs \<Longrightarrow> P y \<Longrightarrow> key y = key x"
  shows "count P xs = 1"
proof -
  have "filter P xs = filter (\<lambda>y. key y = key x) xs"
  proof (rule filter_cong)
    fix y assume y: "y \<in> set xs"
    have "key y = key x \<Longrightarrow> y = x" using assms(1,2) y by (simp add: distinct_map inj_on_def)
    then show "P y \<longleftrightarrow> key y = key x" using assms(3) assms(4) [OF y] by blast
  qed simp
  moreover have "length (filter (\<lambda>y. key y = key x) xs) = 1"
    using assms(1,2)
  proof (induction xs)
    case (Cons z zs)
    have "filter (\<lambda>y. key y = key x) zs = []" if "z = x"
    proof -
      have "key x \<notin> key ` set zs" using Cons.prems(1) that by simp
      then show ?thesis by (metis (mono_tags, lifting) filter_False imageI)
    qed
    then show ?case using Cons by (auto simp: image_iff)
  qed simp
  ultimately show ?thesis by (simp add: count_def)
qed

lemma map_product: "map (\<lambda>(x, y). (f x, g y)) (List.product xs ys) = List.product (map f xs) (map g ys)"
  by (induction xs) (simp_all add: comp_def)

text \<open>What the parallel tables say of one accepted operation, one version, one lineage row.\<close>

lemma parallel_rows:
  assumes "books_ok sha d"
  shows "distinct (map ver_operation (versions d))"
    and "r \<in> set (operations d) \<Longrightarrow> op_result r = ''accepted'' \<Longrightarrow>
      \<exists>v\<in>set (versions d). ver_operation v = op_id r \<and> op_version r = Some (ver_id v) \<and> op_lineage r = ver_ancestry v"
    and "v \<in> set (versions d) \<Longrightarrow> \<exists>r\<in>set (operations d). op_result r = ''accepted''
      \<and> op_id r = ver_operation v \<and> op_version r = Some (ver_id v) \<and> op_lineage r = ver_ancestry v"
proof -
  have eq: "map (\<lambda>r. (op_id r, op_version r, op_lineage r)) (filter (\<lambda>r. op_result r = ''accepted'') (operations d))
      = map (\<lambda>v. (ver_operation v, Some (ver_id v), ver_ancestry v)) (versions d)"
    and dist: "distinct (map op_id (operations d))"
    using assms by (simp_all add: books_ok_def)
  have "map op_id (filter (\<lambda>r. op_result r = ''accepted'') (operations d)) = map ver_operation (versions d)"
    using arg_cong [OF eq, of "map fst"] by (simp add: comp_def)
  then show "distinct (map ver_operation (versions d))"
    using distinct_map_filter [OF dist] by metis
  show "\<exists>v\<in>set (versions d). ver_operation v = op_id r \<and> op_version r = Some (ver_id v) \<and> op_lineage r = ver_ancestry v"
    if "r \<in> set (operations d)" "op_result r = ''accepted''"
  proof -
    have "(op_id r, op_version r, op_lineage r) \<in> set (map (\<lambda>v. (ver_operation v, Some (ver_id v), ver_ancestry v)) (versions d))"
      using that unfolding eq [symmetric] by auto
    then show ?thesis by auto
  qed
  show "\<exists>r\<in>set (operations d). op_result r = ''accepted'' \<and> op_id r = ver_operation v
      \<and> op_version r = Some (ver_id v) \<and> op_lineage r = ver_ancestry v" if "v \<in> set (versions d)"
  proof -
    have "(ver_operation v, Some (ver_id v), ver_ancestry v)
        \<in> set (map (\<lambda>r. (op_id r, op_version r, op_lineage r)) (filter (\<lambda>r. op_result r = ''accepted'') (operations d)))"
      using that unfolding eq by auto
    then show ?thesis by auto
  qed
qed

lemma lineage_of_simps [simp]:
  "lin_operation (lineage_of v) = ver_operation v" "lin_version (lineage_of v) = ver_id v"
  "lin_parent (lineage_of v) = ver_ancestry v" "lin_schema (lineage_of v) = 1"
  by (simp_all add: lineage_of_def SCHEMA1_def)

lemma booked_counts:
  assumes "books_ok sha d" "r \<in> set (operations d)" "v \<in> set (versions d)" "op_result r = ''accepted''"
    "ver_operation v = op_id r" "op_version r = Some (ver_id v)" "op_lineage r = ver_ancestry v"
  shows "recorded_as d r = 1" "lineage_of_op d r = 1" "\<not> version_row_broken d v"
    "\<not> lineage_row_broken d (lineage_of v)"
proof -
  have b: "distinct (map ver_id (versions d))" "distinct (map op_id (operations d))"
    and lin: "lineage d = map lineage_of (versions d)"
    using assms(1) by (simp_all add: books_ok_def)
  note vop = parallel_rows(1) [OF assms(1)]
  have dl: "distinct (map lin_operation (lineage d))" using vop by (simp add: lin comp_def)
  have l: "lineage_of v \<in> set (lineage d)" using assms(3) by (simp add: lin)
  show "recorded_as d r = 1"
    unfolding recorded_as_def by (rule count_one [OF b(1) assms(3)]) (use assms in auto)
  show lo: "lineage_of_op d r = 1"
    unfolding lineage_of_op_def by (rule count_one [OF dl l]) (use assms in auto)
  have o: "count (\<lambda>r. op_result r = ''accepted'' \<and> op_id r = ver_operation v \<and> op_version r = Some (ver_id v)
      \<and> op_lineage r = ver_ancestry v) (operations d) = 1"
    by (rule count_one [OF b(2) assms(2)]) (use assms in auto)
  have vl: "count (\<lambda>l. lin_operation l = ver_operation v \<and> lin_version l = ver_id v
      \<and> lin_parent l = ver_ancestry v) (lineage d) = 1"
    by (rule count_one [OF dl l]) (use assms in auto)
  show "\<not> version_row_broken d v" by (simp add: version_row_broken_def o vl)
  have o1: "count (\<lambda>x. op_id x = lin_operation (lineage_of v)) (operations d) = 1"
    by (rule count_one [OF b(2) assms(2)]) (use assms in auto)
  have v1: "count (\<lambda>x. ver_id x = lin_version (lineage_of v)) (versions d) = 1"
    by (rule count_one [OF b(1) assms(3)]) auto
  have p: "distinct (map (\<lambda>(r, v). (op_id r, ver_id v)) (List.product (operations d) (versions d)))"
    unfolding map_product using b by (simp add: distinct_product)
  have j: "count (\<lambda>(x, y). op_version x = Some (ver_id y) \<and> op_id x = lin_operation (lineage_of v)
      \<and> op_result x = ''accepted'' \<and> ver_id y = lin_version (lineage_of v) \<and> op_lineage x = lin_parent (lineage_of v))
      (List.product (operations d) (versions d)) = 1"
    by (rule count_one [OF p, of "(r, v)"]) (use assms in auto)
  show "\<not> lineage_row_broken d (lineage_of v)" using o1 v1 j by (simp add: lineage_row_broken_def)
qed

lemma relations_booked: "books_ok sha d \<Longrightarrow> \<not> relations_broken d"
  using parallel_rows(2,3) [of sha d] booked_counts [of sha d]
  by (fastforce simp: relations_broken_def list_ex_iff books_ok_def)

lemma operations_booked:
  assumes b: "books_ok sha d" and r: "r \<in> set (operations d)" shows "\<not> operation_malformed d r"
proof -
  have book: "operation_booked d r" and dd: "distinct (map disc_operation (discrepancies d))"
    and dop: "distinct (map op_id (operations d))"
    and disc: "\<forall>c\<in>set (discrepancies d). discrepancy_booked d c"
    using b r by (simp_all add: books_ok_def)
  have disc_r: "disc_status c = ''rejected'' \<and> disc_result c = (case op_version r of Some v \<Rightarrow> v | None \<Rightarrow> op_id r)"
    if "c \<in> set (discrepancies d)" "disc_operation c = op_id r" for c
    using disc that r dop by (force simp: discrepancy_booked_def distinct_map inj_on_def)
  show ?thesis
  proof (cases "op_result r = ''accepted''")
    case True
    then obtain v where v: "v \<in> set (versions d)" "ver_operation v = op_id r" "op_version r = Some (ver_id v)"
      "op_lineage r = ver_ancestry v" using parallel_rows(2) [OF b r] by blast
    show ?thesis
      using True v(3) book booked_counts(1,2) [OF b r v(1) True v(2-4)] disc_r
      by (auto simp: operation_malformed_def operation_booked_def list_ex_iff)
  next
    case False
    with book obtain c where c: "c \<in> set (discrepancies d)" "disc_operation c = op_id r"
      and rej: "op_result r = ''rejected''" "op_version r = None" "op_lineage r = None" "op_code r \<noteq> None"
      by (auto simp: operation_booked_def)
    have "count (\<lambda>c. disc_operation c = op_id r \<and> disc_status c = ''rejected'' \<and> disc_result c = op_id r)
        (discrepancies d) = 1"
      by (rule count_one [OF dd c(1)]) (use c disc_r rej in auto)
    then show ?thesis using rej by (simp add: operation_malformed_def)
  qed
qed

lemma discrepancies_booked:
  assumes b: "books_ok sha d" and c: "c \<in> set (discrepancies d)" shows "\<not> discrepancy_bad d c"
proof -
  have dop: "distinct (map op_id (operations d))" and book: "discrepancy_booked d c"
    using b c by (simp_all add: books_ok_def)
  then obtain r where r: "r \<in> set (operations d)" "op_id r = disc_operation c"
    "disc_result c = (case op_version r of Some v \<Rightarrow> v | None \<Rightarrow> op_id r)"
    by (auto simp: discrepancy_booked_def)
  have "operation_booked d r" using b r(1) by (simp add: books_ok_def)
  then show ?thesis
    using book r row_with_unique [OF dop r(1)]
    by (auto simp: discrepancy_bad_def discrepancy_booked_def operation_booked_def split: option.splits)
qed

lemma coherent_not_incoherent: "playback_coherent p \<Longrightarrow> \<not> playback_incoherent p"
  by (auto simp: playback_coherent_def playback_incoherent_def)

theorem books_validate:
  assumes "books_ok sha d" "meta = [(''migration_lineage'', 1), (''schema_version'', fst (expected_metadata ctxt))]"
  shows "validate_records sha ctxt meta True (DecisionsV3 ds) d = Inr ()"
proof -
  have "\<forall>v\<in>set (versions d). ver_schema v = 1"
    using assms(1) by (auto simp: books_ok_def version_row_valid_def Let_def)
  moreover have "\<forall>l\<in>set (lineage d). lin_schema l = 1" using assms(1) by (auto simp: books_ok_def)
  ultimately show ?thesis
    using assms(1) assms(2) relations_booked [OF assms(1)] operations_booked [OF assms(1)]
      discrepancies_booked [OF assms(1)]
    by (auto simp: validate_records_def and_then_Inr list_all_iff list_ex_iff books_ok_def expected_metadata_def
        operation_booked_def discrepancy_booked_def dest: coherent_not_incoherent)
qed


lemma empty_books: "books_ok sha empty_db"
  by (simp add: books_ok_def empty_db_def)

lemma empty_guards: "validate_slice3_guards empty_db = Inr ()"
  by (simp add: validate_slice3_guards_iff guards_free_def empty_db_def)

lemma slice4_first: "slice4_decision sha [] = Inr [slice4_row sha []]"
  by (simp add: slice4_decision_eq insert_decision_row_def new_key_def slice4_row_def)

lemma slice4_alone_valid: "validate_v3_compatibility sha [slice4_row sha []] = Inr ()"
proof -
  have "(cd_from (slice4_row sha []), cd_to (slice4_row sha [])) = (2, 3)" by (simp add: slice4_row_def)
  then show ?thesis by (simp add: validate_v3_compatibility_def Let_def slice4_row_valid)
qed

section \<open>The decisions of a migrated store\<close>

definition legacy_decisions :: "decision_v2 list" where
  "legacy_decisions = [migration_decision\<lparr>d2_id := 1\<rparr>, slice3_decision\<lparr>d2_id := 2\<rparr>]"

lemma legacy_decisions_known: "distinct (map d2_id legacy_decisions)" "known_history legacy_decisions"
  "require_slice3_decision legacy_decisions = Inr ()"
  "insert_decision_v2 [migration_decision\<lparr>d2_id := 1\<rparr>] slice3_decision = Some legacy_decisions"
  by (simp_all add: legacy_decisions_def known_history_def unnumbered_def migration_decision_def slice3_decision_def
      require_slice3_decision_def insert_decision_v2_def new_key_def next_id_def)

lemma demo_digests: "decision_digests_differ demo_sha"
  by code_simp

lemma decisions_migrate_iff_witness:
  "(\<exists>out. decisions_v3 demo_sha legacy_decisions = Inr out \<and> validate_v3_compatibility demo_sha out = Inr ())
   \<and> \<not> (\<exists>out. decisions_v3 demo_sha (rev legacy_decisions @ [slice3_decision\<lparr>d2_id := 3\<rparr>]) = Inr out
         \<and> validate_v3_compatibility demo_sha out = Inr ())"
proof
  show "\<exists>out. decisions_v3 demo_sha legacy_decisions = Inr out \<and> validate_v3_compatibility demo_sha out = Inr ()"
    using legacy_decisions_known(2) decisions_migrate_iff [OF legacy_decisions_known(1) demo_digests]
    by (simp only: known_history_def)
  have "map unnumbered (sort_key d2_id (rev legacy_decisions @ [slice3_decision\<lparr>d2_id := 3\<rparr>]))
      \<notin> {[], [slice3_decision], [migration_decision, slice3_decision]}"
    by (simp add: legacy_decisions_def)
  moreover have "distinct (map d2_id (rev legacy_decisions @ [slice3_decision\<lparr>d2_id := 3\<rparr>]))"
    by (simp add: legacy_decisions_def)
  ultimately show "\<not> (\<exists>out. decisions_v3 demo_sha (rev legacy_decisions @ [slice3_decision\<lparr>d2_id := 3\<rparr>]) = Inr out
         \<and> validate_v3_compatibility demo_sha out = Inr ())"
    using decisions_migrate_iff [OF _ demo_digests] by simp
qed

end
