(* ===== verification/Canonical.thy ===== *)
theory Canonical
  imports Sqlite Books
begin

text \<open>
  The schema the program creates: what each batch of DDL makes of a catalogue that is described by
  its tables and other objects, with the engine of \<open>Sqlite\<close>, and from that the canonical
  catalogues of version 2 and 3.
\<close>

section \<open>ASCII texts\<close>

text \<open>On ASCII texts both ways of normalizing drop the white space and lower the letters.\<close>

fun lower_bits :: "char \<Rightarrow> char" where
  "lower_bits (Char b0 b1 b2 b3 b4 b5 b6 b7) =
     (if b5 then Char b0 b1 b2 b3 b4 b5 b6 b7
      else if b6 \<and> \<not> b7 \<and> (b0 \<or> b1 \<or> b2 \<or> b3 \<or> b4) \<and> \<not> (b4 \<and> b3 \<and> (b2 \<or> b1 \<and> b0))
      then Char b0 b1 b2 b3 b4 True b6 b7 else Char b0 b1 b2 b3 b4 b5 b6 b7)"

fun ascii_space :: "char \<Rightarrow> bool" where
  "ascii_space (Char b0 b1 b2 b3 b4 b5 b6 b7) =
     (if b6 then False else if b5 then \<not> (b4 \<or> b3 \<or> b2 \<or> b1 \<or> b0 \<or> b7)
      else if b4 \<or> b7 \<or> \<not> b3 then False else if b2 then \<not> b1 else b1 \<or> b0)"

fun ascii :: "char \<Rightarrow> bool" where
  "ascii (Char b0 b1 b2 b3 b4 b5 b6 b7) = (\<not> b7)"

fun squeezed :: "str \<Rightarrow> str" where
  "squeezed [] = []"
| "squeezed (a # s) = (if ascii_space a then squeezed s else lower_bits a # squeezed s)"

lemma ascii_facts:
  "ascii a \<longleftrightarrow> byte_of a < (128::nat)"
  "ascii a \<Longrightarrow> ascii_space a = is_whitespace (byte_of a)"
  "ascii a \<Longrightarrow> byte_of (lower_bits a) = (if 65 \<le> byte_of a \<and> byte_of a \<le> (90::nat) then byte_of a + 32 else byte_of a)"
proof -
  obtain b0 b1 b2 b3 b4 b5 b6 b7 where a: "a = Char b0 b1 b2 b3 b4 b5 b6 b7" by (cases a) blast
  show "ascii a \<longleftrightarrow> byte_of a < (128::nat)"
    unfolding a by (cases b0; cases b1; cases b2; cases b3; cases b4; cases b5; cases b6; cases b7; simp)
  show "ascii a \<Longrightarrow> ascii_space a = is_whitespace (byte_of a)"
    unfolding a is_whitespace_def
    by (cases b0; cases b1; cases b2; cases b3; cases b4; cases b5; cases b6; cases b7; simp)
  show "ascii a \<Longrightarrow> byte_of (lower_bits a) = (if 65 \<le> byte_of a \<and> byte_of a \<le> (90::nat) then byte_of a + 32 else byte_of a)"
    unfolding a by (cases b0; cases b1; cases b2; cases b3; cases b4; cases b5; cases b6; cases b7; simp)
qed

lemma ascii_chars: "list_all ascii s \<Longrightarrow> chars s = map byte_of s"
proof (induction s)
  case (Cons a s)
  then have "next_char (a # s) = Some (byte_of a, [a], s)" using ascii_facts(1) by (simp add: next_char_ascii)
  then show ?case using Cons by (simp add: chars.simps)
qed (simp add: chars.simps)

lemma encode_ascii: "byte_of a < (128::nat) \<Longrightarrow> utf8_encode (byte_of a) = [a]"
  by (simp add: utf8_encode_def)

lemma ascii_lowered: "ascii a \<Longrightarrow> lower_char sqlite (byte_of a) = [byte_of (lower_bits a)] \<and> ascii (lower_bits a)"
  using ascii_facts(1) [of "lower_bits a"] by (auto simp: sqlite_def ascii_facts)

lemma normalized_ascii: "list_all ascii s \<Longrightarrow> normalized sqlite s = squeezed s"
proof -
  assume "list_all ascii s"
  moreover have "of_chars (concat (map (lower_char sqlite) (filter (\<lambda>k. \<not> is_whitespace k) (map byte_of s)))) = squeezed s"
    if "list_all ascii s"
    using that
    by (induction s) (auto simp: ascii_facts(2) [symmetric] ascii_lowered encode_ascii ascii_facts(1) [symmetric])
  ultimately show ?thesis by (simp add: normalized_def ascii_chars)
qed

lemma lowered_ascii: "list_all ascii s \<Longrightarrow> lowered sqlite s = squeezed s"
proof -
  assume a: "list_all ascii s"
  have "of_chars (filter (\<lambda>k. \<not> is_whitespace k) (lower_after sqlite before (map byte_of s))) = squeezed s"
    if "list_all ascii s" for before
    using that
  proof (induction s arbitrary: before)
    case (Cons a s)
    have "lower_after sqlite before (byte_of a # map byte_of s)
        = byte_of (lower_bits a) # lower_after sqlite (byte_of a # before) (map byte_of s)"
      using Cons.prems ascii_facts(1) [of a] by (auto simp: ascii_lowered)
    moreover have "is_whitespace (byte_of (lower_bits a)) = ascii_space a"
      using Cons.prems by (auto simp: ascii_facts is_whitespace_def)
    ultimately show ?case
      using Cons ascii_lowered [of a] by (auto simp: encode_ascii ascii_facts(1) [symmetric])
  qed simp
  then show ?thesis using a by (simp add: lowered_def ascii_chars)
qed

lemma squeezed_append [simp]: "squeezed (a @ b) = squeezed a @ squeezed b"
  by (induction a) simp_all

section \<open>Described catalogues\<close>

text \<open>The catalogue of a list of tables and a list of other objects; \<open>sqlite_run\<close> stays within these.\<close>

definition described :: "table_text list \<Rightarrow> (str \<times> str \<times> str) list \<Rightarrow> catalogue" where
  "described ts os = \<lparr>
     ct_master = map (\<lambda>t. (''table'', fst t, Some (table_sql t))) ts @ map (\<lambda>(ty, n, sql). (ty, n, Some sql)) os,
     ct_columns = map (\<lambda>t. (fst t, table_columns t)) ts,
     ct_foreign = map (\<lambda>t. (fst t, table_foreign t)) ts,
     ct_indexes = map (\<lambda>t. (fst t, table_indexes t)) ts\<rparr>"

abbreviation object_key :: "str \<times> str \<times> str \<Rightarrow> str \<times> str" where
  "object_key \<equiv> (\<lambda>(ty, n, _). (ty, n))"

definition proper :: "table_text list \<Rightarrow> (str \<times> str \<times> str) list \<Rightarrow> bool" where
  "proper ts os = (distinct (map fst ts) \<and> distinct (map object_key os) \<and> list_all (\<lambda>(ty, _, _). ty \<noteq> ''table'') os)"

lemma described_empty: "empty_catalogue = described [] []"
  by (simp add: empty_catalogue_def described_def)

lemma described_count:
  "count_objects (described ts os) ty n
     = (if ty = ''table'' then length (filter (\<lambda>t. fst t = n) ts) else 0)
       + length (filter (\<lambda>p. object_key p = (ty, n)) os)"
proof -
  have "length (filter (\<lambda>(t, m, _). t = ty \<and> m = n) (map (\<lambda>t. (''table'', fst t, Some (table_sql t))) ts))
      = (if ty = ''table'' then length (filter (\<lambda>t. fst t = n) ts) else 0)"
    by (induction ts) auto
  moreover have "length (filter (\<lambda>(t, m, _). t = ty \<and> m = n) (map (\<lambda>(ty, n, sql). (ty, n, Some sql)) os))
      = length (filter (\<lambda>p. object_key p = (ty, n)) os)"
    by (induction os) auto
  ultimately show ?thesis by (simp add: count_objects_def described_def)
qed

lemma no_tables: "proper ts os \<Longrightarrow> filter (\<lambda>p. object_key p = (''table'', n)) os = []"
  by (auto simp: proper_def list_all_iff filter_empty_conv)

lemma described_table: "proper ts os \<Longrightarrow> table_exists (described ts os) n \<longleftrightarrow> n \<in> fst ` set ts"
  by (auto simp: table_exists_def described_count no_tables filter_empty_conv)

lemma described_object:
  "ty \<noteq> ''table'' \<Longrightarrow> 0 < count_objects (described ts os) ty n \<longleftrightarrow> (ty, n) \<in> object_key ` set os"
  by (simp add: described_count filter_empty_conv image_iff) (metis (mono_tags, lifting))

lemma described_trigger: "trigger_exists (described ts os) n \<longleftrightarrow> (''trigger'', n) \<in> object_key ` set os"
  using described_object [of "''trigger''" ts os n] by (simp add: trigger_exists_def)

lemma split_tables:
  assumes "proper ts os"
  shows "takeWhile is_table (ct_master (described ts os)) = map (\<lambda>t. (''table'', fst t, Some (table_sql t))) ts"
    "dropWhile is_table (ct_master (described ts os)) = map (\<lambda>(ty, n, sql). (ty, n, Some sql)) os"
proof -
  have "\<not> is_table (case p of (ty, n, sql) \<Rightarrow> (ty, n, Some sql))" if "p \<in> set os" for p
    using assms that by (auto simp: proper_def list_all_iff is_table_def)
  then have "os = [] \<or> \<not> is_table (hd (map (\<lambda>(ty, n, sql). (ty, n, Some sql)) os))"
    by (cases os) auto
  then show "takeWhile is_table (ct_master (described ts os)) = map (\<lambda>t. (''table'', fst t, Some (table_sql t))) ts"
    "dropWhile is_table (ct_master (described ts os)) = map (\<lambda>(ty, n, sql). (ty, n, Some sql)) os"
    by (cases os; simp add: described_def is_table_def takeWhile_append dropWhile_append)+
qed

lemma put_described:
  assumes "proper ts os"
  shows "put_table first t (described ts os) = described (put first t ts) os"
  using split_tables [OF assms] by (simp add: put_table_def put_def) (simp add: described_def)

lemma ensure_tables_described:
  "proper (ts @ us) os \<Longrightarrow> fold (ensure_table False) us (described ts os) = described (ts @ us) os"
proof (induction us arbitrary: ts)
  case (Cons u us)
  have p: "proper ts os" and u: "fst u \<notin> fst ` set ts" using Cons.prems by (auto simp: proper_def)
  have "ensure_table False u (described ts os) = described (ts @ [u]) os"
    using u by (simp add: ensure_table_def described_table [OF p] put_described [OF p] put_def)
  then show ?case using Cons.IH [of "ts @ [u]"] Cons.prems by simp
qed simp

lemma ensure_objects_described:
  "proper ts (os @ ps) \<Longrightarrow> fold ensure_object ps (described ts os) = described ts (os @ ps)"
proof (induction ps arbitrary: os)
  case (Cons p ps)
  obtain ty n sql where p: "p = (ty, n, sql)" by (cases p)
  have "ty \<noteq> ''table''" "(ty, n) \<notin> object_key ` set os"
    using Cons.prems by (auto simp: p proper_def)
  then have "count_objects (described ts os) ty n = 0" using described_object [of ty ts os n] by simp
  then have "ensure_object p (described ts os) = described ts (os @ [p])"
    by (simp add: p ensure_object_def described_def)
  then show ?case using Cons.IH [of "os @ [p]"] Cons.prems by simp
qed simp

lemma ensure_all_described:
  assumes "proper (ts @ us) (os @ ps)"
  shows "ensure_all us ps (described ts os) = described (ts @ us) (os @ ps)"
proof -
  have "proper (ts @ us) os" using assms by (auto simp: proper_def)
  then show ?thesis using assms by (simp add: ensure_all_def ensure_tables_described ensure_objects_described)
qed

lemma filter_map_keys: "filter (\<lambda>(m, _). m \<noteq> n) (map (\<lambda>t. (f t, g t)) ts) = map (\<lambda>t. (f t, g t)) (filter (\<lambda>t. f t \<noteq> n) ts)"
  by (simp add: filter_map comp_def)

lemma drop_described:
  assumes "proper ts os" "n \<in> fst ` set ts"
  shows "drop_table n (described ts os) = Inr (described (filter (\<lambda>t. fst t \<noteq> n) ts) os)"
proof -
  have "filter (\<lambda>(ty, m, _). \<not> (ty = ''table'' \<and> m = n)) (map (\<lambda>t. (''table'', fst t, Some (table_sql t))) ts)
      = map (\<lambda>t. (''table'', fst t, Some (table_sql t))) (filter (\<lambda>t. fst t \<noteq> n) ts)"
    by (induction ts) auto
  moreover have "filter (\<lambda>(ty, m, _). \<not> (ty = ''table'' \<and> m = n)) (map (\<lambda>(ty, n, sql). (ty, n, Some sql)) os)
      = map (\<lambda>(ty, n, sql). (ty, n, Some sql)) os"
    using assms(1) by (auto simp: proper_def list_all_iff filter_id_conv)
  ultimately show ?thesis
    using assms by (simp add: drop_table_def described_table) (simp add: described_def filter_map_keys)
qed

definition rename_text :: "str \<Rightarrow> str \<Rightarrow> table_text \<Rightarrow> table_text" where
  "rename_text a b = (\<lambda>(n, r). (if n = a then b else n, r))"

lemma rename_text_simps [simp]:
  "fst (rename_text a b t) = (if fst t = a then b else fst t)" "table_sql (rename_text a b t) = table_sql t"
  "table_columns (rename_text a b t) = table_columns t" "table_foreign (rename_text a b t) = table_foreign t"
  "table_indexes (rename_text a b t) = table_indexes t"
  by (cases t; simp add: rename_text_def)+

lemma rename_described:
  assumes "proper ts os" "a \<in> fst ` set ts" "b \<notin> fst ` set ts"
  shows "rename_table a b (described ts os) = Inr (described (map (rename_text a b) ts) os)"
proof -
  have "map (\<lambda>(ty, m, sql). (ty, if ty = ''table'' \<and> m = a then b else m, sql)) (map (\<lambda>(ty, n, sql). (ty, n, Some sql)) os)
      = map (\<lambda>(ty, n, sql). (ty, n, Some sql)) os"
    using assms(1) by (auto simp: proper_def list_all_iff)
  then show ?thesis
    using assms by (simp add: rename_table_def described_table) (simp add: described_def rename_key_def)
qed

definition add_text :: "str \<Rightarrow> str \<Rightarrow> str \<Rightarrow> table_text \<Rightarrow> table_text" where
  "add_text table n definition' = (\<lambda>(m, sql, cs, r). if m = table
     then (m, splice ('', '' @ n @ '' '' @ definition') sql, cs @ [new_column n definition'], r) else (m, sql, cs, r))"

lemma add_text_simps [simp]:
  "fst (add_text table n x t) = fst t"
  "table_sql (add_text table n x t) = (if fst t = table then splice ('', '' @ n @ '' '' @ x) (table_sql t) else table_sql t)"
  "table_columns (add_text table n x t)
     = (if fst t = table then table_columns t @ [column_of (new_column n x)] else table_columns t)"
  "table_foreign (add_text table n x t) = table_foreign t" "table_indexes (add_text table n x t) = table_indexes t"
  by (cases t; simp add: add_text_def)+

lemma answers_described:
  "distinct (map fst ts) \<Longrightarrow> t \<in> set ts \<Longrightarrow> answers (map (\<lambda>t. (fst t, f t)) ts) (fst t) = f t"
  by (induction ts) (auto simp: answers_def image_iff)

lemma table_described:
  assumes "proper ts os" "t \<in> set ts"
  shows "table_info (described ts os) (fst t) = table_columns t"
    "answers (ct_foreign (described ts os)) (fst t) = table_foreign t"
    "answers (ct_indexes (described ts os)) (fst t) = table_indexes t"
  using assms by (simp_all add: described_def answers_described proper_def)

lemma add_described:
  assumes "proper ts os" "t \<in> set ts" "n \<notin> ci_name ` set (table_columns t)"
  shows "add_column (fst t) n x (described ts os) = Inr (described (map (add_text (fst t) n x) ts) os)"
proof -
  have none: "column_count (described ts os) (fst t) n = 0"
    using assms(3) by (auto simp: column_count_def columns_def table_described [OF assms(1,2)] filter_empty_conv)
  have "map (\<lambda>(ty, m, sql). (ty, m, if ty = ''table'' \<and> m = fst t
          then map_option (splice ('', '' @ n @ '' '' @ x)) sql else sql)) (map (\<lambda>(ty, n, sql). (ty, n, Some sql)) os)
      = map (\<lambda>(ty, n, sql). (ty, n, Some sql)) os"
    using assms(1) by (auto simp: proper_def list_all_iff)
  moreover have "fst t \<in> fst ` set ts" using assms(2) by blast
  ultimately show ?thesis
    using none assms(1) by (simp add: add_column_def described_table [OF assms(1)]) (auto simp: described_def comp_def)
qed

lemma find_keyed:
  "distinct (map (\<lambda>(ty, n, _). (ty, n)) ps) \<Longrightarrow> (ty, n, x) \<in> set ps \<Longrightarrow>
     find (\<lambda>(t, m, _). t = ty \<and> m = n) ps = Some (ty, n, x)"
  by (induction ps) (force split: if_splits)+

lemma sql_described:
  assumes "proper ts os"
  shows "(ty, n, sql) \<in> set os \<Longrightarrow> optional_sql (described ts os) ty n = Inr (Some sql)"
    "t \<in> set ts \<Longrightarrow> required_sql (described ts os) ''table'' (fst t) = Inr (table_sql t)"
proof -
  let ?m = "ct_master (described ts os)"
  have u: "distinct (map (\<lambda>(ty, n, _). (ty, n)) ?m)"
    using assms by (auto simp: described_def proper_def comp_def case_prod_unfold distinct_map inj_on_def list_all_iff)
  have f: "find (\<lambda>(t, m, _). t = ty \<and> m = n) ?m = Some (ty, n, x)" if "(ty, n, x) \<in> set ?m" for ty n x
    using u that by (rule find_keyed)
  show "(ty, n, sql) \<in> set os \<Longrightarrow> optional_sql (described ts os) ty n = Inr (Some sql)"
    using f [of ty n "Some sql"] by (force simp: optional_sql_def described_def)
  show "t \<in> set ts \<Longrightarrow> required_sql (described ts os) ''table'' (fst t) = Inr (table_sql t)"
    using f [of "''table''" "fst t" "Some (table_sql t)"] by (force simp: required_sql_def optional_sql_def described_def)
qed

section \<open>The canonical catalogues\<close>

lemma add_missing_described:
  assumes "proper ts os" "t \<in> set ts" "distinct (map fst cols)"
    "\<forall>n\<in>fst ` set cols. n \<notin> ci_name ` set (table_columns t)"
  shows "for_each (add_missing_column sqlite (fst t)) cols (described ts os)
    = Inr (described (map (fold (\<lambda>(n, x). add_text (fst t) n x) cols) ts) os)"
  using assms
proof (induction cols arbitrary: ts t)
  case (Cons p cols)
  obtain n x where p: "p = (n, x)" by (cases p)
  let ?a = "add_text (fst t) n x"
  have "n \<notin> ci_name ` set (table_columns t)" using Cons.prems(4) by (simp add: p)
  then have "add_missing_column sqlite (fst t) p (described ts os) = Inr (described (map ?a ts) os)"
    using add_described [OF Cons.prems(1,2), of n x] table_described [OF Cons.prems(1,2)]
    by (auto simp: add_missing_column_def p column_count_def columns_def filter_empty_conv sqlite_def)
  moreover have "for_each (add_missing_column sqlite (fst (?a t))) cols (described (map ?a ts) os)
      = Inr (described (map (fold (\<lambda>(n, x). add_text (fst (?a t)) n x) cols) (map ?a ts)) os)"
  proof (rule Cons.IH)
    show "proper (map ?a ts) os" using Cons.prems(1) by (simp add: proper_def comp_def)
    show "?a t \<in> set (map ?a ts)" using Cons.prems(2) by simp
    show "distinct (map fst cols)" using Cons.prems(3) by simp
    have "n \<notin> fst ` set cols" using Cons.prems(3) by (simp add: p)
    moreover have "ci_name (column_of (new_column n x)) = n" by (simp add: column_of_def new_column_def)
    ultimately show "\<forall>m\<in>fst ` set cols. m \<notin> ci_name ` set (table_columns (?a t))"
      using Cons.prems(4) by auto
  qed
  ultimately show ?case by (simp add: p comp_def)
qed simp

definition with_defaults :: "table_text \<Rightarrow> table_text" where
  "with_defaults t = fold (\<lambda>(n, x, _). add_text (fst t) n x) record_defaults t"

definition with_observations :: "table_text \<Rightarrow> table_text" where
  "with_observations t = (if fst t = ''versions'' then fold (\<lambda>(n, x). add_text ''versions'' n x) observation_columns t else t)"

definition projection_objects :: "(str \<times> str \<times> str) list" where
  "projection_objects = projection_triggers_sql
     @ concat (map immutable_sql [''projection_rebuilds'', ''playback_results'', ''captured_outcome_simulations''])"

definition tables_v2 :: "table_text list" where
  "tables_v2 = tbl_compatibility_decisions_v2 # schema_tables @ record_tables_sql @ map with_defaults projection_tables_sql"

definition objects_v2 :: "(str \<times> str \<times> str) list" where
  "objects_v2 = schema_objects @ projection_objects @ concat (map immutable_sql (tl record_tables)) @ immutable_sql ''events''"

definition tables_v3 :: "table_text list" where
  "tables_v3 = tbl_compatibility_decisions_v3 # map with_observations schema_tables @ record_tables_sql
     @ map with_defaults projection_tables_sql @ slice4_tables_sql"

definition objects_v3 :: "(str \<times> str \<times> str) list" where
  "objects_v3 = objects_v2 @ slice4_objects_sql @ slice4_triggers_sql"

definition catalogue_v2 :: catalogue where "catalogue_v2 = described tables_v2 objects_v2"
definition catalogue_v3 :: catalogue where "catalogue_v3 = described tables_v3 objects_v3"

lemma with_names [simp]: "fst (with_defaults t) = fst t" "fst (with_observations t) = fst t"
proof -
  have "fst (fold (\<lambda>(n, x). add_text table n x) cols u) = fst u" for table cols u
    by (induction cols arbitrary: u) auto
  then show "fst (with_observations t) = fst t" by (simp add: with_observations_def)
  show "fst (with_defaults t) = fst t" by (simp add: with_defaults_def record_defaults_def)
qed

lemma table_lists:
  "map fst tables_v3 = ''compatibility_decisions'' # [''schema_metadata'', ''artifacts'', ''versions'', ''operations'',
     ''lineage'', ''discrepancies''] @ record_tables @ slice3_tables
     @ slice4_table_names"
  if "slice4_table_names = map fst slice4_tables_sql" for slice4_table_names
  by (simp add: tables_v3_def that comp_def schema_tables_def record_tables_sql_def projection_tables_sql_def
      record_tables_def slice3_tables_def table_names)

text \<open>The objects by name.\<close>

lemma projection_trigger_keys: "map object_key projection_triggers_sql = map (Pair ''trigger'') projection_trigger_names"
  by (simp add: projection_triggers_sql_def projection_trigger_names_def)

definition slice4_names :: "(str \<times> str) list" where
  "slice4_names = map (Pair ''index'') (''reconciliation_projection_evidence_run'' # slice4_indexes)
  @ map (Pair ''trigger'') [''versions_observation_guard'', ''reconciliation_discrepancies_guards'',
         ''recovery_actions_guards'', ''recovery_outcomes_guards'']"

lemma slice4_object_keys: "map object_key slice4_objects_sql = slice4_names"
  by (simp add: slice4_objects_sql_def slice4_indexes_def slice4_names_def)

lemma immutable_keys: "map object_key (immutable_sql t) = immutable_names t"
  by (simp add: immutable_sql_def immutable_names_def immutable_pair_def trigger_sql_def)

lemma slice4_trigger_keys: "map object_key slice4_triggers_sql
    = map (\<lambda>(t, e). (''trigger'', t @ ''_immutable_'' @ e)) (List.product slice4_tables [''update'', ''delete''])"
  by (simp add: slice4_triggers_sql_def slice4_tables_def trigger_sql_def)

definition object_names :: "(str \<times> str) list" where
  "object_names = ((''index'', ''versions_artifact'') # concat (map immutable_names [''versions'', ''operations'', ''lineage'', ''discrepancies'']))
     @ (map (Pair ''trigger'') projection_trigger_names
       @ concat (map immutable_names [''projection_rebuilds'', ''playback_results'', ''captured_outcome_simulations'']))
     @ concat (map immutable_names (tl record_tables)) @ immutable_names ''events''
     @ slice4_names @ map (\<lambda>(t, e). (''trigger'', t @ ''_immutable_'' @ e)) (List.product slice4_tables [''update'', ''delete''])"

lemma object_names: "map object_key objects_v3 = object_names"
  by (simp add: objects_v3_def objects_v2_def schema_objects_def projection_objects_def object_names_def projection_trigger_keys slice4_object_keys
      immutable_keys slice4_trigger_keys map_concat comp_def)

lemma proper_v3: "proper tables_v3 objects_v3"
proof -
  have "distinct (map fst tables_v3)"
    by (simp add: tables_v3_def comp_def schema_tables_def record_tables_sql_def projection_tables_sql_def
        slice4_tables_sql_def table_names)
  moreover have "distinct (map object_key objects_v3)"
    unfolding object_names by code_simp
  moreover have "list_all (\<lambda>p. fst p \<noteq> ''table'') (map object_key objects_v3)"
    unfolding object_names by code_simp
  then have "list_all (\<lambda>(ty, _, _). ty \<noteq> ''table'') objects_v3"
    by (simp add: list_all_iff case_prod_unfold)
  ultimately show ?thesis by (simp add: proper_def)
qed


lemma proper_parts:
  assumes "proper (ts @ us) (os @ ps)" shows "proper ts os"
  using assms by (simp add: proper_def)

lemma proper_v2: "proper tables_v2 objects_v2"
proof -
  have "map fst tables_v3 = map fst tables_v2 @ map fst slice4_tables_sql"
    by (simp add: tables_v3_def tables_v2_def comp_def table_names)
  then show ?thesis using proper_v3 by (simp add: proper_def objects_v3_def)
qed

lemma create_schema_run: "sqlite_run CreateSchema empty_catalogue
    = Inr (described (tbl_compatibility_decisions_v2 # schema_tables) schema_objects)"
proof -
  have p: "proper (tbl_compatibility_decisions_v2 # schema_tables) schema_objects"
    using proper_v2 by (simp add: proper_def tables_v2_def objects_v2_def)
  have e: "ensure_all schema_tables schema_objects (described [] []) = described schema_tables schema_objects"
    using ensure_all_described [of "[]" schema_tables "[]" schema_objects] p by (simp add: proper_def)
  have q: "proper schema_tables schema_objects" using p by (simp add: proper_def)
  have "tbl_compatibility_decisions_v2 \<in> set decisions_v2_table" by (simp add: decisions_v2_table_def)
  moreover have "\<not> table_exists (described [] []) n" for n by (simp add: described_table proper_def)
  moreover have "fst tbl_compatibility_decisions_v2 \<notin> fst ` set schema_tables" using p by (simp add: proper_def)
  ultimately show ?thesis
    by (simp add: described_empty e decisions_v2_table_def ensure_table_def described_table [OF q] put_described [OF q] put_def
        list_ex_iff)
qed

text \<open>The batches of \<open>prepare_canonical_v2\<close> after those of \<open>create_schema\<close>.\<close>

lemma drop_decisions:
  assumes "proper (t # ts) os" "fst t = ''compatibility_decisions''"
  shows "sqlite_run DropDecisions (described (t # ts) os) = Inr (described ts os)"
proof -
  have "filter (\<lambda>u. fst u \<noteq> ''compatibility_decisions'') ts = ts"
    using assms by (force simp: proper_def filter_id_conv)
  then show ?thesis using drop_described [OF assms(1), of "''compatibility_decisions''"] assms(2) by simp
qed

lemma projection_names: "map fst projection_tables_sql = slice3_tables" "map fst record_tables_sql = record_tables"
  by (simp_all add: projection_tables_sql_def slice3_tables_def record_tables_sql_def record_tables_def table_names)

lemma defaults_fresh: "t \<in> set projection_tables_sql \<Longrightarrow> n \<in> {''schema_version'', ''source_lineage''} \<Longrightarrow>
    n \<notin> ci_name ` set (table_columns t)"
proof -
  have "list_all (\<lambda>t. \<not> list_ex (\<lambda>i. ci_name i \<in> {''schema_version'', ''source_lineage''}) (table_columns t)) projection_tables_sql"
    by code_simp
  then show "t \<in> set projection_tables_sql \<Longrightarrow> n \<in> {''schema_version'', ''source_lineage''} \<Longrightarrow>
    n \<notin> ci_name ` set (table_columns t)"
    by (auto simp: list_all_iff list_ex_iff)
qed

lemma for_each_map: "for_each (\<lambda>(a, b, _). f (a, b)) xs s = for_each f (map (\<lambda>(a, b, _). (a, b)) xs) s"
  by (induction xs arbitrary: s) (auto split: sum.split)

lemma fold_map: "fold (\<lambda>(a, b, _). f a b) xs s = fold (\<lambda>(a, b). f a b) (map (\<lambda>(a, b, _). (a, b)) xs) s"
  by (induction xs arbitrary: s) auto

lemma add_text_other: "fst t \<noteq> table \<Longrightarrow> add_text table n x t = t"
  by (cases t) (simp add: add_text_def)

lemma fold_add_other: "fst t \<noteq> table \<Longrightarrow> fold (\<lambda>(n, x). add_text table n x) cols t = t"
  by (induction cols) (auto simp: add_text_other)

lemma fold_add_columns:
  "fst t = table \<Longrightarrow> table_columns (fold (\<lambda>(n, x). add_text table n x) cols t)
    = table_columns t @ map (\<lambda>(n, x). column_of (new_column n x)) cols"
proof (induction cols arbitrary: t)
  case (Cons p cols)
  then show ?case using Cons.IH [of "case p of (n, x) \<Rightarrow> add_text table n x t"] by (cases p) simp
qed simp

lemma fold_add_rest:
  "table_foreign (fold (\<lambda>(n, x). add_text table n x) cols t) = table_foreign t"
  "table_indexes (fold (\<lambda>(n, x). add_text table n x) cols t) = table_indexes t"
  by (induction cols arbitrary: t) (simp_all add: case_prod_unfold)

lemma fold_add_sql:
  "fst t = table \<Longrightarrow> table_sql (fold (\<lambda>(n, x). add_text table n x) cols t)
     = fold (\<lambda>(n, x). splice ('', '' @ n @ '' '' @ x)) cols (table_sql t)"
proof (induction cols arbitrary: t)
  case (Cons p cols)
  then show ?case using Cons.IH [of "case p of (n, x) \<Rightarrow> add_text table n x t"] by (cases p) simp
qed simp

lemma find_skips: "\<forall>x\<in>set xs. \<not> P x \<Longrightarrow> find P (xs @ ys) = find P ys"
  by (induction xs) auto

definition default_infos :: "column_info list" where
  "default_infos = map (\<lambda>(n, x). column_of (new_column n x)) (map (\<lambda>(a, b, _). (a, b)) record_defaults)"

definition observation_infos :: "column_info list" where
  "observation_infos = map (\<lambda>(n, x). column_of (new_column n x)) observation_columns"

lemma with_defaults_fold: "with_defaults t = fold (\<lambda>(n, x). add_text (fst t) n x) (map (\<lambda>(a, b, _). (a, b)) record_defaults) t"
  unfolding with_defaults_def by (rule fold_map)

lemma with_texts:
  "table_columns (with_defaults t) = table_columns t @ default_infos"
  "table_foreign (with_defaults t) = table_foreign t" "table_indexes (with_defaults t) = table_indexes t"
  "table_columns (with_observations t) = table_columns t @ (if fst t = ''versions'' then observation_infos else [])"
  "table_foreign (with_observations t) = table_foreign t" "table_indexes (with_observations t) = table_indexes t"
  by (simp_all add: with_defaults_fold with_observations_def fold_add_columns fold_add_rest default_infos_def observation_infos_def)

lemma defaults_at:
  assumes "proper (ts @ t # us) os" "\<forall>n\<in>{''schema_version'', ''source_lineage''}. n \<notin> ci_name ` set (table_columns t)"
  shows "for_each (\<lambda>(n, x, _). add_missing_column sqlite (fst t) (n, x)) record_defaults (described (ts @ t # us) os)
    = Inr (described (ts @ with_defaults t # us) os)"
proof -
  let ?cols = "map (\<lambda>(a, b, _). (a, b)) record_defaults"
  have d: "distinct (map fst ?cols)" "fst ` set ?cols = {''schema_version'', ''source_lineage''}"
    by (auto simp: record_defaults_def)
  have "map (fold (\<lambda>(n, x). add_text (fst t) n x) ?cols) (ts @ t # us) = ts @ with_defaults t # us"
  proof -
    have "fold (\<lambda>(n, x). add_text (fst t) n x) ?cols u = u" if "u \<in> set ts \<union> set us" for u
    proof (rule fold_add_other)
      have "fst t \<notin> fst ` (set ts \<union> set us)" using assms(1) by (auto simp: proper_def)
      then show "fst u \<noteq> fst t" using that by (metis image_eqI)
    qed
    moreover have "with_defaults t = fold (\<lambda>(n, x). add_text (fst t) n x) ?cols t"
      unfolding with_defaults_def by (rule fold_map)
    ultimately show ?thesis by (simp add: map_idI)
  qed
  then show ?thesis
    using add_missing_described [OF assms(1) _ d(1), of t] assms(2) d(2) by (simp only: for_each_map) simp
qed

lemma defaults_all:
  assumes "proper (ts @ us) os" "\<forall>t\<in>set us. \<forall>n\<in>{''schema_version'', ''source_lineage''}. n \<notin> ci_name ` set (table_columns t)"
  shows "for_each (\<lambda>table. for_each (\<lambda>(n, x, _). add_missing_column sqlite table (n, x)) record_defaults)
      (map fst us) (described (ts @ us) os) = Inr (described (ts @ map with_defaults us) os)"
  using assms
proof (induction us arbitrary: ts)
  case (Cons u us)
  have "proper ((ts @ [with_defaults u]) @ us) os" using Cons.prems(1) by (simp add: proper_def)
  then show ?case
    using defaults_at [OF Cons.prems(1)] Cons.prems(2) Cons.IH [of "ts @ [with_defaults u]"] by simp
qed simp

lemma shape_v2: "tables_v2 = (tbl_compatibility_decisions_v2 # schema_tables @ record_tables_sql) @ map with_defaults projection_tables_sql"
  by (simp add: tables_v2_def)

lemma proper_prefix: "proper ts (os @ ps) \<Longrightarrow> proper ts os"
  by (simp add: proper_def)

lemma proper_names: "proper ts os \<Longrightarrow> map fst us = map fst ts \<Longrightarrow> proper us os"
  by (simp add: proper_def)

lemma proper_stage_objects:
  "proper ((tbl_compatibility_decisions_v2 # schema_tables @ record_tables_sql) @ projection_tables_sql) objects_v2"
  by (rule proper_names [OF proper_v2]) (simp add: tables_v2_def comp_def)

lemma proper_stage: "proper ((tbl_compatibility_decisions_v2 # schema_tables @ record_tables_sql) @ projection_tables_sql)
    (schema_objects @ projection_objects)"
  by (rule proper_prefix [where ps = "concat (map immutable_sql (tl record_tables)) @ immutable_sql ''events''"])
    (use proper_stage_objects in \<open>simp add: objects_v2_def\<close>)

lemma proper_stage_records:
  "proper (tbl_compatibility_decisions_v2 # schema_tables @ record_tables_sql) schema_objects"
  using proper_parts [OF proper_stage] .

text \<open>Later looks at the columns of the tables.\<close>

lemma column_valid:
  assumes "proper ts os" "t \<in> set ts" "fst t = n"
  shows "table_info (described ts os) n = table_columns t"
  using table_described(1) [OF assms(1,2)] assms(3) by simp

lemma default_columns:
  "t \<in> set (map with_defaults projection_tables_sql) \<Longrightarrow> (n, x, df) \<in> set record_defaults \<Longrightarrow>
     \<exists>i. find (\<lambda>i. ci_name i = n) (table_columns t) = Some i \<and> ci_notnull i = 1 \<and> ci_default i = Some df"
proof -
  have infos: "list_all (\<lambda>(n, x, df). case find (\<lambda>i. ci_name i = n) default_infos of
      None \<Rightarrow> False | Some i \<Rightarrow> ci_notnull i = 1 \<and> ci_default i = Some df) record_defaults"
    by code_simp
  assume t: "t \<in> set (map with_defaults projection_tables_sql)" and r: "(n, x, df) \<in> set record_defaults"
  then obtain u where u: "u \<in> set projection_tables_sql" "t = with_defaults u" by auto
  have "n \<in> {''schema_version'', ''source_lineage''}" using r by (auto simp: record_defaults_def)
  then have "\<forall>i\<in>set (table_columns u). ci_name i \<noteq> n" using defaults_fresh [OF u(1)] by blast
  then have "find (\<lambda>i. ci_name i = n) (table_columns u @ cs) = find (\<lambda>i. ci_name i = n) cs" for cs
    by (rule find_skips)
  then show ?thesis
    using infos r by (auto simp: u(2) with_texts list_all_iff split: option.splits)
qed

section \<open>Building the canonical catalogues\<close>

abbreviation base_tables :: "table_text list" where
  "base_tables \<equiv> tbl_compatibility_decisions_v2 # schema_tables"

lemma sqlite_run_ddl [simp]: "run_ddl sqlite = sqlite_run"
  by (simp add: sqlite_def)

lemma records_run: "sqlite_run EnsureRecordTables (described base_tables schema_objects)
    = Inr (described (base_tables @ record_tables_sql) schema_objects)"
  using ensure_all_described [of base_tables record_tables_sql schema_objects "[]"] proper_stage_records by simp

lemma projections_run: "sqlite_run EnsureProjectionTables (described (base_tables @ record_tables_sql) schema_objects)
    = Inr (described ((base_tables @ record_tables_sql) @ projection_tables_sql) (schema_objects @ projection_objects))"
  using ensure_all_described [of "base_tables @ record_tables_sql" projection_tables_sql schema_objects projection_objects]
    proper_stage by (simp add: projection_objects_def)

lemma defaults_run: "for_each (\<lambda>table. for_each (\<lambda>(n, x, _). add_missing_column sqlite table (n, x)) record_defaults) slice3_tables
      (described ((base_tables @ record_tables_sql) @ projection_tables_sql) (schema_objects @ projection_objects))
    = Inr (described tables_v2 (schema_objects @ projection_objects))"
proof -
  have "for_each (\<lambda>table. for_each (\<lambda>(n, x, _). add_missing_column sqlite table (n, x)) record_defaults) (map fst projection_tables_sql)
      (described ((tbl_compatibility_decisions_v2 # schema_tables @ record_tables_sql) @ projection_tables_sql) (schema_objects @ projection_objects))
    = Inr (described ((tbl_compatibility_decisions_v2 # schema_tables @ record_tables_sql) @ map with_defaults projection_tables_sql)
        (schema_objects @ projection_objects))"
    by (rule defaults_all [OF proper_stage]) (intro ballI, erule (1) defaults_fresh)
  then show ?thesis by (simp only: projection_names shape_v2 append_Cons)
qed

lemma proper_v2_part: "proper tables_v2 (schema_objects @ projection_objects)"
  by (rule proper_names [OF proper_stage]) (simp add: tables_v2_def comp_def)

lemma defaults_ok_in:
  assumes p: "proper ts os" and sub: "set (map with_defaults projection_tables_sql) \<subseteq> set ts"
  shows "all_ok (map (\<lambda>(table, column, _, default'). default_valid (described ts os) table column default')
      (List.product slice3_tables record_defaults)) = Inr ()"
proof -
  have "default_valid (described ts os) table column default' = Inr ()"
    if a: "table \<in> set slice3_tables" and col: "(column, x, default') \<in> set record_defaults" for table column x default'
  proof -
    have m: "slice3_tables = map fst (map with_defaults projection_tables_sql)" by (simp add: comp_def projection_names)
    obtain t where t: "t \<in> set (map with_defaults projection_tables_sql)" "fst t = table"
      using a unfolding m set_map [of fst] by blast
    have "t \<in> set ts" using t(1) sub by blast
    then show ?thesis
      using default_columns [OF t(1) col] column_valid [OF p _ t(2)] by (auto simp: default_valid_def)
  qed
  then show ?thesis by auto
qed

lemma defaults_ok: "proper tables_v2 os \<Longrightarrow>
    all_ok (map (\<lambda>(table, column, _, default'). default_valid (described tables_v2 os) table column default')
      (List.product slice3_tables record_defaults)) = Inr ()"
  by (erule defaults_ok_in) (auto simp: shape_v2)

lemma later_columns_present: "proper ts os \<Longrightarrow> tbl_events \<in> set ts \<Longrightarrow>
    for_each (add_missing_column sqlite ''events'') later_event_columns (described ts os) = Inr (described ts os)"
proof -
  assume e: "proper ts os" "tbl_events \<in> set ts"
  have "list_all (\<lambda>(n, x). length (filter (\<lambda>m. m = n) (map ci_name (table_columns tbl_events))) \<noteq> 0) later_event_columns"
    by code_simp
  then have "add_missing_column sqlite ''events'' p (described ts os) = Inr (described ts os)"
    if "p \<in> set later_event_columns" for p
    using that table_described(1) [OF e] by (auto simp: list_all_iff add_missing_column_def column_count_def columns_def table_names)
  then show ?thesis by (rule for_each_keeps)
qed

lemma immutable_run: "proper ts (os @ immutable_sql table) \<Longrightarrow>
    sqlite_run (EnsureImmutable table) (described ts os) = Inr (described ts (os @ immutable_sql table))"
  using ensure_all_described [of ts "[]" os "immutable_sql table"] by simp

lemma record_tables_run:
  assumes "proper ts (os @ concat (map immutable_sql names))"
    "set names \<inter> {''projections'', ''projection_rebuild_status'', ''events''} = {}"
  shows "for_each (record_table sqlite d) names (described ts os) = Inr (described ts (os @ concat (map immutable_sql names)))"
  using assms
proof (induction names arbitrary: os)
  case (Cons n names)
  have p: "proper ts (os @ immutable_sql n)"
    by (rule proper_prefix [where ps = "concat (map immutable_sql names)"]) (use Cons.prems(1) in simp)
  have "record_table sqlite d n (described ts os) = Inr (described ts (os @ immutable_sql n))"
    using Cons.prems(2) immutable_run [OF p] by (auto simp: record_table_def sqlite_def)
  then show ?case using Cons.IH [of "os @ immutable_sql n"] Cons.prems by simp
qed simp

lemma not_event_triggers: "n \<in> set event_triggers \<Longrightarrow>
    (''trigger'', n) \<notin> object_key ` set (schema_objects @ projection_objects @ concat (map immutable_sql (tl record_tables)))"
proof -
  let ?os = "schema_objects @ projection_objects @ concat (map immutable_sql (tl record_tables))"
  assume n: "n \<in> set event_triggers"
  have "object_key ` set (immutable_sql ''events'') = Pair ''trigger'' ` set event_triggers"
    by (simp add: immutable_sql_def trigger_sql_def event_triggers_def)
  then have "(''trigger'', n) \<in> object_key ` set (immutable_sql ''events'')" using n by (metis imageI)
  moreover have "distinct (map object_key (?os @ immutable_sql ''events''))"
    using proper_v2 by (simp only: proper_def objects_v2_def append_assoc)
  then have "object_key ` set ?os \<inter> object_key ` set (immutable_sql ''events'') = {}"
    unfolding map_append [of _ ?os] distinct_append set_map by blast
  ultimately show ?thesis by blast
qed

lemma events_run: "sqlite_run CreateEventTriggers
      (described tables_v2 (schema_objects @ projection_objects @ concat (map immutable_sql (tl record_tables))))
    = Inr catalogue_v2"
proof -
  let ?os = "schema_objects @ projection_objects @ concat (map immutable_sql (tl record_tables))"
  have "\<not> trigger_exists (described tables_v2 ?os) n" if "n \<in> set event_triggers" for n
    unfolding described_trigger by (rule not_event_triggers [OF that])
  then have "\<not> list_ex (trigger_exists (described tables_v2 ?os)) event_triggers"
    by (simp only: list_ex_iff) blast
  then show ?thesis
    using ensure_all_described [of tables_v2 "[]" ?os "immutable_sql ''events''"] proper_v2
    by (simp add: catalogue_v2_def objects_v2_def)
qed

lemma events_triggers_texts: "events_triggers_valid sqlite (described ts os) = Inr ()"
  if "proper ts os" "set (immutable_sql ''events'') \<subseteq> set os"
proof -
  have texts: "list_all (\<lambda>(ty, n, sql). list_all ascii sql \<and> events_trigger_text (squeezed sql)) (immutable_sql ''events'')"
    by code_simp
  have "valid_trigger (described ts os) (\<lambda>sql. events_trigger_text (normalized sqlite sql)) n = Inr ()"
    if "(ty, n, sql) \<in> set (immutable_sql ''events'')" "ty = ''trigger''" for ty n sql
  proof -
    have "optional_sql (described ts os) ''trigger'' n = Inr (Some sql)"
      using that \<open>set (immutable_sql ''events'') \<subseteq> set os\<close> sql_described(1) [OF \<open>proper ts os\<close>] by blast
    moreover have "list_all ascii sql" "events_trigger_text (squeezed sql)"
      using texts that(1) by (auto simp: list_all_iff)
    ultimately show ?thesis by (simp add: valid_trigger_def normalized_ascii)
  qed
  then show ?thesis
    by (simp add: events_triggers_valid_def event_triggers_def immutable_sql_def trigger_sql_def)
qed

lemma guards_exist: "guard_triggers (described ts os) = Inr ()" if sub: "set projection_triggers_sql \<subseteq> set os"
proof -
  have "list_all (\<lambda>n. list_ex (\<lambda>p. object_key p = (''trigger'', n)) projection_triggers_sql)
    [''immutable_projections_insert'', ''immutable_projections_update'',
      ''immutable_projection_rebuild_status_insert'', ''immutable_projection_rebuild_status_update'']" (is "list_all _ ?ns")
    by code_simp
  then have keys: "\<exists>p\<in>set projection_triggers_sql. object_key p = (''trigger'', n)" if "n \<in> set ?ns" for n
    using that unfolding list_all_iff list_ex_iff by (rule bspec)
  have "trigger_exists (described ts os) n" if n: "n \<in> set ?ns" for n
  proof -
    obtain p where p: "p \<in> set projection_triggers_sql" "object_key p = (''trigger'', n)" using keys [OF n] by blast
    have "p \<in> set os" using p(1) sub by blast
    then have "object_key p \<in> object_key ` set os" by (rule imageI)
    then show ?thesis by (simp only: described_trigger p(2))
  qed
  then show ?thesis by (simp add: guard_triggers_def)
qed

lemma ensure_runtime_v2:
  assumes "list_all (\<lambda>r. ev_schema r = 1 \<and> ev_lineage r \<noteq> []) (events d)" "validate_slice3_guards d = Inr ()"
  shows "ensure_runtime_record_schema sqlite d (described base_tables schema_objects) = Inr catalogue_v2"
proof -
  let ?c = "described base_tables schema_objects"
  let ?os = "schema_objects @ projection_objects @ concat (map immutable_sql (tl record_tables))"
  have p: "proper base_tables schema_objects" "proper (base_tables @ record_tables_sql) schema_objects"
      "proper tables_v2 ?os" "proper tables_v2 (schema_objects @ projection_objects)"
    using proper_stage_records proper_v2_part
      proper_parts [of base_tables record_tables_sql schema_objects "[]"]
      proper_prefix [of tables_v2 ?os "immutable_sql ''events''"] proper_v2 by (simp_all add: objects_v2_def)
  have new: "\<not> table_exists (described (base_tables @ record_tables_sql) schema_objects) ''projections''"
    "\<not> table_exists ?c ''events''"
    unfolding described_table [OF p(1)] described_table [OF p(2)]
    by (simp_all add: schema_tables_def record_tables_sql_def table_names)
  have ev: "tbl_events \<in> set tables_v2" by (simp add: tables_v2_def record_tables_sql_def)
  have rt: "record_tables = ''events'' # tl record_tables" by (simp add: record_tables_def)
  have loop: "for_each (record_table sqlite d) record_tables (described tables_v2 (schema_objects @ projection_objects))
      = Inr (described tables_v2 ?os)"
    using record_tables_run [of tables_v2 "schema_objects @ projection_objects" "tl record_tables" d] p(3) assms(1)
    by (subst rt) (simp add: record_table_def record_tables_def)
  have "guard_triggers (described tables_v2 ?os) = Inr ()"
    by (rule guards_exist) (auto simp: projection_objects_def)
  moreover have "events_triggers_valid sqlite catalogue_v2 = Inr ()"
    unfolding catalogue_v2_def by (rule events_triggers_texts [OF proper_v2]) (auto simp: objects_v2_def)
  moreover have "ambiguous_unless (\<not> (table_exists (described (base_tables @ record_tables_sql) schema_objects) ''projections'' \<and> b)) = Inr ()" for b
    using new(1) by simp
  ultimately show ?thesis
    by (simp only: ensure_runtime_record_schema_def slice3_guards_def sqlite_run_ddl new loop assms(2) records_run
        projections_run defaults_run defaults_ok [OF p(4)] later_columns_present [OF p(4) ev] events_run sum.case if_False)
qed

lemma described_cons: "proper (t # ts) os \<Longrightarrow> fst t = n \<Longrightarrow> \<not> table_exists (described ts os) n"
proof -
  assume p: "proper (t # ts) os" and n: "fst t = n"
  have "proper ts os" using p by (simp add: proper_def)
  then show ?thesis using p n by (auto simp: described_table proper_def)
qed

lemma put_front: "proper (t # ts) os \<Longrightarrow> put_table True t (described ts os) = described (t # ts) os"
proof -
  assume "proper (t # ts) os"
  then have "proper ts os" by (simp add: proper_def)
  then show ?thesis by (simp add: put_described put_def)
qed

lemma decisions_run:
  "proper (tbl_compatibility_decisions_v2 # ts) os \<Longrightarrow>
     sqlite_run EnsureDecisionsV2 (described ts os) = Inr (described (tbl_compatibility_decisions_v2 # ts) os)"
  "proper (tbl_compatibility_decisions_v3 # ts) os \<Longrightarrow>
     sqlite_run CreateDecisionsV3 (described ts os) = Inr (described (tbl_compatibility_decisions_v3 # ts) os)"
  by (simp_all add: decisions_v2_table_def decisions_v3_table_def ensure_table_def create_table_def described_cons put_front)

lemma proper_base: "proper base_tables schema_objects"
  using proper_parts [of base_tables record_tables_sql schema_objects "[]"] proper_stage_records by simp

theorem canonical_v2_catalogue: "canonical_v2 sqlite empty_catalogue = Inr catalogue_v2"
proof -
  have "table_exists (described base_tables schema_objects) ''compatibility_decisions''"
    by (simp add: described_table [OF proper_base] table_names)
  moreover note empty_guards
  moreover have "list_all (\<lambda>r. ev_schema r = 1 \<and> ev_lineage r \<noteq> []) (events empty_db)"
    by (simp add: empty_db_def)
  ultimately show ?thesis
    using create_schema_run drop_decisions [OF proper_base table_names(7)] decisions_run(1) [OF proper_base]
    by (simp only: canonical_v2_def prepare_canonical_v2_def ensure_record_schema_def sqlite_run_ddl sum.case if_True ensure_runtime_v2)
qed

lemma observations_fresh: "\<forall>n\<in>fst ` set observation_columns. n \<notin> ci_name ` set (table_columns tbl_versions)"
proof -
  have "list_all (\<lambda>(n, x). \<not> list_ex (\<lambda>i. ci_name i = n) (table_columns tbl_versions)) observation_columns"
    by code_simp
  then show ?thesis by (fastforce simp: list_all_iff list_ex_iff)
qed

lemma observations_run:
  assumes "proper ts os" "tbl_versions \<in> set ts"
  shows "install_version_observation_columns sqlite (described ts os) = Inr (described (map with_observations ts) os)"
proof -
  have "fold (\<lambda>(n, x). add_text ''versions'' n x) observation_columns = with_observations"
    by (rule ext) (simp add: with_observations_def fold_add_other)
  moreover have "distinct (map fst observation_columns)" by (simp add: observation_columns_def)
  ultimately show ?thesis
    using add_missing_described [OF assms _ observations_fresh] by (simp add: install_version_observation_columns_def table_names)
qed

lemma with_observations_other: "fst t \<noteq> ''versions'' \<Longrightarrow> with_observations t = t"
  by (simp add: with_observations_def)

definition upgraded_tables :: "table_text list" where
  "upgraded_tables = map with_observations schema_tables @ record_tables_sql @ map with_defaults projection_tables_sql"

lemma observed_tables: "map with_observations tables_v2 = tbl_compatibility_decisions_v2 # upgraded_tables"
  by (simp add: tables_v2_def upgraded_tables_def with_observations_other table_names record_tables_sql_def projection_tables_sql_def)

lemma tables_v3_split: "tables_v3 = tbl_compatibility_decisions_v3 # upgraded_tables @ slice4_tables_sql"
  by (simp add: tables_v3_def upgraded_tables_def)

lemma versions_in: "tbl_versions \<in> set tables_v2"
  by (simp add: tables_v2_def schema_tables_def)

lemma proper_upgraded:
  "proper (tbl_compatibility_decisions_v2 # upgraded_tables) objects_v2"
  "proper (tbl_compatibility_decisions_v3 # upgraded_tables) objects_v2"
  by (rule proper_names [OF proper_v2]; simp add: tables_v2_def upgraded_tables_def comp_def table_names)+

lemma slice4_run:
  assumes "proper (ts @ slice4_tables_sql) objects_v3"
  shows "sqlite_run EnsureSlice4 (described ts objects_v2) = Inr (described (ts @ slice4_tables_sql) objects_v3)"
  using ensure_all_described [of ts slice4_tables_sql objects_v2 "slice4_objects_sql @ slice4_triggers_sql"] assms
  by (simp add: objects_v3_def)

theorem canonical_v3_catalogue: "canonical_v3 sqlite empty_catalogue = Inr catalogue_v3"
proof -
  have "proper ((tbl_compatibility_decisions_v3 # upgraded_tables) @ slice4_tables_sql) objects_v3"
    using proper_v3 by (simp add: tables_v3_split)
  from slice4_run [OF this] show ?thesis
    using observations_run [OF proper_v2 versions_in] drop_decisions [OF proper_upgraded(1) table_names(7)]
      decisions_run(2) [OF proper_upgraded(2)]
    by (simp only: canonical_v3_def canonical_v2_catalogue sqlite_run_ddl sum.case catalogue_v2_def catalogue_v3_def observed_tables
        tables_v3_split append_Cons)
qed

end
