(* ===== verification/Conforms.thy ===== *)
theory Conforms
  imports Canonical
begin

text \<open>
  The canonical catalogues of \<open>Canonical\<close> pass the program's own checks: what the tables and
  texts look like is computed once for each table, and every check of \<open>Catalogue\<close> is then shown
  to succeed on the catalogues of version 2 and 3.
\<close>

section \<open>The canonical catalogues pass the checks\<close>

text \<open>The columns of the tables; those that the two versions share are computed once.\<close>

definition typed :: "column_info \<Rightarrow> str \<times> str \<times> int \<times> int" where
  "typed i = (ci_name i, ci_type i, ci_notnull i, ci_pk i)"

definition types_of :: "table_text \<Rightarrow> (str \<times> str \<times> int \<times> int) list" where
  "types_of t = map typed (table_columns t)"

definition shared_tables :: "table_text list" where
  "shared_tables = record_tables_sql @ map with_defaults projection_tables_sql"

definition core_texts :: "table_text list" where
  "core_texts = map with_observations schema_tables @ map with_defaults projection_tables_sql"

lemma types_with:
  "types_of (with_defaults t) = types_of t @ map typed default_infos"
  "types_of (with_observations t) = types_of t @ (if fst t = ''versions'' then map typed observation_infos else [])"
  by (simp_all add: types_of_def with_texts)

lemma defaulted_types: "map (\<lambda>t. (fst t, types_of t @ map typed default_infos)) projection_tables_sql
    = map (\<lambda>(n, s). (n, column_specs s)) (drop 10 runtime_tables)"
  by code_simp

lemma shared_types: "map (\<lambda>t. (fst t, types_of t)) shared_tables = map (\<lambda>(n, s). (n, column_specs s)) runtime_tables"
proof -
  have "map (\<lambda>t. (fst t, types_of t)) record_tables_sql = map (\<lambda>(n, s). (n, column_specs s)) (take 10 runtime_tables)"
    by code_simp
  then show ?thesis using defaulted_types
    by (simp add: shared_tables_def types_with comp_def) (metis append_take_drop_id map_append)
qed

lemma core_types: "map (\<lambda>t. (fst t, types_of t)) core_texts = core_tables"
proof -
  have "map (\<lambda>t. (fst t, types_of t @ (if fst t = ''versions'' then map typed observation_infos else []))) schema_tables
      = take 6 core_tables"
    by code_simp
  moreover have "map (\<lambda>(n, s). (n, column_specs s)) (drop 10 runtime_tables) = drop 6 core_tables"
    by code_simp
  ultimately show ?thesis using defaulted_types by (simp add: core_texts_def types_with comp_def)
qed

lemma events_types: "types_of tbl_events = events_columns"
  by code_simp

lemma foreign_keys: "map (\<lambda>t. (fst t, sort (table_foreign t))) [tbl_versions, tbl_operations, tbl_lineage]
    = map (\<lambda>(n, fks). (n, sort fks)) core_foreign_keys"
  by code_simp

definition unique_columns :: "table_text \<Rightarrow> error + str list list" where
  "unique_columns t = (case collect_columns (filter is_unique (table_indexes t)) of
     Inl e \<Rightarrow> Inl e | Inr actual \<Rightarrow> Inr (sort actual))"

lemma unique_indexes: "map (\<lambda>t. (fst t, unique_columns t)) (schema_tables @ [tbl_compatibility_decisions_v3])
    = map (\<lambda>(n, e). (n, Inr (sort e))) (compatibility_indexes True)"
  by code_simp

lemma versions_index:
  "map (\<lambda>ix. (ix_name ix, ix_unique ix, ix_columns ix)) (filter (\<lambda>ix. ix_origin ix = ''c'') (table_indexes tbl_versions))
    = [(''versions_artifact'', 0, [Some ''artifact_id''])]"
  by code_simp

text \<open>The texts of the immutability triggers.\<close>

definition immutable_tables :: "str list" where
  "immutable_tables = runtime_immutable @ [''versions'', ''operations'', ''lineage'', ''discrepancies'']"

lemma immutable_texts: "list_all (\<lambda>t. list_all (\<lambda>(e, ty, n, sql). list_all ascii sql
    \<and> trigger_text (''before'' @ e @ ''on'' @ t) (squeezed sql)) (zip [''update'', ''delete''] (immutable_sql t))) immutable_tables"
  by code_simp

lemma coherence_texts: "list_all (\<lambda>(ty, n, sql). list_all ascii sql \<and> coherence_trigger_text (squeezed sql))
    (take 2 projection_triggers_sql)"
  by code_simp

text \<open>
  The texts of the tables: an added column goes behind the text before the closing bracket, so
  what is in that text stays there.
\<close>

fun splice_safe :: "str \<Rightarrow> bool" where
  "splice_safe [] = True"
| "splice_safe (a # s) = ((if a = CHR '','' then \<not> prefix '',FOREIGN KEY('' (a # s) \<and> \<not> prefix (a # s) '',FOREIGN KEY('' else True)
     \<and> splice_safe s)"

lemma prefix_of_append: "prefix p (a @ b) \<Longrightarrow> prefix p a \<or> prefix a p"
  by (metis prefix_append prefix_def)

lemma splice_safe: "splice_safe a \<Longrightarrow> b \<noteq> [] \<Longrightarrow> splice new (a @ b) = a @ splice new b"
proof (induction a)
  case (Cons x a)
  have "\<not> prefix '',FOREIGN KEY('' (x # a @ b)"
    using Cons.prems(1) prefix_of_append [of "'',FOREIGN KEY(''" "x # a" b] by (auto split: if_splits)
  then show ?case using Cons by auto
qed simp

lemma splice_nonempty: "new \<noteq> [] \<Longrightarrow> splice new s \<noteq> []"
  by (cases s) simp_all

lemma splice_ascii: "list_all ascii new \<Longrightarrow> list_all ascii s \<Longrightarrow> list_all ascii (splice new s)"
  by (induction new s rule: splice.induct) auto

definition fragment_kept :: "str \<Rightarrow> str \<Rightarrow> bool" where
  "fragment_kept f s = (contains f (squeezed (butlast s)))"

lemma fragment_spliced:
  assumes "splice_safe (butlast s)" "s \<noteq> []" "fragment_kept f s"
  shows "contains f (squeezed (fold (\<lambda>(n, x). splice ('', '' @ n @ '' '' @ x)) cols s))"
proof -
  let ?a = "butlast s"
  have "\<exists>b. fold (\<lambda>(n, x). splice ('', '' @ n @ '' '' @ x)) cols (?a @ c) = ?a @ b" if "c \<noteq> []" for c
    using that
  proof (induction cols arbitrary: c)
    case (Cons p cols)
    obtain n x where p: "p = (n, x)" by (cases p)
    have "splice ('', '' @ n @ '' '' @ x) c \<noteq> []" by (rule splice_nonempty) simp
    then show ?case using Cons.IH splice_safe [OF assms(1) Cons.prems] by (simp add: p)
  qed auto
  moreover have "s = ?a @ [last s]" using assms(2) by simp
  ultimately obtain b where "fold (\<lambda>(n, x). splice ('', '' @ n @ '' '' @ x)) cols s = ?a @ b" by (metis not_Cons_self2)
  moreover have "contains f (squeezed ?a @ squeezed b)"
    using assms(3) by (simp add: fragment_kept_def contains_append)
  ultimately show ?thesis by simp
qed

definition table_texts_right :: "(str \<times> str) list \<Rightarrow> table_text \<Rightarrow> bool" where
  "table_texts_right fs t = (list_all ascii (table_sql t) \<and> table_sql t \<noteq> [] \<and>
     list_all (\<lambda>(n, f). if n = fst t then fragment_kept f (table_sql t) else True) fs)"

definition all_fragments :: "(str \<times> str) list" where
  "all_fragments = runtime_fragments @ concat (map (\<lambda>(n, fs). map (Pair n) fs) core_fragments)"

lemma record_texts: "list_all (table_texts_right all_fragments) record_tables_sql"
  by code_simp

lemma projection_texts: "list_all (table_texts_right all_fragments) projection_tables_sql"
  by code_simp

lemma projection_safe: "list_all (\<lambda>t. splice_safe (butlast (table_sql t))) projection_tables_sql"
  by code_simp

lemma defaults_ascii: "list_all (\<lambda>(n, x). list_all ascii n \<and> list_all ascii x) (map (\<lambda>(a, b, _). (a, b)) record_defaults)"
  by code_simp

lemma core_column_names: "core_columns = map (\<lambda>p. (fst p, map fst (snd p))) core_tables"
  by (simp add: core_columns_def core_tables_def)

lemma core_tables_distinct: "distinct (map fst core_tables)"
  by (simp add: core_tables_def)

section \<open>The checks on described catalogues\<close>

text \<open>The names of the tables and their types are two lists in the code; they agree.\<close>

lemma core_table_exact:
  assumes "q \<in> set core_columns"
  shows "\<exists>p\<in>set core_tables. core_table c q = exact_columns c (fst p) (snd p)"
proof -
  obtain p where p: "p \<in> set core_tables" "q = (fst p, map fst (snd p))" using assms by (auto simp: core_column_names)
  have "map_of core_tables (fst p) = Some (snd p)" using core_tables_distinct p(1) by (simp add: map_of_is_SomeI)
  then have "core_table c q = exact_columns c (fst p) (snd p)" by (simp add: p(2) core_table_def exact_columns_def split: sum.split)
  then show ?thesis using p(1) by blast
qed

lemma exact_described:
  assumes "proper ts os" "t \<in> set ts" "types_of t = e"
  shows "exact_columns (described ts os) (fst t) e = Inr ()"
proof -
  have "map fst e = map ci_name (table_columns t)" using assms(3) by (auto simp: types_of_def typed_def)
  then show ?thesis
    using assms(3) by (auto simp: exact_columns_def columns_def column_types_def table_described(1) [OF assms(1,2)] types_of_def typed_def)
qed

lemma exact_all:
  assumes "proper ts os" "map (\<lambda>t. (fst t, types_of t)) us = cs" "set us \<subseteq> set ts"
  shows "p \<in> set cs \<Longrightarrow> exact_columns (described ts os) (fst p) (snd p) = Inr ()"
proof -
  assume "p \<in> set cs"
  then obtain t where "t \<in> set us" "p = (fst t, types_of t)" unfolding assms(2) [symmetric] by auto
  then show ?thesis using exact_described [OF assms(1), of t] assms(3) by auto
qed

lemma shared_in: "set shared_tables \<subseteq> set tables_v2" "set shared_tables \<subseteq> set tables_v3" "set core_texts \<subseteq> set tables_v3"
  by (auto simp: shared_tables_def tables_v2_def tables_v3_def core_texts_def)

lemma kept_contains: "s \<noteq> [] \<Longrightarrow> fragment_kept f s \<Longrightarrow> contains f (squeezed s)"
  by (cases s rule: rev_cases) (simp_all add: fragment_kept_def contains_append del: squeezed.simps)

lemma spliced_ascii:
  "list_all (\<lambda>(n, x). list_all ascii n \<and> list_all ascii x) cols \<Longrightarrow> list_all ascii s \<Longrightarrow>
     list_all ascii (fold (\<lambda>(n, x). splice ('', '' @ n @ '' '' @ x)) cols s)"
proof (induction cols arbitrary: s)
  case (Cons p cols)
  obtain n x where p: "p = (n, x)" by (cases p)
  have "list_all ascii ('', '' @ n @ '' '' @ x)" using Cons.prems(1) by (simp add: p)
  then have "list_all ascii (splice ('', '' @ n @ '' '' @ x) s)" using Cons.prems(2) by (rule splice_ascii)
  then show ?case using Cons.IH Cons.prems(1) by (simp add: p)
qed simp

lemma defaulted_ascii: "list_all ascii s \<Longrightarrow>
    list_all ascii (fold (\<lambda>(n, x). splice ('', '' @ n @ '' '' @ x)) (map (\<lambda>(a, b, _). (a, b)) record_defaults) s)"
  by (rule spliced_ascii [OF defaults_ascii])

lemma shared_texts:
  assumes "t \<in> set shared_tables"
  shows "list_all ascii (table_sql t)" "(fst t, f) \<in> set all_fragments \<Longrightarrow> contains f (squeezed (table_sql t))"
proof -
  have right: "list_all ascii (table_sql u)" "table_sql u \<noteq> []"
    "(fst u, f) \<in> set all_fragments \<Longrightarrow> fragment_kept f (table_sql u)"
    if "u \<in> set record_tables_sql \<union> set projection_tables_sql" for u
  proof -
    have "table_texts_right all_fragments u"
      using that record_texts projection_texts unfolding list_all_iff by blast
    then show "list_all ascii (table_sql u)" "table_sql u \<noteq> []"
      "(fst u, f) \<in> set all_fragments \<Longrightarrow> fragment_kept f (table_sql u)"
      unfolding table_texts_right_def by (simp_all add: list_all_iff) fastforce
  qed
  have "list_all ascii (table_sql t) \<and> ((fst t, f) \<in> set all_fragments \<longrightarrow> contains f (squeezed (table_sql t)))"
  proof (cases "t \<in> set record_tables_sql")
    case True
    then show ?thesis using right [of t] kept_contains by blast
  next
    case False
    then obtain u where u: "u \<in> set projection_tables_sql" "t = with_defaults u"
      using assms by (auto simp: shared_tables_def)
    have safe: "splice_safe (butlast (table_sql u))" using projection_safe u(1) by (simp add: list_all_iff)
    have "table_sql t = fold (\<lambda>(n, x). splice ('', '' @ n @ '' '' @ x)) (map (\<lambda>(a, b, _). (a, b)) record_defaults) (table_sql u)"
      unfolding u(2) with_defaults_fold by (rule fold_add_sql) simp
    then show ?thesis
      using defaulted_ascii [OF right(1) [of u]] fragment_spliced [OF safe right(2) [of u] right(3) [of u]] u by auto
  qed
  then show "list_all ascii (table_sql t)" "(fst t, f) \<in> set all_fragments \<Longrightarrow> contains f (squeezed (table_sql t))"
    by blast+
qed

lemma shared_names: "map fst shared_tables = record_tables @ slice3_tables"
  by (simp add: shared_tables_def comp_def projection_names)

lemma text_described:
  assumes "proper ts os" "set shared_tables \<subseteq> set ts" "(n, f) \<in> set all_fragments" "n \<in> set (record_tables @ slice3_tables)"
  obtains sql where "required_sql (described ts os) ''table'' n = Inr sql"
    "contains f (normalized sqlite sql)" "contains f (lowered sqlite sql)"
proof -
  obtain t where t: "t \<in> set shared_tables" "n = fst t" using assms(4) by (force simp flip: shared_names)
  have "required_sql (described ts os) ''table'' n = Inr (table_sql t)"
    unfolding t(2) using t(1) assms(2) by (intro sql_described(2) [OF assms(1)]) blast
  moreover have "contains f (squeezed (table_sql t))" using shared_texts(2) [OF t(1)] assms(3) t(2) by blast
  ultimately show thesis
    using that shared_texts(1) [OF t(1)] by (simp add: normalized_ascii lowered_ascii)
qed

lemma triggers_in:
  "t \<in> set immutable_tables \<Longrightarrow> set (immutable_sql t) \<subseteq> set objects_v2" "set projection_triggers_sql \<subseteq> set objects_v2"
  "set objects_v2 \<subseteq> set objects_v3"
proof -
  let ?in = "\<lambda>t. set (immutable_sql t) \<subseteq> set objects_v2"
  have "?in ''versions''" "?in ''operations''" "?in ''lineage''" "?in ''discrepancies''" "?in ''projection_rebuilds''"
    "?in ''playback_results''" "?in ''captured_outcome_simulations''" "?in ''events''"
    by (auto simp: objects_v2_def schema_objects_def projection_objects_def)
  moreover have "t \<in> set (tl record_tables) \<Longrightarrow> ?in t" for t by (auto simp: objects_v2_def)
  moreover have "set immutable_tables \<subseteq> {''versions'', ''operations'', ''lineage'', ''discrepancies'', ''projection_rebuilds'',
      ''playback_results'', ''captured_outcome_simulations'', ''events''} \<union> set (tl record_tables)"
    by (simp add: immutable_tables_def runtime_immutable_def record_tables_def)
  ultimately show "t \<in> set immutable_tables \<Longrightarrow> ?in t" by blast
  show "set projection_triggers_sql \<subseteq> set objects_v2" by (auto simp: objects_v2_def projection_objects_def)
  show "set objects_v2 \<subseteq> set objects_v3" by (auto simp: objects_v3_def)
qed

lemma immutable_valid:
  assumes "proper ts os" "set objects_v2 \<subseteq> set os" "t \<in> set immutable_tables" "e \<in> {''update'', ''delete''}"
    and norm: "\<And>s. list_all ascii s \<Longrightarrow> norm s = squeezed s"
  shows "valid_trigger (described ts os) (\<lambda>sql. trigger_text (''before'' @ e @ ''on'' @ t) (norm sql))
    (''immutable_'' @ t @ ''_'' @ e) = Inr ()"
proof -
  obtain sql where sql: "(e, ''trigger'', ''immutable_'' @ t @ ''_'' @ e, sql) \<in> set (zip [''update'', ''delete''] (immutable_sql t))"
    using assms(4) by (auto simp: immutable_sql_def trigger_sql_def)
  then have "(''trigger'', ''immutable_'' @ t @ ''_'' @ e, sql) \<in> set os"
    using triggers_in(1) [OF assms(3)] assms(2) by (meson in_set_zipE subset_iff)
  then have "optional_sql (described ts os) ''trigger'' (''immutable_'' @ t @ ''_'' @ e) = Inr (Some sql)"
    by (rule sql_described(1) [OF assms(1)])
  moreover have "list_all ascii sql" "trigger_text (''before'' @ e @ ''on'' @ t) (squeezed sql)"
    using immutable_texts assms(3) sql unfolding list_all_iff by blast+
  ultimately show ?thesis by (simp add: valid_trigger_def norm)
qed

lemma coherence_valid:
  assumes "proper ts os" "set objects_v2 \<subseteq> set os"
    "n \<in> {''immutable_playback_results_coherence_insert'', ''immutable_playback_results_coherence_update''}"
  shows "valid_trigger (described ts os) (\<lambda>sql. coherence_trigger_text (lowered sqlite sql)) n = Inr ()"
proof -
  have "map object_key (take 2 projection_triggers_sql) = take 2 (map (Pair ''trigger'') projection_trigger_names)"
    by (simp only: take_map [symmetric] projection_trigger_keys)
  then have "set (map object_key (take 2 projection_triggers_sql)) = Pair ''trigger'' ` {''immutable_playback_results_coherence_insert'', ''immutable_playback_results_coherence_update''}"
    by (simp add: projection_trigger_names_def)
  then have "(''trigger'', n) \<in> object_key ` set (take 2 projection_triggers_sql)" using assms(3) unfolding set_map by blast
  then obtain sql where sql: "(''trigger'', n, sql) \<in> set (take 2 projection_triggers_sql)" by auto
  then have "(''trigger'', n, sql) \<in> set os" using triggers_in(2) assms(2) by (meson in_set_takeD subset_iff)
  then have "optional_sql (described ts os) ''trigger'' n = Inr (Some sql)" by (rule sql_described(1) [OF assms(1)])
  moreover have "list_all ascii sql" "coherence_trigger_text (squeezed sql)"
    using coherence_texts sql unfolding list_all_iff by blast+
  ultimately show ?thesis by (simp add: valid_trigger_def lowered_ascii)
qed

lemma fragment_names: "list_all (\<lambda>(n, f). n \<in> set (record_tables @ slice3_tables)) all_fragments"
  by code_simp

theorem runtime_schema_valid:
  assumes "proper ts os" "set shared_tables \<subseteq> set ts" "set objects_v2 \<subseteq> set os"
  shows "validate_runtime_record_schema sqlite (described ts os) = Inr ()"
proof -
  note texts = text_described [OF assms(1,2)]
  have "runtime_table sqlite (described ts os) p = Inr ()" if "p \<in> set runtime_tables" for p
  proof -
    obtain n s where p: "p = (n, s)" by (cases p)
    have "(n, column_specs s) \<in> set (map (\<lambda>(n, s). (n, column_specs s)) runtime_tables)" using that p by force
    then have "(n, column_specs s) \<in> (\<lambda>t. (fst t, types_of t)) ` set shared_tables"
      unfolding shared_types [symmetric] set_map .
    then obtain t where t: "t \<in> set shared_tables" "n = fst t" "types_of t = column_specs s" by auto
    have "table_exists (described ts os) n" using t assms(2) by (auto simp: described_table [OF assms(1)])
    moreover have "exact_columns (described ts os) n (column_specs s) = Inr ()"
      unfolding t(2) using t(1) assms(2) by (intro exact_described [OF assms(1) _ t(3)]) blast
    moreover have "and_then (required_sql (described ts os) ''table'' ''events'') (\<lambda>sql.
       ambiguous_unless (contains ''check(schema_version=1)'' (lowered sqlite sql))) = Inr ()"
      by (rule texts [of "''events''" "''check(schema_version=1)''"])
        (simp_all add: all_fragments_def runtime_fragments_def record_tables_def)
    ultimately show ?thesis by (simp add: p runtime_table_def)
  qed
  then have a: "\<forall>p\<in>set runtime_tables. runtime_table sqlite (described ts os) p = Inr ()" by blast
  have b: "\<forall>p\<in>set runtime_fragments. (case p of (table, fragment) \<Rightarrow> and_then (required_sql (described ts os) ''table'' table) (\<lambda>sql.
           ambiguous_unless (contains fragment (lowered sqlite sql)))) = Inr ()"
  proof (rule ballI)
    fix p assume "p \<in> set runtime_fragments"
    moreover obtain n f where "p = (n, f)" by (cases p)
    ultimately have p: "p = (n, f)" "(n, f) \<in> set all_fragments" by (auto simp: all_fragments_def)
    then have "n \<in> set (record_tables @ slice3_tables)"
      using fragment_names unfolding list_all_iff by blast
    with p(2) obtain sql where "required_sql (described ts os) ''table'' n = Inr sql" "contains f (lowered sqlite sql)"
      by (rule texts)
    then show "(case p of (table, fragment) \<Rightarrow> and_then (required_sql (described ts os) ''table'' table) (\<lambda>sql.
           ambiguous_unless (contains fragment (lowered sqlite sql)))) = Inr ()" by (simp add: p(1))
  qed
  have c: "\<forall>p\<in>set (List.product runtime_immutable [''update'', ''delete'']). (case p of (table, operation) \<Rightarrow>
      valid_trigger (described ts os) (\<lambda>sql. trigger_text (''before'' @ operation @ ''on'' @ table) (lowered sqlite sql))
      (''immutable_'' @ table @ ''_'' @ operation)) = Inr ()"
  proof (rule ballI)
    fix p assume "p \<in> set (List.product runtime_immutable [''update'', ''delete''])"
    then obtain t e where p: "p = (t, e)" "t \<in> set immutable_tables" "e \<in> {''update'', ''delete''}"
      by (auto simp: immutable_tables_def)
    show "(case p of (table, operation) \<Rightarrow>
      valid_trigger (described ts os) (\<lambda>sql. trigger_text (''before'' @ operation @ ''on'' @ table) (lowered sqlite sql))
      (''immutable_'' @ table @ ''_'' @ operation)) = Inr ()"
      unfolding p(1) case_prod_conv by (rule immutable_valid [OF assms(1,3) p(2,3) lowered_ascii])
  qed
  have d: "\<forall>n\<in>set [''immutable_playback_results_coherence_insert'', ''immutable_playback_results_coherence_update''].
      valid_trigger (described ts os) (\<lambda>sql. coherence_trigger_text (lowered sqlite sql)) n = Inr ()"
    using coherence_valid [OF assms(1,3)] by simp
  show ?thesis
    unfolding validate_runtime_record_schema_def all_ok_append all_ok_map using a b c d by (intro conjI)
qed

section \<open>The canonical catalogues pass every check\<close>

lemma tables_v3_names: "map fst tables_v3 = [''compatibility_decisions'', ''schema_metadata'', ''artifacts'', ''versions'',
    ''operations'', ''lineage'', ''discrepancies''] @ record_tables @ slice3_tables
    @ [''reconciliation_runs'', ''reconciliation_discrepancies'', ''reconciliation_projection_evidence'',
       ''recovery_actions'', ''recovery_outcomes'']"
  by (simp add: tables_v3_def comp_def schema_tables_def projection_names slice4_tables_sql_def table_names)

lemma table_in_v3: "table_exists catalogue_v3 n \<longleftrightarrow> n \<in> set (map fst tables_v3)"
  by (simp add: catalogue_v3_def described_table [OF proper_v3])

lemma trigger_in_v3: "trigger_exists catalogue_v3 n \<longleftrightarrow> (''trigger'', n) \<in> set object_names"
  unfolding catalogue_v3_def described_trigger object_names [symmetric] by simp

lemma info_v3: "t \<in> set tables_v3 \<Longrightarrow> table_info catalogue_v3 (fst t) = table_columns t"
  by (simp add: catalogue_v3_def table_described [OF proper_v3])

lemma triggers_valid_v3:
  assumes "set tables \<subseteq> set immutable_tables"
  shows "table_triggers_valid sqlite catalogue_v3 (concat (map immutable_pair tables)) = Inr ()"
proof -
  have "valid_trigger catalogue_v3 (\<lambda>sql. trigger_text (''before'' @ e @ ''on'' @ t) (normalized sqlite sql)) n = Inr ()"
    if p: "(n, t, e) \<in> set (concat (map immutable_pair tables))" for n t e
  proof -
    have e: "e \<in> {''update'', ''delete''}" and n: "n = ''immutable_'' @ t @ ''_'' @ e" and t: "t \<in> set immutable_tables"
      using p assms by (auto simp: immutable_pair_def)
    show ?thesis unfolding n catalogue_v3_def
      by (rule immutable_valid [OF proper_v3 triggers_in(3) t e normalized_ascii])
  qed
  then have "\<forall>p\<in>set (concat (map immutable_pair tables)). (case p of (n, t, e) \<Rightarrow>
      valid_trigger catalogue_v3 (\<lambda>sql. trigger_text (''before'' @ e @ ''on'' @ t) (normalized sqlite sql)) n) = Inr ()"
    by (intro ballI) (simp only: split_paired_all case_prod_conv)
  then show ?thesis unfolding table_triggers_valid_def all_ok_map .
qed

lemma fragments_v3: "fragments_valid sqlite catalogue_v3 core_fragments = Inr ()"
  unfolding fragments_valid_def all_ok_map
proof (rule ballI)
  fix p assume p: "p \<in> set core_fragments"
  obtain n fs where [simp]: "p = (n, fs)" by (cases p)
  have names: "n \<in> set (record_tables @ slice3_tables)" if "f \<in> set fs" for f
  proof -
    have "(n, f) \<in> set all_fragments" using p that by (force simp: all_fragments_def)
    then show ?thesis using fragment_names unfolding list_all_iff by blast
  qed
  have texts: "\<exists>sql. required_sql catalogue_v3 ''table'' n = Inr sql \<and> contains f (normalized sqlite sql)" if f: "f \<in> set fs" for f
  proof -
    have "(n, f) \<in> set all_fragments" using p f by (force simp: all_fragments_def)
    then obtain sql where "required_sql (described tables_v3 objects_v3) ''table'' n = Inr sql" "contains f (normalized sqlite sql)"
      by (rule text_described [OF proper_v3 shared_in(2) _ names [OF f]])
    then show ?thesis by (auto simp: catalogue_v3_def)
  qed
  have "fs \<noteq> []" using p by (auto simp: core_fragments_def)
  then obtain f where f: "f \<in> set fs" by (cases fs) auto
  obtain sql where sql: "required_sql catalogue_v3 ''table'' n = Inr sql" using texts [OF f] by blast
  then have "list_all (\<lambda>f. contains f (normalized sqlite sql)) fs" using texts by (auto simp: list_all_iff)
  then show "(case p of (table, required) \<Rightarrow> and_then (required_sql catalogue_v3 ''table'' table) (\<lambda>sql.
       ambiguous_unless (list_all (\<lambda>f. contains f (normalized sqlite sql)) required))) = Inr ()"
    by (simp add: sql)
qed

lemma schema_in: "t \<in> set schema_tables \<Longrightarrow> with_observations t \<in> set tables_v3"
  by (simp add: tables_v3_def)

lemma foreign_v3: "(n, fks) \<in> set core_foreign_keys \<Longrightarrow> sort (answers (ct_foreign catalogue_v3) n) = sort fks"
proof -
  assume "(n, fks) \<in> set core_foreign_keys"
  then have "(n, sort fks) \<in> set (map (\<lambda>(n, fks). (n, sort fks)) core_foreign_keys)" by force
  then have "(n, sort fks) \<in> (\<lambda>t. (fst t, sort (table_foreign t))) ` set [tbl_versions, tbl_operations, tbl_lineage]"
    unfolding foreign_keys [symmetric] set_map .
  then obtain t where t: "t \<in> set [tbl_versions, tbl_operations, tbl_lineage]" "n = fst t" "sort fks = sort (table_foreign t)"
    by (elim imageE) blast
  have "t \<in> set schema_tables" using t(1) by (auto simp: schema_tables_def)
  then show ?thesis
    using table_described(2) [OF proper_v3 schema_in, of t] by (simp add: t(2,3) catalogue_v3_def with_texts)
qed

lemma versions_index_v3: "versions_index_valid catalogue_v3 = Inr ()"
proof -
  have v: "tbl_versions \<in> set schema_tables" by (simp add: schema_tables_def)
  have "answers (ct_indexes catalogue_v3) ''versions'' = table_indexes tbl_versions"
    using table_described(3) [OF proper_v3 schema_in [OF v]] by (simp add: catalogue_v3_def with_texts table_names)
  moreover obtain ix where "filter (\<lambda>ix. ix_origin ix = ''c'') (table_indexes tbl_versions) = [ix]"
    "ix_name ix = ''versions_artifact''" "ix_unique ix = 0" "ix_columns ix = [Some ''artifact_id'']"
    using versions_index by (auto simp: map_eq_Cons_conv)
  ultimately show ?thesis by (simp add: versions_index_valid_def collect_columns_def index_columns_def)
qed

lemma compat_columns: "columns catalogue_v3 ''compatibility_decisions'' = decision_columns_v3"
proof -
  have "map ci_name (table_columns tbl_compatibility_decisions_v3) = decision_columns_v3" by code_simp
  then show ?thesis
    using info_v3 [of tbl_compatibility_decisions_v3] by (simp add: columns_def table_names tables_v3_split)
qed

lemma v3_compat: "v3_compat catalogue_v3"
  by (simp add: v3_compat_def compat_columns decision_columns_v3_def)

lemma unique_v3: "p \<in> set (compatibility_indexes True) \<Longrightarrow> unique_indexes_valid catalogue_v3 p = Inr ()"
proof -
  assume p: "p \<in> set (compatibility_indexes True)"
  obtain n e where [simp]: "p = (n, e)" by (cases p)
  have "(n, Inr (sort e) :: error + str list list) \<in> set (map (\<lambda>(n, e). (n, Inr (sort e))) (compatibility_indexes True))" using p by force
  then have "(n, Inr (sort e)) \<in> (\<lambda>t. (fst t, unique_columns t)) ` set (schema_tables @ [tbl_compatibility_decisions_v3])"
    unfolding unique_indexes [symmetric] unfolding set_map .
  then obtain t where i: "(n, Inr (sort e) :: error + str list list) = (fst t, unique_columns t)"
    and t: "t \<in> set (schema_tables @ [tbl_compatibility_decisions_v3])"
    by (rule imageE)
  have n: "n = fst t" "unique_columns t = Inr (sort e)" using i by simp_all
  have "\<exists>u\<in>set tables_v3. fst u = fst t \<and> table_indexes u = table_indexes t"
  proof (cases "t \<in> set schema_tables")
    case True
    then show ?thesis by (intro bexI [OF _ schema_in]) (simp_all add: with_texts)
  next
    case False
    then have "t = tbl_compatibility_decisions_v3" using t by simp
    then show ?thesis by (intro bexI [of _ t]) (simp_all add: tables_v3_split)
  qed
  then have "answers (ct_indexes catalogue_v3) n = table_indexes t"
    using table_described(3) [OF proper_v3] by (metis n(1) catalogue_v3_def)
  then show ?thesis using n(2) by (auto simp: unique_indexes_valid_def unique_columns_def split: sum.splits)
qed

theorem core_catalogue_v3: "core_catalogue sqlite catalogue_v3 = Inr ()"
proof -
  have "\<forall>t\<in>set core_required_tables. ambiguous_unless (table_exists catalogue_v3 t) = Inr ()"
    by (simp add: table_in_v3 tables_v3_names core_required_tables_def)
  moreover have "\<forall>p\<in>set core_columns. core_table catalogue_v3 p = Inr ()"
    using exact_all [OF proper_v3 core_types shared_in(3)] by (metis core_table_exact catalogue_v3_def)
  moreover have "exact_columns catalogue_v3 ''events'' events_columns = Inr ()"
    using exact_described [OF proper_v3 _ events_types] by (simp add: catalogue_v3_def table_names tables_v3_def record_tables_sql_def)
  moreover have "events_text_valid sqlite catalogue_v3 = Inr ()"
    unfolding catalogue_v3_def events_text_valid_def
    by (rule text_described [OF proper_v3 shared_in(2), of "''events''" "''check(schema_version=1)''"])
      (simp_all add: all_fragments_def runtime_fragments_def record_tables_def)
  moreover have "events_triggers_valid sqlite catalogue_v3 = Inr ()"
    unfolding catalogue_v3_def by (rule events_triggers_texts [OF proper_v3]) (auto simp: objects_v3_def objects_v2_def)
  moreover have "table_triggers_valid sqlite catalogue_v3 replay_triggers = Inr ()"
    unfolding replay_triggers_def by (rule triggers_valid_v3) (simp add: immutable_tables_def runtime_immutable_def)
  moreover have "\<forall>p\<in>set core_foreign_keys. foreign_keys_valid catalogue_v3 p = Inr ()"
    using foreign_v3 by (auto simp: foreign_keys_valid_def)
  moreover have "\<forall>p\<in>set (compatibility_indexes (v3_compat catalogue_v3)). unique_indexes_valid catalogue_v3 p = Inr ()"
    using unique_v3 by (simp add: v3_compat)
  moreover have "table_triggers_valid sqlite catalogue_v3 core_triggers = Inr ()"
    unfolding core_triggers_def by (rule triggers_valid_v3) (simp add: immutable_tables_def)
  moreover have "validate_runtime_record_schema sqlite catalogue_v3 = Inr ()"
    unfolding catalogue_v3_def by (rule runtime_schema_valid [OF proper_v3 shared_in(2) triggers_in(3)])
  ultimately show ?thesis
    using fragments_v3 versions_index_v3
    by (simp only: core_catalogue_def all_ok_append all_ok_map) simp
qed

text \<open>The names the program knows, in groups.\<close>

abbreviation trigger_names :: "str list \<Rightarrow> str list" where
  "trigger_names tables \<equiv> map snd (concat (map immutable_names tables))"

definition known_groups :: "str list list" where
  "known_groups =
    [[''schema_metadata'', ''artifacts'', ''versions'', ''operations'', ''lineage'', ''discrepancies'', ''compatibility_decisions''],
     [''versions_artifact''], [''versions_observation_guard''],
     trigger_names [''versions'', ''operations'', ''lineage'', ''discrepancies''],
     record_tables, slice3_tables, drop 2 projection_trigger_names,
     trigger_names [''projection_rebuilds'', ''playback_results''], take 2 projection_trigger_names,
     trigger_names [''captured_outcome_simulations''], trigger_names [''events''], trigger_names (tl record_tables),
     [''reconciliation_runs'', ''reconciliation_discrepancies'', ''reconciliation_projection_evidence'',
      ''recovery_actions'', ''recovery_outcomes''],
     [''reconciliation_discrepancies_guards'', ''recovery_actions_guards'', ''recovery_outcomes_guards''],
     take 2 slice4_indexes, [''reconciliation_projection_evidence_run''], drop 2 slice4_indexes,
     map (\<lambda>(t, e). t @ ''_immutable_'' @ e) (List.product slice4_tables [''update'', ''delete''])]"

lemma known_objects_groups: "known_objects = concat known_groups"
  by (simp add: known_groups_def known_objects_def immutable_names_def immutable_pair_def record_tables_def slice3_tables_def
      slice4_indexes_def slice4_tables_def projection_trigger_names_def)

lemma known_group: "i < 18 \<Longrightarrow> set (known_groups ! i) \<subseteq> set known_objects"
  unfolding known_objects_groups set_concat by (rule Union_upper, rule imageI, rule nth_mem) (simp add: known_groups_def)

lemma known_names: "set (map fst tables_v3 @ map snd object_names) \<subseteq> set known_objects"
proof -
  have nth: "known_groups ! 0 = [''schema_metadata'', ''artifacts'', ''versions'', ''operations'', ''lineage'', ''discrepancies'', ''compatibility_decisions'']"
    "known_groups ! 1 = [''versions_artifact'']" "known_groups ! 2 = [''versions_observation_guard'']"
    "known_groups ! 3 = trigger_names [''versions'', ''operations'', ''lineage'', ''discrepancies'']"
    "known_groups ! 4 = record_tables" "known_groups ! 5 = slice3_tables" "known_groups ! 6 = drop 2 projection_trigger_names"
    "known_groups ! 7 = trigger_names [''projection_rebuilds'', ''playback_results'']"
    "known_groups ! 8 = take 2 projection_trigger_names" "known_groups ! 9 = trigger_names [''captured_outcome_simulations'']"
    "known_groups ! 10 = trigger_names [''events'']" "known_groups ! 11 = trigger_names (tl record_tables)"
    "known_groups ! 12 = [''reconciliation_runs'', ''reconciliation_discrepancies'', ''reconciliation_projection_evidence'',
      ''recovery_actions'', ''recovery_outcomes'']"
    "known_groups ! 13 = [''reconciliation_discrepancies_guards'', ''recovery_actions_guards'', ''recovery_outcomes_guards'']"
    "known_groups ! 14 = take 2 slice4_indexes" "known_groups ! 15 = [''reconciliation_projection_evidence_run'']"
    "known_groups ! 16 = drop 2 slice4_indexes"
    "known_groups ! 17 = map (\<lambda>(t, e). t @ ''_immutable_'' @ e) (List.product slice4_tables [''update'', ''delete''])"
    by (simp_all add: known_groups_def)
  have g: "set G \<subseteq> set known_objects" if "known_groups ! i = G" "i < 18" for i G
    using known_group [of i] that by simp
  note in_known = g [OF nth(1)] g [OF nth(2)] g [OF nth(3)] g [OF nth(4)] g [OF nth(5)] g [OF nth(6)] g [OF nth(7)] g [OF nth(8)]
    g [OF nth(9)] g [OF nth(10)] g [OF nth(11)] g [OF nth(12)] g [OF nth(13)] g [OF nth(14)] g [OF nth(15)] g [OF nth(16)]
    g [OF nth(17)] g [OF nth(18)]
  have halves: "set (take 2 xs) \<subseteq> K \<Longrightarrow> set (drop 2 xs) \<subseteq> K \<Longrightarrow> set xs \<subseteq> K" for xs :: "str list" and K
    by (metis Un_least append_take_drop_id set_append)
  have p: "map snd (map (\<lambda>(t, e). (''trigger'', t @ ''_immutable_'' @ e)) ps) = map (\<lambda>(t, e). t @ ''_immutable_'' @ e) ps"
    for ps :: "(str \<times> str) list" by (induction ps) auto
  have q: "map snd (map (Pair x) ys) = ys" for x :: str and ys :: "str list" by (induction ys) auto
  have "set (map fst tables_v3) \<subseteq> set known_objects"
    unfolding tables_v3_names using in_known(1,5,6,13) by simp
  moreover have "set (map snd object_names) \<subseteq> set known_objects"
    unfolding object_names_def slice4_names_def map_append p q
    using in_known(2-4,7-12,14,16,18) halves [OF in_known(15,17)] halves [OF in_known(9,7)] by simp
  ultimately show ?thesis by simp
qed

lemma only_known_v3: "only_known_objects catalogue_v3"
proof -
  have "table_exists catalogue_v3 ''compatibility_decisions''" by (simp add: table_in_v3 tables_v3_names)
  moreover have "map (\<lambda>(_, n, _). n) (ct_master catalogue_v3) = map fst tables_v3 @ map snd object_names"
    by (simp add: catalogue_v3_def described_def comp_def case_prod_unfold flip: object_names)
  then have "\<forall>p\<in>set (ct_master catalogue_v3). (case p of (_, n, _) \<Rightarrow> n) \<in> set known_objects"
    using known_names by (metis (no_types, lifting) imageI set_map subsetD)
  ultimately show ?thesis by (fastforce simp: only_known_objects_def list_ex_iff)
qed

lemma guards_v3: "guard_triggers catalogue_v3 = Inr ()"
  unfolding catalogue_v3_def by (rule guards_exist) (use triggers_in in blast)

lemma guards_v2: "guard_triggers catalogue_v2 = Inr ()"
  unfolding catalogue_v2_def by (rule guards_exist) (use triggers_in in blast)

lemma index_v3: "(''index'', n) \<in> set object_names \<Longrightarrow> index_exists catalogue_v3 n"
proof -
  assume "(''index'', n) \<in> set object_names"
  then obtain p where p: "p \<in> set objects_v3" "object_key p = (''index'', n)" unfolding object_names [symmetric] by auto
  have "distinct (map object_key objects_v3)" using proper_v3 by (simp add: proper_def)
  then have "count (\<lambda>p. object_key p = (''index'', n)) objects_v3 = 1"
    using p(1) by (rule count_one) (simp_all add: p(2))
  then show ?thesis by (simp add: index_exists_def catalogue_v3_def described_count count_def)
qed

lemma slice4_in: "t \<in> set slice4_tables_sql \<Longrightarrow> t \<in> set tables_v3"
  by (simp add: tables_v3_def)

definition slice4_right :: "table_text \<Rightarrow> str list \<Rightarrow> bool" where
  "slice4_right t required =
     (let defaults = map_of (rev (map (\<lambda>i. (ci_name i, ci_default i)) (table_columns t))) in
      list_all (\<lambda>n. defaults n \<noteq> None) required
      \<and> (fst t = ''reconciliation_runs'' \<longrightarrow> defaults ''schema_version'' = Some (Some ''1'')))"

lemma slice4_tables_right: "map (\<lambda>t. (fst t, True)) [tbl_reconciliation_runs, tbl_reconciliation_discrepancies]
    = map (\<lambda>(t, required). (fst t, slice4_right t required))
        (zip [tbl_reconciliation_runs, tbl_reconciliation_discrepancies] (map snd slice4_columns))"
  by code_simp

theorem slice4_schema_v3: "validate_slice4_v3_schema catalogue_v3 = Inr ()"
proof -
  have "\<forall>t\<in>set slice4_tables. table_exists catalogue_v3 t" by (simp add: slice4_tables_def table_in_v3 tables_v3_names)
  moreover have "\<forall>n\<in>set slice4_indexes. index_exists catalogue_v3 n"
  proof
    fix n assume "n \<in> set slice4_indexes"
    then have "(''index'', n) \<in> set object_names" by (simp add: object_names_def slice4_names_def)
    then show "index_exists catalogue_v3 n" by (rule index_v3)
  qed
  moreover have "\<forall>p\<in>set (List.product slice4_tables [''update'', ''delete'']).
      (case p of (t, e) \<Rightarrow> ambiguous_unless (trigger_exists catalogue_v3 (t @ ''_immutable_'' @ e))) = Inr ()"
  proof
    fix p assume p: "p \<in> set (List.product slice4_tables [''update'', ''delete''])"
    then have "(case p of (t, e) \<Rightarrow> (''trigger'', t @ ''_immutable_'' @ e)) \<in> set object_names"
      unfolding object_names_def set_append set_map by blast
    then show "(case p of (t, e) \<Rightarrow> ambiguous_unless (trigger_exists catalogue_v3 (t @ ''_immutable_'' @ e))) = Inr ()"
      by (cases p) (simp only: case_prod_conv trigger_in_v3 ambiguous_unless_Inr)
  qed
  moreover have "\<forall>p\<in>set slice4_columns. slice4_table_columns catalogue_v3 p = Inr ()"
  proof -
    have right: "slice4_right tbl_reconciliation_runs (snd (slice4_columns ! 0))"
      "slice4_right tbl_reconciliation_discrepancies (snd (slice4_columns ! 1))"
      using slice4_tables_right by (simp_all add: slice4_columns_def)
    have "slice4_table_columns catalogue_v3 (fst t, required) = Inr ()"
      if "t \<in> set tables_v3" "slice4_right t required" for t required
      using that(2) unfolding slice4_table_columns_def prod.case info_v3 [OF that(1)]
      by (auto simp: slice4_right_def Let_def list_ex_iff list_all_iff)
    then have "slice4_table_columns catalogue_v3 (''reconciliation_runs'', snd (slice4_columns ! 0)) = Inr ()"
      "slice4_table_columns catalogue_v3 (''reconciliation_discrepancies'', snd (slice4_columns ! 1)) = Inr ()"
      using right slice4_in unfolding table_names(24,25) [symmetric] by (simp_all add: slice4_tables_sql_def)
    moreover have "slice4_columns = [(''reconciliation_runs'', snd (slice4_columns ! 0)),
        (''reconciliation_discrepancies'', snd (slice4_columns ! 1))]" by (simp add: slice4_columns_def)
    ultimately show ?thesis by (metis empty_iff empty_set set_ConsD)
  qed
  ultimately show ?thesis
    unfolding validate_slice4_v3_schema_def all_ok_append all_ok_map by simp
qed

lemma v3_columns_v3: "v3_columns catalogue_v3 = Inr ()"
  by (simp add: v3_columns_def compat_columns)

text \<open>The catalogue of version 2.\<close>

lemma table_in_v2: "table_exists catalogue_v2 n \<longleftrightarrow> n \<in> set (map fst tables_v2)"
  by (simp add: catalogue_v2_def described_table [OF proper_v2])

lemma tables_v2_names: "map fst tables_v2 = [''compatibility_decisions'', ''schema_metadata'', ''artifacts'', ''versions'',
    ''operations'', ''lineage'', ''discrepancies''] @ record_tables @ slice3_tables"
  by (simp add: tables_v2_def comp_def schema_tables_def projection_names table_names)

lemma info_v2: "t \<in> set tables_v2 \<Longrightarrow> table_info catalogue_v2 (fst t) = table_columns t"
  by (simp add: catalogue_v2_def table_described [OF proper_v2])

lemma decision_columns_text: "map ci_name (table_columns tbl_compatibility_decisions_v2) = decision_columns_v2"
  by code_simp

theorem v2_columns_v2: "v2_columns catalogue_v2 = Inr ()"
proof -
  have "\<forall>t\<in>set slice4_tables. \<not> table_exists catalogue_v2 t"
    by (simp add: table_in_v2 tables_v2_names slice4_tables_def record_tables_def slice3_tables_def)
  moreover have "columns catalogue_v2 ''events'' = map fst events_columns"
    using info_v2 [of tbl_events] events_types
    by (auto simp: columns_def table_names tables_v2_def record_tables_sql_def types_of_def typed_def simp flip: events_types)
  moreover have "columns catalogue_v2 ''compatibility_decisions'' = decision_columns_v2"
    using info_v2 [of tbl_compatibility_decisions_v2] decision_columns_text by (simp add: columns_def table_names tables_v2_def)
  ultimately show ?thesis by (simp add: v2_columns_def)
qed

lemma runtime_schema_v2: "validate_runtime_record_schema sqlite catalogue_v2 = Inr ()"
  unfolding catalogue_v2_def by (rule runtime_schema_valid [OF proper_v2 shared_in(1) subset_refl])

end
