(* ===== verification/Engines.thy ===== *)
theory Engines
  imports Conforms
begin

text \<open>
  What the results on \<open>sqlite\<close> say of any engine. SQLite is not code of the repository, so an engine
  is only required to do the same as \<open>sqlite_run\<close> with the program's batches on the catalogues
  that these batches build from an empty file, and to lower ASCII letters; every check of the
  catalogue and every catalogue the program builds is then the same.
\<close>

section \<open>The interface\<close>

inductive built :: "catalogue \<Rightarrow> bool" where
  built_empty: "built empty_catalogue"
| built_step: "built c \<Longrightarrow> sqlite_run s c = Inr c' \<Longrightarrow> built c'"

locale schema_engine =
  fixes en :: engine
  assumes runs: "built c \<Longrightarrow> run_ddl en s c = sqlite_run s c"
    and lowers: "k < 128 \<Longrightarrow> lower_char en k = lower_char sqlite k"

section \<open>Texts\<close>

text \<open>Every text of the catalogue is ASCII.\<close>

definition ascii_catalogue :: "catalogue \<Rightarrow> bool" where
  "ascii_catalogue c = list_all (\<lambda>(_, _, sql). opt_all (list_all ascii) sql) (ct_master c)"

lemma optional_ascii:
  assumes "ascii_catalogue c" "optional_sql c ty n = Inr (Some sql)" shows "list_all ascii sql"
proof -
  obtain t m where "find (\<lambda>(t, m, _). t = ty \<and> m = n) (ct_master c) = Some (t, m, Some sql)"
    using assms(2) by (auto simp: optional_sql_def split: option.splits)
  then have "(t, m, Some sql) \<in> set (ct_master c)" by (auto simp: find_Some_iff) (metis nth_mem)
  then show ?thesis using assms(1) by (force simp: ascii_catalogue_def list_all_iff)
qed

lemma valid_trigger_cong:
  assumes "ascii_catalogue c" "\<And>sql. list_all ascii sql \<Longrightarrow> p sql = q sql"
  shows "valid_trigger c p n = valid_trigger c q n"
  using optional_ascii [OF assms(1), of "''trigger''" n] assms(2)
  by (auto simp: valid_trigger_def opt_any_def split: sum.split option.split)

lemma required_cong:
  assumes "ascii_catalogue c" "\<And>sql. list_all ascii sql \<Longrightarrow> p sql = q sql"
  shows "and_then (required_sql c ty n) (\<lambda>sql. ambiguous_unless (p sql)) = and_then (required_sql c ty n) (\<lambda>sql. ambiguous_unless (q sql))"
  using optional_ascii [OF assms(1), of ty n] assms(2)
  by (auto simp: required_sql_def ok_or_def split: sum.split option.split)

context schema_engine
begin

lemma normalized_same: "list_all ascii s \<Longrightarrow> normalized en s = normalized sqlite s"
proof -
  assume a: "list_all ascii s"
  have m: "map (lower_char en) (filter (\<lambda>k. \<not> is_whitespace k) (map byte_of s))
      = map (lower_char sqlite) (filter (\<lambda>k. \<not> is_whitespace k) (map byte_of s))"
    using a by (intro map_cong) (auto simp: list_all_iff ascii_facts(1) intro!: lowers)
  show ?thesis unfolding normalized_def ascii_chars [OF a] m by (rule refl)
qed

lemma lowered_same: "list_all ascii s \<Longrightarrow> lowered en s = lowered sqlite s"
proof -
  assume a: "list_all ascii s"
  then have "lower_after en before (map byte_of s) = lower_after sqlite before (map byte_of s)" for before
  proof (induction s arbitrary: before)
    case (Cons x s)
    have x: "byte_of x < (128::nat)" using Cons.prems by (simp add: ascii_facts(1))
    then have "byte_of x \<noteq> (0x3A3::nat)" by simp
    then show ?case using Cons x by (simp add: lowers)
  qed simp
  then show ?thesis using a by (simp add: lowered_def ascii_chars)
qed

lemma events_triggers_same: "ascii_catalogue c \<Longrightarrow> events_triggers_valid en c = events_triggers_valid sqlite c"
  unfolding events_triggers_valid_def
  by (rule arg_cong [of _ _ all_ok], rule map_cong [OF refl], rule valid_trigger_cong) (simp_all add: normalized_same)

lemma table_triggers_same: "ascii_catalogue c \<Longrightarrow> table_triggers_valid en c ts = table_triggers_valid sqlite c ts"
  unfolding table_triggers_valid_def
  by (rule arg_cong [of _ _ all_ok], rule map_cong [OF refl])
    (auto intro!: valid_trigger_cong simp: normalized_same)

lemma fragments_same: "ascii_catalogue c \<Longrightarrow> fragments_valid en c rs = fragments_valid sqlite c rs"
  unfolding fragments_valid_def
  by (rule arg_cong [of _ _ all_ok], rule map_cong [OF refl])
    (auto intro!: required_cong simp: normalized_same)

lemma events_text_same: "ascii_catalogue c \<Longrightarrow> events_text_valid en c = events_text_valid sqlite c"
  unfolding events_text_valid_def by (rule required_cong) (simp_all add: normalized_same)

lemma runtime_table_same:
  assumes "ascii_catalogue c"
  shows "runtime_table en c p = runtime_table sqlite c p"
proof -
  have r: "and_then (required_sql c ty n) (\<lambda>sql. ambiguous_unless (contains ''check(schema_version=1)'' (lowered en sql)))
      = and_then (required_sql c ty n) (\<lambda>sql. ambiguous_unless (contains ''check(schema_version=1)'' (lowered sqlite sql)))" for ty n
    by (rule required_cong [OF assms]) (simp add: lowered_same)
  show ?thesis unfolding runtime_table_def r by (rule refl)
qed

lemma runtime_same:
  assumes "ascii_catalogue c"
  shows "validate_runtime_record_schema en c = validate_runtime_record_schema sqlite c"
proof -
  have "map (\<lambda>(table, fragment). and_then (required_sql c ''table'' table) (\<lambda>sql.
        ambiguous_unless (contains fragment (lowered en sql)))) runtime_fragments
      = map (\<lambda>(table, fragment). and_then (required_sql c ''table'' table) (\<lambda>sql.
        ambiguous_unless (contains fragment (lowered sqlite sql)))) runtime_fragments"
    by (rule map_cong [OF refl]) (auto intro!: required_cong [OF assms] simp: lowered_same)
  moreover have "map (\<lambda>(table, operation). valid_trigger c
        (\<lambda>sql. trigger_text (''before'' @ operation @ ''on'' @ table) (lowered en sql)) (''immutable_'' @ table @ ''_'' @ operation)) xs
      = map (\<lambda>(table, operation). valid_trigger c
        (\<lambda>sql. trigger_text (''before'' @ operation @ ''on'' @ table) (lowered sqlite sql)) (''immutable_'' @ table @ ''_'' @ operation)) xs" for xs
    by (rule map_cong [OF refl]) (auto intro!: valid_trigger_cong [OF assms] simp: lowered_same)
  moreover have "map (valid_trigger c (\<lambda>sql. coherence_trigger_text (lowered en sql))) xs
      = map (valid_trigger c (\<lambda>sql. coherence_trigger_text (lowered sqlite sql))) xs" for xs
    by (rule map_cong [OF refl]) (auto intro!: valid_trigger_cong [OF assms] simp: lowered_same)
  moreover have "map (runtime_table en c) xs = map (runtime_table sqlite c) xs" for xs
    by (simp add: runtime_table_same [OF assms])
  ultimately show ?thesis by (simp only: validate_runtime_record_schema_def)
qed

lemma core_same:
  assumes "ascii_catalogue c" shows "core_catalogue en c = core_catalogue sqlite c"
  unfolding core_catalogue_def events_text_same [OF assms] events_triggers_same [OF assms] fragments_same [OF assms]
    table_triggers_same [OF assms] runtime_same [OF assms] by (rule refl)

end

section \<open>The texts of the two catalogues\<close>

lemma observations_ascii: "list_all (\<lambda>(n, x). list_all ascii n \<and> list_all ascii x) observation_columns"
  by code_simp

lemmas ascii_simps = list.pred_inject list_all_append prod.case table_sql.simps ascii.simps not_False_eq_True simp_thms

lemma base_ascii: "list_all (\<lambda>t. list_all ascii (table_sql t)) (schema_tables @ decisions_v2_table @ decisions_v3_table)"
  by (simp only: schema_tables_def decisions_v2_table_def decisions_v3_table_def tbl_schema_metadata_def tbl_artifacts_def
      tbl_versions_def tbl_operations_def tbl_lineage_def tbl_discrepancies_def tbl_compatibility_decisions_v2_def
      tbl_compatibility_decisions_v3_def ascii_simps)

lemma slice4_ascii: "list_all (\<lambda>t. list_all ascii (table_sql t)) slice4_tables_sql"
  by (simp only: slice4_tables_sql_def tbl_reconciliation_runs_def tbl_reconciliation_discrepancies_def
      tbl_reconciliation_projection_evidence_def tbl_recovery_actions_def tbl_recovery_outcomes_def ascii_simps)

lemma slice4_objects_ascii: "list_all (\<lambda>(ty, n, sql). list_all ascii sql) slice4_objects_sql"
  by (simp only: slice4_objects_sql_def ascii_simps)

lemma other_objects_ascii: "list_all (\<lambda>(ty, n, sql). list_all ascii sql) (objects_v2 @ slice4_triggers_sql)"
  by code_simp

lemma table_ascii:
  assumes "t \<in> set tables_v2 \<union> set tables_v3" shows "list_all ascii (table_sql t)"
proof -
  have obs: "list_all ascii (table_sql (with_observations u))" if "list_all ascii (table_sql u)" for u
    using spliced_ascii [OF observations_ascii that] that by (simp add: with_observations_def fold_add_sql)
  have "t \<in> set shared_tables \<or> t \<in> set slice4_tables_sql \<or> t \<in> set (schema_tables @ decisions_v2_table @ decisions_v3_table)
      \<or> t \<in> with_observations ` set schema_tables"
    using assms by (auto simp: tables_v2_def tables_v3_def shared_tables_def decisions_v2_table_def decisions_v3_table_def)
  then consider "t \<in> set shared_tables" | "t \<in> set slice4_tables_sql"
    | "t \<in> set (schema_tables @ decisions_v2_table @ decisions_v3_table)"
    | u where "u \<in> set (schema_tables @ decisions_v2_table @ decisions_v3_table)" "t = with_observations u"
    unfolding set_append by blast
  then show ?thesis
  proof cases
    case 1
    then show ?thesis by (rule shared_texts(1))
  next
    case 2
    then show ?thesis by (rule bspec [OF slice4_ascii [unfolded list_all_iff [of _ slice4_tables_sql]]])
  next
    case 3
    then show ?thesis by (rule bspec [OF base_ascii [unfolded list_all_iff [of _ "schema_tables @ _"]]])
  next
    case (4 u)
    show ?thesis
      unfolding 4(2) by (rule obs [OF bspec [OF base_ascii [unfolded list_all_iff [of _ "schema_tables @ _"]] 4(1)]])
  qed
qed

lemma described_ascii:
  assumes "set ts \<subseteq> set tables_v2 \<union> set tables_v3" "set os \<subseteq> set objects_v3"
  shows "ascii_catalogue (described ts os)"
proof -
  have "list_all (\<lambda>(ty, n, sql). list_all ascii sql) objects_v3"
    using other_objects_ascii slice4_objects_ascii by (simp add: objects_v3_def)
  then have os: "list_all (\<lambda>p. list_all ascii (snd (snd p))) os"
    using assms(2) by (force simp: list_all_iff case_prod_unfold)
  have ts: "list_all (\<lambda>t. list_all ascii (table_sql t)) ts"
    unfolding list_all_iff [of _ ts] using assms(1) table_ascii by blast
  show ?thesis
    using os ts unfolding ascii_catalogue_def described_def by (simp add: list.pred_map comp_def case_prod_unfold)
qed

lemma catalogues_ascii: "ascii_catalogue catalogue_v2" "ascii_catalogue catalogue_v3"
  unfolding catalogue_v2_def catalogue_v3_def by (rule described_ascii; simp add: objects_v3_def)+

section \<open>The catalogues an engine builds\<close>

text \<open>A step of the program that succeeds with \<open>sqlite\<close> gives the same with the other engine.\<close>

definition agrees :: "(catalogue \<Rightarrow> error + catalogue) \<Rightarrow> (catalogue \<Rightarrow> error + catalogue) \<Rightarrow> bool" where
  "agrees f g = (\<forall>c c'. built c \<longrightarrow> g c = Inr c' \<longrightarrow> f c = Inr c' \<and> built c')"

lemma agreesD: "agrees f g \<Longrightarrow> built c \<Longrightarrow> g c = Inr c' \<Longrightarrow> f c = Inr c' \<and> built c'"
  by (simp add: agrees_def)

lemma agrees_Inr: "agrees Inr Inr"
  by (simp add: agrees_def)

lemma agrees_if:
  assumes "agrees f f'" "agrees g g'"
  shows "agrees (\<lambda>c. if p c then f c else g c) (\<lambda>c. if p c then f' c else g' c)"
  unfolding agrees_def
proof (intro allI impI)
  fix c c' assume b: "built c" and h: "(if p c then f' c else g' c) = Inr c'"
  show "(if p c then f c else g c) = Inr c' \<and> built c'"
    using h agreesD [OF assms(1) b, of c'] agreesD [OF assms(2) b, of c'] by (cases "p c") simp_all
qed

lemma agrees_then:
  assumes "agrees f f'" "agrees g g'"
  shows "agrees (\<lambda>c. and_then (f c) g) (\<lambda>c. and_then (f' c) g')"
  unfolding agrees_def
proof (intro allI impI)
  fix c c'' assume b: "built c" and "and_then (f' c) g' = Inr c''"
  then obtain c' where c': "f' c = Inr c'" "g' c' = Inr c''" unfolding and_then_Inr by blast
  have "f c = Inr c' \<and> built c'" by (rule agreesD [OF assms(1) b c'(1)])
  moreover from this have "g c' = Inr c'' \<and> built c''" by (intro agreesD [OF assms(2) _ c'(2)]) (rule conjunct2)
  ultimately show "and_then (f c) g = Inr c'' \<and> built c''" by simp
qed

lemma agrees_check:
  assumes "agrees f f'" shows "agrees (\<lambda>c. and_then (p c) (\<lambda>_. f c)) (\<lambda>c. and_then (p c) (\<lambda>_. f' c))"
  unfolding agrees_def
proof (intro allI impI)
  fix c c' assume b: "built c" and "and_then (p c) (\<lambda>_. f' c) = Inr c'"
  then obtain u where u: "p c = Inr u" "f' c = Inr c'" unfolding and_then_Inr by blast
  show "and_then (p c) (\<lambda>_. f c) = Inr c' \<and> built c'" unfolding u(1) using agreesD [OF assms b u(2)] by simp
qed

lemma agrees_for_each: "(\<And>x. x \<in> set xs \<Longrightarrow> agrees (f x) (g x)) \<Longrightarrow> agrees (for_each f xs) (for_each g xs)"
proof (induction xs)
  case (Cons x xs)
  have "agrees (f x) (g x)" "agrees (for_each f xs) (for_each g xs)" using Cons by simp_all
  from agrees_then [OF this] show ?case by (simp add: agrees_def)
qed (simp add: agrees_def)

context schema_engine
begin

lemma agrees_run: "agrees (run_ddl en s) (run_ddl sqlite s)"
  unfolding agrees_def by (auto simp: runs intro: built_step)

lemma agrees_column: "agrees (add_missing_column en t p) (add_missing_column sqlite t p)"
  unfolding add_missing_column_def case_prod_unfold by (rule agrees_if [OF agrees_run agrees_Inr])

lemma agrees_observations: "agrees (install_version_observation_columns en) (install_version_observation_columns sqlite)"
  unfolding install_version_observation_columns_def by (rule agrees_for_each [OF agrees_column])

lemma agrees_record_table: "agrees (record_table en d t) (record_table sqlite d t)"
  unfolding record_table_def
  by (rule agrees_then, rule agrees_if [OF agrees_Inr agrees_run], rule agrees_check [OF agrees_Inr])

text \<open>The texts are looked at once more at the end.\<close>

lemma ensure_agrees:
  assumes "built c" "ensure_runtime_record_schema sqlite d c = Inr c'" "ascii_catalogue c'"
  shows "ensure_runtime_record_schema en d c = Inr c' \<and> built c'"
proof -
  obtain c1 c2 c3 c4 c5 where s: "run_ddl sqlite EnsureRecordTables c = Inr c1" "run_ddl sqlite EnsureProjectionTables c1 = Inr c2"
    "for_each (\<lambda>table. for_each (\<lambda>(n, x, _). add_missing_column sqlite table (n, x)) record_defaults) slice3_tables c2 = Inr c3"
    "for_each (add_missing_column sqlite ''events'') later_event_columns c3 = Inr c4"
    "for_each (record_table sqlite d) record_tables c4 = Inr c5"
    "(if table_exists c ''events'' then Inr c5 else run_ddl sqlite CreateEventTriggers c5) = Inr c'"
    and k: "ambiguous_unless (\<not> (table_exists c1 ''projections'' \<and> (\<not> trigger_exists c1 ''immutable_projections_insert''
        \<or> \<not> trigger_exists c1 ''immutable_projection_rebuild_status_insert''))) = Inr ()"
      "all_ok (map (\<lambda>(table, column, _, default'). default_valid c3 table column default') (List.product slice3_tables record_defaults)) = Inr ()"
      "slice3_guards c5 d = Inr ()" "events_triggers_valid sqlite c' = Inr ()"
    using assms(2) unfolding ensure_runtime_record_schema_def and_then_Inr by auto
  have t1: "run_ddl en EnsureRecordTables c = Inr c1 \<and> built c1" by (rule agreesD [OF agrees_run assms(1) s(1)])
  then have t2: "run_ddl en EnsureProjectionTables c1 = Inr c2 \<and> built c2" using agreesD [OF agrees_run _ s(2)] by blast
  have "agrees (for_each (\<lambda>table. for_each (\<lambda>(n, x, _). add_missing_column en table (n, x)) record_defaults) slice3_tables)
      (for_each (\<lambda>table. for_each (\<lambda>(n, x, _). add_missing_column sqlite table (n, x)) record_defaults) slice3_tables)"
    by (rule agrees_for_each, rule agrees_for_each) (auto intro: agrees_column)
  from agreesD [OF this _ s(3)] t2
  have t3: "for_each (\<lambda>table. for_each (\<lambda>(n, x, _). add_missing_column en table (n, x)) record_defaults) slice3_tables c2 = Inr c3
      \<and> built c3" by blast
  then have t4: "for_each (add_missing_column en ''events'') later_event_columns c3 = Inr c4 \<and> built c4"
    using agreesD [OF agrees_for_each [OF agrees_column] _ s(4)] by blast
  then have t5: "for_each (record_table en d) record_tables c4 = Inr c5 \<and> built c5"
    using agreesD [OF agrees_for_each [OF agrees_record_table] _ s(5)] by blast
  have t6: "(if table_exists c ''events'' then Inr c5 else run_ddl en CreateEventTriggers c5) = Inr c' \<and> built c'"
    using t5 s(6) agreesD [OF agrees_run, of c5 CreateEventTriggers c'] by (auto split: if_splits)
  show ?thesis
    unfolding ensure_runtime_record_schema_def and_then_Inr
    using t1 t2 t3 t4 t5 t6 k events_triggers_same [OF assms(3)] by metis
qed

lemma canonical_agrees: "canonical_v2 en empty_catalogue = Inr catalogue_v2 \<and> built catalogue_v2"
  "canonical_v3 en empty_catalogue = Inr catalogue_v3 \<and> built catalogue_v3"
proof -
  have "agrees (\<lambda>c. if table_exists c ''compatibility_decisions'' then run_ddl en DropDecisions c else Inr c)
      (\<lambda>c. if table_exists c ''compatibility_decisions'' then run_ddl sqlite DropDecisions c else Inr c)"
    by (rule agrees_if [OF agrees_run agrees_Inr])
  from agrees_then [OF this agrees_run] have drop: "agrees
      (\<lambda>c. and_then (if table_exists c ''compatibility_decisions'' then run_ddl en DropDecisions c else Inr c) (run_ddl en EnsureDecisionsV2))
      (\<lambda>c. and_then (if table_exists c ''compatibility_decisions'' then run_ddl sqlite DropDecisions c else Inr c) (run_ddl sqlite EnsureDecisionsV2))" .
  obtain c1 c2 c3 where s: "run_ddl sqlite CreateSchema empty_catalogue = Inr c1"
    "(if table_exists c1 ''compatibility_decisions'' then run_ddl sqlite DropDecisions c1 else Inr c1) = Inr c2"
    "run_ddl sqlite EnsureDecisionsV2 c2 = Inr c3" "ensure_runtime_record_schema sqlite empty_db c3 = Inr catalogue_v2"
    using canonical_v2_catalogue
    unfolding canonical_v2_def prepare_canonical_v2_def ensure_record_schema_def and_then_Inr by blast
  have t1: "run_ddl en CreateSchema empty_catalogue = Inr c1" "built c1" using agreesD [OF agrees_run built_empty s(1)] by blast+
  have "and_then (if table_exists c1 ''compatibility_decisions'' then run_ddl en DropDecisions c1 else Inr c1) (run_ddl en EnsureDecisionsV2)
      = Inr c3 \<and> built c3"
    by (rule agreesD [OF drop t1(2)]) (simp only: s sum.case)
  with ensure_agrees [OF _ s(4) catalogues_ascii(1)] t1(1)
  show v2: "canonical_v2 en empty_catalogue = Inr catalogue_v2 \<and> built catalogue_v2"
    unfolding canonical_v2_def prepare_canonical_v2_def ensure_record_schema_def and_then_Inr by blast
  obtain d1 d2 d3 where r: "install_version_observation_columns sqlite catalogue_v2 = Inr d1" "run_ddl sqlite DropDecisions d1 = Inr d2"
    "run_ddl sqlite CreateDecisionsV3 d2 = Inr d3" "run_ddl sqlite EnsureSlice4 d3 = Inr catalogue_v3"
    using canonical_v3_catalogue unfolding canonical_v3_def canonical_v2_catalogue and_then_Inr by auto
  have "install_version_observation_columns en catalogue_v2 = Inr d1 \<and> built d1" using agreesD [OF agrees_observations _ r(1)] v2 by blast
  moreover from this have "run_ddl en DropDecisions d1 = Inr d2 \<and> built d2" using agreesD [OF agrees_run _ r(2)] by blast
  moreover from this have "run_ddl en CreateDecisionsV3 d2 = Inr d3 \<and> built d3" using agreesD [OF agrees_run _ r(3)] by blast
  moreover from this have "run_ddl en EnsureSlice4 d3 = Inr catalogue_v3 \<and> built catalogue_v3" using agreesD [OF agrees_run _ r(4)] by blast
  ultimately show "canonical_v3 en empty_catalogue = Inr catalogue_v3 \<and> built catalogue_v3"
    unfolding canonical_v3_def and_then_Inr using v2 by blast
qed

lemma physical_agrees: "validate_canonical_physical_schema en 2 = validate_canonical_physical_schema sqlite 2"
  "validate_canonical_physical_schema en 3 = validate_canonical_physical_schema sqlite 3"
  by (rule ext, simp add: validate_canonical_physical_schema_def reference_catalogue_def canonical_agrees
      canonical_v2_catalogue canonical_v3_catalogue)+

end

interpretation sqlite_engine: schema_engine sqlite
  by unfold_locales (simp_all add: sqlite_def)

end
