(* ===== verification/Upgrade.thy ===== *)
theory Upgrade
  imports Engines
begin

text \<open>
  Opening and reopening a store (\<open>initialize\<close>): what a file holds when the program accepts it,
  that an opened store reopens unchanged, that the schema the program creates passes its own
  checks, and what a legacy store becomes.
\<close>

section \<open>Batches that find everything in place\<close>

text \<open>A catalogue that the checks of version 3 accept, and that the last batch leaves alone.\<close>

definition catalogue_current :: "engine \<Rightarrow> catalogue \<Rightarrow> bool" where
  "catalogue_current en c =
     (run_ddl en EnsureSlice4 c = Inr c \<and> validate_canonical_physical_schema en 3 c = Inr ()
      \<and> validate_slice4_v3_schema c = Inr () \<and> v3_columns c = Inr () \<and> core_catalogue en c = Inr ()
      \<and> guard_triggers c = Inr () \<and> only_known_objects c)"

lemma core_catalogue_parts:
  assumes "core_catalogue en c = Inr ()"
  shows "t \<in> set core_required_tables \<Longrightarrow> table_exists c t" "events_triggers_valid en c = Inr ()"
    "validate_runtime_record_schema en c = Inr ()"
  using assms [unfolded core_catalogue_def all_ok_append all_ok_map] by (simp_all add: and_then_Inr)

lemma valid_trigger_exists: "valid_trigger c valid n = Inr () \<Longrightarrow> 0 < count_objects c ''trigger'' n"
proof (rule ccontr)
  assume v: "valid_trigger c valid n = Inr ()" and "\<not> 0 < count_objects c ''trigger'' n"
  then have "find (\<lambda>(t, m, _). t = ''trigger'' \<and> m = n) (ct_master c) = None"
    by (auto simp: count_objects_def filter_empty_conv find_None_iff)
  then show False using v by (simp add: valid_trigger_def optional_sql_def)
qed

lemma runtime_parts:
  assumes "validate_runtime_record_schema en c = Inr ()"
  shows "(n, s) \<in> set runtime_tables \<Longrightarrow> table_exists c n \<and> columns c n = map fst (column_specs s)"
    "t \<in> set runtime_immutable \<Longrightarrow> e \<in> {''update'', ''delete''} \<Longrightarrow> 0 < count_objects c ''trigger'' (''immutable_'' @ t @ ''_'' @ e)"
    "n \<in> set (take 2 projection_trigger_names) \<Longrightarrow> 0 < count_objects c ''trigger'' n"
proof -
  note parts = assms [unfolded validate_runtime_record_schema_def all_ok_append all_ok_map]
  show "table_exists c n \<and> columns c n = map fst (column_specs s)" if "(n, s) \<in> set runtime_tables"
    using bspec [OF conjunct1 [OF parts] that] by (simp add: runtime_table_def and_then_Inr exact_columns_def)
  show "0 < count_objects c ''trigger'' (''immutable_'' @ t @ ''_'' @ e)" if "t \<in> set runtime_immutable" "e \<in> {''update'', ''delete''}"
  proof -
    have "(t, e) \<in> set (List.product runtime_immutable [''update'', ''delete''])" using that by simp
    from bspec [OF conjunct1 [OF conjunct2 [OF conjunct2 [OF parts]]] this] show ?thesis
      by (auto dest: valid_trigger_exists)
  qed
  show "0 < count_objects c ''trigger'' n" if "n \<in> set (take 2 projection_trigger_names)"
  proof -
    have "n \<in> set [''immutable_playback_results_coherence_insert'', ''immutable_playback_results_coherence_update'']"
      using that by (simp add: projection_trigger_names_def)
    from bspec [OF conjunct2 [OF conjunct2 [OF conjunct2 [OF parts]]] this] show ?thesis by (rule valid_trigger_exists)
  qed
qed

lemma runtime_exists:
  assumes "validate_runtime_record_schema en c = Inr ()" "guard_triggers c = Inr ()"
  shows "exists_all c (created EnsureRecordTables)" "exists_all c (created EnsureProjectionTables)"
    "table \<in> set (tl record_tables) \<Longrightarrow> exists_all c (created (EnsureImmutable table))"
proof -
  have "map fst runtime_tables = record_tables @ slice3_tables"
    by (simp add: runtime_tables_def record_tables_def slice3_tables_def)
  then have "n \<in> fst ` set runtime_tables" if "n \<in> set record_tables \<union> set slice3_tables" for n
    using that by (metis set_append set_map)
  then have tables: "0 < count_objects c ''table'' n" if "n \<in> set record_tables \<union> set slice3_tables" for n
    using that runtime_parts(1) [OF assms(1)] by (fastforce simp: table_exists_def)
  have pair: "exists_all c (immutable_names t)" if "t \<in> set runtime_immutable" for t
    using runtime_parts(2) [OF assms(1) that] by (simp add: exists_all_def immutable_names_def immutable_pair_def)
  have drop2: "0 < count_objects c ''trigger'' n" if "n \<in> set (drop 2 projection_trigger_names)" for n
    using assms(2) [unfolded guard_triggers_def all_ok_map] that
    by (auto simp: trigger_exists_def projection_trigger_names_def)
  have "set projection_trigger_names = set (take 2 projection_trigger_names) \<union> set (drop 2 projection_trigger_names)"
    by (metis append_take_drop_id set_append)
  then have triggers: "0 < count_objects c ''trigger'' n" if "n \<in> set projection_trigger_names" for n
    using that drop2 runtime_parts(3) [OF assms(1)] by auto
  show "exists_all c (created EnsureRecordTables)" using tables by (simp add: exists_all_def list_all_iff)
  have "exists_all c (immutable_names ''projection_rebuilds'')" "exists_all c (immutable_names ''playback_results'')"
    "exists_all c (immutable_names ''captured_outcome_simulations'')"
    by (intro pair, simp add: runtime_immutable_def)+
  moreover have "exists_all c (map (Pair ''table'') slice3_tables)" "exists_all c (map (Pair ''trigger'') projection_trigger_names)"
    using tables triggers by (simp_all add: exists_all_def list_all_iff)
  ultimately show "exists_all c (created EnsureProjectionTables)"
    by (simp add: exists_all_def)
  show "exists_all c (created (EnsureImmutable table))" if "table \<in> set (tl record_tables)"
  proof -
    have "table \<in> set runtime_immutable" using that by (auto simp: record_tables_def runtime_immutable_def)
    then show ?thesis by (simp add: pair)
  qed
qed

lemma columns_present:
  assumes "validate_runtime_record_schema en c = Inr ()"
  shows "table \<in> set slice3_tables \<Longrightarrow> n \<in> {''schema_version'', ''source_lineage''} \<Longrightarrow> column_count c table n \<noteq> 0"
    "(n, x) \<in> set later_event_columns \<Longrightarrow> column_count c ''events'' n \<noteq> 0"
proof -
  have present: "column_count c table n \<noteq> 0" if "(table, s) \<in> set runtime_tables" "n \<in> set (map fst (column_specs s))" for table s n
    using runtime_parts(1) [OF assms that(1)] that(2) by (auto simp: column_count_def filter_empty_conv)
  have l: "list_all (\<lambda>(t, s). list_all (\<lambda>n. n \<in> set (map fst (column_specs s))) [''schema_version'', ''source_lineage'']) (drop 10 runtime_tables)"
    by code_simp
  have m: "map fst (drop 10 runtime_tables) = slice3_tables"
    by (simp add: runtime_tables_def slice3_tables_def)
  show "column_count c table n \<noteq> 0" if t: "table \<in> set slice3_tables" and n: "n \<in> {''schema_version'', ''source_lineage''}"
  proof -
    obtain s where s: "(table, s) \<in> set (drop 10 runtime_tables)"
      using t unfolding m [symmetric] set_map by auto
    have "n \<in> set (map fst (column_specs s))"
      using bspec [OF l [unfolded list_all_iff] s] n by auto
    then show ?thesis by (rule present [OF in_set_dropD [OF s]])
  qed
  have "fst (hd runtime_tables) = ''events''" "list_all (\<lambda>(n, x). n \<in> set (map fst (column_specs (snd (hd runtime_tables))))) later_event_columns"
    by code_simp+
  moreover have "hd runtime_tables \<in> set runtime_tables" by (simp add: runtime_tables_def)
  ultimately show "column_count c ''events'' n \<noteq> 0" if "(n, x) \<in> set later_event_columns"
    using present [of "fst (hd runtime_tables)" "snd (hd runtime_tables)" n] that
    by (metis (no_types, lifting) case_prod_conv list_all_iff prod.collapse)
qed

lemma record_table_events: "record_table en d ''events'' c
    = and_then (ambiguous_unless (list_all (\<lambda>r. ev_schema r = 1 \<and> ev_lineage r \<noteq> []) (events d))) (\<lambda>_. Inr c)"
  by (simp add: record_table_def)

text \<open>After the checks have passed, \<open>ensure_record_schema\<close> changes nothing.\<close>

lemma ensure_again:
  assumes run: "if_not_exists (run_ddl en)"
    and checks: "validate_runtime_record_schema en c = Inr ()" "guard_triggers c = Inr ()"
  shows "ensure_runtime_record_schema en d c = Inr c' \<longleftrightarrow> c' = c
    \<and> all_ok (map (\<lambda>(table, column, _, default'). default_valid c table column default')
         (List.product slice3_tables record_defaults)) = Inr ()
    \<and> list_all (\<lambda>r. ev_schema r = 1 \<and> ev_lineage r \<noteq> []) (events d)
    \<and> slice3_guards c d = Inr () \<and> events_triggers_valid en c = Inr ()"
proof -
  note ex = runtime_exists [OF checks]
  note idle = if_not_exists.run_nothing [OF run]
  have r1: "run_ddl en EnsureRecordTables c = Inr c"
    by (rule idle [OF _ ex(1)]) (simp add: record_tables_def)
  have r2: "run_ddl en EnsureProjectionTables c = Inr c"
    by (rule idle [OF _ ex(2)]) (simp add: slice3_tables_def)
  have r3: "for_each (\<lambda>table. for_each (\<lambda>(column, definition', _). add_missing_column en table (column, definition')) record_defaults)
      slice3_tables c = Inr c"
  proof (rule for_each_keeps, rule for_each_keeps)
    fix table and p assume "table \<in> set slice3_tables" "p \<in> set record_defaults"
    then show "(case p of (column, definition', _) \<Rightarrow> add_missing_column en table (column, definition')) c = Inr c"
      using columns_present(1) [OF checks(1), of table "fst p"] by (auto simp: record_defaults_def add_missing_column_def)
  qed
  have r4: "for_each (add_missing_column en ''events'') later_event_columns c = Inr c"
  proof (rule for_each_keeps)
    fix p assume "p \<in> set later_event_columns"
    then show "add_missing_column en ''events'' p c = Inr c"
      using columns_present(2) [OF checks(1), of "fst p" "snd p"] by (simp add: add_missing_column_def case_prod_unfold)
  qed
  have rest: "for_each (record_table en d) (tl record_tables) c = Inr c"
  proof (rule for_each_keeps)
    fix table assume t: "table \<in> set (tl record_tables)"
    then have "run_ddl en (EnsureImmutable table) c = Inr c"
      by (intro idle ex(3)) (simp_all add: immutable_names_def immutable_pair_def)
    moreover have "table \<noteq> ''events''" using t by (auto simp: record_tables_def)
    ultimately show "record_table en d table c = Inr c" by (simp add: record_table_def)
  qed
  have "record_tables = ''events'' # tl record_tables" by (simp add: record_tables_def)
  then have "for_each (record_table en d) record_tables c
      = and_then (record_table en d ''events'' c) (for_each (record_table en d) (tl record_tables))"
    by (metis for_each.simps(2))
  then have r5: "for_each (record_table en d) record_tables c
      = and_then (ambiguous_unless (list_all (\<lambda>r. ev_schema r = 1 \<and> ev_lineage r \<noteq> []) (events d))) (\<lambda>_. Inr c)"
    unfolding record_table_events using rest
    by (cases "list_all (\<lambda>r. ev_schema r = 1 \<and> ev_lineage r \<noteq> []) (events d)") simp_all
  have r6: "table_exists c ''events''"
    using ex(1) by (simp add: exists_all_def record_tables_def table_exists_def)
  have "trigger_exists c ''immutable_projections_insert''" "trigger_exists c ''immutable_projection_rebuild_status_insert''"
    using checks(2) [unfolded guard_triggers_def all_ok_map] by simp_all
  then show ?thesis
    by (auto simp: ensure_runtime_record_schema_def r1 r2 r3 r4 r5 r6 and_then_Inr simp del: all_ok_iff)
qed

lemma ensure_unchanged:
  assumes "if_not_exists (run_ddl en)" "validate_runtime_record_schema en c = Inr ()" "guard_triggers c = Inr ()"
    "ensure_runtime_record_schema en d c = Inr c'"
  shows "c' = c"
  using assms(4) by (simp add: ensure_again [OF assms(1-3)])

lemma ensure_same:
  assumes "events d = events d'" "validate_slice3_guards d = validate_slice3_guards d'"
  shows "ensure_runtime_record_schema en d = ensure_runtime_record_schema en d'"
proof -
  have "record_table en d = record_table en d'" unfolding fun_eq_iff record_table_def assms(1) by simp
  moreover have "slice3_guards c d = slice3_guards c d'" for c by (simp only: slice3_guards_def assms(2))
  ultimately show ?thesis by (intro ext) (simp only: ensure_runtime_record_schema_def)
qed

section \<open>Opening and reopening\<close>

text \<open>What the records of a file say when the program accepts it as version 3.\<close>

definition openable :: "(bytes \<Rightarrow> bytes) \<Rightarrow> store_file \<Rightarrow> bool" where
  "openable sha f = (sf_metadata f = [(''migration_lineage'', 1), (''schema_version'', 3)]
     \<and> (\<exists>ds. sf_decisions f = DecisionsV3 ds \<and> validate_v3_compatibility sha ds = Inr ())
     \<and> validate_slice3_guards (sf_db f) = Inr ()
     \<and> validate_records sha \<lparr>vc_origin = 3, vc_target = 3, vc_finalized = True\<rparr> (sf_metadata f) True
         (sf_decisions f) (sf_db f) = Inr ())"

lemma validate_records_context:
  "expected_metadata c = expected_metadata c' \<Longrightarrow> validate_records sha c m k ds d = validate_records sha c' m k ds d"
  by (simp only: validate_records_def)

lemma validate_records_metadata:
  assumes "validate_records sha c m k ds d = Inr ()"
  shows "m = [(''migration_lineage'', 1), (''schema_version'', fst (expected_metadata c))]" "k"
  using assms by (simp_all add: validate_records_def and_then_Inr expected_metadata_def)

lemma validate_core_Inr:
  assumes "validate_core sha en c f = Inr ()"
  shows "core_catalogue en (sf_catalogue f) = Inr ()" "guard_triggers (sf_catalogue f) = Inr ()"
    "validate_slice3_guards (sf_db f) = Inr ()" "intact en (sf_catalogue f) (sf_db f)"
    "only_known_objects (sf_catalogue f)"
    "validate_records sha c (sf_metadata f) True (sf_decisions f) (sf_db f) = Inr ()"
proof -
  have r: "validate_records sha c (sf_metadata f) (only_known_objects (sf_catalogue f)) (sf_decisions f) (sf_db f) = Inr ()"
    using assms by (simp add: validate_core_def and_then_Inr Let_def)
  then show k: "only_known_objects (sf_catalogue f)" by (rule validate_records_metadata(2))
  then show "validate_records sha c (sf_metadata f) True (sf_decisions f) (sf_db f) = Inr ()" using r by simp
qed (use assms in \<open>simp_all add: validate_core_def and_then_Inr slice3_guards_def Let_def\<close>)

lemma set_schema_simps [simp]:
  "sf_catalogue (set_schema_value n f) = sf_catalogue f" "sf_db (set_schema_value n f) = sf_db f"
  "sf_decisions (set_schema_value n f) = sf_decisions f" "sf_legacy (set_schema_value n f) = sf_legacy f"
  by (simp_all add: set_schema_value_def)

lemma validate_v3_Inr:
  assumes "validate_v3 sha en f = Inr ()"
  shows "validate_canonical_physical_schema en 3 (sf_catalogue f) = Inr ()" "validate_slice4_v3_schema (sf_catalogue f) = Inr ()"
    "v3_columns (sf_catalogue f) = Inr ()" "\<exists>ds. sf_decisions f = DecisionsV3 ds \<and> validate_v3_compatibility sha ds = Inr ()"
  using assms by (auto simp: validate_v3_def and_then_Inr split: decisions.splits)

lemma upgrade_steps:
  assumes "upgrade sha en origin f = Inr f'"
  obtains f1 c where "validate_v2_compatibility en \<lparr>vc_origin = origin, vc_target = 3, vc_finalized = False\<rparr> f = Inr ()"
    "migrate_v2_to_v3 sha en f = Inr f1" "run_ddl en EnsureSlice4 (sf_catalogue f1) = Inr c"
    "f' = set_schema_value 3 (f1\<lparr>sf_catalogue := c\<rparr>)"
    "validate_v3 sha en (f1\<lparr>sf_catalogue := c\<rparr>) = Inr ()"
    "validate_core sha en \<lparr>vc_origin = origin, vc_target = 3, vc_finalized = True\<rparr> f' = Inr ()"
  using assms by (auto simp: upgrade_def Let_def and_then_Inr)

lemma upgrade_openable:
  assumes "upgrade sha en origin f = Inr f'" shows "openable sha f'"
proof -
  let ?c = "\<lparr>vc_origin = origin, vc_target = 3, vc_finalized = True\<rparr>"
  obtain f1 c where v: "validate_v3 sha en (f1\<lparr>sf_catalogue := c\<rparr>) = Inr ()" and core: "validate_core sha en ?c f' = Inr ()"
    and f': "f' = set_schema_value 3 (f1\<lparr>sf_catalogue := c\<rparr>)"
    using assms by (rule upgrade_steps)
  note r = validate_core_Inr [OF core]
  have "sf_metadata f' = [(''migration_lineage'', 1), (''schema_version'', 3)]"
    using validate_records_metadata(1) [OF r(6)] by (simp add: expected_metadata_def)
  moreover have "validate_records sha \<lparr>vc_origin = 3, vc_target = 3, vc_finalized = True\<rparr> (sf_metadata f') True
      (sf_decisions f') (sf_db f') = Inr ()"
    using r(6) validate_records_context [of ?c "\<lparr>vc_origin = 3, vc_target = 3, vc_finalized = True\<rparr>"]
    by (simp add: expected_metadata_def)
  ultimately show ?thesis using validate_v3_Inr(4) [OF v] r(3) by (simp add: openable_def f')
qed

definition fresh_file :: "(bytes \<Rightarrow> bytes) \<Rightarrow> store_file" where
  "fresh_file sha = \<lparr>sf_catalogue = catalogue_v3, sf_metadata = [(''migration_lineage'', 1), (''schema_version'', 3)],
     sf_legacy = ([], []), sf_decisions = DecisionsV3 [slice4_row sha []], sf_db = empty_db\<rparr>"

lemma fresh_openable:
  assumes "sf_metadata f = [(''migration_lineage'', 1), (''schema_version'', 3)]"
    "sf_decisions f = DecisionsV3 [slice4_row sha []]" "sf_db f = empty_db"
  shows "openable sha f"
  using books_validate [OF empty_books, of _ "\<lparr>vc_origin = 3, vc_target = 3, vc_finalized = True\<rparr>" sha "[slice4_row sha []]"]
  by (simp add: openable_def assms slice4_alone_valid empty_guards expected_metadata_def)

lemma create_openable: "create_v3 sha en f = Inr f' \<Longrightarrow> openable sha f'"
  by (rule fresh_openable) (auto simp: create_v3_def and_then_Inr slice4_first set_schema_value_def fresh_metadata_def)

lemma reopen_steps:
  assumes "reopen_v3 sha en f = Inr f'"
  shows "run_ddl en EnsureSlice4 (sf_catalogue f) = Inr (sf_catalogue f')" "f' = f\<lparr>sf_catalogue := sf_catalogue f'\<rparr>"
    "validate_v3 sha en f' = Inr ()" "validate_core sha en \<lparr>vc_origin = 3, vc_target = 3, vc_finalized = True\<rparr> f' = Inr ()"
  using assms by (auto simp: reopen_v3_def and_then_Inr Let_def)

lemma reopen_openable:
  assumes "reopen_v3 sha en f = Inr f'" shows "openable sha f'"
proof -
  note s = reopen_steps [OF assms]
  note r = validate_core_Inr [OF s(4)]
  have "sf_metadata f' = [(''migration_lineage'', 1), (''schema_version'', 3)]"
    using validate_records_metadata(1) [OF r(6)] by (simp add: expected_metadata_def)
  then show ?thesis using r validate_v3_Inr(4) [OF s(3)] by (auto simp: openable_def)
qed

lemma migrate_v0_upgrades: "migrate_v0 sha pr en f = Inr f' \<Longrightarrow> \<exists>g. upgrade sha en 1 g = Inr f'"
  by (auto simp: migrate_v0_def and_then_Inr Let_def simp del: split_paired_Ex)

lemma decisions_case_Inr:
  "(case x of NoDecisions \<Rightarrow> Inl a | DecisionsV2 ds \<Rightarrow> g ds | DecisionsV3 ds' \<Rightarrow> Inl b) = Inr y
     \<longleftrightarrow> (\<exists>ds. x = DecisionsV2 ds \<and> g ds = Inr y)"
  by (cases x) auto

lemma migrate_v1_upgrades: "migrate_v1 sha en f = Inr f' \<Longrightarrow> \<exists>g. upgrade sha en 1 g = Inr f'"
  unfolding migrate_v1_def Let_def decisions_case_Inr and_then_Inr by blast

lemma initialize_cases:
  assumes "initialize sha pr en f = Inr f'"
  obtains (Create) g c where "schema_value f = None" "create_v3 sha en f = Inr g"
      "ensure_record_schema en (sf_db g) (sf_catalogue g) = Inr c" "f' = g\<lparr>sf_catalogue := c\<rparr>"
    | (Upgrade) origin h g c where "upgrade sha en origin h = Inr g"
      "ensure_record_schema en (sf_db g) (sf_catalogue g) = Inr c" "f' = g\<lparr>sf_catalogue := c\<rparr>"
    | (Reopen) "reopen_v3 sha en f = Inr f'"
proof -
  obtain g where g: "(case schema_value f of
          None \<Rightarrow> if nonempty (sf_catalogue f) then Inl AmbiguousSchema else create_v3 sha en f
        | Some v \<Rightarrow>
            if v = 0 then migrate_v0 sha pr en f
            else if v = 1 then migrate_v1 sha en f
            else if v = 2 then and_then (validate_canonical_physical_schema en 2 (sf_catalogue f)) (\<lambda>_. upgrade sha en 2 f)
            else if v = STORE_SCHEMA then reopen_v3 sha en f
            else if STORE_SCHEMA < v then Inl (UnsupportedSchema v)
            else Inl AmbiguousSchema) = Inr g"
    and last: "(if schema_value f \<noteq> Some STORE_SCHEMA
              then and_then (ensure_record_schema en (sf_db g) (sf_catalogue g)) (\<lambda>c. Inr (g\<lparr>sf_catalogue := c\<rparr>))
              else Inr g) = Inr f'"
    using assms unfolding initialize_def and_then_Inr by blast
  show thesis
  proof (cases "schema_value f")
    case None
    then show thesis using g last Create by (auto simp: and_then_Inr split: if_splits)
  next
    case (Some v)
    show thesis
    proof (cases "v = STORE_SCHEMA")
      case True
      then show thesis using Some g last Reopen by (auto simp: STORE_SCHEMA_def)
    next
      case False
      then obtain origin h where "upgrade sha en origin h = Inr g"
        using g migrate_v0_upgrades [of sha pr en f g] migrate_v1_upgrades [of sha en f g]
        by (auto simp: Some and_then_Inr split: if_splits)
      then show thesis using last Some False Upgrade by (auto simp: and_then_Inr)
    qed
  qed
qed

lemma openable_catalogue: "openable sha (f\<lparr>sf_catalogue := c\<rparr>) = openable sha f"
  by (simp add: openable_def)

lemma initialize_openable:
  assumes "initialize sha pr en f = Inr f'" shows "openable sha f'"
  using assms by (cases rule: initialize_cases)
    (auto simp: openable_catalogue dest: create_openable upgrade_openable reopen_openable)

text \<open>The catalogue that an opening leaves is current: the last batches find everything in place.\<close>

lemma initialize_current:
  assumes run: "if_not_exists (run_ddl en)" and "initialize sha pr en f = Inr f'" "schema_value f \<noteq> None"
  shows "catalogue_current en (sf_catalogue f') \<and> intact en (sf_catalogue f') (sf_db f')"
proof -
  have s4: "created EnsureSlice4 \<noteq> []" by (simp add: slice4_tables_def)
  note again = if_not_exists.run_again [OF run s4]
  show ?thesis using assms(2)
  proof (cases rule: initialize_cases)
    case Create
    then show ?thesis using assms(3) by simp
  next
    case (Upgrade origin h g c)
    obtain f1 c1 where u: "run_ddl en EnsureSlice4 (sf_catalogue f1) = Inr c1" "g = set_schema_value 3 (f1\<lparr>sf_catalogue := c1\<rparr>)"
      "validate_v3 sha en (f1\<lparr>sf_catalogue := c1\<rparr>) = Inr ()"
      "validate_core sha en \<lparr>vc_origin = origin, vc_target = 3, vc_finalized = True\<rparr> g = Inr ()"
      using Upgrade(1) by (rule upgrade_steps)
    note core = validate_core_Inr [OF u(4)]
    have "c = sf_catalogue g"
      using ensure_unchanged [OF run core_catalogue_parts(3) [OF core(1)] core(2)] Upgrade(2)
      by (simp add: ensure_record_schema_def)
    then show ?thesis
      using core again [OF u(1)] validate_v3_Inr [OF u(3)] by (simp add: Upgrade(3) u(2) catalogue_current_def)
  next
    case Reopen
    note s = reopen_steps [OF Reopen]
    show ?thesis
      using validate_core_Inr [OF s(4)] again [OF s(1)] validate_v3_Inr [OF s(3)] by (simp add: catalogue_current_def)
  qed
qed

lemma openable_reopens:
  assumes "openable sha f" "catalogue_current en (sf_catalogue f)" "intact en (sf_catalogue f) (sf_db f)"
  shows "initialize sha pr en f = Inr f"
proof -
  obtain ds where ds: "sf_decisions f = DecisionsV3 ds" "validate_v3_compatibility sha ds = Inr ()"
    using assms(1) by (auto simp: openable_def)
  let ?t = "\<lambda>r. (cd_from r, cd_to r)"
  have "map ?t (sort_key cd_id ds) \<in> {[(2, 3)], [(1, 2), (2, 3)], [(0, 1), (1, 2), (2, 3)]}"
    using ds(2) by (simp add: validate_v3_compatibility_def Let_def)
  then have "length (filter (\<lambda>t. t = (2, 3)) (map ?t (sort_key cd_id ds))) = 1" by auto
  moreover have "length (filter (\<lambda>t. t = (2, 3)) (map ?t (sort_key cd_id ds)))
      = length (filter (\<lambda>x. cd_from x = 2 \<and> cd_to x = 3) ds)"
    by (simp add: filter_map comp_def filter_sort)
  ultimately have r: "require_slice4_decision ds = Inr ()" by (simp add: require_slice4_decision_def)
  have c: "run_ddl en EnsureSlice4 (sf_catalogue f) = Inr (sf_catalogue f)"
    "validate_canonical_physical_schema en 3 (sf_catalogue f) = Inr ()" "validate_slice4_v3_schema (sf_catalogue f) = Inr ()"
    "v3_columns (sf_catalogue f) = Inr ()" "core_catalogue en (sf_catalogue f) = Inr ()"
    "guard_triggers (sf_catalogue f) = Inr ()" "only_known_objects (sf_catalogue f)"
    using assms(2) by (simp_all add: catalogue_current_def)
  have "table_exists (sf_catalogue f) ''schema_metadata''"
    by (rule core_catalogue_parts(1) [OF c(5)]) (simp add: core_required_tables_def)
  then have "schema_value f = Some 3" using assms(1) by (simp add: openable_def schema_value_def)
  moreover have "f\<lparr>sf_catalogue := sf_catalogue f\<rparr> = f" by simp
  moreover have "validate_v3 sha en f = Inr ()" using c ds by (simp add: validate_v3_def)
  moreover have "validate_core sha en \<lparr>vc_origin = 3, vc_target = 3, vc_finalized = True\<rparr> f = Inr ()"
    using assms(1,3) c by (auto simp: validate_core_def slice3_guards_def openable_def Let_def)
  ultimately show ?thesis
    using c(1) ds(1) r by (simp add: initialize_def STORE_SCHEMA_def reopen_v3_def Let_def)
qed

text \<open>A file of version 3 with a current catalogue is left as it is, if it opens.\<close>

lemma current_stays:
  assumes "catalogue_current en (sf_catalogue f)" "sf_metadata f = [(''migration_lineage'', 1), (''schema_version'', 3)]"
    "initialize sha pr en f = Inr f'"
  shows "f' = f"
proof -
  have c: "core_catalogue en (sf_catalogue f) = Inr ()" "run_ddl en EnsureSlice4 (sf_catalogue f) = Inr (sf_catalogue f)"
    using assms(1) by (simp_all add: catalogue_current_def)
  have "table_exists (sf_catalogue f) ''schema_metadata''"
    by (rule core_catalogue_parts(1) [OF c(1)]) (simp add: core_required_tables_def)
  then have "schema_value f = Some 3" by (simp add: schema_value_def assms(2))
  then have r: "reopen_v3 sha en f = Inr f'" using assms(3) by (auto simp: initialize_def STORE_SCHEMA_def and_then_Inr)
  then have "sf_catalogue f' = sf_catalogue f" using reopen_steps(1) [OF r] c(2) by simp
  then show ?thesis using reopen_steps(2) [OF r] by simp
qed

text \<open>Only the migration of version 0 writes records.\<close>

lemma upgrade_keeps: "upgrade sha en origin f = Inr g \<Longrightarrow> sf_db g = sf_db f \<and> sf_legacy g = sf_legacy f"
  by (erule upgrade_steps) (auto simp: migrate_v2_to_v3_def and_then_Inr decisions_case_Inr)

lemma migrate_v1_keeps: "migrate_v1 sha en f = Inr g \<Longrightarrow> sf_db g = sf_db f \<and> sf_legacy g = sf_legacy f"
  unfolding migrate_v1_def Let_def decisions_case_Inr and_then_Inr by (auto dest: upgrade_keeps)

lemma initialize_keeps:
  assumes "initialize sha pr en f = Inr f'" "schema_value f = Some v" "v \<noteq> 0"
  shows "sf_db f' = sf_db f \<and> sf_legacy f' = sf_legacy f"
proof -
  have k: "sf_db g = sf_db f \<and> sf_legacy g = sf_legacy f" if "upgrade sha en 2 f = Inr g \<or> migrate_v1 sha en f = Inr g \<or> reopen_v3 sha en f = Inr g" for g
    using that by (auto dest: upgrade_keeps migrate_v1_keeps simp: reopen_v3_def and_then_Inr Let_def)
  show ?thesis
    using assms by (auto simp: initialize_def STORE_SCHEMA_def and_then_Inr split: if_splits dest!: k [OF disjI1] k [OF disjI2, OF disjI1] k [OF disjI2, OF disjI2])
qed

text \<open>
  C3: opening a store is stable. Whatever file with a schema version was opened (0, 1, 2 or 3), the
  file that the opening leaves is opened again without an error and without a change: no
  migration runs twice, no batch of \<open>IF NOT EXISTS\<close> statements finds anything left to create, and
  no migration leaves a catalogue or a record that the program would then refuse. Unless the file
  was of version 0, whose tables are rewritten, opening it changes no record.
\<close>

theorem opened_store_reopens:
  assumes "if_not_exists (run_ddl en)" "initialize sha pr en f = Inr f'" "schema_value f = Some v"
  shows "initialize sha pr en f' = Inr f' \<and> (v \<noteq> 0 \<longrightarrow> sf_db f' = sf_db f \<and> sf_legacy f' = sf_legacy f)"
  using openable_reopens [OF initialize_openable [OF assms(2)]] initialize_current [OF assms(1,2)] assms(3)
    initialize_keeps [OF assms(2,3)] by simp

text \<open>
  The schema version decides, before anything is read or written: a file without a version
  is refused when its catalogue is not empty, a newer version is reported as unsupported with
  its number, and a negative one as ambiguous.
\<close>

theorem unknown_schema_refused:
  "(schema_value f = None \<and> nonempty (sf_catalogue f) \<longrightarrow> initialize sha pr en f = Inl AmbiguousSchema)
   \<and> (\<forall>v. schema_value f = Some v \<and> 3 < v \<longrightarrow> initialize sha pr en f = Inl (UnsupportedSchema v))
   \<and> (\<forall>v. schema_value f = Some v \<and> v < 0 \<longrightarrow> initialize sha pr en f = Inl AmbiguousSchema)"
  by (auto simp: initialize_def STORE_SCHEMA_def)

section \<open>A new store\<close>

lemma sqlite_intact [simp]: "intact sqlite c d"
  by (simp add: sqlite_def)

lemma current_v3: "catalogue_current sqlite catalogue_v3"
proof -
  have "run_ddl sqlite EnsureSlice4 catalogue_v3 = Inr catalogue_v3"
  proof (rule sqlite.run_again)
    show "created EnsureSlice4 \<noteq> []" by (simp add: slice4_tables_def)
    have "proper ((tbl_compatibility_decisions_v3 # upgraded_tables) @ slice4_tables_sql) objects_v3"
      using proper_v3 by (simp add: tables_v3_split)
    from slice4_run [OF this]
    show "run_ddl sqlite EnsureSlice4 (described (tbl_compatibility_decisions_v3 # upgraded_tables) objects_v2) = Inr catalogue_v3"
      by (simp only: sqlite_run_ddl catalogue_v3_def tables_v3_split append_Cons)
  qed
  moreover have "validate_canonical_physical_schema sqlite 3 catalogue_v3 = Inr ()"
    by (simp add: validate_canonical_physical_schema_def reference_catalogue_def canonical_v3_catalogue)
  ultimately show ?thesis
    by (simp add: catalogue_current_def slice4_schema_v3 v3_columns_v3 core_catalogue_v3 guards_v3 only_known_v3)
qed

lemma ensure_v3:
  assumes "list_all (\<lambda>r. ev_schema r = 1 \<and> ev_lineage r \<noteq> []) (events d)" "validate_slice3_guards d = Inr ()"
  shows "ensure_runtime_record_schema sqlite d catalogue_v3 = Inr catalogue_v3"
proof -
  have "all_ok (map (\<lambda>(table, column, _, default'). default_valid catalogue_v3 table column default')
      (List.product slice3_tables record_defaults)) = Inr ()"
    unfolding catalogue_v3_def by (rule defaults_ok_in [OF proper_v3]) (auto simp: tables_v3_def)
  then show ?thesis
    unfolding ensure_again [OF sqlite.if_not_exists_axioms core_catalogue_parts(3) [OF core_catalogue_v3] guards_v3]
    using assms core_catalogue_parts(2) [OF core_catalogue_v3] by (simp only: slice3_guards_def guards_v3 sum.case simp_thms)
qed

lemma fresh_run: "initialize sha pr sqlite empty_file = Inr (fresh_file sha)"
proof -
  have "list_all (\<lambda>r. ev_schema r = 1 \<and> ev_lineage r \<noteq> []) (events empty_db)" by (simp add: empty_db_def)
  from ensure_v3 [OF this empty_guards] show ?thesis
    by (simp add: initialize_def schema_value_def empty_file_def table_exists_def count_objects_def nonempty_def
        create_v3_def canonical_v3_catalogue slice4_first set_schema_value_def fresh_metadata_def
        ensure_record_schema_def fresh_file_def STORE_SCHEMA_def) (simp add: empty_catalogue_def canonical_v3_catalogue)
qed

text \<open>The same with any engine that treats the program's batches and ASCII letters like \<open>sqlite\<close>.\<close>

lemma current_any:
  assumes "schema_engine en" shows "catalogue_current en catalogue_v3"
proof -
  have "run_ddl en EnsureSlice4 catalogue_v3 = Inr catalogue_v3"
    using agreesD [OF schema_engine.agrees_run [OF assms], of catalogue_v3 EnsureSlice4 catalogue_v3]
      schema_engine.canonical_agrees(2) [OF assms] current_v3
    by (simp add: catalogue_current_def)
  then show ?thesis
    using current_v3 schema_engine.core_same [OF assms catalogues_ascii(2)] schema_engine.physical_agrees(2) [OF assms]
    by (simp add: catalogue_current_def)
qed

lemma fresh_any:
  assumes "schema_engine en" shows "initialize sha pr en empty_file = Inr (fresh_file sha)"
proof -
  have "list_all (\<lambda>r. ev_schema r = 1 \<and> ev_lineage r \<noteq> []) (events empty_db)" by (simp add: empty_db_def)
  from ensure_v3 [OF this empty_guards]
  have "ensure_runtime_record_schema en empty_db catalogue_v3 = Inr catalogue_v3"
    using schema_engine.ensure_agrees [OF assms _ _ catalogues_ascii(2)] schema_engine.canonical_agrees(2) [OF assms] by blast
  then show ?thesis
    using schema_engine.canonical_agrees(2) [OF assms]
    by (simp add: initialize_def schema_value_def empty_file_def table_exists_def count_objects_def nonempty_def
        empty_catalogue_def [THEN arg_cong, of ct_master] create_v3_def slice4_first set_schema_value_def fresh_metadata_def
        ensure_record_schema_def STORE_SCHEMA_def fresh_file_def)
qed

text \<open>
  C4: the program's schema passes the program's own checks. In an empty file the \<open>CREATE\<close>,
  \<open>ALTER\<close> and \<open>DROP\<close> statements of \<open>create_schema\<close>, \<open>ensure_runtime_record_schema\<close>,
  \<open>create_compatibility_v3\<close> and \<open>ensure_slice4_v3_schema\<close> build a catalogue in which every table,
  column, key, index, trigger and text that the checks ask for is as they want it, so that the new
  store opens, and opens again unchanged. Of the engine this needs what SQLite does with the
  program's batches on catalogues that these batches have built (\<open>sqlite_run\<close>), that ASCII letters
  are lowered as ASCII letters, and that a new file is intact.
\<close>

theorem created_store_opens:
  assumes "\<And>s c. built c \<Longrightarrow> run_ddl en s c = sqlite_run s c"
    "\<And>k. k < 128 \<Longrightarrow> lower_char en k = [if 65 \<le> k \<and> k \<le> 90 then k + 32 else k]"
    "intact en catalogue_v3 empty_db"
  shows "initialize sha pr en empty_file = Inr (fresh_file sha)
   \<and> initialize sha pr en (fresh_file sha) = Inr (fresh_file sha)"
proof
  have en: "schema_engine en" by unfold_locales (simp_all add: assms(1,2) sqlite_def)
  show "initialize sha pr en empty_file = Inr (fresh_file sha)" by (rule fresh_any [OF en])
  have "openable sha (fresh_file sha)" by (rule fresh_openable) (simp_all add: fresh_file_def)
  then show "initialize sha pr en (fresh_file sha) = Inr (fresh_file sha)"
    by (rule openable_reopens) (simp_all add: fresh_file_def current_any [OF en] assms(3))
qed

lemma created_store_opens_witness:
  "initialize demo_sha (\<lambda>_. True) sqlite empty_file = Inr (fresh_file demo_sha)
   \<and> initialize demo_sha (\<lambda>_. True) sqlite (fresh_file demo_sha) = Inr (fresh_file demo_sha)"
  by (rule created_store_opens) (simp_all add: sqlite_def)

section \<open>Migrating a legacy store\<close>

definition legacy_version_ok :: "(bytes \<Rightarrow> bytes) \<Rightarrow> legacy_artifact list \<Rightarrow> legacy_version list \<Rightarrow> legacy_version \<Rightarrow> bool" where
  "legacy_version_ok sha as vs v = (\<not> legacy_row_bad as vs v \<and> lv_hash v = hash_str sha (lv_canonical v))"

definition legacy_keys :: "legacy_artifact list \<Rightarrow> legacy_version list \<Rightarrow> bool" where
  "legacy_keys as vs = (distinct (map la_id as) \<and> distinct (map lv_id vs) \<and> distinct (map lv_operation vs))"

text \<open>The tables a legacy store becomes.\<close>

definition legacy_db ::
  "(bytes \<Rightarrow> bytes) \<Rightarrow> (nat \<Rightarrow> bool) \<Rightarrow> legacy_artifact list \<Rightarrow> legacy_version list \<Rightarrow> db" where
  "legacy_db sha pr as vs = empty_db\<lparr>artifacts := map migrated_artifact as, versions := map migrated_version vs,
     operations := map (migrated_operation sha pr) vs, lineage := map migrated_lineage vs\<rparr>"

lemma migrated_simps [simp]:
  "art_id (migrated_artifact a) = la_id a" "art_owner (migrated_artifact a) = la_owner a"
  "art_source (migrated_artifact a) = la_source a" "art_schema (migrated_artifact a) = 1"
  "ver_id (migrated_version v) = lv_id v" "ver_artifact (migrated_version v) = lv_artifact v"
  "ver_hash (migrated_version v) = lv_hash v" "ver_canonical (migrated_version v) = lv_canonical v"
  "ver_ancestry (migrated_version v) = lv_ancestry v" "ver_operation (migrated_version v) = lv_operation v"
  "ver_actor (migrated_version v) = lv_actor v" "ver_source (migrated_version v) = lv_source v"
  "ver_schema (migrated_version v) = 1" "ver_source_schema (migrated_version v) = 0"
  "ver_lineage (migrated_version v) = ''legacy''"
  "op_id (migrated_operation sha pr v) = lv_operation v" "op_version (migrated_operation sha pr v) = Some (lv_id v)"
  "op_lineage (migrated_operation sha pr v) = lv_ancestry v" "op_result (migrated_operation sha pr v) = ''accepted''"
  "op_code (migrated_operation sha pr v) = None" "op_schema (migrated_operation sha pr v) = 1"
  "lin_operation (migrated_lineage v) = lv_operation v" "lin_version (migrated_lineage v) = lv_id v"
  "lin_parent (migrated_lineage v) = lv_ancestry v"
  by (simp_all add: migrated_artifact_def migrated_version_def migrated_operation_def migrated_lineage_def)

lemma row_with_map: "row_with key k (map f xs) = map_option f (row_with (key \<circ> f) k xs)"
  by (induction xs) (simp_all add: row_with_def)

lemma comp_migrated: "art_id \<circ> migrated_artifact = la_id" "ver_id \<circ> migrated_version = lv_id"
  "op_id \<circ> migrated_operation sha pr = lv_operation"
  by (simp_all add: comp_def)

lemma migrated_version_valid:
  assumes "legacy_version_ok sha as vs v"
  shows "version_row_valid sha (legacy_db sha pr as vs) (migrated_version v)"
  using assms
  by (auto simp: version_row_valid_def Let_def legacy_db_def row_with_map comp_migrated legacy_version_ok_def
      legacy_row_bad_def split: option.splits dest: row_with_Some)

lemma legacy_books:
  assumes "legacy_keys as vs" "list_all (legacy_version_ok sha as vs) vs"
  shows "books_ok sha (legacy_db sha pr as vs)"
proof -
  have "lineage_of (migrated_version v) = migrated_lineage v" for v
    by (simp add: lineage_of_def migrated_lineage_def SCHEMA1_def)
  moreover have "filter (\<lambda>r. op_result r = ''accepted'') (map (migrated_operation sha pr) vs) = map (migrated_operation sha pr) vs"
    by simp
  moreover have "\<forall>v\<in>set vs. version_row_valid sha (legacy_db sha pr as vs) (migrated_version v)"
    using assms(2) migrated_version_valid by (simp add: list_all_iff)
  ultimately show ?thesis
    using assms(1) by (simp add: books_ok_def legacy_db_def legacy_keys_def comp_def operation_booked_def
        source_lineage_bad_def empty_db_def)
qed

lemma migrate_operations_all:
  assumes "distinct (map lv_operation (us @ vs))" "\<forall>v\<in>set vs. lv_id v \<in> ver_id ` set (versions d)
      \<and> opt_all (\<lambda>p. p \<in> ver_id ` set (versions d)) (lv_ancestry v)"
    "operations d = map (migrated_operation sha pr) us" "lineage d = map migrated_lineage us"
  shows "migrate_operations sha pr d vs = Some (d\<lparr>operations := map (migrated_operation sha pr) (us @ vs),
    lineage := map migrated_lineage (us @ vs)\<rparr>)"
  using assms
proof (induction vs arbitrary: us d)
  case (Cons v vs)
  let ?d = "d\<lparr>operations := operations d @ [migrated_operation sha pr v], lineage := lineage d @ [migrated_lineage v]\<rparr>"
  have o: "insert_operation d (migrated_operation sha pr v)
      = Some (d\<lparr>operations := operations d @ [migrated_operation sha pr v]\<rparr>)"
    using Cons.prems by (auto simp: insert_operation_def new_key_def)
  have l: "insert_lineage (d\<lparr>operations := operations d @ [migrated_operation sha pr v]\<rparr>) (migrated_lineage v) = Some ?d"
    using Cons.prems by (auto simp: insert_lineage_def new_key_def opt_all_def split: option.splits)
  have "migrate_operations sha pr ?d vs = Some (?d\<lparr>operations := map (migrated_operation sha pr) ((us @ [v]) @ vs),
      lineage := map migrated_lineage ((us @ [v]) @ vs)\<rparr>)"
    by (rule Cons.IH) (use Cons.prems in auto)
  then show ?case by (simp add: o l)
qed simp

lemma legacy_refs:
  assumes "\<not> legacy_row_bad as vs v"
  shows "lv_artifact v \<in> la_id ` set as" "opt_all (\<lambda>p. p \<in> lv_id ` set vs) (lv_ancestry v)"
  using assms row_with_None [of la_id "lv_artifact v" as]
  by (auto simp: legacy_row_bad_def opt_all_def dest!: row_with_Some split: option.splits)

text \<open>What a migration makes of the catalogue, apart from the records: of version 0, and of version 2.\<close>

definition migrated_catalogue :: "engine \<Rightarrow> catalogue \<Rightarrow> catalogue \<Rightarrow> bool" where
  "migrated_catalogue en c c' = (legacy_objects c = Inr () \<and> legacy_shape c = Inr ()
     \<and> (\<exists>c1 c2. run_ddl en RenameLegacy c = Inr c1 \<and> run_ddl en CreateSchema c1 = Inr c2 \<and> run_ddl en DropLegacy c2 = Inr c'))"

definition upgraded_catalogue :: "engine \<Rightarrow> catalogue \<Rightarrow> catalogue \<Rightarrow> bool" where
  "upgraded_catalogue en c c' = (validate_canonical_physical_schema en 2 c = Inr () \<and> v2_columns c = Inr ()
     \<and> validate_runtime_record_schema en c = Inr () \<and> guard_triggers c = Inr ()
     \<and> (\<exists>c1 c2. migration_catalogue en c = Inr c1 \<and> run_ddl en DropRenamedDecisions c1 = Inr c2 \<and> run_ddl en EnsureSlice4 c2 = Inr c')
     \<and> validate_canonical_physical_schema en 3 c' = Inr () \<and> validate_slice4_v3_schema c' = Inr () \<and> v3_columns c' = Inr ()
     \<and> core_catalogue en c' = Inr () \<and> guard_triggers c' = Inr () \<and> only_known_objects c')"

lemma migrate_catalogue:
  assumes "migrate sha pr en f = Inr g"
  shows "migrated_catalogue en (sf_catalogue f) (sf_catalogue g)"
    "sf_metadata f = [(''migration_lineage'', 0), (''schema_version'', 0)]"
  using assms by (auto simp: migrate_def migrated_catalogue_def and_then_Inr split: prod.splits)

lemma migrate_result:
  assumes c: "migrated_catalogue en (sf_catalogue f) c'" and k: "legacy_keys as vs" and leg: "sf_legacy f = (as, vs)"
    and m: "sf_metadata f = [(''migration_lineage'', 0), (''schema_version'', 0)]"
  shows "migrate sha pr en f = (if list_all (legacy_version_ok sha as vs) vs
    then Inr \<lparr>sf_catalogue = c', sf_metadata = fresh_metadata, sf_legacy = ([], []),
      sf_decisions = DecisionsV2 [migration_decision\<lparr>d2_id := 1\<rparr>], sf_db = legacy_db sha pr as vs\<rparr>
    else Inl AmbiguousSchema)"
proof (cases "list_all (legacy_version_ok sha as vs) vs")
  case True
  then have ok: "\<forall>v\<in>set vs. \<not> legacy_row_bad as vs v \<and> lv_hash v = hash_str sha (lv_canonical v)"
    by (simp add: list_all_iff legacy_version_ok_def)
  let ?d = "empty_db\<lparr>artifacts := map migrated_artifact as, versions := map migrated_version vs\<rparr>"
  have ids: "ver_id ` set (versions ?d) = lv_id ` set vs" by (simp add: image_image)
  have "copy_legacy as vs = Some ?d"
    using k ok legacy_refs [of as vs] by (simp add: copy_legacy_def legacy_keys_def list_all_iff)
  moreover have "migrate_operations sha pr ?d vs = Some (?d\<lparr>operations := map (migrated_operation sha pr) ([] @ vs),
      lineage := map migrated_lineage ([] @ vs)\<rparr>)"
  proof (rule migrate_operations_all)
    show "\<forall>v\<in>set vs. lv_id v \<in> ver_id ` set (versions ?d) \<and> opt_all (\<lambda>p. p \<in> ver_id ` set (versions ?d)) (lv_ancestry v)"
      unfolding ids using ok legacy_refs(2) [of as vs] by blast
  qed (use k in \<open>simp_all add: legacy_keys_def empty_db_def\<close>)
  moreover have "insert_decision_v2 [] migration_decision = Some [migration_decision\<lparr>d2_id := 1\<rparr>]"
    by (simp add: insert_decision_v2_def new_key_def next_id_def)
  ultimately show ?thesis
    using True ok c by (auto simp: migrated_catalogue_def migrate_def leg m list_all_iff list_ex_iff legacy_db_def)
next
  case False
  then show ?thesis
    using c by (auto simp: migrated_catalogue_def migrate_def leg m list_all_iff list_ex_iff legacy_version_ok_def
        ambiguous_unless_def)
qed

lemma upgrade_catalogue:
  assumes "upgrade sha en origin f = Inr g"
  shows "upgraded_catalogue en (sf_catalogue f) (sf_catalogue g)"
proof -
  let ?b = "\<lparr>vc_origin = origin, vc_target = 3, vc_finalized = False\<rparr>"
  obtain f1 c where u: "validate_v2_compatibility en ?b f = Inr ()"
    "migrate_v2_to_v3 sha en f = Inr f1" "run_ddl en EnsureSlice4 (sf_catalogue f1) = Inr c"
    "g = set_schema_value 3 (f1\<lparr>sf_catalogue := c\<rparr>)"
    "validate_v3 sha en (f1\<lparr>sf_catalogue := c\<rparr>) = Inr ()"
    "validate_core sha en \<lparr>vc_origin = origin, vc_target = 3, vc_finalized = True\<rparr> g = Inr ()"
    using assms by (rule upgrade_steps)
  have "validate_canonical_physical_schema en 2 (sf_catalogue f) = Inr ()" "v2_columns (sf_catalogue f) = Inr ()"
    "validate_runtime_record_schema en (sf_catalogue f) = Inr ()" "guard_triggers (sf_catalogue f) = Inr ()"
    using u(1) by (auto simp: validate_v2_compatibility_def and_then_Inr slice3_guards_def)
  moreover have "\<exists>c1. migration_catalogue en (sf_catalogue f) = Inr c1 \<and> run_ddl en DropRenamedDecisions c1 = Inr (sf_catalogue f1)"
    using u(2) by (auto simp: migrate_v2_to_v3_def and_then_Inr decisions_case_Inr)
  ultimately show ?thesis
    using u(3) validate_v3_Inr [OF u(5)] validate_core_Inr [OF u(6)] by (auto simp: upgraded_catalogue_def u(4))
qed

lemma upgrade_books:
  assumes c: "upgraded_catalogue en (sf_catalogue f) c'" and i: "intact en c' (sf_db f)"
    and b: "books_ok sha (sf_db f)" and g: "validate_slice3_guards (sf_db f) = Inr ()"
    and m: "sf_metadata f = [(''migration_lineage'', 1), (''schema_version'', origin)]"
    and ds: "sf_decisions f = DecisionsV2 ds" "distinct (map d2_id ds)" "known_history ds"
      "require_slice3_decision ds = Inr ()"
    and dig: "decision_digests_differ sha"
  shows "upgrade sha en origin f = Inr \<lparr>sf_catalogue = c', sf_metadata = [(''migration_lineage'', 1), (''schema_version'', 3)],
    sf_legacy = sf_legacy f, sf_decisions = DecisionsV3 (migrated_decisions sha ds), sf_db = sf_db f\<rparr>"
proof -
  note books = books_validate [OF b]
  have v3: "validate_v3_compatibility sha (migrated_decisions sha ds) = Inr ()"
    using ds(3) by (simp add: validate_migrated_iff)
  have "decisions_v3 sha ds = Inr (migrated_decisions sha ds)" by (rule known_history_migrates [OF ds(2) dig ds(3)])
  then obtain out where out: "migrate_decisions sha {} [] (sort_key d2_id ds) = Inr out"
    "slice4_decision sha out = Inr (migrated_decisions sha ds)"
    by (auto simp: decisions_v3_def and_then_Inr)
  obtain c1 c2 where r: "migration_catalogue en (sf_catalogue f) = Inr c1" "run_ddl en DropRenamedDecisions c1 = Inr c2"
    "run_ddl en EnsureSlice4 c2 = Inr c'"
    using c by (auto simp: upgraded_catalogue_def)
  let ?m = "f\<lparr>sf_catalogue := c2, sf_decisions := DecisionsV3 (migrated_decisions sha ds)\<rparr>"
  let ?f2 = "?m\<lparr>sf_catalogue := c'\<rparr>"
  let ?f3 = "set_schema_value 3 ?f2"
  let ?before = "\<lparr>vc_origin = origin, vc_target = 3, vc_finalized = False\<rparr>"
  have mig: "migrate_v2_to_v3 sha en f = Inr ?m" by (simp add: migrate_v2_to_v3_def r ds(1) out)
  have v2: "validate_v2_compatibility en ?before f = Inr ()"
    using c g ds by (auto simp: validate_v2_compatibility_def upgraded_catalogue_def m count_def expected_metadata_def slice3_guards_def)
  have val: "validate_v3 sha en ?f2 = Inr ()" using c v3 by (simp add: validate_v3_def upgraded_catalogue_def)
  have meta: "sf_metadata ?f3 = [(''migration_lineage'', 1), (''schema_version'', 3)]"
    by (simp add: set_schema_value_def m)
  have core1: "validate_core sha en ?before ?f2 = Inr ()"
    using c i g books [of "[(''migration_lineage'', 1), (''schema_version'', origin)]" ?before]
    by (simp add: validate_core_def upgraded_catalogue_def slice3_guards_def m expected_metadata_def)
  have core2: "validate_core sha en (?before\<lparr>vc_finalized := True\<rparr>) ?f3 = Inr ()"
    using c i g books [of "[(''migration_lineage'', 1), (''schema_version'', 3)]" "?before\<lparr>vc_finalized := True\<rparr>"]
    unfolding validate_core_def meta by (simp add: upgraded_catalogue_def slice3_guards_def expected_metadata_def)
  have "upgrade sha en origin f = Inr ?f3"
    using v2 mig val core1 core2 i by (simp add: upgrade_def Let_def r)
  also have "?f3 = \<lparr>sf_catalogue = c', sf_metadata = [(''migration_lineage'', 1), (''schema_version'', 3)],
    sf_legacy = sf_legacy f, sf_decisions = DecisionsV3 (migrated_decisions sha ds), sf_db = sf_db f\<rparr>"
    by (simp add: set_schema_value_def m)
  finally show ?thesis .
qed

lemma legacy_guards: "validate_slice3_guards (legacy_db sha pr as vs) = Inr ()" "events (legacy_db sha pr as vs) = []"
  by (simp_all add: validate_slice3_guards_iff guards_free_def legacy_db_def empty_db_def)

definition legacy_result ::
  "(bytes \<Rightarrow> bytes) \<Rightarrow> (nat \<Rightarrow> bool) \<Rightarrow> catalogue \<Rightarrow> legacy_artifact list \<Rightarrow> legacy_version list \<Rightarrow> store_file" where
  "legacy_result sha pr c as vs = \<lparr>sf_catalogue = c, sf_metadata = [(''migration_lineage'', 1), (''schema_version'', 3)],
     sf_legacy = ([], []), sf_decisions = DecisionsV3 (migrated_decisions sha legacy_decisions), sf_db = legacy_db sha pr as vs\<rparr>"

lemma migrate_v0_result:
  assumes c: "migrated_catalogue en (sf_catalogue f) c1" "ensure_runtime_record_schema en empty_db c1 = Inr c2"
      "run_ddl en EnsureEventTriggers c2 = Inr c3" "upgraded_catalogue en c3 c4"
    and i: "intact en c4 (legacy_db sha pr as vs)" and dig: "decision_digests_differ sha"
    and k: "legacy_keys as vs" and leg: "sf_legacy f = (as, vs)"
    and m: "sf_metadata f = [(''migration_lineage'', 0), (''schema_version'', 0)]"
  shows "migrate_v0 sha pr en f = (if list_all (legacy_version_ok sha as vs) vs then Inr (legacy_result sha pr c4 as vs)
    else Inl AmbiguousSchema)"
proof (cases "list_all (legacy_version_ok sha as vs) vs")
  case True
  let ?d = "legacy_db sha pr as vs"
  let ?g = "\<lparr>sf_catalogue = c3, sf_metadata = fresh_metadata, sf_legacy = ([], []), sf_decisions = DecisionsV2 legacy_decisions, sf_db = ?d\<rparr>"
  note l = legacy_decisions_known
  have "upgrade sha en 1 ?g = Inr (legacy_result sha pr c4 as vs)"
    using upgrade_books [of en ?g c4 sha 1 legacy_decisions] c(4) i dig legacy_books [OF k True] l
    by (simp add: legacy_guards fresh_metadata_def legacy_result_def)
  moreover have "ensure_runtime_record_schema en ?d c1 = Inr c2"
    using c(2) ensure_same [of ?d empty_db en] by (simp add: legacy_guards empty_guards) (simp add: empty_db_def)
  ultimately show ?thesis
    using True l(4) c(3) by (simp add: migrate_v0_def migrate_result [OF c(1) k leg m] map_err_def Let_def)
next
  case False
  then show ?thesis by (simp add: migrate_v0_def migrate_result [OF c(1) k leg m] map_err_def)
qed

text \<open>
  C5: the migration of a version 0 store, in full: it succeeds exactly when every legacy version
  names a recorded artifact of its actor and source, a recorded parent of the same artifact,
  actor and source (or none), carries the digest of its content, and has an id and an operation;
  otherwise the file stays as it was and is reported as ambiguous. The migrated file keeps every
  artifact and version, marked as legacy, records each version's operation as accepted with its
  lineage row, and holds the three decisions that tell the way from version 0 to 3. The catalogue
  is the one that the same statements make of the same file without rows.
\<close>

theorem legacy_migration_iff:
  assumes "decision_digests_differ sha" "schema_value f = Some 0" "sf_legacy f = (as, vs)" "legacy_keys as vs"
    "initialize sha pr en (f\<lparr>sf_legacy := ([], [])\<rparr>) = Inr g" "intact en (sf_catalogue g) (legacy_db sha pr as vs)"
    "if_not_exists (run_ddl en)"
  shows "initialize sha pr en f = (if list_all (legacy_version_ok sha as vs) vs
    then Inr (legacy_result sha pr (sf_catalogue g) as vs) else Inl AmbiguousSchema)"
proof -
  let ?e = "f\<lparr>sf_legacy := ([], [])\<rparr>"
  have sv: "schema_value ?e = Some 0" using assms(2) by (simp add: schema_value_def split: if_splits)
  obtain h where h: "migrate_v0 sha pr en ?e = Inr h" "ensure_record_schema en (sf_db h) (sf_catalogue h) = Inr (sf_catalogue g)"
    using assms(5) by (auto simp: initialize_def sv and_then_Inr STORE_SCHEMA_def)
  obtain f1 c2 c3 u where v0: "migrate sha pr en ?e = Inr f1" "ensure_runtime_record_schema en (sf_db f1) (sf_catalogue f1) = Inr c2"
    "run_ddl en EnsureEventTriggers c2 = Inr c3" "upgrade sha en 1 u = Inr h" "sf_catalogue u = c3"
    using h(1) by (auto simp: migrate_v0_def map_err_def and_then_Inr Let_def split: sum.splits)
  note m = migrate_catalogue [OF v0(1)]
  have e: "legacy_keys [] []" by (simp add: legacy_keys_def)
  have f1: "sf_db f1 = empty_db"
  proof -
    have "migrate sha pr en ?e = Inr \<lparr>sf_catalogue = sf_catalogue f1, sf_metadata = fresh_metadata, sf_legacy = ([], []),
      sf_decisions = DecisionsV2 [migration_decision\<lparr>d2_id := 1\<rparr>], sf_db = legacy_db sha pr [] []\<rparr>"
      using migrate_result [of en ?e "sf_catalogue f1" "[]" "[]" sha pr] m e by simp
    then have "f1 = \<lparr>sf_catalogue = sf_catalogue f1, sf_metadata = fresh_metadata, sf_legacy = ([], []),
      sf_decisions = DecisionsV2 [migration_decision\<lparr>d2_id := 1\<rparr>], sf_db = legacy_db sha pr [] []\<rparr>"
      unfolding v0(1) by (rule sum.inject(2) [THEN iffD1])
    from arg_cong [OF this, of sf_db] show ?thesis by (simp add: legacy_db_def empty_db_def)
  qed
  have up: "upgraded_catalogue en c3 (sf_catalogue h)" using upgrade_catalogue [OF v0(4)] by (simp add: v0(5))
  then have same: "sf_catalogue g = sf_catalogue h"
    using ensure_unchanged [OF assms(7) core_catalogue_parts(3), of "sf_catalogue h" "sf_db h" "sf_catalogue g"] h(2)
    by (simp add: upgraded_catalogue_def ensure_record_schema_def)
  note again = ensure_again [OF assms(7) core_catalogue_parts(3), of "sf_catalogue g" _ "sf_catalogue g"]
  have "ensure_record_schema en (legacy_db sha pr as vs) (sf_catalogue g) = Inr (sf_catalogue g)"
    using h(2) up again unfolding same [symmetric]
    by (auto simp: upgraded_catalogue_def ensure_record_schema_def legacy_guards slice3_guards_def and_then_Inr)
  moreover have "migrate_v0 sha pr en f = (if list_all (legacy_version_ok sha as vs) vs
      then Inr (legacy_result sha pr (sf_catalogue g) as vs) else Inl AmbiguousSchema)"
    by (rule migrate_v0_result [OF _ _ v0(3) _ assms(6,1,4,3)]) (use m v0(2) f1 up in \<open>simp_all add: same\<close>)
  ultimately show ?thesis
    by (simp add: initialize_def assms(2) STORE_SCHEMA_def) (simp add: legacy_result_def)
qed
text \<open>
  A migrated version answers for its own import: repeating the import that made it, under
  the same operation name, with the artifact named, is answered with the legacy version itself
  and changes nothing, although the version was recorded before fingerprints existed.
\<close>

theorem legacy_import_answered:
  assumes "legacy_keys as vs" "v \<in> set vs"
    and "r = \<lparr>i_operation = lv_operation v, i_actor = lv_actor v, i_source = lv_source v,
      i_content = lv_canonical v, i_file = None, i_expected_hash = h,
      i_ancestry = lv_ancestry v, i_artifact = Some (lv_artifact v), i_expected_identity = i\<rparr>"
  shows "import_artifact_version sha pr fs (legacy_db sha pr as vs) r
    = Some (Inr \<lparr>v_artifact_id = lv_artifact v, v_version_id = lv_id v, v_hash = lv_hash v,
        v_canonical = lv_canonical v, v_ancestry = lv_ancestry v\<rparr>, legacy_db sha pr as vs)"
proof -
  have "row_with lv_operation (lv_operation v) vs = Some v" "row_with lv_id (lv_id v) vs = Some v"
    using assms(1,2) row_with_unique by (auto simp: legacy_keys_def)
  then have "row_with op_id (lv_operation v) (operations (legacy_db sha pr as vs)) = Some (migrated_operation sha pr v)"
    "row_with ver_id (lv_id v) (versions (legacy_db sha pr as vs)) = Some (migrated_version v)"
    by (simp_all add: legacy_db_def row_with_map comp_migrated)
  moreover have "op_fingerprint (migrated_operation sha pr v) = base_fingerprint sha pr r"
    by (simp add: migrated_operation_def base_fingerprint_def assms(3) target_artifact_def)
  ultimately show ?thesis
    by (simp add: import_artifact_version_def import_path_def import_verdict_def retry_verdict_def Let_def assms(3)
        read_version_def)
qed


section \<open>Concrete files\<close>

text \<open>A file of version 0 as SQLite reports it.\<close>

definition legacy_metadata_text :: table_text where
  "legacy_metadata_text = (''schema_metadata'', ''CREATE TABLE schema_metadata(key TEXT PRIMARY KEY,value INTEGER NOT NULL)'',
     [(''key'', ''TEXT'', 0, None, 1), (''value'', ''INTEGER'', 1, None, 0)], [],
     [(''sqlite_autoindex_schema_metadata_1'', 1, ''pk'', [''key''])])"

definition legacy_artifacts_text :: table_text where
  "legacy_artifacts_text = (''artifacts'', ''CREATE TABLE artifacts(id TEXT PRIMARY KEY,owner TEXT NOT NULL,source TEXT NOT NULL)'',
     [(''id'', ''TEXT'', 0, None, 1), (''owner'', ''TEXT'', 1, None, 0), (''source'', ''TEXT'', 1, None, 0)], [],
     [(''sqlite_autoindex_artifacts_1'', 1, ''pk'', [''id''])])"

definition legacy_versions_text :: table_text where
  "legacy_versions_text = (''versions'', ''CREATE TABLE versions(id TEXT PRIMARY KEY,artifact_id TEXT NOT NULL,hash TEXT NOT NULL,''
       @ ''canonical TEXT NOT NULL,ancestry TEXT,operation TEXT NOT NULL UNIQUE,actor TEXT NOT NULL,source TEXT NOT NULL)'',
     [(''id'', ''TEXT'', 0, None, 1), (''artifact_id'', ''TEXT'', 1, None, 0), (''hash'', ''TEXT'', 1, None, 0),
      (''canonical'', ''TEXT'', 1, None, 0), (''ancestry'', ''TEXT'', 0, None, 0), (''operation'', ''TEXT'', 1, None, 0),
      (''actor'', ''TEXT'', 1, None, 0), (''source'', ''TEXT'', 1, None, 0)], [],
     [(''sqlite_autoindex_versions_2'', 1, ''u'', [''operation'']), (''sqlite_autoindex_versions_1'', 1, ''pk'', [''id''])])"

definition legacy_tables :: "table_text list" where
  "legacy_tables = [legacy_metadata_text, legacy_artifacts_text, legacy_versions_text]"

definition legacy_catalogue :: catalogue where
  "legacy_catalogue = described legacy_tables []"

definition renamed_tables :: "table_text list" where
  "renamed_tables = map (\<lambda>t. rename_text (fst t) (''legacy_'' @ fst t) t) legacy_tables"

lemma legacy_names: "fst legacy_metadata_text = ''schema_metadata''" "fst legacy_artifacts_text = ''artifacts''"
  "fst legacy_versions_text = ''versions''"
  by (simp_all add: legacy_metadata_text_def legacy_artifacts_text_def legacy_versions_text_def)

lemma rename_other: "fst t \<noteq> a \<Longrightarrow> rename_text a b t = t"
  by (cases t) (simp add: rename_text_def)

lemma rename_legacy: "sqlite_run RenameLegacy legacy_catalogue = Inr (described renamed_tables [])"
proof -
  have p: "proper ts []" if "distinct (map fst ts)" for ts using that by (simp add: proper_def)
  let ?r = "\<lambda>t. rename_text (fst t) (''legacy_'' @ fst t) t"
  have "rename_table ''schema_metadata'' ''legacy_schema_metadata'' (described legacy_tables [])
      = Inr (described [?r legacy_metadata_text, legacy_artifacts_text, legacy_versions_text] [])"
    using rename_described [OF p, of legacy_tables "''schema_metadata''" "''legacy_schema_metadata''"]
    by (simp add: legacy_tables_def legacy_names rename_other)
  moreover have "rename_table ''artifacts'' ''legacy_artifacts'' (described [?r legacy_metadata_text, legacy_artifacts_text, legacy_versions_text] [])
      = Inr (described [?r legacy_metadata_text, ?r legacy_artifacts_text, legacy_versions_text] [])"
    using rename_described [OF p, of "[?r legacy_metadata_text, legacy_artifacts_text, legacy_versions_text]" "''artifacts''" "''legacy_artifacts''"]
    by (simp add: legacy_names rename_other)
  moreover have "rename_table ''versions'' ''legacy_versions'' (described [?r legacy_metadata_text, ?r legacy_artifacts_text, legacy_versions_text] [])
      = Inr (described [?r legacy_metadata_text, ?r legacy_artifacts_text, ?r legacy_versions_text] [])"
    using rename_described [OF p, of "[?r legacy_metadata_text, ?r legacy_artifacts_text, legacy_versions_text]" "''versions''" "''legacy_versions''"]
    by (simp add: legacy_names rename_other)
  ultimately show ?thesis by (simp add: legacy_catalogue_def renamed_tables_def legacy_tables_def)
qed

lemma renamed_names: "map fst renamed_tables = [''legacy_schema_metadata'', ''legacy_artifacts'', ''legacy_versions'']"
  by (simp add: renamed_tables_def legacy_tables_def legacy_names)

lemma create_legacy: "sqlite_run CreateSchema (described renamed_tables [])
    = Inr (described (tbl_compatibility_decisions_v2 # renamed_tables @ schema_tables) schema_objects)"
proof -
  have names: "map fst schema_tables = [''schema_metadata'', ''artifacts'', ''versions'', ''operations'', ''lineage'', ''discrepancies'']"
    by (simp add: schema_tables_def table_names)
  have p: "proper (tbl_compatibility_decisions_v2 # renamed_tables @ schema_tables) schema_objects"
    using proper_base by (simp add: proper_def renamed_names names table_names flip: set_map)
  have q: "proper renamed_tables []" "proper (renamed_tables @ schema_tables) schema_objects"
    using p by (simp_all add: proper_def)
  have e: "ensure_all schema_tables schema_objects (described renamed_tables []) = described (renamed_tables @ schema_tables) schema_objects"
    using ensure_all_described [of renamed_tables schema_tables "[]" schema_objects] q(2) by simp
  have "\<not> list_ex (\<lambda>t. table_exists (described renamed_tables []) (fst t)) (schema_tables @ decisions_v2_table)"
    by (simp add: described_table [OF q(1)] renamed_names table_names schema_tables_def decisions_v2_table_def flip: set_map)
  moreover have "fold (ensure_table True) decisions_v2_table (described (renamed_tables @ schema_tables) schema_objects)
      = described (tbl_compatibility_decisions_v2 # renamed_tables @ schema_tables) schema_objects"
    using decisions_run(1) [OF p] by simp
  ultimately show ?thesis by (simp add: e)
qed

lemma drop_legacy: "sqlite_run DropLegacy (described (tbl_compatibility_decisions_v2 # renamed_tables @ schema_tables) schema_objects)
    = Inr (described base_tables schema_objects)"
proof -
  let ?os = schema_objects
  have names: "map fst schema_tables = [''schema_metadata'', ''artifacts'', ''versions'', ''operations'', ''lineage'', ''discrepancies'']"
    by (simp add: schema_tables_def table_names)
  obtain a b c where r: "renamed_tables = [a, b, c]"
    "fst a = ''legacy_schema_metadata''" "fst b = ''legacy_artifacts''" "fst c = ''legacy_versions''"
    using renamed_names by (auto simp: renamed_tables_def legacy_tables_def)
  have p: "proper (tbl_compatibility_decisions_v2 # us @ schema_tables) ?os" if "us \<in> {[a, b, c], [a, b], [a]}" for us
    using that proper_base by (auto simp: proper_def r(2-4) names table_names simp flip: set_map)
  have keep: "filter (\<lambda>t. fst t \<noteq> n) schema_tables = schema_tables" if "n \<notin> set (map fst schema_tables)" for n
    using that by (force simp: filter_id_conv)
  have "drop_table ''legacy_versions'' (described (tbl_compatibility_decisions_v2 # [a, b, c] @ schema_tables) ?os)
      = Inr (described (tbl_compatibility_decisions_v2 # [a, b] @ schema_tables) ?os)"
    using drop_described [OF p, of "[a, b, c]" "''legacy_versions''"] keep [of "''legacy_versions''"]
    by (simp add: r(2-4) table_names names)
  moreover have "drop_table ''legacy_artifacts'' (described (tbl_compatibility_decisions_v2 # [a, b] @ schema_tables) ?os)
      = Inr (described (tbl_compatibility_decisions_v2 # [a] @ schema_tables) ?os)"
    using drop_described [OF p, of "[a, b]" "''legacy_artifacts''"] keep [of "''legacy_artifacts''"]
    by (simp add: r(2-4) table_names names)
  moreover have "drop_table ''legacy_schema_metadata'' (described (tbl_compatibility_decisions_v2 # [a] @ schema_tables) ?os)
      = Inr (described base_tables ?os)"
    using drop_described [OF p, of "[a]" "''legacy_schema_metadata''"] keep [of "''legacy_schema_metadata''"]
    by (simp add: r(2-4) table_names names)
  ultimately show ?thesis by (simp add: r(1))
qed

lemma event_triggers_again: "sqlite_run EnsureEventTriggers catalogue_v2 = Inr catalogue_v2"
proof -
  have "exists_all catalogue_v2 (map object_key (immutable_sql ''events''))"
    unfolding exists_all_def list_all_iff
  proof (rule ballI, clarify)
    fix ty n assume "(ty, n) \<in> set (map object_key (immutable_sql ''events''))"
    then have "(ty, n) \<in> object_key ` set objects_v2" "ty \<noteq> ''table''"
      by (auto simp: objects_v2_def immutable_keys immutable_names_def immutable_pair_def image_Un simp flip: set_map)
    then show "0 < count_objects catalogue_v2 ty n" by (simp add: catalogue_v2_def described_object)
  qed
  then have "ensure_all [] (immutable_sql ''events'') catalogue_v2 = catalogue_v2" by (intro ensure_all_nothing) simp
  then show ?thesis by simp
qed

lemma migration_v2:
  "\<exists>c1 c2. migration_catalogue sqlite catalogue_v2 = Inr c1 \<and> sqlite_run DropRenamedDecisions c1 = Inr c2
     \<and> sqlite_run EnsureSlice4 c2 = Inr catalogue_v3"
proof -
  let ?r = "rename_text ''compatibility_decisions'' ''compatibility_decisions_v2'' tbl_compatibility_decisions_v2"
  let ?c1 = "described (tbl_compatibility_decisions_v2 # upgraded_tables) objects_v2"
  have names: "map fst tables_v3 = ''compatibility_decisions'' # map fst upgraded_tables @ map fst slice4_tables_sql"
    by (simp add: tables_v3_split table_names)
  have fresh: "''compatibility_decisions_v2'' \<notin> set (map fst tables_v3)"
    by (simp add: tables_v3_names record_tables_def slice3_tables_def)
  have r: "fst ?r = ''compatibility_decisions_v2''" by (simp add: table_names)
  have p3: "proper (tbl_compatibility_decisions_v3 # ?r # upgraded_tables @ slice4_tables_sql) objects_v3"
    using proper_v3 fresh unfolding proper_def names by (simp add: r table_names)
  have p2: "proper (tbl_compatibility_decisions_v3 # ?r # upgraded_tables) objects_v2"
    using p3 by (simp add: proper_def objects_v3_def)
  have "\<not> list_ex (table_exists catalogue_v2) slice4_tables"
    by (simp add: table_in_v2 tables_v2_names slice4_tables_def record_tables_def slice3_tables_def)
  moreover have "all_ok (map (\<lambda>t. ambiguous_unless (trigger_exists catalogue_v2 t)) event_triggers) = Inr ()"
  proof -
    have "(''trigger'', n) \<in> object_key ` set objects_v2" if "n \<in> set event_triggers" for n
      using that by (auto simp: objects_v2_def event_triggers_def immutable_sql_def trigger_sql_def)
    then show ?thesis by (simp add: catalogue_v2_def described_trigger)
  qed
  moreover have "install_version_observation_columns sqlite catalogue_v2 = Inr ?c1"
    using observations_run [OF proper_v2 versions_in] by (simp add: catalogue_v2_def observed_tables)
  moreover have "columns ?c1 ''events'' = map fst events_columns"
  proof -
    have "tbl_events \<in> set (tbl_compatibility_decisions_v2 # upgraded_tables)" by (simp add: upgraded_tables_def record_tables_sql_def)
    then show ?thesis
      using table_described(1) [OF proper_upgraded(1), of tbl_events]
      by (auto simp: columns_def table_names types_of_def typed_def simp flip: events_types)
  qed
  then have "length (columns ?c1 ''events'') = 8" by (simp add: events_columns_def)
  moreover have "columns ?c1 ''compatibility_decisions'' = decision_columns_v2"
    using table_described(1) [OF proper_upgraded(1), of tbl_compatibility_decisions_v2] decision_columns_text
    by (simp add: columns_def table_names)
  then have "all_ok (map (\<lambda>n. ambiguous_unless (column_count ?c1 ''compatibility_decisions'' n = 1)) decision_columns_v2) = Inr ()"
    by (simp add: column_count_def decision_columns_v2_def)
  moreover have "sqlite_run RenameDecisions ?c1 = Inr (described (?r # upgraded_tables) objects_v2)"
  proof -
    have "map (rename_text ''compatibility_decisions'' ''compatibility_decisions_v2'') upgraded_tables = upgraded_tables"
      using proper_upgraded(1) by (intro map_idI rename_other) (force simp: proper_def table_names)
    then show ?thesis
      using rename_described [OF proper_upgraded(1), of "''compatibility_decisions''" "''compatibility_decisions_v2''"] fresh
      by (simp add: names table_names)
  qed
  moreover have "sqlite_run CreateDecisionsV3 (described (?r # upgraded_tables) objects_v2)
      = Inr (described (tbl_compatibility_decisions_v3 # ?r # upgraded_tables) objects_v2)"
    by (rule decisions_run(2) [OF p2])
  moreover have "sqlite_run EnsureSlice4 (described (tbl_compatibility_decisions_v3 # ?r # upgraded_tables) objects_v2)
      = Inr (described (tbl_compatibility_decisions_v3 # ?r # upgraded_tables @ slice4_tables_sql) objects_v3)"
    using slice4_run [of "tbl_compatibility_decisions_v3 # ?r # upgraded_tables"] p3 by simp
  ultimately have m: "migration_catalogue sqlite catalogue_v2
      = Inr (described (tbl_compatibility_decisions_v3 # ?r # upgraded_tables @ slice4_tables_sql) objects_v3)"
    by (simp only: migration_catalogue_def sqlite_run_ddl sum.case ambiguous_unless_eq simp_thms)
  have "filter (\<lambda>t. fst t \<noteq> ''compatibility_decisions_v2'') tables_v3 = tables_v3"
    using fresh by (force simp: filter_id_conv)
  then have filt: "filter (\<lambda>t. fst t \<noteq> ''compatibility_decisions_v2'') (tbl_compatibility_decisions_v3 # ?r # upgraded_tables @ slice4_tables_sql) = tables_v3"
    by (simp add: tables_v3_split r table_names split: if_splits)
  have "''compatibility_decisions_v2'' \<in> fst ` set (tbl_compatibility_decisions_v3 # ?r # upgraded_tables @ slice4_tables_sql)"
    by (simp add: table_names)
  from drop_described [OF p3 this]
  have "sqlite_run DropRenamedDecisions (described (tbl_compatibility_decisions_v3 # ?r # upgraded_tables @ slice4_tables_sql) objects_v3)
      = Inr catalogue_v3"
    by (simp only: filt sqlite_run.simps catalogue_v3_def)
  then show ?thesis using m current_v3 by (auto simp: catalogue_current_def)
qed

lemma upgraded_v2: "upgraded_catalogue sqlite catalogue_v2 catalogue_v3"
proof -
  have "validate_canonical_physical_schema sqlite 2 catalogue_v2 = Inr ()"
    by (simp add: validate_canonical_physical_schema_def reference_catalogue_def canonical_v2_catalogue)
  then show ?thesis
    using migration_v2 current_v3
    by (simp add: upgraded_catalogue_def v2_columns_v2 runtime_schema_v2 guards_v2 catalogue_current_def)
qed

lemma history_with_slice3:
  "map unnumbered (sort_key d2_id ds) \<in> {[slice3_decision], [migration_decision, slice3_decision]}
     \<longleftrightarrow> known_history ds \<and> require_slice3_decision ds = Inr ()"
proof -
  have len: "length (filter P (sort_key d2_id ds)) = length (filter P ds)" for P :: "decision_v2 \<Rightarrow> bool"
    by (simp add: filter_sort)
  have req: "require_slice3_decision ds = Inr () \<longleftrightarrow>
      length (filter (\<lambda>x. d2_from x = 1 \<and> d2_to x = 2) (map unnumbered (sort_key d2_id ds))) = 1
      \<and> length (filter (\<lambda>x. x = slice3_decision) (map unnumbered (sort_key d2_id ds))) = 1"
    by (simp add: require_slice3_decision_def len filter_map comp_def unnumbered_def)
  have "d2_from slice3_decision = 1" "d2_to slice3_decision = 2" "d2_from migration_decision = 0"
    by (simp_all add: slice3_decision_def migration_decision_def)
  then show ?thesis unfolding req known_history_def by auto
qed

lemma upgrade_decisions:
  assumes "upgrade sha en origin f = Inr g" "sf_decisions f = DecisionsV2 ds"
  shows "known_history ds" "require_slice3_decision ds = Inr ()" "validate_slice3_guards (sf_db f) = Inr ()"
proof -
  let ?b = "\<lparr>vc_origin = origin, vc_target = 3, vc_finalized = False\<rparr>"
  obtain f1 c where u: "validate_v2_compatibility en ?b f = Inr ()" "migrate_v2_to_v3 sha en f = Inr f1"
    "run_ddl en EnsureSlice4 (sf_catalogue f1) = Inr c" "g = set_schema_value 3 (f1\<lparr>sf_catalogue := c\<rparr>)"
    "validate_v3 sha en (f1\<lparr>sf_catalogue := c\<rparr>) = Inr ()"
    "validate_core sha en \<lparr>vc_origin = origin, vc_target = 3, vc_finalized = True\<rparr> g = Inr ()"
    using assms(1) by (rule upgrade_steps)
  show "require_slice3_decision ds = Inr ()" "validate_slice3_guards (sf_db f) = Inr ()"
    using u(1) by (auto simp: validate_v2_compatibility_def and_then_Inr slice3_guards_def assms(2))
  obtain out ds3 where "migrate_decisions sha {} [] (sort_key d2_id ds) = Inr out" "slice4_decision sha out = Inr ds3"
    "sf_decisions f1 = DecisionsV3 ds3"
    using u(2) by (auto simp: migrate_v2_to_v3_def and_then_Inr assms(2))
  then have "sf_decisions f1 = DecisionsV3 (migrated_decisions sha ds)"
    using decisions_v3_Inr [of sha ds ds3] by (simp add: decisions_v3_def)
  then show "known_history ds" using validate_v3_Inr(4) [OF u(5)] by (simp add: validate_migrated_iff)
qed

text \<open>
  C6: the migration of a version 2 store, in full: a version 2 file with well-kept books is
  migrated exactly when its decisions tell one of the two histories the program itself writes (the
  step from 1 to 2, or the steps from 0 to 1 and from 1 to 2, in this order, with nothing added,
  altered or missing), its events are in order, and no record has a name that the guard rows use.
  The migrated file has the version 3 decisions, every record as it was, and the catalogue that the
  same statements make of the same file without rows. The digests of the three decisions are
  assumed to differ, since the table keeps them unique.
\<close>

theorem version2_upgrade_iff:
  assumes "decision_digests_differ sha" "if_not_exists (run_ddl en)" "schema_value f = Some 2"
    "sf_metadata f = [(''migration_lineage'', 1), (''schema_version'', 2)]"
    "sf_decisions f = DecisionsV2 ds" "distinct (map d2_id ds)" "books_ok sha (sf_db f)"
    "\<forall>r\<in>set (events (sf_db f)). ev_schema r = 1 \<and> ev_lineage r \<noteq> []"
    "initialize sha pr en (f\<lparr>sf_decisions := DecisionsV2 legacy_decisions, sf_db := empty_db\<rparr>) = Inr h"
    "intact en (sf_catalogue h) (sf_db f)"
  shows "initialize sha pr en f = Inr g \<longleftrightarrow>
    map unnumbered (sort_key d2_id ds) \<in> {[slice3_decision], [migration_decision, slice3_decision]}
    \<and> sorted_wrt (<) (map ev_sequence (events (sf_db f))) \<and> guards_free (sf_db f)
    \<and> g = f\<lparr>sf_catalogue := sf_catalogue h, sf_metadata := [(''migration_lineage'', 1), (''schema_version'', 3)],
            sf_decisions := DecisionsV3 (migrated_decisions sha ds)\<rparr>"
proof -
  let ?d = "sf_db f"
  let ?e = "f\<lparr>sf_decisions := DecisionsV2 legacy_decisions, sf_db := empty_db\<rparr>"
  let ?g = "f\<lparr>sf_catalogue := sf_catalogue h, sf_metadata := [(''migration_lineage'', 1), (''schema_version'', 3)],
    sf_decisions := DecisionsV3 (migrated_decisions sha ds)\<rparr>"
  have ev: "filter (\<lambda>r. ev_schema r = 1) (events ?d) = events ?d" using assms(8) by (simp add: filter_id_conv)
  have guards: "validate_slice3_guards ?d = Inr () \<longleftrightarrow> sorted_wrt (<) (map ev_sequence (events ?d)) \<and> guards_free ?d"
    by (simp add: validate_slice3_guards_iff ev)
  have init: "schema_value k = Some 2 \<Longrightarrow> initialize sha pr en k = Inr l \<longleftrightarrow>
      validate_canonical_physical_schema en 2 (sf_catalogue k) = Inr () \<and> (\<exists>l0 c. upgrade sha en 2 k = Inr l0
        \<and> ensure_record_schema en (sf_db l0) (sf_catalogue l0) = Inr c \<and> l = l0\<lparr>sf_catalogue := c\<rparr>)" for k l
    by (auto simp: initialize_def STORE_SCHEMA_def and_then_Inr)
  have "schema_value ?e = Some 2" using assms(3) by (simp add: schema_value_def split: if_splits)
  then obtain h0 where h0: "upgrade sha en 2 ?e = Inr h0"
    "ensure_record_schema en (sf_db h0) (sf_catalogue h0) = Inr (sf_catalogue h)"
    and phys: "validate_canonical_physical_schema en 2 (sf_catalogue f) = Inr ()"
    using assms(9) by (auto simp: init)
  have up: "upgraded_catalogue en (sf_catalogue f) (sf_catalogue h0)" using upgrade_catalogue [OF h0(1)] by simp
  then have checks: "validate_runtime_record_schema en (sf_catalogue h0) = Inr ()" "guard_triggers (sf_catalogue h0) = Inr ()"
    by (auto simp: upgraded_catalogue_def dest: core_catalogue_parts(3))
  have same: "sf_catalogue h = sf_catalogue h0"
    using ensure_unchanged [OF assms(2) checks] h0(2) by (simp add: ensure_record_schema_def)
  have ens: "ensure_record_schema en ?d (sf_catalogue h) = Inr (sf_catalogue h)" if "validate_slice3_guards ?d = Inr ()"
    using h0(2) that assms(8) unfolding same ensure_record_schema_def ensure_again [OF assms(2) checks]
    by (simp add: list_all_iff slice3_guards_def checks)
  have run: "upgrade sha en 2 f = Inr ?g"
    if "known_history ds" "require_slice3_decision ds = Inr ()" "validate_slice3_guards ?d = Inr ()"
    using upgrade_books [of en f "sf_catalogue h" sha 2 ds] that assms up by (simp add: same)
  have "initialize sha pr en f = Inr g \<longleftrightarrow>
      known_history ds \<and> require_slice3_decision ds = Inr () \<and> validate_slice3_guards ?d = Inr () \<and> g = ?g"
    (is "_ \<longleftrightarrow> ?R")
  proof
    assume "initialize sha pr en f = Inr g"
    then obtain g0 c where g0: "upgrade sha en 2 f = Inr g0" "ensure_record_schema en (sf_db g0) (sf_catalogue g0) = Inr c"
      "g = g0\<lparr>sf_catalogue := c\<rparr>"
      unfolding init [OF assms(3)] by blast
    note k = upgrade_decisions [OF g0(1) assms(5)]
    have "g0 = ?g" using g0(1) unfolding run [OF k] by simp
    then show ?R using k g0(2,3) ens [OF k(3)] by simp
  next
    assume R: ?R
    then have "ensure_record_schema en (sf_db ?g) (sf_catalogue ?g) = Inr (sf_catalogue h)" using ens by simp
    then show "initialize sha pr en f = Inr g" unfolding init [OF assms(3)] using run phys R by fastforce
  qed
  then show ?thesis unfolding history_with_slice3 using guards by blast
qed

lemma migrated_legacy: "migrated_catalogue sqlite legacy_catalogue (described base_tables schema_objects)"
proof -
  have "legacy_objects legacy_catalogue = Inr ()" "legacy_shape legacy_catalogue = Inr ()" by code_simp+
  then show ?thesis using rename_legacy create_legacy drop_legacy by (simp add: migrated_catalogue_def)
qed

definition demo_legacy_artifacts :: "legacy_artifact list" where
  "demo_legacy_artifacts = [\<lparr>la_id = ''a'', la_owner = ''me'', la_source = ''src''\<rparr>]"

definition demo_legacy_version :: legacy_version where
  "demo_legacy_version = \<lparr>lv_id = ''v2'', lv_artifact = ''a'', lv_hash = hash_str demo_sha ''world'',
     lv_canonical = ''world'', lv_ancestry = Some ''v1'', lv_operation = ''op2'', lv_actor = ''me'', lv_source = ''src''\<rparr>"

definition demo_legacy_versions :: "legacy_version list" where
  "demo_legacy_versions =
     [\<lparr>lv_id = ''v1'', lv_artifact = ''a'', lv_hash = hash_str demo_sha ''hello'', lv_canonical = ''hello'',
       lv_ancestry = None, lv_operation = ''op1'', lv_actor = ''me'', lv_source = ''src''\<rparr>, demo_legacy_version]"

definition demo_legacy_file :: store_file where
  "demo_legacy_file = \<lparr>sf_catalogue = legacy_catalogue,
     sf_metadata = [(''migration_lineage'', 0), (''schema_version'', 0)],
     sf_legacy = (demo_legacy_artifacts, demo_legacy_versions), sf_decisions = NoDecisions, sf_db = empty_db\<rparr>"

lemma demo_legacy_keys: "legacy_keys demo_legacy_artifacts demo_legacy_versions"
  by code_simp

lemma demo_legacy_ok:
  "list_all (legacy_version_ok demo_sha demo_legacy_artifacts demo_legacy_versions) demo_legacy_versions"
  by code_simp

lemma demo_schema_value: "schema_value demo_legacy_file = Some 0"
proof -
  have "table_exists legacy_catalogue ''schema_metadata''" by code_simp
  then show ?thesis by (simp add: schema_value_def demo_legacy_file_def)
qed

lemma demo_legacy_empty: "initialize demo_sha (\<lambda>_. True) sqlite (demo_legacy_file\<lparr>sf_legacy := ([], [])\<rparr>)
    = Inr (legacy_result demo_sha (\<lambda>_. True) catalogue_v3 [] [])"
proof -
  let ?e = "demo_legacy_file\<lparr>sf_legacy := ([], [])\<rparr>"
  have ev: "list_all (\<lambda>r. ev_schema r = 1 \<and> ev_lineage r \<noteq> []) (events empty_db)" by (simp add: empty_db_def)
  have "schema_value ?e = Some 0" using demo_schema_value by (simp add: schema_value_def split: if_splits)
  moreover have "migrate_v0 demo_sha (\<lambda>_. True) sqlite ?e = Inr (legacy_result demo_sha (\<lambda>_. True) catalogue_v3 [] [])"
    using migrate_v0_result [of sqlite ?e "described base_tables schema_objects" catalogue_v2 catalogue_v2 catalogue_v3
        demo_sha "\<lambda>_. True" "[]" "[]"] migrated_legacy ensure_runtime_v2 [OF ev empty_guards] event_triggers_again upgraded_v2 demo_digests
    by (simp add: demo_legacy_file_def legacy_keys_def)
  moreover have "ensure_record_schema sqlite (legacy_db demo_sha (\<lambda>_. True) [] []) catalogue_v3 = Inr catalogue_v3"
    unfolding ensure_record_schema_def by (rule ensure_v3) (simp_all add: legacy_guards)
  ultimately show ?thesis by (simp add: initialize_def STORE_SCHEMA_def) (simp add: legacy_result_def)
qed

lemma opened_store_reopens_witness:
  "initialize demo_sha (\<lambda>_. True) sqlite (legacy_result demo_sha (\<lambda>_. True) catalogue_v3 [] [])
    = Inr (legacy_result demo_sha (\<lambda>_. True) catalogue_v3 [] [])"
proof -
  have "schema_value (demo_legacy_file\<lparr>sf_legacy := ([], [])\<rparr>) = Some 0"
    using demo_schema_value by (simp add: schema_value_def split: if_splits)
  from opened_store_reopens [OF sqlite.if_not_exists_axioms demo_legacy_empty this] show ?thesis by blast
qed

lemma unknown_schema_refused_witness:
  "initialize demo_sha (\<lambda>_. True) sqlite (demo_legacy_file\<lparr>sf_metadata := [(''schema_version'', 4)]\<rparr>) = Inl (UnsupportedSchema 4)
   \<and> initialize demo_sha (\<lambda>_. True) sqlite (demo_legacy_file\<lparr>sf_metadata := []\<rparr>) = Inl AmbiguousSchema"
proof -
  have t: "table_exists legacy_catalogue ''schema_metadata''" "nonempty legacy_catalogue" by code_simp+
  show ?thesis
    using unknown_schema_refused [of "demo_legacy_file\<lparr>sf_metadata := [(''schema_version'', 4)]\<rparr>" demo_sha "\<lambda>_. True" sqlite]
      unknown_schema_refused [of "demo_legacy_file\<lparr>sf_metadata := []\<rparr>" demo_sha "\<lambda>_. True" sqlite]
    by (simp add: schema_value_def demo_legacy_file_def t)
qed

definition demo_v2_file :: store_file where
  "demo_v2_file = \<lparr>sf_catalogue = catalogue_v2, sf_metadata = [(''migration_lineage'', 1), (''schema_version'', 2)],
     sf_legacy = ([], []), sf_decisions = DecisionsV2 legacy_decisions,
     sf_db = legacy_db demo_sha (\<lambda>_. True) demo_legacy_artifacts demo_legacy_versions\<rparr>"

lemma demo_v2_schema: "schema_value demo_v2_file = Some 2"
  using tables_v2_names by (simp add: schema_value_def demo_v2_file_def table_in_v2)

lemma demo_v2_empty: "initialize demo_sha (\<lambda>_. True) sqlite
    (demo_v2_file\<lparr>sf_decisions := DecisionsV2 legacy_decisions, sf_db := empty_db\<rparr>)
    = Inr (legacy_result demo_sha (\<lambda>_. True) catalogue_v3 [] [])"
proof -
  let ?e = "demo_v2_file\<lparr>sf_decisions := DecisionsV2 legacy_decisions, sf_db := empty_db\<rparr>"
  have "schema_value ?e = Some 2" using demo_v2_schema by (simp add: schema_value_def split: if_splits)
  moreover have "upgrade demo_sha sqlite 2 ?e = Inr (legacy_result demo_sha (\<lambda>_. True) catalogue_v3 [] [])"
    using upgrade_books [of sqlite ?e catalogue_v3 demo_sha 2 legacy_decisions] upgraded_v2 empty_books empty_guards
      legacy_decisions_known demo_digests
    by (simp add: demo_v2_file_def legacy_result_def legacy_db_def) (simp add: empty_db_def)
  moreover have "ensure_record_schema sqlite (legacy_db demo_sha (\<lambda>_. True) [] []) catalogue_v3 = Inr catalogue_v3"
    unfolding ensure_record_schema_def by (rule ensure_v3) (simp_all add: legacy_guards)
  ultimately show ?thesis
    using upgraded_v2 by (simp add: initialize_def STORE_SCHEMA_def upgraded_catalogue_def demo_v2_file_def)
      (simp add: legacy_result_def)
qed

lemma version2_upgrade_iff_witness:
  "\<exists>g. initialize demo_sha (\<lambda>_. True) sqlite demo_v2_file = Inr g \<and> sf_db g = sf_db demo_v2_file
     \<and> length (versions (sf_db g)) = 2"
proof -
  let ?d = "legacy_db demo_sha (\<lambda>_. True) demo_legacy_artifacts demo_legacy_versions"
  have b: "books_ok demo_sha (sf_db demo_v2_file)"
    using legacy_books [OF demo_legacy_keys demo_legacy_ok] by (simp add: demo_v2_file_def)
  have e: "events (sf_db demo_v2_file) = []" by (simp add: demo_v2_file_def legacy_guards)
  have "guards_free ?d" using legacy_guards(1) by (simp add: validate_slice3_guards_iff)
  moreover have "map unnumbered (sort_key d2_id legacy_decisions) \<in> {[slice3_decision], [migration_decision, slice3_decision]}"
    using legacy_decisions_known(2,3) by (simp only: history_with_slice3)
  ultimately show ?thesis
    using version2_upgrade_iff [OF demo_digests sqlite.if_not_exists_axioms demo_v2_schema _ _ legacy_decisions_known(1) b _ demo_v2_empty]
      e
    by (simp add: demo_v2_file_def) (simp add: legacy_db_def demo_legacy_versions_def)
qed

lemma legacy_migration_iff_witness:
  "\<exists>f'. initialize demo_sha (\<lambda>_. True) sqlite demo_legacy_file = Inr f'
     \<and> map ver_id (versions (sf_db f')) = [''v1'', ''v2''] \<and> map op_id (operations (sf_db f')) = [''op1'', ''op2'']"
proof -
  have "initialize demo_sha (\<lambda>_. True) sqlite demo_legacy_file
      = Inr (legacy_result demo_sha (\<lambda>_. True) catalogue_v3 demo_legacy_artifacts demo_legacy_versions)"
    using legacy_migration_iff [OF demo_digests demo_schema_value _ demo_legacy_keys demo_legacy_empty _ sqlite.if_not_exists_axioms]
      demo_legacy_ok
    by (simp add: demo_legacy_file_def) (simp add: legacy_result_def)
  then show ?thesis by (simp add: legacy_result_def legacy_db_def demo_legacy_versions_def demo_legacy_version_def)
qed

lemma legacy_import_answered_witness:
  "\<exists>res. import_artifact_version demo_sha (\<lambda>_. True) (\<lambda>_. demo_fs)
      (legacy_db demo_sha (\<lambda>_. True) demo_legacy_artifacts demo_legacy_versions)
      \<lparr>i_operation = ''op2'', i_actor = ''me'', i_source = ''src'', i_content = ''world'', i_file = None,
       i_expected_hash = None, i_ancestry = Some ''v1'', i_artifact = Some ''a'', i_expected_identity = None\<rparr>
    = Some (Inr res, legacy_db demo_sha (\<lambda>_. True) demo_legacy_artifacts demo_legacy_versions) \<and> v_version_id res = ''v2''"
  using legacy_import_answered [OF demo_legacy_keys, of demo_legacy_version _ None None demo_sha "\<lambda>_. True" "\<lambda>_. demo_fs"]
  by (simp add: demo_legacy_versions_def demo_legacy_version_def)

end
