(* ===== verification/Diagnostics.thy ===== *)
theory Diagnostics
  imports Opening
begin

text \<open>
  What \<open>schema::initialize\<close> prints to standard error on its way (\<open>src/src/artifacts/schema.rs\<close>): the
  \<open>eprintln!\<close> lines of \<open>validate_canonical_physical_schema\<close> and \<open>validate_slice4_v3_schema\<close> and
  the two in the migrations. They are printed whether the opening succeeds or not, so each function
  here follows its function of \<open>Opening\<close> and gives the lines printed until that one ends. \<open>pr\<close> is
  what \<open>Debug\<close> prints of a character, \<open>ho\<close> the order in which a \<open>HashMap\<close> hands out its entries.
\<close>

section \<open>The lines\<close>

definition after :: "'e + 'a \<Rightarrow> ('a \<Rightarrow> str list) \<Rightarrow> str list" where
  "after x f = (case x of Inl _ \<Rightarrow> [] | Inr a \<Rightarrow> f a)"

lemma after_simps [simp]: "after (Inl e) f = []" "after (Inr a) f = f a"
  by (simp_all add: after_def)

definition passed_line :: str where
  "passed_line = ''DIAGNOSTIC physical comparison passed; next predicate: ''
     @ ''validate_slice4_v3_schema table reconciliation_runs existence''"

definition next_line :: str where
  "next_line = ''DIAGNOSTIC validate_slice4_v3_schema passed; next predicate: validate_v3_compatibility''"

definition debug_object :: "(nat \<Rightarrow> bool) \<Rightarrow> str \<times> str \<times> str \<Rightarrow> str" where
  "debug_object pr = (\<lambda>(t, n, sql). ''('' @ debug_str pr t @ '', '' @ debug_str pr n @ '', '' @ debug_str pr sql @ '')'')"

text \<open>The report on a catalogue that is not the reference.\<close>

definition difference_lines ::
  "(nat \<Rightarrow> bool) \<Rightarrow> int \<Rightarrow> (str \<times> str \<times> str) list \<Rightarrow> (str \<times> str \<times> str) list \<Rightarrow> str list" where
  "difference_lines pr version actual expected =
     [''DIAGNOSTIC physical schema version='' @ dec_int version]
     @ map (\<lambda>x. ''DIAGNOSTIC actual-only: '' @ debug_object pr x) (filter (\<lambda>x. x \<notin> set expected) actual)
     @ map (\<lambda>x. ''DIAGNOSTIC reference-only: '' @ debug_object pr x) (filter (\<lambda>x. x \<notin> set actual) expected)
     @ concat (map (\<lambda>(t, n, sql).
         case find (\<lambda>(t', n', _). t' = t \<and> n' = n) expected of
           None \<Rightarrow> []
         | Some (_, _, sql') \<Rightarrow>
             if sql = sql' then []
             else [''DIAGNOSTIC same-name SQL difference '' @ t @ ''/'' @ n @ '': actual='' @ debug_str pr sql
               @ '' reference='' @ debug_str pr sql']) actual)"

definition physical_lines :: "(nat \<Rightarrow> bool) \<Rightarrow> engine \<Rightarrow> int \<Rightarrow> catalogue \<Rightarrow> str list" where
  "physical_lines pr en version c =
     after (reference_catalogue en version) (\<lambda>r.
       if physical_descriptor c \<noteq> physical_descriptor r
       then difference_lines pr version (physical_descriptor c) (physical_descriptor r)
       else [passed_line])"

text \<open>The columns of a table with their defaults as \<open>HashMap<String, Option<String>>\<close>, printed by \<open>Debug\<close>.\<close>

definition debug_columns ::
  "(nat \<Rightarrow> bool) \<Rightarrow> ((str \<times> str option) list \<Rightarrow> (str \<times> str option) list) \<Rightarrow> catalogue \<Rightarrow> str \<Rightarrow> str" where
  "debug_columns pr ho c table =
     (let entries = map (\<lambda>i. (ci_name i, ci_default i)) (table_info c table) in
      ''{'' @ join_with '', '' (map (\<lambda>(n, v). debug_str pr n @ '': '' @ debug_opt_str pr v)
        (ho (map (\<lambda>n. (n, the (map_of (rev entries) n))) (remdups (map fst entries))))) @ ''}'')"

text \<open>Each predicate of \<open>validate_slice4_v3_schema\<close> with the line printed when it is the first to fail.\<close>

definition slice4_predicates ::
  "(nat \<Rightarrow> bool) \<Rightarrow> ((str \<times> str option) list \<Rightarrow> (str \<times> str option) list) \<Rightarrow> catalogue \<Rightarrow> ((error + unit) \<times> str) list" where
  "slice4_predicates pr ho c =
     map (\<lambda>t. (ambiguous_unless (table_exists c t),
         ''DIAGNOSTIC first post-physical predicate failed: required table '' @ t @ '' missing'')) slice4_tables
     @ map (\<lambda>n. (ambiguous_unless (index_exists c n),
         ''DIAGNOSTIC post-physical predicate failed: required index '' @ n @ '' missing'')) slice4_indexes
     @ map (\<lambda>(t, suffix). (ambiguous_unless (trigger_exists c (t @ ''_immutable_'' @ suffix)),
         ''DIAGNOSTIC post-physical predicate failed: required trigger '' @ t @ ''_immutable_'' @ suffix @ '' missing''))
         (List.product slice4_tables [''update'', ''delete''])
     @ map (\<lambda>(t, required). (slice4_table_columns c (t, required),
         ''DIAGNOSTIC post-physical predicate failed: required columns/defaults for '' @ t @ ''; actual=''
           @ debug_columns pr ho c t)) slice4_columns"

definition slice4_lines ::
  "(nat \<Rightarrow> bool) \<Rightarrow> ((str \<times> str option) list \<Rightarrow> (str \<times> str option) list) \<Rightarrow> catalogue \<Rightarrow> str list" where
  "slice4_lines pr ho c = (case find (\<lambda>(x, _). \<not> is_ok x) (slice4_predicates pr ho c) of
     None \<Rightarrow> [] | Some (_, line) \<Rightarrow> [line])"

section \<open>Opening\<close>

text \<open>The two checks of a version 3 catalogue; the migrations of version 0 and 1 announce the next one.\<close>

definition v3_lines ::
  "(nat \<Rightarrow> bool) \<Rightarrow> ((str \<times> str option) list \<Rightarrow> (str \<times> str option) list) \<Rightarrow> engine \<Rightarrow> bool \<Rightarrow> catalogue \<Rightarrow> str list" where
  "v3_lines pr ho en announced c =
     physical_lines pr en 3 c
     @ after (validate_canonical_physical_schema en 3 c) (\<lambda>_.
         slice4_lines pr ho c
         @ after (validate_slice4_v3_schema c) (\<lambda>_. if announced then [next_line] else []))"

definition upgrade_lines ::
  "(bytes \<Rightarrow> bytes) \<Rightarrow> (nat \<Rightarrow> bool) \<Rightarrow> ((str \<times> str option) list \<Rightarrow> (str \<times> str option) list) \<Rightarrow> engine
     \<Rightarrow> int \<Rightarrow> store_file \<Rightarrow> str list" where
  "upgrade_lines sha pr ho en origin f =
     physical_lines pr en 2 (sf_catalogue f)
     @ after (validate_v2_compatibility en \<lparr>vc_origin = origin, vc_target = 3, vc_finalized = False\<rparr> f) (\<lambda>_.
       after (migrate_v2_to_v3 sha en f) (\<lambda>f1.
       after (run_ddl en EnsureSlice4 (sf_catalogue f1)) (\<lambda>c. v3_lines pr ho en (origin = 1) c)))"

text \<open>What the migrations of version 0 and 1 hand to \<open>upgrade\<close>.\<close>

definition prepared_v0 ::
  "(bytes \<Rightarrow> bytes) \<Rightarrow> (nat \<Rightarrow> bool) \<Rightarrow> engine \<Rightarrow> store_file \<Rightarrow> error + store_file" where
  "prepared_v0 sha pr en f =
     and_then (map_err sql_is_ambiguous (migrate sha pr en f)) (\<lambda>f1.
     let ds = (case sf_decisions f1 of DecisionsV2 ds \<Rightarrow>
                 DecisionsV2 (case insert_decision_v2 ds slice3_decision of Some ds1 \<Rightarrow> ds1 | None \<Rightarrow> ds)
               | x \<Rightarrow> x)
     in and_then (ensure_runtime_record_schema en (sf_db f1) (sf_catalogue f1)) (\<lambda>c.
        and_then (run_ddl en EnsureEventTriggers c) (\<lambda>c1.
        Inr (f1\<lparr>sf_catalogue := c1, sf_decisions := ds\<rparr>))))"

lemma and_then_assoc: "and_then (and_then x f) g = and_then x (\<lambda>a. and_then (f a) g)"
  by (cases x) simp_all

lemma and_then_decisions:
  "and_then (case x of NoDecisions \<Rightarrow> Inl a | DecisionsV2 ds \<Rightarrow> h ds | DecisionsV3 ds' \<Rightarrow> Inl b) g
     = (case x of NoDecisions \<Rightarrow> Inl a | DecisionsV2 ds \<Rightarrow> and_then (h ds) g | DecisionsV3 ds' \<Rightarrow> Inl b)"
  by (cases x) simp_all

lemma migrate_v0_prepared: "migrate_v0 sha pr en f = and_then (prepared_v0 sha pr en f) (upgrade sha en 1)"
  unfolding migrate_v0_def prepared_v0_def Let_def and_then_assoc sum.case ..

definition prepared_v1 :: "(bytes \<Rightarrow> bytes) \<Rightarrow> engine \<Rightarrow> store_file \<Rightarrow> error + store_file" where
  "prepared_v1 sha en f =
     (let before = \<lparr>vc_origin = 1, vc_target = 3, vc_finalized = False\<rparr>;
          slice3_present = list_ex (table_exists (sf_catalogue f)) slice3_tables in
      and_then (if slice3_present then Inr () else validate_legacy_core (sf_catalogue f)) (\<lambda>_.
      and_then (check_legacy_events en slice3_present (sf_catalogue f)) (\<lambda>c1.
      and_then (if slice3_present then map_err sql_is_ambiguous (validate_core sha en before (f\<lparr>sf_catalogue := c1\<rparr>))
        else Inr ()) (\<lambda>_.
      let canonical = (slice3_present \<or> \<not> table_exists c1 ''compatibility_decisions'') in
      and_then (if canonical then prepare_canonical_v2 en (sf_db f) c1 else Inr c1) (\<lambda>c2.
      and_then (run_ddl en EnsureDecisionsV2 c2) (\<lambda>c3.
      case (if canonical then DecisionsV2 [] else sf_decisions f) of
        DecisionsV2 ds \<Rightarrow>
          and_then (ok_or (Sql ConstraintViolation) (insert_decision_v2 ds slice3_decision)) (\<lambda>ds1.
          Inr (f\<lparr>sf_catalogue := c3, sf_decisions := DecisionsV2 ds1\<rparr>))
      | _ \<Rightarrow> Inl (Sql ConstraintViolation)))))))"

lemma migrate_v1_prepared: "migrate_v1 sha en f = and_then (prepared_v1 sha en f) (upgrade sha en 1)"
  unfolding migrate_v1_def prepared_v1_def Let_def and_then_assoc and_then_decisions sum.case ..

text \<open>The lines of one call of \<open>initialize\<close>.\<close>

definition initialize_lines ::
  "(bytes \<Rightarrow> bytes) \<Rightarrow> (nat \<Rightarrow> bool) \<Rightarrow> ((str \<times> str option) list \<Rightarrow> (str \<times> str option) list) \<Rightarrow> engine
     \<Rightarrow> store_file \<Rightarrow> str list" where
  "initialize_lines sha pr ho en f =
     (case schema_value f of
        None \<Rightarrow> []
      | Some v \<Rightarrow>
          if v = 0 then after (prepared_v0 sha pr en f) (upgrade_lines sha pr ho en 1)
          else if v = 1 then after (prepared_v1 sha en f) (upgrade_lines sha pr ho en 1)
          else if v = 2 then physical_lines pr en 2 (sf_catalogue f)
            @ after (validate_canonical_physical_schema en 2 (sf_catalogue f)) (\<lambda>_. upgrade_lines sha pr ho en 2 f)
          else if v = STORE_SCHEMA then
            after (run_ddl en EnsureSlice4 (sf_catalogue f)) (v3_lines pr ho en False)
          else [])"

section \<open>What a successful opening prints\<close>

lemma physical_lines_passed:
  "validate_canonical_physical_schema en version c = Inr () \<Longrightarrow> physical_lines pr en version c = [passed_line]"
  by (auto simp: validate_canonical_physical_schema_def physical_lines_def and_then_Inr)

lemma all_ok_Inr_iff: "all_ok cs = Inr () \<longleftrightarrow> list_all is_ok cs"
  by (induction cs) (auto split: sum.splits)

lemma slice4_predicates_checks: "map fst (slice4_predicates pr ho c) =
    map (\<lambda>t. ambiguous_unless (table_exists c t)) slice4_tables
       @ map (\<lambda>n. ambiguous_unless (index_exists c n)) slice4_indexes
       @ map (\<lambda>(t, suffix). ambiguous_unless (trigger_exists c (t @ ''_immutable_'' @ suffix)))
           (List.product slice4_tables [''update'', ''delete''])
       @ map (slice4_table_columns c) slice4_columns"
  unfolding slice4_predicates_def by (simp add: case_prod_unfold comp_def del: product.simps)

text \<open>The second check prints a line exactly when it fails, and then just one.\<close>

lemma slice4_lines_passed: "validate_slice4_v3_schema c = Inr () \<longleftrightarrow> slice4_lines pr ho c = []"
proof -
  have "validate_slice4_v3_schema c = Inr () \<longleftrightarrow> list_all is_ok (map fst (slice4_predicates pr ho c))"
    unfolding slice4_predicates_checks validate_slice4_v3_schema_def all_ok_Inr_iff ..
  also have "\<dots> \<longleftrightarrow> find (\<lambda>(x, _). \<not> is_ok x) (slice4_predicates pr ho c) = None"
    by (simp only: list_all_iff find_None_iff set_map) fastforce
  finally show ?thesis by (auto simp: slice4_lines_def split: option.splits)
qed

lemma v3_lines_passed:
  assumes "validate_canonical_physical_schema en 3 c = Inr ()" "validate_slice4_v3_schema c = Inr ()"
  shows "v3_lines pr ho en announced c = passed_line # (if announced then [next_line] else [])"
  using assms slice4_lines_passed [of c pr ho] by (simp add: v3_lines_def physical_lines_passed)

lemma upgrade_lines_passed:
  assumes "upgrade sha en origin f = Inr f'"
  shows "upgrade_lines sha pr ho en origin f = [passed_line, passed_line] @ (if origin = 1 then [next_line] else [])"
proof -
  obtain f1 c where s: "validate_v2_compatibility en \<lparr>vc_origin = origin, vc_target = 3, vc_finalized = False\<rparr> f = Inr ()"
      "migrate_v2_to_v3 sha en f = Inr f1" "run_ddl en EnsureSlice4 (sf_catalogue f1) = Inr c"
      "validate_v3 sha en (f1\<lparr>sf_catalogue := c\<rparr>) = Inr ()"
    using assms by (auto simp: upgrade_def Let_def and_then_Inr)
  have "validate_canonical_physical_schema en 2 (sf_catalogue f) = Inr ()"
    using s(1) by (auto simp: validate_v2_compatibility_def and_then_Inr)
  moreover have "validate_canonical_physical_schema en 3 c = Inr ()" "validate_slice4_v3_schema c = Inr ()"
    using s(4) by (auto simp: validate_v3_def and_then_Inr)
  ultimately show ?thesis
    unfolding upgrade_lines_def s(1,2,3) after_simps by (simp add: physical_lines_passed v3_lines_passed)
qed

text \<open>
  Every opening of a store that exists prints: one line for one that is already of version 3, three
  when it is migrated. Only a new store is created silently.
\<close>

definition opened_lines :: "int option \<Rightarrow> str list" where
  "opened_lines version = (case version of
       None \<Rightarrow> []
     | Some v \<Rightarrow> if v = 3 then [passed_line] else if v = 2 then [passed_line, passed_line, passed_line]
         else [passed_line, passed_line, next_line])"

theorem opening_prints:
  assumes "initialize sha pr en f = Inr f'"
  shows "initialize_lines sha pr ho en f = opened_lines (schema_value f)"
proof (cases "schema_value f")
  case None
  then show ?thesis by (simp add: initialize_lines_def opened_lines_def)
next
  case (Some v)
  consider (v0) "v = 0" | (v1) "v = 1" | (v2) "v = 2" | (v3) "v = 3" | (other) "v \<notin> {0, 1, 2, 3}" by blast
  then show ?thesis
  proof cases
    case v0
    then obtain g where "migrate_v0 sha pr en f = Inr g"
      using assms Some by (auto simp: initialize_def STORE_SCHEMA_def and_then_Inr)
    then obtain h where "prepared_v0 sha pr en f = Inr h" "upgrade sha en 1 h = Inr g"
      by (auto simp: migrate_v0_prepared and_then_Inr)
    then show ?thesis using Some v0 upgrade_lines_passed [of sha en 1 h g pr ho] by (simp add: initialize_lines_def opened_lines_def)
  next
    case v1
    then obtain g where "migrate_v1 sha en f = Inr g"
      using assms Some by (auto simp: initialize_def STORE_SCHEMA_def and_then_Inr)
    then obtain h where "prepared_v1 sha en f = Inr h" "upgrade sha en 1 h = Inr g"
      by (auto simp: migrate_v1_prepared and_then_Inr)
    then show ?thesis using Some v1 upgrade_lines_passed [of sha en 1 h g pr ho] by (simp add: initialize_lines_def opened_lines_def)
  next
    case v2
    then obtain g where "validate_canonical_physical_schema en 2 (sf_catalogue f) = Inr ()" "upgrade sha en 2 f = Inr g"
      using assms Some by (auto simp: initialize_def STORE_SCHEMA_def and_then_Inr)
    then show ?thesis
      using Some v2 upgrade_lines_passed [of sha en 2 f g pr ho] by (simp add: initialize_lines_def opened_lines_def physical_lines_passed)
  next
    case v3
    then obtain c where "run_ddl en EnsureSlice4 (sf_catalogue f) = Inr c"
        "validate_canonical_physical_schema en 3 c = Inr ()" "validate_slice4_v3_schema c = Inr ()"
      using assms Some by (auto simp: initialize_def STORE_SCHEMA_def and_then_Inr reopen_v3_def validate_v3_def Let_def)
    then show ?thesis using Some v3 by (simp add: initialize_lines_def opened_lines_def STORE_SCHEMA_def v3_lines_passed)
  next
    case other
    then show ?thesis using assms Some by (auto simp: initialize_def STORE_SCHEMA_def split: if_splits)
  qed
qed

end
