(* ===== verification/Store.thy ===== *)
theory Store
  imports Upgrade Diagnostics
begin

text \<open>
  The artifact store as a whole: \<open>Store::open\<close> (\<open>src/src/artifacts/store.rs\<close>), every operation a
  caller has on an opened store as one step relation, and what all of them keep: the record
  tables only grow, and the books stay such that the store opens again.
\<close>

section \<open>The user\<close>

text \<open>
  \<open>str::parse::<u32>\<close>, and \<open>current_uid\<close>: the second word of the first line of
  \<open>/proc/self/status\<close> that starts with \<open>Uid:\<close>, and \<open>u32::MAX\<close> when there is none or the file
  (\<open>None\<close>) cannot be read.
\<close>

definition parse_u32 :: "str \<Rightarrow> nat option" where
  "parse_u32 s =
     (let ds = (case s of c # r \<Rightarrow> if c = CHR ''+'' then r else s | [] \<Rightarrow> [])
      in if ds \<noteq> [] \<and> list_all is_digit ds \<and> undec ds < 2 ^ 32 then Some (undec ds) else None)"

definition uid_line :: "str \<Rightarrow> nat option" where
  "uid_line s = Option.bind (find (starts_with ''Uid:'') (split_on (CHR 0x0A) s)) (\<lambda>l.
     case words [] (chars l) of _ # w # _ \<Rightarrow> parse_u32 (of_chars w) | _ \<Rightarrow> None)"

definition current_uid :: "str option \<Rightarrow> nat" where
  "current_uid status = (case Option.bind status uid_line of Some u \<Rightarrow> u | None \<Rightarrow> 0xFFFFFFFF)"

lemma parse_u32_bound: "parse_u32 s = Some n \<Longrightarrow> n < 2 ^ 32"
  by (simp only: parse_u32_def Let_def split: if_splits) simp_all

lemma uid_line_bound:
  assumes "uid_line s = Some n" shows "n < 2 ^ 32"
proof -
  obtain l where "(case words [] (chars l) of _ # w # _ \<Rightarrow> parse_u32 (of_chars w) | _ \<Rightarrow> None) = Some n"
    using assms by (auto simp only: uid_line_def bind_eq_Some_conv)
  then obtain w where "parse_u32 (of_chars w) = Some n" by (auto split: list.split_asm)
  then show ?thesis by (rule parse_u32_bound)
qed

lemma current_uid_bound: "current_uid status < 2 ^ 32"
  by (cases status) (auto simp: current_uid_def dest: uid_line_bound split: option.splits)

section \<open>Opening a file\<close>

record file_identity =
  fi_dev :: nat
  fi_ino :: nat
  fi_owner_uid :: nat
  fi_mode :: "32 word"

definition from_metadata :: "nat \<Rightarrow> file_meta \<Rightarrow> error + file_identity" where
  "from_metadata me m =
     and_then (validate_store_metadata me m) (\<lambda>_.
     Inr \<lparr>fi_dev = dev m, fi_ino = ino m, fi_owner_uid = uid m, fi_mode = mode m\<rparr>)"

datatype open_look = AtParent | AtStat | AtCreated | AtOpened

datatype create_answer = Created | AlreadyExists | CreateFailed

text \<open>The metadata \<open>Store::open\<close> works with: of the file that is there, or of one it creates.\<close>

definition stat_or_create :: "(open_look \<Rightarrow> fs) \<Rightarrow> create_answer \<Rightarrow> str \<Rightarrow> error + file_meta" where
  "stat_or_create fs create path =
     (case symlink_metadata (fs AtStat) path of
        Found m \<Rightarrow> Inr m
      | NotFound \<Rightarrow>
          (case create of
             CreateFailed \<Rightarrow> Inl AmbiguousSchema
           | _ \<Rightarrow> (case symlink_metadata (fs AtCreated) path of Found m \<Rightarrow> Inr m | _ \<Rightarrow> Inl AmbiguousSchema))
      | StatError \<Rightarrow> Inl AmbiguousSchema)"

text \<open>
  \<open>Store::open\<close> with \<open>Store::from_connection\<close>. \<open>conn\<close> is SQLite's answer to opening the path: an
  error, or the content of the file it opened; \<open>en\<close> is what it makes of the DDL. The user is
  read from \<open>/proc\<close> anew for each of the three checks. The first part ends with the connection that is
  known to be to the file that was checked.
\<close>

definition checked_connection ::
  "(nat \<Rightarrow> str option) \<Rightarrow> (open_look \<Rightarrow> fs) \<Rightarrow> create_answer \<Rightarrow> error + store_file \<Rightarrow> str \<Rightarrow> error + store_file" where
  "checked_connection proc fs create conn path =
     and_then (validate_parent (fs AtParent) path) (\<lambda>_.
     and_then (stat_or_create fs create path) (\<lambda>m.
     and_then (validate_store_metadata (current_uid (proc 0)) m) (\<lambda>_.
     and_then (from_metadata (current_uid (proc 1)) m) (\<lambda>identity.
     and_then conn (\<lambda>f.
     case symlink_metadata (fs AtOpened) path of
       Found opened \<Rightarrow>
         if to_ok (from_metadata (current_uid (proc 2)) opened) \<noteq> Some identity then Inl AmbiguousSchema
         else Inr f
     | _ \<Rightarrow> Inl AmbiguousSchema)))))"

definition store_open ::
  "(bytes \<Rightarrow> bytes) \<Rightarrow> (nat \<Rightarrow> bool) \<Rightarrow> engine \<Rightarrow> (nat \<Rightarrow> str option) \<Rightarrow> (open_look \<Rightarrow> fs) \<Rightarrow> create_answer
     \<Rightarrow> error + store_file \<Rightarrow> str \<Rightarrow> error + store_file" where
  "store_open sha pr en proc fs create conn path =
     and_then (checked_connection proc fs create conn path) (initialize sha pr en)"

lemma checked_connection_file:
  assumes "checked_connection proc fs create conn path = Inr f" shows "conn = Inr f"
  using assms
  by (cases "symlink_metadata (fs AtOpened) path") (auto simp: checked_connection_def and_then_Inr split: if_splits)

text \<open>The lines it prints to standard error, in either case.\<close>

definition store_open_lines ::
  "(bytes \<Rightarrow> bytes) \<Rightarrow> (nat \<Rightarrow> bool) \<Rightarrow> ((str \<times> str option) list \<Rightarrow> (str \<times> str option) list) \<Rightarrow> engine
     \<Rightarrow> (nat \<Rightarrow> str option) \<Rightarrow> (open_look \<Rightarrow> fs) \<Rightarrow> create_answer \<Rightarrow> error + store_file \<Rightarrow> str \<Rightarrow> str list" where
  "store_open_lines sha pr ho en proc fs create conn path =
     after (checked_connection proc fs create conn path) (initialize_lines sha pr ho en)"

text \<open>
  C7: a store is opened only from a private regular file that stayed the same file: no ancestor
  of its path is a symbolic link, and when SQLite has opened it the path still names a regular
  file of the user with mode 0600 and the device and inode it had before. What is opened is the
  file \<open>initialize\<close> leaves: its metadata, decisions and records pass every check the program makes of
  them, and, when the file was a store before and the engine treats \<open>IF NOT EXISTS\<close> as SQLite documents,
  \<open>initialize\<close> accepts it again and leaves it unchanged.
\<close>

theorem opened_file_private:
  assumes "store_open sha pr en proc fs create conn path = Inr f'"
  shows "(\<forall>q\<in>set (path_ancestors path). \<exists>m. symlink_metadata (fs AtParent) q = Found m \<and> kind m \<noteq> Symlink)
    \<and> (\<exists>m before. symlink_metadata (fs AtOpened) path = Found m \<and> kind m = RegularFile
         \<and> uid m = current_uid (proc 2)
         \<and> and (mode m) 0xFFF = 0x180 \<and> stat_or_create fs create path = Inr before
         \<and> dev m = dev before \<and> ino m = ino before)
    \<and> (\<exists>f. conn = Inr f \<and> initialize sha pr en f = Inr f'
         \<and> (if_not_exists (run_ddl en) \<and> schema_value f \<noteq> None \<longrightarrow> initialize sha pr en f' = Inr f'))
    \<and> openable sha f'"
proof -
  obtain m f where p: "validate_parent (fs AtParent) path = Inr ()" and m: "stat_or_create fs create path = Inr m"
    and f: "conn = Inr f" "initialize sha pr en f = Inr f'"
    and rest: "(case symlink_metadata (fs AtOpened) path of
       Found opened \<Rightarrow> if to_ok (from_metadata (current_uid (proc 2)) opened) \<noteq>
            Some \<lparr>fi_dev = dev m, fi_ino = ino m, fi_owner_uid = uid m, fi_mode = mode m\<rparr>
         then Inl AmbiguousSchema else Inr f
     | _ \<Rightarrow> Inl AmbiguousSchema) = Inr f"
  proof -
    obtain g where g: "checked_connection proc fs create conn path = Inr g" "initialize sha pr en g = Inr f'"
      using assms by (auto simp: store_open_def and_then_Inr)
    then obtain m f where "validate_parent (fs AtParent) path = Inr ()" "stat_or_create fs create path = Inr m" "conn = Inr f"
      "(case symlink_metadata (fs AtOpened) path of
         Found opened \<Rightarrow> if to_ok (from_metadata (current_uid (proc 2)) opened) \<noteq>
              Some \<lparr>fi_dev = dev m, fi_ino = ino m, fi_owner_uid = uid m, fi_mode = mode m\<rparr>
           then Inl AmbiguousSchema else Inr f
       | _ \<Rightarrow> Inl AmbiguousSchema) = Inr g"
      by (auto simp: checked_connection_def and_then_Inr from_metadata_def)
    moreover from this(4) have "f = g" by (auto split: lstat.splits if_splits)
    ultimately show ?thesis using that g(2) by blast
  qed
  obtain opened where o: "symlink_metadata (fs AtOpened) path = Found opened"
    "to_ok (from_metadata (current_uid (proc 2)) opened) = Some \<lparr>fi_dev = dev m, fi_ino = ino m, fi_owner_uid = uid m, fi_mode = mode m\<rparr>"
    using rest by (auto split: lstat.splits if_splits)
  have "validate_store_metadata (current_uid (proc 2)) opened = Inr ()" "dev opened = dev m" "ino opened = ino m"
    using o(2) by (auto simp: from_metadata_def to_ok_def split: sum.splits)
  then have "kind opened = RegularFile \<and> uid opened = current_uid (proc 2) \<and> and (mode opened) 0xFFF = 0x180
      \<and> dev opened = dev m \<and> ino opened = ino m"
    by (auto simp: validate_store_metadata_def split: if_splits)
  moreover have "\<forall>q\<in>set (path_ancestors path). \<exists>m. symlink_metadata (fs AtParent) q = Found m \<and> kind m \<noteq> Symlink"
  proof
    fix q assume "q \<in> set (path_ancestors path)"
    then have "case symlink_metadata (fs AtParent) q of Found m \<Rightarrow> kind m \<noteq> Symlink | _ \<Rightarrow> False"
      using p by (simp add: validate_parent_def split: if_splits)
    then show "\<exists>m. symlink_metadata (fs AtParent) q = Found m \<and> kind m \<noteq> Symlink"
      by (cases "symlink_metadata (fs AtParent) q") simp_all
  qed
  moreover have "initialize sha pr en f' = Inr f'" if "if_not_exists (run_ddl en)" "schema_value f \<noteq> None"
    using openable_reopens [OF initialize_openable [OF f(2)]] initialize_current [OF that(1) f(2)] that(2) by simp
  ultimately show ?thesis using o m f initialize_openable by blast
qed

section \<open>The operations of a store\<close>

text \<open>One call of any operation, whatever its arguments and whatever the file system answers.\<close>

inductive store_step :: "(bytes \<Rightarrow> bytes) \<Rightarrow> (nat \<Rightarrow> nat list) \<Rightarrow> (nat \<Rightarrow> bool) \<Rightarrow> db \<Rightarrow> db \<Rightarrow> bool"
  for sha up pr where
  step_import: "import_artifact_version sha pr fs d r = Some (res, d') \<Longrightarrow> store_step sha up pr d d'"
| step_append: "append_event d e = (res, d') \<Longrightarrow> store_step sha up pr d d'"
| step_projection: "read_projection sha up d k = (res, d') \<Longrightarrow> store_step sha up pr d d'"
| step_status: "projection_status sha up d k = (res, d') \<Longrightarrow> store_step sha up pr d d'"
| step_rebuild: "rebuild_projection sha up d k n = (res, d') \<Longrightarrow> store_step sha up pr d d'"
| step_playback: "playback_with_inputs sha up d k g ts is os = (res, d') \<Longrightarrow> store_step sha up pr d d'"
| step_simulate: "simulate_captured_outcome d k outcome = (res, d') \<Longrightarrow> store_step sha up pr d d'"
| step_reconcile: "reconcile d i = (res, d') \<Longrightarrow> store_step sha up pr d d'"
| step_owned: "reconcile_owned_with_change sha up rfs d scope ids applicable changed = (res, d')
    \<Longrightarrow> store_step sha up pr d d'"
| step_accepted: "reconcile_accepted sha f d operation = (res, d') \<Longrightarrow> store_step sha up pr d d'"
| step_recover: "recover_with_checkpoint sha vfs fa d run request checkpoint = (res, d', ops)
    \<Longrightarrow> store_step sha up pr d d'"

text \<open>The record tables of a store, each of which may only gain rows.\<close>

definition records_grow :: "db \<Rightarrow> db \<Rightarrow> bool" where
  "records_grow d d' =
     (lineage_grows d d' \<and> prefix (events d) (events d') \<and> prefix (rebuilds d) (rebuilds d')
      \<and> prefix (playbacks d) (playbacks d') \<and> prefix (simulations d) (simulations d')
      \<and> prefix (runs d) (runs d') \<and> prefix (recons d) (recons d') \<and> prefix (actions d) (actions d')
      \<and> prefix (outcomes d) (outcomes d'))"

lemma records_grow_refl [simp]: "records_grow d d"
  by (simp add: records_grow_def)

lemma records_grow_trans: "records_grow a b \<Longrightarrow> records_grow b c \<Longrightarrow> records_grow a c"
  unfolding records_grow_def by (meson lineage_grows_trans prefix_order.trans)

lemma lineage_grows_same:
  assumes "artifacts d' = artifacts d" "versions d' = versions d" "operations d' = operations d"
    "lineage d' = lineage d" "discrepancies d' = discrepancies d"
  shows "lineage_grows d d'"
  using assms by (simp add: lineage_grows_def)

lemma projection_only_grows: "projection_only d d' \<Longrightarrow> records_grow d d'"
  by (simp add: records_grow_def lineage_grows_same projection_only_frame)

lemma run_appended_grows: "run_appended d d' \<Longrightarrow> records_grow d d'"
  by (auto simp: run_appended_def records_grow_def lineage_grows_def)

lemma projection_only_set_status: "projection_only d (set_rebuild_status d k s a f)"
  by (cases d) (simp add: projection_only_def set_rebuild_status_def Let_def)

lemma projection_only_store: "projection_only d (store_projection d k g s p)"
  by (cases d) (simp add: projection_only_def store_projection_def Let_def)

lemma rebuild_frame:
  assumes "rebuild_projection sha up d k n = (res, d')"
  shows "\<exists>row. projection_only (insert_rebuild d row) d'"
proof -
  obtain status failure payload where o: "rebuild_outcome up n (event_rows d) = (status, failure, payload)"
    by (cases "rebuild_outcome up n (event_rows d)")
  define d1 where "d1 = record_rebuild d k (event_rows d) status failure"
  define d3 where "d3 = store_projection (set_rebuild_status d1 k status (status = ''complete'') failure) k
      (event_generation sha (event_rows d)) status payload"
  have "projection_only d1 d3"
    unfolding d3_def using projection_only_trans projection_only_set_status projection_only_store by blast
  moreover have "projection_only d3 d'"
  proof -
    have "(if status \<noteq> ''complete'' then (Inl RebuildFailure, d3)
         else case read_projection sha up d3 k of
             (Inl e, d4) \<Rightarrow> (Inl e, d4)
           | (Inr (Some p), d4) \<Rightarrow> (Inr p, d4)
           | (Inr None, d4) \<Rightarrow>
               (Inr \<lparr>p_id = k, p_schema = SCHEMA, p_generation = event_generation sha (event_rows d),
                     p_source_generation = event_generation sha (event_rows d), p_authoritative = False,
                     p_status = status, p_payload = payload\<rparr>, d4)) = (res, d')"
      using assms unfolding rebuild_projection_def Let_def o prod.case d3_def d1_def by simp
    then show ?thesis
      using projection_only_read [of sha up d3 k] projection_only_refl
      by (auto split: if_splits prod.splits sum.splits option.splits)
  qed
  ultimately have "projection_only d1 d'" by (rule projection_only_trans)
  then show ?thesis unfolding d1_def record_rebuild_def by blast
qed

lemma store_step_frame:
  assumes "store_step sha up pr d d'"
  obtains (import') fs r res where "import_artifact_version sha pr fs d r = Some (res, d')"
  | (append') e res where "append_event d e = (res, d')"
  | (projection') "projection_only d d'"
  | (rebuild') d1 row where "d1 = insert_rebuild d row" "projection_only d1 d'"
  | (playback') row where "insert_playback d row = Some d'"
  | (simulate') row where "insert_simulation d row = Some d'"
  | (run') d1 where "projection_only d d1" "run_appended d1 d'"
  | (recover') a os where "d' = d\<lparr>actions := actions d @ [a], outcomes := outcomes d @ os\<rparr>"
  using assms
proof (cases rule: store_step.cases)
  case (step_playback k g ts is' os res)
  then show ?thesis
    using playback'
    by (auto simp: playback_with_inputs_def Let_def split: option.splits intro: projection' projection_only_refl)
next
  case (step_simulate k outcome res)
  then show ?thesis
    by (auto simp: simulate_captured_outcome_def split: option.splits intro: simulate' projection' projection_only_refl)
next
  case (step_owned rfs scope ids applicable changed res)
  then show ?thesis using reconcile_owned_steps projection' run' by blast
next
  case (step_accepted f operation res)
  then show ?thesis using reconcile_accepted_frame projection' projection_only_refl by metis
next
  case (step_reconcile i res)
  then show ?thesis using run_appended_reconcile(1) projection_only_refl run' by blast
next
  case (step_recover vfs fa run request checkpoint res ops)
  then show ?thesis using recover_frame recover' projection' projection_only_refl by metis
next
  case (step_projection k res)
  then show ?thesis using projection_only_read projection' by blast
next
  case (step_status k res)
  then show ?thesis using projection_only_status projection' by blast
next
  case (step_rebuild k n res)
  then show ?thesis using rebuild_frame rebuild' by blast
qed (auto intro: import' append')

section \<open>Records only grow\<close>

lemma store_step_grows:
  assumes "store_step sha up pr d d'" shows "records_grow d d'"
  using assms
proof (cases rule: store_step_frame)
  case (import' fs r res)
  then show ?thesis using import_grows [OF import'] import_other_tables [OF import'] by (simp add: records_grow_def)
next
  case (append' e res)
  then show ?thesis by (cases rule: append_event_cases [of d e]) (auto simp: records_grow_def lineage_grows_def)
next
  case projection'
  then show ?thesis by (rule projection_only_grows)
next
  case (rebuild' d1 row)
  have "records_grow d d1" by (simp add: rebuild'(1) insert_rebuild_def records_grow_def lineage_grows_def)
  then show ?thesis using projection_only_grows [OF rebuild'(2)] by (rule records_grow_trans)
next
  case (playback' row)
  then show ?thesis using insert_playback_db [OF playback'] by (simp add: records_grow_def lineage_grows_def)
next
  case (simulate' row)
  then show ?thesis using insert_simulation_db [OF simulate'] by (simp add: records_grow_def lineage_grows_def)
next
  case (run' d1)
  then show ?thesis using projection_only_grows run_appended_grows records_grow_trans by blast
next
  case (recover' a os)
  then show ?thesis by (simp add: records_grow_def lineage_grows_def)
qed

section \<open>The books are kept\<close>

text \<open>How an import leaves the store, in terms of \<open>reject\<close> itself.\<close>

lemma import_three:
  assumes "import_artifact_version sha pr fs d r = Some (res, d')"
  obtains (Unchanged) "d' = d"
  | (Refused) f r' reason code err fp where "reject sha f d r' reason code err fp = (res, d')"
  | (Accepted) path observed fp where "d' = committed sha d r fp path observed"
      "new_version_id sha r \<notin> ver_id ` set (versions d)" "i_operation r \<notin> op_id ` set (operations d)"
      "import_verdict sha pr fs d r path = Proceed observed"
proof (cases "import_path (fs AtNormalize) r")
  case (Inl e)
  then show ?thesis using assms Unchanged by (auto simp: import_artifact_version_def)
next
  case (Inr path)
  note eq = assms [unfolded import_artifact_version_def Inr, simplified sum.case Let_def]
  show ?thesis
  proof (cases "import_verdict sha pr fs d r path")
    case (Refuse r' reason code err)
    then show ?thesis using eq Refused by auto
  next
    case (Proceed observed)
    then have "import_commit sha fs d r (fingerprint sha pr r path) path observed = (res, d')" using eq by simp
    then show ?thesis
      by (cases rule: import_commit_cases) (use Proceed Unchanged Accepted in blast)+
  next
    case (Recorded v)
    then show ?thesis using eq Unchanged by (cases v) auto
  qed (use eq Unchanged in auto)
qed

lemma version_row_valid_grows:
  assumes "version_row_valid sha d v" "prefix (artifacts d) (artifacts d')" "prefix (versions d) (versions d')"
  shows "version_row_valid sha d' v"
proof -
  have "row_with art_id (ver_artifact v) (artifacts d') = row_with art_id (ver_artifact v) (artifacts d)"
    using assms(1) row_with_prefix [OF assms(2)] by (fastforce simp: version_row_valid_def Let_def)
  moreover have "row_with ver_id q (versions d') = row_with ver_id q (versions d)" if "ver_ancestry v = Some q" for q
    using assms(1) row_with_prefix [OF assms(3)] that by (fastforce simp: version_row_valid_def Let_def)
  ultimately show ?thesis using assms(1) by (simp add: version_row_valid_def Let_def split: option.splits)
qed


lemma version_row_valid_same:
  "artifacts d' = artifacts d \<Longrightarrow> versions d' = versions d \<Longrightarrow> version_row_valid sha d' v = version_row_valid sha d v"
  by (simp only: version_row_valid_def)

lemma operation_booked_same:
  "discrepancies d' = discrepancies d \<Longrightarrow> operation_booked d' = operation_booked d"
  by (simp add: operation_booked_def fun_eq_iff)

lemma discrepancy_booked_same:
  "operations d' = operations d \<Longrightarrow> discrepancy_booked d' = discrepancy_booked d"
  by (simp add: discrepancy_booked_def fun_eq_iff)

lemma discrepancy_booked_grows:
  "discrepancy_booked d c \<Longrightarrow> set (operations d) \<subseteq> set (operations d') \<Longrightarrow> discrepancy_booked d' c"
  by (auto simp: discrepancy_booked_def)

lemma books_committed:
  assumes b: "books_ok sha d" and new: "new_version_id sha r \<notin> ver_id ` set (versions d)"
    "i_operation r \<notin> op_id ` set (operations d)" and p: "import_verdict sha pr fs d r path = Proceed observed"
  shows "books_ok sha (committed sha d r fp path observed)"
proof -
  let ?d = "committed sha d r fp path observed" and ?v = "new_version_row sha r path observed"
  let ?a = "\<lparr>art_id = target_artifact r, art_owner = i_actor r, art_source = i_source r, art_schema = SCHEMA1\<rparr>"
  note pr = import_verdict_Proceed [OF p]
  have anc: "ancestry_valid d r"
    using pr by (auto simp: content_verdict_def Let_def split: if_splits)
  have grow: "prefix (artifacts d) (artifacts ?d)" "prefix (versions d) (versions ?d)"
    by (simp_all add: committed_def insert_artifact_prefix)
  have old: "\<forall>v\<in>set (versions d). version_row_valid sha ?d v \<and> \<not> source_lineage_bad v"
    using b version_row_valid_grows [OF _ grow] by (simp add: books_ok_def)
  have art: "\<exists>a. row_with art_id (target_artifact r) (artifacts ?d) = Some a \<and> art_id a = target_artifact r
      \<and> art_owner a = i_actor r \<and> art_source a = i_source r \<and> art_schema a = 1"
  proof (cases "row_with art_id (target_artifact r) (artifacts d)")
    case None
    then have "artifacts ?d = artifacts d @ [?a]"
      using row_with_None [of art_id "target_artifact r" "artifacts d"]
      by (simp add: committed_def insert_artifact_def new_key_def)
    then show ?thesis using None by (simp add: SCHEMA1_def)
  next
    case (Some a)
    then show ?thesis
      using row_with_prefix [OF grow(1) Some] row_with_Some [OF Some] pr b by (auto simp: books_ok_def)
  qed
  have parent: "\<exists>x. row_with ver_id q (versions ?d) = Some x \<and> ver_artifact x = target_artifact r
      \<and> ver_actor x = i_actor r \<and> ver_source x = i_source r" if q: "i_ancestry r = Some q" for q
  proof -
    obtain x where x: "x \<in> set (versions d)" "ver_id x = q" "ver_artifact x = target_artifact r"
      "ver_actor x = i_actor r" "ver_source x = i_source r"
      using anc q by (auto simp: ancestry_valid_def)
    have "distinct (map ver_id (versions d))" using b by (simp add: books_ok_def)
    then have "row_with ver_id q (versions d) = Some x" using row_with_unique [of ver_id "versions d" x] x(1,2) by simp
    then have "row_with ver_id q (versions ?d) = Some x" by (rule row_with_prefix [OF grow(2)])
    then show ?thesis using x(3-5) by simp
  qed
  have v: "version_row_valid sha ?d ?v"
    using art parent by (auto simp: version_row_valid_def Let_def new_version_row_def SCHEMA1_def split: option.splits)
  have vs: "versions ?d = versions d @ [?v]" "lineage ?d = lineage d @ [lineage_of ?v]"
    "discrepancies ?d = discrepancies d" "playbacks ?d = playbacks d"
    by (simp_all add: committed_def insert_artifact_def)
  have arts: "distinct (map art_id (artifacts ?d))" "\<forall>a\<in>set (artifacts ?d). art_schema a = 1"
    using b by (auto simp: committed_def insert_artifact_def new_key_def books_ok_def SCHEMA1_def)
  have src: "\<not> source_lineage_bad ?v" by (simp add: source_lineage_bad_def new_version_row_def SCHEMA1_def)
  let ?o = "\<lparr>op_id = i_operation r, op_fingerprint = fp, op_result = ''accepted'',
      op_version = Some (new_version_id sha r), op_lineage = i_ancestry r, op_code = None, op_schema = SCHEMA1\<rparr>"
  have op: "operations ?d = operations d @ [?o]" by (simp add: committed_def)
  have booked: "\<forall>x\<in>set (operations ?d). operation_booked ?d x"
  proof -
    have "operation_booked ?d = operation_booked d" by (rule operation_booked_same) (simp add: vs)
    moreover have "operation_booked d ?o" by (simp add: operation_booked_def SCHEMA1_def)
    ultimately show ?thesis using b by (simp add: op books_ok_def)
  qed
  have disc: "\<forall>c\<in>set (discrepancies ?d). discrepancy_booked ?d c"
    using b discrepancy_booked_grows [of d _ ?d] by (simp add: op vs books_ok_def subset_insertI)
  show ?thesis
    unfolding books_ok_def
    by (intro conjI arts booked disc)
      (use b new old v src in \<open>simp_all add: op vs books_ok_def\<close>)
qed

lemma find_unique: "distinct (map key xs) \<Longrightarrow> r \<in> set xs \<Longrightarrow> P r \<Longrightarrow> find (\<lambda>x. key x = key r \<and> P x) xs = Some r"
  by (induction xs) (auto simp: image_iff)

lemma accepted_version_Some:
  "accepted_version d k = Some v \<Longrightarrow> \<exists>r\<in>set (operations d). op_id r = k \<and> op_result r = ''accepted'' \<and> op_version r = Some v"
  by (auto simp: accepted_version_def find_Some_iff dest: nth_mem split: option.splits)

lemma accepted_version_None:
  assumes "books_ok sha d" "accepted_version d k = None" "r \<in> set (operations d)" "op_id r = k"
  shows "op_result r = ''rejected''"
proof (rule ccontr)
  assume "op_result r \<noteq> ''rejected''"
  moreover have "operation_booked d r" using assms(1,3) by (simp add: books_ok_def)
  ultimately have acc: "op_result r = ''accepted''" by (simp add: operation_booked_def)
  then obtain v where "op_version r = Some v" using parallel_rows(2) [OF assms(1,3)] by blast
  moreover have "find (\<lambda>r. op_id r = k \<and> op_result r = ''accepted'') (operations d) = Some r"
    using find_unique [of op_id "operations d" r "\<lambda>r. op_result r = ''accepted''"] assms acc by (simp add: books_ok_def)
  ultimately show False using assms(2) by (simp add: accepted_version_def)
qed


text \<open>Adding a discrepancy that its operation accounts for.\<close>

lemma books_discrepancy:
  assumes b: "books_ok sha d"
    and c: "disc_schema c = 1" "disc_status c = ''rejected''"
      "\<exists>r\<in>set (operations d). op_id r = disc_operation c
        \<and> disc_result c = (case op_version r of Some v \<Rightarrow> v | None \<Rightarrow> op_id r)"
  shows "books_ok sha (insert_discrepancy d c)"
proof (cases "disc_operation c \<in> disc_operation ` set (discrepancies d)")
  case True
  then show ?thesis using b by (simp add: insert_discrepancy_def new_key_def)
next
  case False
  let ?c = "c\<lparr>disc_id := next_id (map disc_id (discrepancies d))\<rparr>"
  have d': "insert_discrepancy d c = d\<lparr>discrepancies := discrepancies d @ [?c]\<rparr>"
    using False by (simp add: insert_discrepancy_def new_key_def)
  have "version_row_valid sha (d\<lparr>discrepancies := discrepancies d @ [?c]\<rparr>) v = version_row_valid sha d v" for v
    by (rule version_row_valid_same) simp_all
  then show ?thesis
    using b False c unfolding d'
    by (auto simp: books_ok_def operation_booked_def discrepancy_booked_def)
qed

lemma reject_books:
  assumes b: "books_ok sha d" and r: "reject sha f d r reason code err fp = (res, d')"
  shows "books_ok sha d'"
proof (cases "accepted_version d (i_operation r)")
  case (Some v)
  then obtain o' where o': "o' \<in> set (operations d)" "op_id o' = i_operation r" "op_version o' = Some v"
    using accepted_version_Some by blast
  have "d' = snd (reject sha f d r reason code err fp)" using r by simp
  then show ?thesis
    by (simp add: reject_def Let_def Some) (rule books_discrepancy [OF b], use o' in \<open>auto simp: SCHEMA1_def\<close>)
next
  case None
  let ?o = "rejected_row r fp code"
  show ?thesis
  proof (cases "i_operation r \<in> op_id ` set (operations d)")
    case True
    then obtain o' where o': "o' \<in> set (operations d)" "op_id o' = i_operation r" by auto
    have "op_result o' = ''rejected''" using accepted_version_None [OF b None o'] .
    moreover have "operation_booked d o'" using b o'(1) by (simp add: books_ok_def)
    ultimately have v: "op_version o' = None" by (simp add: operation_booked_def)
    have "d' = snd (reject sha f d r reason code err fp)" using r by simp
    then show ?thesis
      using True by (simp add: reject_def Let_def None insert_operation_or_ignore_def new_key_def)
        (rule books_discrepancy [OF b], use o' v in \<open>auto simp: SCHEMA1_def\<close>)
  next
    case False
    let ?d = "d\<lparr>operations := operations d @ [?o]\<rparr>"
    have free: "i_operation r \<notin> disc_operation ` set (discrepancies d)"
    proof
      assume "i_operation r \<in> disc_operation ` set (discrepancies d)"
      then obtain x where x: "x \<in> set (discrepancies d)" "disc_operation x = i_operation r" by auto
      then have "discrepancy_booked d x" using b by (simp add: books_ok_def)
      then obtain y where "y \<in> set (operations d)" "op_id y = i_operation r"
        using x(2) by (auto simp: discrepancy_booked_def)
      with False show False by (metis imageI)
    qed
    obtain c where c: "d' = insert_discrepancy ?d c" "disc_operation c = i_operation r" "disc_schema c = 1"
      "disc_status c = ''rejected''" "disc_result c = i_operation r"
    proof -
      have "d' = snd (reject sha f d r reason code err fp)" using r by simp
      then show thesis
        using False that by (simp add: reject_def Let_def None insert_operation_or_ignore_def insert_operation_def
          new_key_def rejected_row_def SCHEMA1_def)
    qed
    let ?c = "c\<lparr>disc_id := next_id (map disc_id (discrepancies d))\<rparr>"
    have d': "d' = d\<lparr>operations := operations d @ [?o], discrepancies := discrepancies d @ [?c]\<rparr>"
      using c(1,2) free by (simp add: insert_discrepancy_def new_key_def)
    have "version_row_valid sha d' v = version_row_valid sha d v" for v
      by (rule version_row_valid_same) (simp_all add: d')
    moreover have "\<forall>x\<in>set (operations d'). operation_booked d' x"
      using b c(2) by (auto simp: d' books_ok_def operation_booked_def rejected_row_def SCHEMA1_def)
    moreover have "\<forall>x\<in>set (discrepancies d'). discrepancy_booked d' x"
    proof -
      have "discrepancy_booked d' ?c"
        using c by (simp add: d' discrepancy_booked_def rejected_row_def)
      moreover have "\<forall>x\<in>set (discrepancies d). discrepancy_booked d' x"
        using b discrepancy_booked_grows [of d _ d'] by (simp add: d' books_ok_def subset_insertI)
      ultimately show ?thesis by (simp add: d')
    qed
    moreover have "op_result ?o \<noteq> ''accepted''" "op_id ?o = i_operation r" by (simp_all add: rejected_row_def)
    ultimately show ?thesis
      using b False free c(2) unfolding books_ok_def by (simp add: d')
  qed
qed

text \<open>The operations that leave the import tables alone.\<close>

lemma books_same:
  assumes "books_ok sha d" "artifacts d' = artifacts d" "versions d' = versions d" "operations d' = operations d"
    "lineage d' = lineage d" "discrepancies d' = discrepancies d" "\<forall>p\<in>set (playbacks d'). playback_coherent p"
  shows "books_ok sha d'"
  using assms(1,7) unfolding books_ok_def assms(2-6)
  by (simp only: version_row_valid_same [OF assms(2,3)] operation_booked_same [OF assms(6)]
      discrepancy_booked_same [OF assms(4)]) blast

lemma books_playbacks: "books_ok sha d \<Longrightarrow> \<forall>p\<in>set (playbacks d). playback_coherent p"
  by (simp add: books_ok_def)

definition store_inv :: "(bytes \<Rightarrow> bytes) \<Rightarrow> db \<Rightarrow> bool" where
  "store_inv sha d = (books_ok sha d \<and> history_ok d)"

lemma history_same: "history_ok d \<Longrightarrow> events d' = events d \<Longrightarrow> history_ok d'"
  by (simp add: history_ok_def)

lemma store_inv_projection_only: "store_inv sha d \<Longrightarrow> projection_only d d' \<Longrightarrow> store_inv sha d'"
  unfolding store_inv_def
  by (auto intro!: books_same [of sha d d'] history_same [of d d'] simp: projection_only_frame dest: books_playbacks)

lemma books_updates:
  assumes "books_ok sha d"
  shows "books_ok sha (d\<lparr>events := e\<rparr>)" "books_ok sha (d\<lparr>simulations := s\<rparr>)" "books_ok sha (d\<lparr>rebuilds := b\<rparr>)"
    "books_ok sha (d\<lparr>runs := u, recons := c, evidence := w\<rparr>)" "books_ok sha (d\<lparr>actions := x, outcomes := y\<rparr>)"
    "playback_coherent row \<Longrightarrow> books_ok sha (d\<lparr>playbacks := playbacks d @ [row]\<rparr>)"
  by (rule books_same [OF assms]; use books_playbacks [OF assms] in simp)+

lemma store_inv_step [step_inv]:
  assumes i: "store_inv sha d" and s: "store_step sha up pr d d'"
  shows "store_inv sha d'"
  using s
proof (cases rule: store_step_frame)
  case (import' fs r res)
  have "books_ok sha d'"
    using import'
  proof (cases rule: import_three)
    case (Accepted path observed fp)
    then show ?thesis using books_committed i by (simp add: store_inv_def)
  qed (use i reject_books in \<open>auto simp: store_inv_def\<close>)
  then show ?thesis using i import_other_tables [OF import'] history_same [of d d'] by (simp add: store_inv_def)
next
  case (append' e res)
  have "history_ok d'" using append_event_history [of d e] append' i by (simp add: store_inv_def)
  moreover have "books_ok sha d'"
    by (rule append_event_cases [of d e])
      (use append' i in \<open>auto simp: store_inv_def books_updates\<close>)
  ultimately show ?thesis by (simp add: store_inv_def)
next
  case projection'
  then show ?thesis using i store_inv_projection_only by blast
next
  case (rebuild' d1 row)
  have "store_inv sha d1"
    using i by (simp add: store_inv_def rebuild'(1) insert_rebuild_def history_ok_def books_updates)
  then show ?thesis using rebuild'(2) store_inv_projection_only by blast
next
  case (playback' row)
  have "playback_coherent row" using playback' by (simp add: insert_playback_def split: if_splits)
  then show ?thesis
    using i insert_playback_db [OF playback'] by (simp add: store_inv_def history_ok_def books_updates)
next
  case (simulate' row)
  then show ?thesis
    using i insert_simulation_db [OF simulate'] by (simp add: store_inv_def history_ok_def books_updates)
next
  case (run' d1)
  have "store_inv sha d1" using i run'(1) store_inv_projection_only by blast
  then show ?thesis
    using run'(2) by (auto simp: run_appended_def store_inv_def history_ok_def books_updates)
next
  case (recover' a os)
  then show ?thesis
    using i by (simp add: store_inv_def history_ok_def books_updates)
qed


section \<open>Every reachable store reopens\<close>

text \<open>What a file holds when it is first used: nothing, or what a legacy store becomes.\<close>

definition store_start :: "(bytes \<Rightarrow> bytes) \<Rightarrow> (nat \<Rightarrow> bool) \<Rightarrow> db \<Rightarrow> bool" where
  "store_start sha pr d = (d = empty_db \<or> (\<exists>as vs. legacy_keys as vs
     \<and> list_all (legacy_version_ok sha as vs) vs \<and> d = legacy_db sha pr as vs))"

lemma store_start_inv: "store_start sha pr d \<Longrightarrow> store_inv sha d"
  using empty_books [of sha] legacy_books [of _ _ sha pr]
  by (auto simp: store_start_def store_inv_def) (simp_all add: history_ok_def empty_db_def legacy_db_def)

interpretation store_sys: monotone_system "store_start sha pr" "store_step sha up pr" "store_inv sha" records_grow
  for sha pr up
  by unfold_locales (auto intro: store_start_inv store_inv_step records_grow_trans store_step_grows)

text \<open>
  C2: the store is append-only: whatever operations run, in whatever order, with whatever
  arguments and answers of the file system, every artifact, version, operation, lineage row,
  discrepancy, event, rebuild, playback, simulation, reconciliation run, discrepancy of a run,
  recovery action and outcome recorded before is still there, unchanged and in its place.
\<close>

theorem store_append_only:
  assumes "(store_step sha up pr)\<^sup>*\<^sup>* d d'" "store_inv sha d"
  shows "records_grow d d'"
  using store_sys.steps_grow [OF assms] by blast

text \<open>A file that holds a store: its records, the metadata and decisions of version 3, and a current catalogue.\<close>

definition store_holds :: "(bytes \<Rightarrow> bytes) \<Rightarrow> engine \<Rightarrow> db \<Rightarrow> store_file \<Rightarrow> bool" where
  "store_holds sha en d f = (sf_db f = d \<and> sf_metadata f = [(''migration_lineage'', 1), (''schema_version'', 3)]
     \<and> (\<exists>ds. sf_decisions f = DecisionsV3 ds \<and> validate_v3_compatibility sha ds = Inr ())
     \<and> catalogue_current en (sf_catalogue f) \<and> intact en (sf_catalogue f) d)"

lemma opened_holds:
  "if_not_exists (run_ddl en) \<Longrightarrow> initialize sha pr en f = Inr f' \<Longrightarrow> schema_value f \<noteq> None \<Longrightarrow>
     store_holds sha en (sf_db f') f'"
  using initialize_openable initialize_current by (auto simp: openable_def store_holds_def)

lemma store_inv_reopens:
  assumes inv: "store_inv sha d" and f: "store_holds sha en d f"
  shows "initialize sha pr en f = Inr f \<longleftrightarrow> guards_free d" "(\<exists>f'. initialize sha pr en f = Inr f') \<longleftrightarrow> guards_free d"
proof -
  obtain ds where ds: "sf_decisions f = DecisionsV3 ds" "validate_v3_compatibility sha ds = Inr ()"
    and h: "sf_db f = d" "sf_metadata f = [(''migration_lineage'', 1), (''schema_version'', 3)]"
    and c: "catalogue_current en (sf_catalogue f)" "intact en (sf_catalogue f) (sf_db f)"
    using f by (auto simp: store_holds_def)
  have ev: "filter (\<lambda>r. ev_schema r = 1) (events d) = events d" "sorted_wrt (<) (map ev_sequence (events d))"
    using inv by (simp_all add: store_inv_def history_ok_def filter_id_conv)
  have g: "validate_slice3_guards d = Inr () \<longleftrightarrow> guards_free d"
    unfolding validate_slice3_guards_iff ev(1) using ev(2) by simp
  have o: "openable sha f \<longleftrightarrow> guards_free d"
    using books_validate [of sha d "sf_metadata f" "\<lparr>vc_origin = 3, vc_target = 3, vc_finalized = True\<rparr>" ds] inv ds h
    by (auto simp: openable_def g expected_metadata_def store_inv_def)
  have sound: "openable sha f" if "initialize sha pr en f = Inr f'" for f'
    using initialize_openable [OF that] current_stays [OF c(1) h(2) that] by simp
  show "initialize sha pr en f = Inr f \<longleftrightarrow> guards_free d" "(\<exists>f'. initialize sha pr en f = Inr f') \<longleftrightarrow> guards_free d"
    using o openable_reopens [OF _ c, of sha pr] sound by blast+
qed

text \<open>
  C1: every store the program can reach passes, when it is opened again, all the record checks:
  it opens, unchanged, exactly when none of its playbacks, simulations and projections carries
  one of the names that the program's own guard rows use. (A name is the caller's free choice,
  so a playback named \<open>guard\<close> makes a store that never opens again.)
\<close>

theorem reachable_store_reopens:
  assumes "reachable (store_start sha pr) (store_step sha up pr) d" "store_holds sha en d f"
  shows "(initialize sha pr en f = Inr f \<longleftrightarrow> guards_free d) \<and> (\<not> guards_free d \<longrightarrow> (\<nexists>f'. initialize sha pr en f = Inr f'))"
  using store_inv_reopens [OF store_sys.reachable_inv [OF assms(1)] assms(2)] by blast


text \<open>The same for one name: a playback that was recorded under \<open>guard\<close> locks its store.\<close>

theorem guard_playback_locks_store:
  assumes "store_inv sha d" "playback_with_inputs sha up d ''guard'' g ts is os = (Inr res, d')"
    "store_holds sha en d' f"
  shows "\<nexists>f'. initialize sha pr en f = Inr f'"
proof -
  have step: "store_step sha up (\<lambda>_. True) d d'" by (rule store_step.step_playback [OF assms(2)])
  obtain row where "insert_playback d row = Some d'" "pb_id row = ''guard''"
    using assms(2) by (auto simp: playback_with_inputs_def Let_def split: option.splits)
  then have "''guard'' \<in> pb_id ` set (playbacks d')" by (auto dest: insert_playback_db)
  then have "\<not> guards_free d'" by (auto simp: guards_free_def reserved_playbacks_def)
  then show ?thesis using store_inv_reopens(2) [OF store_inv_step [OF assms(1) step] assms(3)] by blast
qed

section \<open>Files that change\<close>

lemma observe_hash:
  assumes "observe sha f p e = Inr (i, h)" "observe sha f p e' = Inr (i', h')" shows "h = h'"
  by (rule observe_Inr [OF assms(1)], rule observe_Inr [OF assms(2)]) simp

text \<open>
  C8: once an artifact has a version, a file never brings it new content. When the file does not
  change while the import looks at it, an import from a file is accepted only with the content
  of the artifact's latest version: the durable check wants the file to carry the recorded
  digest and the content check wants it to carry the new one, and both look at the same file.
\<close>

theorem file_content_frozen:
  assumes "books_ok sha d" "import_artifact_version sha pr fs d r = Some (Inr w, d')"
    "i_operation r \<notin> op_id ` set (operations d)" "i_file r \<noteq> None"
    "latest_version d (target_artifact r) = Some u" "fs AtBefore = fs AtDurable"
  shows "hash_str sha (i_content r) = ver_hash u"
  using assms(2)
proof (cases rule: import_cases)
  case Unchanged
  then obtain path where "import_verdict sha pr fs d r path = Recorded (Some (v_version_id w))" by auto
  moreover have "row_with op_id (i_operation r) (operations d) = None" using assms(3) by (simp add: row_with_None)
  ultimately show ?thesis
    by (auto simp: import_verdict_def Let_def durable_verdict_def content_verdict_def
        split: if_splits option.splits sum.splits prod.splits)
next
  case (Accepted path observed)
  then obtain p where p: "path = Some p" using assms(4) by (cases path) auto
  have none: "row_with op_id (i_operation r) (operations d) = None" using assms(3) by (simp add: row_with_None)
  have c: "content_verdict sha fs d r path = Proceed observed" using import_verdict_Proceed [OF Accepted(5)] by blast
  have u: "u \<in> set (versions d)" using assms(5) by (auto simp: latest_version_def dest: last_row_Some)
  have "distinct (map ver_id (versions d))" using assms(1) by (simp add: books_ok_def)
  then have ru: "row_with ver_id (ver_id u) (versions d) = Some u" by (rule row_with_unique [OF _ u])
  have "durable_verdict sha (fs AtDurable) d r (bound_path d (target_artifact r)) p (ver_id u) = None"
    using Accepted(5) by (auto simp: import_verdict_def Let_def none assms(5) p split: if_splits option.splits)
  then have "map_option snd (to_ok (observe sha (fs AtDurable) p (ver_identity u))) = Some (ver_hash u)"
    by (auto simp: durable_verdict_def ru Let_def split: if_splits)
  then obtain i where old: "observe sha (fs AtDurable) p (ver_identity u) = Inr (i, ver_hash u)"
    by (cases "observe sha (fs AtDurable) p (ver_identity u)") auto
  obtain j where "observe sha (fs AtBefore) p (i_expected_identity r) = Inr (j, hash_str sha (i_content r))"
    using content_verdict_Proceed [OF c] by (auto simp: p)
  then show ?thesis using observe_hash [OF old] assms(6) by simp
qed simp

section \<open>Concrete runs\<close>

definition store_meta :: file_meta where
  "store_meta = \<lparr>dev = 1, ino = 7, uid = 1000, mode = 0x8180, kind = RegularFile, len = 0\<rparr>"

definition store_fs :: "open_look \<Rightarrow> fs" where
  "store_fs l = \<lparr>canonicalize = Some,
     symlink_metadata = (\<lambda>p. if p = ''/s'' then (if l = AtStat then NotFound else Found store_meta) else Found demo_dir),
     metadata = (\<lambda>p. None), open_nofollow = (\<lambda>p. None)\<rparr>"

definition demo_status :: str where
  "demo_status = ''Name: akashic'' @ [CHR 0x0A] @ ''Uid:'' @ [CHR 0x09] @ ''1000'' @ [CHR 0x09] @ ''1000'' @ [CHR 0x0A]"

lemma demo_uid: "current_uid (Some demo_status) = 1000"
  by code_simp

lemma demo_store_opens: "store_open demo_sha (\<lambda>_. True) sqlite (\<lambda>_. Some demo_status) store_fs Created (Inr empty_file) ''/s''
    = Inr (fresh_file demo_sha)"
proof -
  have "validate_parent (store_fs AtParent) ''/s'' = Inr ()" "stat_or_create store_fs Created ''/s'' = Inr store_meta"
    "validate_store_metadata 1000 store_meta = Inr ()"
    by code_simp+
  moreover have "symlink_metadata (store_fs AtOpened) ''/s'' = Found store_meta" by (simp add: store_fs_def)
  ultimately show ?thesis using fresh_run by (simp add: store_open_def checked_connection_def from_metadata_def demo_uid)
qed

lemma opened_file_private_witness:
  "openable demo_sha (fresh_file demo_sha)
   \<and> (\<exists>m. symlink_metadata (store_fs AtOpened) ''/s'' = Found m \<and> kind m = RegularFile \<and> uid m = 1000)"
  using opened_file_private [OF demo_store_opens] unfolding demo_uid by blast

definition demo_reimport :: import_request where
  "demo_reimport = (import_artifact ''a'' (import_file demo_fs ''/w/f'' (import_new ''second'' ''me'' ''src'' ''hello'')))
     \<lparr>i_ancestry := Some (v_version_id (version_of demo_sha demo_import))\<rparr>"

definition demo_reimported :: db where
  "demo_reimported = snd (the (import_artifact_version demo_sha (\<lambda>_. True) (\<lambda>_. demo_fs) demo_imported demo_reimport))"

lemma demo_reimport_run: "import_artifact_version demo_sha (\<lambda>_. True) (\<lambda>_. demo_fs) demo_imported demo_reimport
    = Some (Inr (version_of demo_sha demo_reimport), demo_reimported)"
  by code_simp

lemma file_content_frozen_witness:
  "\<exists>u. latest_version demo_imported (target_artifact demo_reimport) = Some u
     \<and> hash_str demo_sha (i_content demo_reimport) = ver_hash u"
proof -
  have books: "books_ok demo_sha demo_imported"
    using store_inv_step [OF store_start_inv store_step.step_import [OF demo_import_run]]
    by (simp add: store_start_def store_inv_def)
  have fresh: "i_operation demo_reimport \<notin> op_id ` set (operations demo_imported)"
    using arg_cong [OF demo_imported_ops(1), of set]
    by (simp add: demo_reimport_def import_artifact_def import_file_def import_new_def)
  have from_file: "i_file demo_reimport \<noteq> None"
    by (simp add: demo_reimport_def import_artifact_def import_file_def import_new_def)
  have "latest_version demo_imported (target_artifact demo_reimport) \<noteq> None" by code_simp
  then obtain u where "latest_version demo_imported (target_artifact demo_reimport) = Some u" by blast
  with file_content_frozen [OF books demo_reimport_run fresh from_file _ refl] show ?thesis by blast
qed

lemma demo_step: "store_step demo_sha demo_up (\<lambda>_. True) empty_db demo_history"
  by (rule store_step.step_append [of _ demo_event1 "Inr ()"]) code_simp

lemma demo_history_reachable:
  "reachable (store_start demo_sha (\<lambda>_. True)) (store_step demo_sha demo_up (\<lambda>_. True)) demo_history"
proof (rule reach_step)
  show "reachable (store_start demo_sha (\<lambda>_. True)) (store_step demo_sha demo_up (\<lambda>_. True)) empty_db"
    by (rule reach_init) (simp add: store_start_def)
qed (rule demo_step)

lemma fresh_holds: "store_holds demo_sha sqlite d ((fresh_file demo_sha)\<lparr>sf_db := d\<rparr>)"
  using slice4_alone_valid current_v3 by (simp add: store_holds_def fresh_file_def)

lemma store_append_only_witness:
  "records_grow demo_history (snd (append_event demo_history demo_event2))"
proof -
  have "store_inv demo_sha demo_history"
    using store_inv_step [OF store_start_inv demo_step] by (simp add: store_start_def)
  moreover have "store_step demo_sha demo_up (\<lambda>_. True) demo_history (snd (append_event demo_history demo_event2))"
    by (rule store_step.step_append [OF prod.collapse [symmetric]])
  ultimately show ?thesis by (intro store_append_only r_into_rtranclp)
qed

lemma reachable_store_reopens_witness:
  "initialize demo_sha (\<lambda>_. True) sqlite ((fresh_file demo_sha)\<lparr>sf_db := demo_history\<rparr>)
     = Inr ((fresh_file demo_sha)\<lparr>sf_db := demo_history\<rparr>)"
proof -
  have "guards_free demo_history" by (simp add: guards_free_def demo_simps)
  then show ?thesis
    using reachable_store_reopens [OF demo_history_reachable fresh_holds] by simp
qed

lemma guard_playback_locks_store_witness:
  "\<nexists>f'. initialize demo_sha (\<lambda>_. True) sqlite
     ((fresh_file demo_sha)\<lparr>sf_db := snd (playback_with_inputs demo_sha demo_up demo_history ''guard'' 0 [] [] [])\<rparr>) = Inr f'"
proof -
  obtain res d' where p: "playback_with_inputs demo_sha demo_up demo_history ''guard'' 0 [] [] [] = (Inr res, d')"
    by (cases "playback_with_inputs demo_sha demo_up demo_history ''guard'' 0 [] [] []")
      (auto simp: playback_with_inputs_def Let_def insert_playback_def new_key_def playback_coherent_def demo_simps
        split: if_splits option.splits)
  have "store_inv demo_sha demo_history"
    using store_inv_step [OF store_start_inv demo_step] by (simp add: store_start_def)
  from guard_playback_locks_store [OF this p fresh_holds] show ?thesis by (simp add: p)
qed

end
