(* ===== verification/Json.thy ===== *)
theory Json
  imports Utf8 "HOL-Library.Code_Target_Nat"
begin

text \<open>
  \<open>src/src/json.rs\<close>: the JSON parser of the protocol, the envelope reader, and the queries on
  values. The parser's state is the list of characters after its position; every function
  returns what it parsed with the characters that are left. Strings in values are byte strings
  again, as everywhere else.
\<close>

section \<open>Values\<close>

datatype json =
    JNull
  | JBool bool
  | JNumber str
  | JString str
  | JObject "(str \<times> json) list"
  | JArray "json list"

abbreviation code :: "char \<Rightarrow> nat" where
  "code c \<equiv> of_char c"

definition is_ascii_digit :: "nat \<Rightarrow> bool" where
  "is_ascii_digit c = (48 \<le> c \<and> c \<le> 57)"

section \<open>The scanner\<close>

definition is_json_space :: "nat \<Rightarrow> bool" where
  "is_json_space c = (c = 0x20 \<or> c = 9 \<or> c = 10 \<or> c = 13)"

definition p_ws :: "nat list \<Rightarrow> nat list" where
  "p_ws s = dropWhile is_json_space s"

definition p_consume :: "nat \<Rightarrow> nat list \<Rightarrow> nat list option" where
  "p_consume c s = (case s of [] \<Rightarrow> None | x # r \<Rightarrow> if x = c then Some r else None)"

text \<open>\<open>self.consume(c);\<close> as a statement: skip the character if it is there.\<close>

definition p_skip :: "nat \<Rightarrow> nat list \<Rightarrow> nat list" where
  "p_skip c s = (case p_consume c s of Some r \<Rightarrow> r | None \<Rightarrow> s)"

definition p_literal :: "str \<Rightarrow> json \<Rightarrow> nat list \<Rightarrow> (json \<times> nat list) option" where
  "p_literal lit v s =
     (if take (length lit) s = map code lit then Some (v, drop (length lit) s) else None)"

section \<open>Strings\<close>

text \<open>\<open>u32::from_str_radix(digits, 16)\<close>: an optional plus sign, then hexadecimal digits.\<close>

definition hex_code :: "nat \<Rightarrow> nat option" where
  "hex_code c = (if 48 \<le> c \<and> c \<le> 57 then Some (c - 48)
     else if 65 \<le> c \<and> c \<le> 70 then Some (c - 55)
     else if 97 \<le> c \<and> c \<le> 102 then Some (c - 87) else None)"

fun hex_number :: "nat \<Rightarrow> nat list \<Rightarrow> nat option" where
  "hex_number n [] = Some n"
| "hex_number n (c # cs) = (case hex_code c of None \<Rightarrow> None | Some d \<Rightarrow> hex_number (16 * n + d) cs)"

definition from_str_radix16 :: "nat list \<Rightarrow> nat option" where
  "from_str_radix16 cs =
     (case cs of [] \<Rightarrow> None
      | c # r \<Rightarrow> if c = 43 then (if r = [] then None else hex_number 0 r) else hex_number 0 cs)"

definition p_hex4 :: "nat list \<Rightarrow> (nat \<times> nat list) option" where
  "p_hex4 s = (if length s < 4 then None
     else map_option (\<lambda>n. (n, drop 4 s)) (from_str_radix16 (take 4 s)))"

definition p_unicode_escape :: "nat list \<Rightarrow> (nat \<times> nat list) option" where
  "p_unicode_escape s =
     (case p_hex4 s of None \<Rightarrow> None
      | Some (n, r) \<Rightarrow>
          if 0xD800 \<le> n \<and> n \<le> 0xDBFF then
            (case p_consume 0x5C r of None \<Rightarrow> None
             | Some r1 \<Rightarrow> (case p_consume 0x75 r1 of None \<Rightarrow> None
             | Some r2 \<Rightarrow> (case p_hex4 r2 of None \<Rightarrow> None
             | Some (low, r3) \<Rightarrow>
                 if 0xDC00 \<le> low \<and> low \<le> 0xDFFF
                 then map_option (\<lambda>c. (c, r3)) (from_u32 (0x10000 + (n - 0xD800) * 1024 + (low - 0xDC00)))
                 else None)))
          else if 0xDC00 \<le> n \<and> n \<le> 0xDFFF then None
          else map_option (\<lambda>c. (c, r)) (from_u32 n))"

definition simple_escape :: "nat \<Rightarrow> nat option" where
  "simple_escape c =
     (if c = 0x22 then Some 0x22 else if c = 0x5C then Some 0x5C else if c = 0x2F then Some 0x2F
      else if c = 0x62 then Some 8 else if c = 0x66 then Some 12 else if c = 0x6E then Some 10
      else if c = 0x72 then Some 13 else if c = 0x74 then Some 9 else None)"

lemma p_hex4_shorter: "p_hex4 s = Some (n, r) \<Longrightarrow> length r < length s"
  by (auto simp: p_hex4_def split: if_splits)

lemma p_consume_Some: "p_consume c s = Some r \<longleftrightarrow> s = c # r"
  by (auto simp: p_consume_def split: list.splits)

lemma p_unicode_escape_shorter: "p_unicode_escape s = Some (c, r) \<Longrightarrow> length r < length s"
  by (auto simp: p_unicode_escape_def p_consume_Some split: option.splits if_splits
      dest!: p_hex4_shorter)

text \<open>The loop of \<open>string\<close> after the opening quote.\<close>

function p_chars :: "nat list \<Rightarrow> (nat list \<times> nat list) option" where
  "p_chars [] = None"
| "p_chars (c # s) =
     (if c = 0x5C then
        (case s of [] \<Rightarrow> None
         | e # r \<Rightarrow>
             (case simple_escape e of
                Some x \<Rightarrow> map_option (\<lambda>(cs, t). (x # cs, t)) (p_chars r)
              | None \<Rightarrow>
                  if e = 0x75 then
                    (case p_unicode_escape r of None \<Rightarrow> None
                     | Some (x, r1) \<Rightarrow> map_option (\<lambda>(cs, t). (x # cs, t)) (p_chars r1))
                  else None))
      else if c = 0x22 then Some ([], s)
      else if is_control c then None
      else map_option (\<lambda>(cs, t). (c # cs, t)) (p_chars s))"
  by pat_completeness auto
termination
  by (relation "measure length") (auto dest!: p_unicode_escape_shorter)

declare p_chars.simps [simp del]

definition p_string :: "nat list \<Rightarrow> (str \<times> nat list) option" where
  "p_string s = (case p_consume 0x22 s of None \<Rightarrow> None
     | Some r \<Rightarrow> map_option (\<lambda>(cs, t). (of_chars cs, t)) (p_chars r))"

lemma p_chars_shorter: "p_chars s = Some (cs, r) \<Longrightarrow> length r < length s"
proof (induction "length s" arbitrary: s cs r rule: less_induct)
  case less
  have IH: "p_chars t = Some (ds, u) \<Longrightarrow> length t < length s \<Longrightarrow> length u < length s" for t ds u
    using less(1) [of t ds u] by linarith
  show ?case
  proof (cases s)
    case Nil
    with less.prems show ?thesis by (simp add: p_chars.simps)
  next
    case (Cons c t)
    show ?thesis
      using less.prems [unfolded Cons p_chars.simps] IH Cons
      by (fastforce split: if_splits list.splits option.splits dest!: p_unicode_escape_shorter)
  qed
qed

lemma p_string_shorter: "p_string s = Some (n, r) \<Longrightarrow> length r + 1 < length s"
  by (auto simp: p_string_def p_consume_Some split: option.splits dest!: p_chars_shorter)

section \<open>Numbers\<close>

text \<open>The loop \<open>while peek is a digit { next; digits += 1 }\<close> with its check for at least one.\<close>

definition p_digits :: "nat list \<Rightarrow> nat list option" where
  "p_digits s = (if takeWhile is_ascii_digit s = [] then None else Some (dropWhile is_ascii_digit s))"

definition p_int :: "nat list \<Rightarrow> nat list option" where
  "p_int s = (case p_consume 0x30 s of Some r \<Rightarrow> Some r | None \<Rightarrow> p_digits s)"

definition p_frac :: "nat list \<Rightarrow> nat list option" where
  "p_frac s = (case p_consume 0x2E s of Some r \<Rightarrow> p_digits r | None \<Rightarrow> Some s)"

definition p_exp :: "nat list \<Rightarrow> nat list option" where
  "p_exp s = (case s of [] \<Rightarrow> Some s
     | c # r \<Rightarrow> if c = 0x65 \<or> c = 0x45 then p_digits (p_skip 0x2D (p_skip 0x2B r)) else Some s)"

definition p_number :: "nat list \<Rightarrow> (str \<times> nat list) option" where
  "p_number s =
     (case p_int (p_skip 0x2D s) of None \<Rightarrow> None
      | Some s1 \<Rightarrow> (case p_frac s1 of None \<Rightarrow> None
      | Some s2 \<Rightarrow> (case p_exp s2 of None \<Rightarrow> None
      | Some r \<Rightarrow> Some (of_chars (take (length s - length r) s), r))))"

section \<open>Values, objects and arrays\<close>

function (sequential) p_value :: "nat list \<Rightarrow> (json \<times> nat list) option"
  and p_fields :: "(str \<times> json) list \<Rightarrow> nat list \<Rightarrow> (json \<times> nat list) option"
  and p_elements :: "json list \<Rightarrow> nat list \<Rightarrow> (json \<times> nat list) option"
where
  "p_value s =
     (case p_ws s of [] \<Rightarrow> None
      | c # r \<Rightarrow>
          if c = 0x6E then p_literal ''null'' JNull (c # r)
          else if c = 0x74 then p_literal ''true'' (JBool True) (c # r)
          else if c = 0x66 then p_literal ''false'' (JBool False) (c # r)
          else if c = 0x22 then map_option (\<lambda>(v, t). (JString v, t)) (p_string (c # r))
          else if c = 0x7B then p_fields [] r
          else if c = 0x5B then p_elements [] r
          else if c = 0x2D \<or> is_ascii_digit c then map_option (\<lambda>(v, t). (JNumber v, t)) (p_number (c # r))
          else None)"
| "p_fields fields s =
     (let s1 = p_ws s in
      case p_consume 0x7D s1 of Some r \<Rightarrow> Some (JObject fields, r)
      | None \<Rightarrow>
         (case p_string s1 of None \<Rightarrow> None
          | Some (name, s2) \<Rightarrow>
              if name \<in> fst ` set fields then None
              else (case p_consume 0x3A (p_ws s2) of None \<Rightarrow> None
               | Some s3 \<Rightarrow>
                  (case p_value s3 of None \<Rightarrow> None
                   | Some (v, s4) \<Rightarrow>
                      (case p_consume 0x7D (p_ws s4) of Some r \<Rightarrow> Some (JObject (fields @ [(name, v)]), r)
                       | None \<Rightarrow>
                          (case p_consume 0x2C (p_ws s4) of None \<Rightarrow> None
                           | Some s5 \<Rightarrow>
                               if p_consume 0x7D (p_ws s5) \<noteq> None then None
                               else p_fields (fields @ [(name, v)]) (p_ws s5)))))))"
| "p_elements vs s =
     (let s1 = p_ws s in
      case p_consume 0x5D s1 of Some r \<Rightarrow> Some (JArray vs, r)
      | None \<Rightarrow>
         (case p_value s1 of None \<Rightarrow> None
          | Some (v, s2) \<Rightarrow>
             (case p_consume 0x5D (p_ws s2) of Some r \<Rightarrow> Some (JArray (vs @ [v]), r)
              | None \<Rightarrow>
                 (case p_consume 0x2C (p_ws s2) of None \<Rightarrow> None
                  | Some s3 \<Rightarrow>
                      if p_consume 0x5D (p_ws s3) \<noteq> None then None
                      else p_elements (vs @ [v]) (p_ws s3)))))"
  by pat_completeness auto


lemma p_ws_shorter: "length (p_ws s) \<le> length s"
  by (simp add: p_ws_def length_dropWhile_le)

lemma p_literal_shorter: "p_literal l v s = Some (x, r) \<Longrightarrow> length r \<le> length s"
  by (auto simp: p_literal_def split: if_splits)

lemma p_digits_shorter: "p_digits s = Some r \<Longrightarrow> length r < length s"
  by (cases s) (auto simp: p_digits_def length_dropWhile_le le_imp_less_Suc split: if_splits)

lemma p_skip_shorter: "length (p_skip c s) \<le> length s"
  by (auto simp: p_skip_def p_consume_Some split: option.splits)

lemma p_int_shorter: "p_int s = Some r \<Longrightarrow> length r < length s"
  by (auto simp: p_int_def p_consume_Some p_digits_shorter split: option.splits)

lemma p_frac_shorter: "p_frac s = Some r \<Longrightarrow> length r \<le> length s"
  by (auto simp: p_frac_def p_consume_Some dest!: p_digits_shorter split: option.splits)

lemma p_exp_shorter: "p_exp s = Some r \<Longrightarrow> length r \<le> length s"
  using p_skip_shorter [of "0x2B" "tl s"] p_skip_shorter [of "0x2D" "p_skip 0x2B (tl s)"]
  by (auto simp: p_exp_def dest!: p_digits_shorter split: list.splits if_splits)

lemma p_number_shorter:
  assumes "p_number s = Some (n, r)" shows "length r < length s"
proof -
  obtain s1 s2 where "p_int (p_skip 0x2D s) = Some s1" "p_frac s1 = Some s2" "p_exp s2 = Some r"
    using assms by (auto simp: p_number_def split: option.splits)
  then show ?thesis
    using p_int_shorter p_frac_shorter p_exp_shorter p_skip_shorter [of "0x2D" s] by fastforce
qed

lemma p_progress:
  "p_value_p_fields_p_elements_dom (Inl s) \<Longrightarrow> \<forall>v r. p_value s = Some (v, r) \<longrightarrow> length r \<le> length s"
  "p_value_p_fields_p_elements_dom (Inr (Inl (fields, s))) \<Longrightarrow> \<forall>v r. p_fields fields s = Some (v, r) \<longrightarrow> length r \<le> length s"
  "p_value_p_fields_p_elements_dom (Inr (Inr (vs, s))) \<Longrightarrow> \<forall>v r. p_elements vs s = Some (v, r) \<longrightarrow> length r \<le> length s"
proof (induction s and fields s and vs s rule: p_value_p_fields_p_elements.pinduct)
  case (1 s)
  show ?case
  proof (intro allI impI)
    fix v r
    assume "p_value s = Some (v, r)"
    then show "length r \<le> length s"
      using 1 p_ws_shorter [of s]
      by (fastforce simp: p_value.psimps split: list.splits if_splits
          dest!: p_literal_shorter p_string_shorter p_number_shorter)
  qed
next
  case (2 fields s)
  show ?case
  proof (intro allI impI)
    fix v r
    assume a: "p_fields fields s = Some (v, r)"
    show "length r \<le> length s"
    proof (cases "p_consume 0x7D (p_ws s)")
      case (Some r')
      then have "r = r'" using a 2(1) by (simp add: p_fields.psimps Let_def)
      then show ?thesis using Some p_ws_shorter [of s] by (simp add: p_consume_Some)
    next
      case None
      obtain name s2 s3 w s4 where p: "p_string (p_ws s) = Some (name, s2)" "name \<notin> fst ` set fields"
          "p_consume 0x3A (p_ws s2) = Some s3" "p_value s3 = Some (w, s4)"
          "p_consume 0x7D (p_ws s4) = Some r
           \<or> p_consume 0x7D (p_ws s4) = None \<and> (\<exists>s5. p_consume 0x2C (p_ws s4) = Some s5
               \<and> p_consume 0x7D (p_ws s5) = None \<and> p_fields (fields @ [(name, w)]) (p_ws s5) = Some (v, r))"
        using a 2(1) None by (auto simp: p_fields.psimps Let_def split: option.splits if_splits)
      have "length s4 \<le> length s3"
        using 2(2) [OF refl None p(1) refl p(2,3)] p(4) by blast
      then have "length s4 \<le> length s"
        using p_string_shorter [OF p(1)] p_ws_shorter [of s] p_ws_shorter [of s2] p(3)
        by (simp add: p_consume_Some)
      moreover have "length r \<le> length s4"
      proof (cases "p_consume 0x7D (p_ws s4)")
        case (Some r')
        then show ?thesis using p(5) p_ws_shorter [of s4] by (simp add: p_consume_Some)
      next
        case nxt: None
        then obtain s5 where s5: "p_consume 0x2C (p_ws s4) = Some s5" "p_consume 0x7D (p_ws s5) = None"
            "p_fields (fields @ [(name, w)]) (p_ws s5) = Some (v, r)"
          using p(5) by auto
        have "length r \<le> length (p_ws s5)"
          using 2(3) [OF refl None p(1) refl p(2-4) refl nxt s5(1)] s5(2,3) by blast
        then show ?thesis using s5(1) p_ws_shorter [of s4] p_ws_shorter [of s5] by (simp add: p_consume_Some)
      qed
      ultimately show ?thesis by simp
    qed
  qed
next
  case (3 vs s)
  show ?case
  proof (intro allI impI)
    fix v r
    assume a: "p_elements vs s = Some (v, r)"
    show "length r \<le> length s"
    proof (cases "p_consume 0x5D (p_ws s)")
      case (Some r')
      then have "r = r'" using a 3(1) by (simp add: p_elements.psimps Let_def)
      then show ?thesis using Some p_ws_shorter [of s] by (simp add: p_consume_Some)
    next
      case None
      obtain w s2 where p: "p_value (p_ws s) = Some (w, s2)"
          "p_consume 0x5D (p_ws s2) = Some r
           \<or> p_consume 0x5D (p_ws s2) = None \<and> (\<exists>s3. p_consume 0x2C (p_ws s2) = Some s3
               \<and> p_consume 0x5D (p_ws s3) = None \<and> p_elements (vs @ [w]) (p_ws s3) = Some (v, r))"
        using a 3(1) None by (auto simp: p_elements.psimps Let_def split: option.splits if_splits)
      have "length s2 \<le> length s"
        using 3(2) [OF refl None] p(1) p_ws_shorter [of s] by force
      moreover have "length r \<le> length s2"
      proof (cases "p_consume 0x5D (p_ws s2)")
        case (Some r')
        then show ?thesis using p(2) p_ws_shorter [of s2] by (simp add: p_consume_Some)
      next
        case nxt: None
        then obtain s3 where s3: "p_consume 0x2C (p_ws s2) = Some s3" "p_consume 0x5D (p_ws s3) = None"
            "p_elements (vs @ [w]) (p_ws s3) = Some (v, r)"
          using p(2) by auto
        have "length r \<le> length (p_ws s3)"
          using 3(3) [OF refl None p(1) refl nxt s3(1)] s3(2,3) by blast
        then show ?thesis using s3(1) p_ws_shorter [of s2] p_ws_shorter [of s3] by (simp add: p_consume_Some)
      qed
      ultimately show ?thesis by simp
    qed
  qed
qed

lemma p_ws_Cons: "p_ws s = c # r \<Longrightarrow> length r < length s"
  using p_ws_shorter [of s] by simp

lemma p_total: "All p_value_p_fields_p_elements_dom"
proof (relation "measure (\<lambda>x. case x of Inl s \<Rightarrow> 2 * length s
    | Inr (Inl (_, s)) \<Rightarrow> 2 * length s + 1 | Inr (Inr (_, s)) \<Rightarrow> 2 * length s + 1)", goal_cases)
  case 1
  show ?case by simp
next
  case (2 s c r)
  then show ?case using p_ws_Cons by fastforce
next
  case (3 s c r)
  then show ?case using p_ws_Cons by fastforce
next
  case (4 fields s s1 x name s2 s3)
  then have "length s2 + 1 < length s1" "length s3 < length s2"
    using p_string_shorter [of s1 name s2] p_ws_Cons [of s2 "0x3A" s3] by (auto simp: p_consume_Some)
  then show ?case using 4(1) p_ws_shorter [of s] by simp
next
  case (5 fields s s1 x name s2 s3 y v s4 s5)
  have "p_value s3 = Some (v, s4)" using 5 by simp
  then have "length s4 \<le> length s3" using p_progress(1) 5 by blast
  moreover have "p_string s1 = Some (name, s2)" using 5 by simp
  then have "length s2 + 1 < length s1" by (rule p_string_shorter)
  moreover have "length s3 < length s2"
    by (rule p_ws_Cons [OF 5(6) [unfolded p_consume_Some]])
  moreover have "length s5 < length s4"
    by (rule p_ws_Cons [OF 5(10) [unfolded p_consume_Some]])
  ultimately show ?case using 5(1) p_ws_shorter [of s] p_ws_shorter [of s5] by simp
next
  case (6 vs s s1)
  then show ?case using p_ws_shorter [of s] by simp
next
  case (7 vs s s1 x v s2 s3)
  have "p_value s1 = Some (v, s2)" using 7 by simp
  then have "length s2 \<le> length s1" using p_progress(1) 7 by blast
  moreover have "length s3 < length s2" by (rule p_ws_Cons [OF 7(6) [unfolded p_consume_Some]])
  ultimately show ?case using 7(1) p_ws_shorter [of s] p_ws_shorter [of s3] by simp
qed

termination p_value
  by (rule p_total)

declare p_value.simps [simp del] p_fields.simps [simp del] p_elements.simps [simp del]

lemma p_value_shorter: "p_value s = Some (v, r) \<Longrightarrow> length r \<le> length s"
  using p_progress(1) [OF p_total [rule_format]] by simp

section \<open>The entry points\<close>

definition parse :: "str \<Rightarrow> json option" where
  "parse input = (case p_value (chars input) of None \<Rightarrow> None
     | Some (v, r) \<Rightarrow> if p_ws r = [] then Some v else None)"

definition field :: "(str \<times> json) list \<Rightarrow> str \<Rightarrow> json option" where
  "field members key = map_option snd (find (\<lambda>(f, _). f = key) members)"

definition object_field :: "json \<Rightarrow> str \<Rightarrow> json option" where
  "object_field v key = (case v of JObject members \<Rightarrow> field members key | _ \<Rightarrow> None)"

definition string_value :: "json \<Rightarrow> str option" where
  "string_value v = (case v of JString s \<Rightarrow> Some s | _ \<Rightarrow> None)"

definition number_is :: "json \<Rightarrow> str \<Rightarrow> bool" where
  "number_is v expected = (case v of JNumber n \<Rightarrow> n = expected | _ \<Rightarrow> False)"

definition string_field :: "(str \<times> json) list \<Rightarrow> str \<Rightarrow> str option" where
  "string_field members key = Option.bind (field members key) string_value"

definition number_field :: "(str \<times> json) list \<Rightarrow> str \<Rightarrow> str option" where
  "number_field members key =
     (case field members key of Some (JNumber n) \<Rightarrow> Some n | _ \<Rightarrow> None)"

record envelope =
  en_protocol :: "str option"
  en_version :: "str option"
  en_version_present :: bool
  en_kind :: "str option"
  en_id :: "str option"
  en_correlation_id :: "str option"
  en_correlation_id_present :: bool
  en_payload :: "json option"
  en_error :: "json option"

definition envelope_names :: "str list" where
  "envelope_names =
     [''protocol'', ''version'', ''kind'', ''id'', ''correlation_id'', ''payload'', ''error'']"

definition read_envelope :: "str \<Rightarrow> envelope option" where
  "read_envelope input =
     (case parse input of
        Some (JObject members) \<Rightarrow>
          if list_ex (\<lambda>(key, _). key \<notin> set envelope_names) members then None
          else Some \<lparr>en_protocol = string_field members ''protocol'',
                     en_version = number_field members ''version'',
                     en_version_present = (field members ''version'' \<noteq> None),
                     en_kind = string_field members ''kind'',
                     en_id = string_field members ''id'',
                     en_correlation_id = string_field members ''correlation_id'',
                     en_correlation_id_present = (field members ''correlation_id'' \<noteq> None),
                     en_payload = field members ''payload'',
                     en_error = field members ''error''\<rparr>
      | _ \<Rightarrow> None)"

text \<open>The loop of \<open>top_level_string_prefix\<close>, after the opening brace.\<close>

function prefix_loop :: "str \<Rightarrow> nat list \<Rightarrow> str option" where
  "prefix_loop wanted s =
     (let s1 = p_ws s in
      if p_consume 0x7D s1 \<noteq> None then None
      else (case p_string s1 of None \<Rightarrow> None
       | Some (key, s2) \<Rightarrow>
          (case p_consume 0x3A (p_ws s2) of None \<Rightarrow> None
           | Some s3 \<Rightarrow>
              (case p_value (p_ws s3) of None \<Rightarrow> None
               | Some (v, s4) \<Rightarrow>
                   if key = wanted then string_value v
                   else if p_consume 0x7D (p_ws s4) \<noteq> None then None
                   else (case p_consume 0x2C (p_ws s4) of None \<Rightarrow> None
                         | Some s5 \<Rightarrow> prefix_loop wanted s5)))))"
  by pat_completeness auto
termination
proof (relation "measure (length \<circ> snd)", goal_cases)
  case 1
  show ?case by simp
next
  case (2 wanted s s1 x key s2 s3 y v s4 s5)
  have "p_value (p_ws s3) = Some (v, s4)" using 2 by simp
  then have "length s4 \<le> length (p_ws s3)" by (rule p_value_shorter)
  moreover have "p_string s1 = Some (key, s2)" using 2 by simp
  then have "length s2 + 1 < length s1" by (rule p_string_shorter)
  moreover have "length s3 < length s2"
    by (rule p_ws_Cons [OF 2(5) [unfolded p_consume_Some]])
  moreover have "length s5 < length s4"
    by (rule p_ws_Cons [OF 2(10) [unfolded p_consume_Some]])
  ultimately show ?case using 2(1) p_ws_shorter [of s] p_ws_shorter [of s3] by simp
qed

declare prefix_loop.simps [simp del]

definition top_level_string_prefix :: "str \<Rightarrow> str \<Rightarrow> str option" where
  "top_level_string_prefix input wanted =
     (case p_consume 0x7B (p_ws (chars input)) of None \<Rightarrow> None
      | Some s \<Rightarrow> prefix_loop wanted s)"

end
