(* ===== verification/Render.thy ===== *)
theory Render
  imports Json
begin

text \<open>
  Printing JSON: \<open>json_quote\<close> of \<open>src/src/main.rs\<close>, the quoting function behind every message the
  program writes, and a reference printer of values that uses it. What the printer writes, the
  parser of \<open>json.rs\<close> reads back; what the parser reads has distinct names and valid text.
\<close>

section \<open>Quoting\<close>

definition quote_char :: "nat \<Rightarrow> nat list" where
  "quote_char c =
     (if c = 0x22 then [0x5C, 0x22]
      else if c = 0x5C then [0x5C, 0x5C]
      else if c = 0x0A then [0x5C, 0x6E]
      else if c = 0x0D then [0x5C, 0x72]
      else if c = 0x09 then [0x5C, 0x74]
      else if is_control c then 0x5C # 0x75 # map code (hex_pad 4 c)
      else [c])"

definition quoted :: "str \<Rightarrow> nat list" where
  "quoted s = 0x22 # concat (map quote_char (chars s)) @ [0x22]"

definition json_quote :: "str \<Rightarrow> str" where
  "json_quote s = of_chars (quoted s)"

section \<open>The reference printer\<close>

fun comma_join :: "nat list list \<Rightarrow> nat list" where
  "comma_join [] = []"
| "comma_join [x] = x"
| "comma_join (x # y # r) = x @ 0x2C # comma_join (y # r)"

fun render_chars :: "json \<Rightarrow> nat list" where
  "render_chars JNull = map code ''null''"
| "render_chars (JBool b) = map code (if b then ''true'' else ''false'')"
| "render_chars (JNumber n) = chars n"
| "render_chars (JString s) = quoted s"
| "render_chars (JObject ms) =
     0x7B # comma_join (map (\<lambda>(n, v). quoted n @ 0x3A # render_chars v) ms) @ [0x7D]"
| "render_chars (JArray vs) = 0x5B # comma_join (map render_chars vs) @ [0x5D]"

definition render :: "json \<Rightarrow> str" where
  "render v = of_chars (render_chars v)"

text \<open>A number as the program writes and reads it: all of it is one number token.\<close>

definition number_ok :: "str \<Rightarrow> bool" where
  "number_ok n = (p_number (chars n) = Some (n, []) \<and> utf8_ok n)"

fun json_ok :: "json \<Rightarrow> bool" where
  "json_ok (JNumber n) = number_ok n"
| "json_ok (JString s) = utf8_ok s"
| "json_ok (JObject ms) =
     (distinct (map fst ms) \<and> list_all (\<lambda>(n, v). utf8_ok n \<and> json_ok v) ms)"
| "json_ok (JArray vs) = list_all json_ok vs"
| "json_ok v = True"

section \<open>Strings read back\<close>

lemma is_scalar_less [simp]: "c < 0xD800 \<Longrightarrow> is_scalar c"
  by (simp add: is_scalar_def)

lemma p_consume_simps [simp]:
  "p_consume c [] = None" "p_consume c (x # r) = (if x = c then Some r else None)"
  by (simp_all add: p_consume_def)

lemma hex_pad4_byte:
  "c < 256 \<Longrightarrow> hex_pad 4 c = [CHR ''0'', CHR ''0'', hex_digit (c div 16), hex_digit (c mod 16)]"
proof (cases "c < 16")
  case True
  then have "hex c = [hex_digit c]" by (subst hex.simps) simp
  moreover have "hex_digit 0 = CHR ''0''" by code_simp
  ultimately show ?thesis using True by (simp add: hex_pad_def numeral_3_eq_3)
next
  case False
  assume "c < 256"
  then have "hex (c div 16) = [hex_digit (c div 16)]" by (subst hex.simps) auto
  then have "hex c = [hex_digit (c div 16), hex_digit (c mod 16)]" using False by (subst hex.simps) simp
  then show ?thesis by (simp add: hex_pad_def numeral_2_eq_2)
qed

lemma hex_code_digit: "n < 16 \<Longrightarrow> hex_code (code (hex_digit n)) = Some n"
  by (simp add: hex_digit_byte hex_code_def)

lemma hex4_control: "c < 160 \<Longrightarrow> p_hex4 (map code (hex_pad 4 c) @ s) = Some (c, s)"
  by (simp add: hex_pad4_byte p_hex4_def from_str_radix16_def hex_code_digit hex_code_def [of "48"])

lemma is_control_less: "is_control c \<Longrightarrow> c < 160"
  by (auto simp: is_control_def)

lemma p_unicode_control:
  "c < 160 \<Longrightarrow> p_unicode_escape (map code (hex_pad 4 c) @ s) = Some (c, s)"
  by (simp add: p_unicode_escape_def hex4_control from_u32_def is_scalar_def)

lemma p_chars_quote_char:
  "p_chars (quote_char c @ s) = map_option (\<lambda>(cs, t). (c # cs, t)) (p_chars s)"
  by (auto simp: quote_char_def p_chars.simps simple_escape_def p_unicode_control is_control_less)

lemma p_chars_quoted:
  "p_chars (concat (map quote_char cs) @ 0x22 # s) = Some (cs, s)"
  by (induction cs) (simp_all add: p_chars_quote_char p_chars.simps)

lemma p_string_quoted: "utf8_ok s \<Longrightarrow> p_string (quoted s @ r) = Some (s, r)"
  using p_chars_quoted [of "chars s" r]
  by (simp add: p_string_def quoted_def p_consume_def of_chars_chars)

text \<open>Everything printed is a sequence of Unicode scalar values, so text and characters agree.\<close>

definition scalars :: "nat list \<Rightarrow> bool" where
  "scalars cs = list_all is_scalar cs"

lemma scalars_simps [simp]:
  "scalars []" "scalars (c # cs) \<longleftrightarrow> is_scalar c \<and> scalars cs"
  "scalars (xs @ ys) \<longleftrightarrow> scalars xs \<and> scalars ys"
  by (simp_all add: scalars_def)

lemma scalars_code [simp]: "scalars (map code s) = (\<forall>c\<in>set s. is_scalar (code c))"
  by (auto simp: scalars_def list_all_iff)

lemma is_scalar_code [simp]: "is_scalar (code c)"
  using byte_less [of c] unfolding is_scalar_def by linarith

lemma scalars_chars [simp]: "scalars (chars s)"
  by (simp add: scalars_def list_all_iff chars_scalar)

lemma scalars_quote_char: "is_scalar c \<Longrightarrow> scalars (quote_char c)"
  by (simp add: quote_char_def)

lemma scalars_concat: "(\<forall>x\<in>set xs. scalars x) \<Longrightarrow> scalars (concat xs)"
  by (induction xs) simp_all

lemma scalars_quoted [simp]: "scalars (quoted s)"
  by (auto simp: quoted_def intro!: scalars_concat scalars_quote_char chars_scalar)

lemma scalars_comma_join: "(\<forall>x\<in>set xs. scalars x) \<Longrightarrow> scalars (comma_join xs)"
  by (induction xs rule: comma_join.induct) simp_all

lemma scalars_render: "scalars (render_chars v)"
proof (induction v)
  case (JObject ms)
  then have "\<forall>x\<in>set (map (\<lambda>(n, v). quoted n @ 0x3A # render_chars v) ms). scalars x"
    by fastforce
  from scalars_comma_join [OF this] show ?case by simp
next
  case (JArray vs)
  then have "\<forall>x\<in>set (map render_chars vs). scalars x" by simp
  from scalars_comma_join [OF this] show ?case by simp
qed simp_all

lemma chars_of_scalars: "scalars cs \<Longrightarrow> chars (of_chars cs) = cs"
  by (simp add: scalars_def list_all_iff chars_of_chars)

lemma chars_render: "chars (render v) = render_chars v"
  by (simp add: render_def chars_of_scalars scalars_render)

lemma utf8_ok_render [simp]: "utf8_ok (render v)"
  using scalars_render [of v] by (simp add: render_def scalars_def list_all_iff utf8_ok_of_chars)

section \<open>Numbers read back\<close>

text \<open>What may follow a value inside a rendered value.\<close>

definition ends :: "nat list \<Rightarrow> bool" where
  "ends e = (e = [] \<or> hd e \<in> {0x2C, 0x7D, 0x5D, 0x20, 9, 10, 13})"

lemma ends_simps [simp]:
  "ends []" "ends (c # e) \<longleftrightarrow> c \<in> {0x2C, 0x7D, 0x5D, 0x20, 9, 10, 13}"
  by (simp_all add: ends_def)

lemma ends_not_digit: "ends (c # e) \<Longrightarrow> \<not> is_ascii_digit c"
  by (auto simp: is_ascii_digit_def)

lemma p_digits_end:
  assumes "p_digits s = Some r" "ends e" shows "p_digits (s @ e) = Some (r @ e)"
proof (cases r)
  case Nil
  then have "\<forall>c\<in>set s. is_ascii_digit c" "s \<noteq> []"
    using assms(1) by (auto simp: p_digits_def split: if_splits)
  moreover from this(1) have "takeWhile is_ascii_digit s = s" "dropWhile is_ascii_digit s = []" by simp_all
  ultimately show ?thesis
    using assms Nil ends_not_digit by (cases e) (auto simp: p_digits_def)
next
  case (Cons c r')
  then have d: "dropWhile is_ascii_digit s = c # r'" "takeWhile is_ascii_digit s \<noteq> []"
    using assms(1) by (auto simp: p_digits_def split: if_splits)
  then have "c \<in> set s" "\<not> is_ascii_digit c"
    by (metis list.set_intros(1) set_dropWhileD) (metis d(1) dropWhile_eq_Cons_conv)
  then have "takeWhile is_ascii_digit (s @ e) = takeWhile is_ascii_digit s"
      "dropWhile is_ascii_digit (s @ e) = dropWhile is_ascii_digit s @ e"
    by (auto simp: takeWhile_append1 dropWhile_append1)
  then show ?thesis using d Cons by (simp add: p_digits_def)
qed

lemma p_skip_end: "ends e \<Longrightarrow> c \<in> {0x2D, 0x2B} \<Longrightarrow> p_skip c (s @ e) = p_skip c s @ e"
  by (cases s; cases e) (auto simp: p_skip_def)

lemma p_int_end: "p_int s = Some r \<Longrightarrow> ends e \<Longrightarrow> p_int (s @ e) = Some (r @ e)"
  using p_digits_end [of s r e]
  by (cases s; cases e) (auto simp: p_int_def p_digits_def split: if_splits)

lemma p_frac_end: "p_frac s = Some r \<Longrightarrow> ends e \<Longrightarrow> p_frac (s @ e) = Some (r @ e)"
  using p_digits_end [of "tl s" r e]
  by (cases s; cases e) (auto simp: p_frac_def split: if_splits)

lemma p_exp_end:
  assumes "p_exp s = Some r" "ends e" shows "p_exp (s @ e) = Some (r @ e)"
proof (cases s)
  case Nil
  then show ?thesis using assms by (cases e) (auto simp: p_exp_def)
next
  case (Cons c s')
  show ?thesis
  proof (cases "c = 0x65 \<or> c = 0x45")
    case True
    then have "p_digits (p_skip 0x2D (p_skip 0x2B s')) = Some r" using assms(1) Cons by (simp add: p_exp_def)
    from p_digits_end [OF this assms(2)] show ?thesis
      using True Cons by (simp add: p_exp_def p_skip_end [OF assms(2)])
  next
    case False
    then have "r = c # s'" using assms(1) Cons by (simp add: p_exp_def)
    then show ?thesis using False Cons by (simp add: p_exp_def)
  qed
qed

lemma p_number_parts:
  assumes "p_number s = Some (n, r)"
  obtains s1 s2 where "p_int (p_skip 0x2D s) = Some s1" "p_frac s1 = Some s2" "p_exp s2 = Some r"
    "n = of_chars (take (length s - length r) s)" "length r < length s"
  using assms p_number_shorter [OF assms] by (auto simp: p_number_def split: option.splits)

lemma p_number_end:
  assumes "p_number s = Some (n, r)" "ends e" shows "p_number (s @ e) = Some (n, r @ e)"
proof -
  obtain s1 s2 where p: "p_int (p_skip 0x2D s) = Some s1" "p_frac s1 = Some s2" "p_exp s2 = Some r"
      "n = of_chars (take (length s - length r) s)" "length r < length s"
    using p_number_parts [OF assms(1)] .
  then show ?thesis
    using p_int_end [OF p(1) assms(2)] p_frac_end [OF p(2) assms(2)] p_exp_end [OF p(3) assms(2)] assms(2)
    by (simp add: p_number_def p_skip_end)
qed

section \<open>Values read back\<close>

lemma p_ws_not_space [simp]: "\<not> is_json_space c \<Longrightarrow> p_ws (c # s) = c # s"
  by (simp add: p_ws_def)

lemma p_ws_Nil [simp]: "p_ws [] = []"
  by (simp add: p_ws_def)

lemma not_json_space [simp]:
  "\<not> is_json_space 0x22" "\<not> is_json_space 0x2C" "\<not> is_json_space 0x3A" "\<not> is_json_space 0x7B"
  "\<not> is_json_space 0x7D" "\<not> is_json_space 0x5B" "\<not> is_json_space 0x5D"
  "\<not> is_json_space 0x6E" "\<not> is_json_space 0x74" "\<not> is_json_space 0x66"
  by (simp_all add: is_json_space_def)

definition reads_back :: "json \<Rightarrow> bool" where
  "reads_back v = (\<forall>e. ends e \<longrightarrow> p_value (render_chars v @ e) = Some (v, e))"

lemma number_first:
  assumes "number_ok n" obtains c r where "chars n = c # r" "c = 0x2D \<or> is_ascii_digit c"
proof (cases "chars n")
  case Nil
  then show ?thesis using assms p_number_shorter by (fastforce simp: number_ok_def)
next
  case (Cons c r)
  have "c = 0x2D \<or> is_ascii_digit c"
    using assms Cons
    by (auto simp: number_ok_def p_number_def p_skip_def p_int_def p_digits_def is_ascii_digit_def
        split: option.splits if_splits)
  then show ?thesis using that Cons by blast
qed

lemma number_reads_back: "number_ok n \<Longrightarrow> reads_back (JNumber n)"
proof -
  assume n: "number_ok n"
  obtain c r where c: "chars n = c # r" "c = 0x2D \<or> is_ascii_digit c" using number_first [OF n] .
  have "\<not> is_json_space c" "c \<notin> {0x6E, 0x74, 0x66, 0x22, 0x7B, 0x5B}"
    using c(2) by (auto simp: is_json_space_def is_ascii_digit_def)
  moreover have "p_number (c # r @ e) = Some (n, e)" if "ends e" for e
    using p_number_end [of "chars n" n "[]" e] n c that by (simp add: number_ok_def)
  ultimately show ?thesis using c by (simp add: reads_back_def p_value.simps)
qed

lemma quoted_Cons: "quoted s = 0x22 # concat (map quote_char (chars s)) @ [0x22]"
  by (simp add: quoted_def)

definition member_chars :: "str \<times> json \<Rightarrow> nat list" where
  "member_chars m = quoted (fst m) @ 0x3A # render_chars (snd m)"

lemma p_ws_member [simp]: "p_ws (quoted n @ s) = quoted n @ s"
  by (simp add: quoted_Cons)

lemma p_consume_quoted [simp]: "c \<noteq> 0x22 \<Longrightarrow> p_consume c (quoted n @ s) = None"
  by (simp add: quoted_Cons)

lemma fields_read_back:
  "ms \<noteq> [] \<Longrightarrow> distinct (map fst (acc @ ms)) \<Longrightarrow> \<forall>(n, v)\<in>set ms. utf8_ok n \<and> reads_back v \<Longrightarrow>
   p_fields acc (comma_join (map member_chars ms) @ 0x7D # e) = Some (JObject (acc @ ms), e)"
proof (induction ms arbitrary: acc)
  case (Cons m ms)
  obtain n v where m: "m = (n, v)" by (cases m)
  have n: "n \<notin> fst ` set acc" "utf8_ok n" and v: "ends s \<Longrightarrow> p_value (render_chars v @ s) = Some (v, s)" for s
    using Cons.prems(2,3) m by (auto simp: reads_back_def)
  show ?case
  proof (cases ms)
    case Nil
    then show ?thesis
      using n v m by (simp add: p_fields.simps member_chars_def p_string_quoted)
  next
    case (Cons k ks)
    have "p_fields (acc @ [(n, v)]) (comma_join (map member_chars ms) @ 0x7D # e)
        = Some (JObject (acc @ m # ms), e)"
      using Cons.IH [of "acc @ [m]"] Cons.prems(2,3) Cons m by simp
    moreover obtain u where "comma_join (map member_chars ms) = quoted (fst k) @ u"
      using Cons by (cases ks) (simp_all add: member_chars_def)
    ultimately show ?thesis
      using n v m Cons by (subst p_fields.simps) (simp add: member_chars_def p_string_quoted)
  qed
qed simp

lemma render_first:
  assumes "json_ok v" obtains c r where "render_chars v = c # r" "\<not> is_json_space c" "c \<noteq> 0x5D"
proof (cases v)
  case (JNumber n)
  then obtain c r where "chars n = c # r" "c = 0x2D \<or> is_ascii_digit c"
    using assms number_first by (metis json_ok.simps(1))
  then show ?thesis using that JNumber by (auto simp: is_json_space_def is_ascii_digit_def)
next
  case (JBool b)
  then show ?thesis using that by (cases b) simp_all
qed (use that in \<open>simp_all add: quoted_Cons\<close>)

lemma elements_read_back:
  "vs \<noteq> [] \<Longrightarrow> \<forall>v\<in>set vs. json_ok v \<and> reads_back v \<Longrightarrow>
   p_elements acc (comma_join (map render_chars vs) @ 0x5D # e) = Some (JArray (acc @ vs), e)"
proof (induction vs arbitrary: acc)
  case (Cons v vs)
  have v: "ends s \<Longrightarrow> p_value (render_chars v @ s) = Some (v, s)" for s
    using Cons.prems(2) by (simp add: reads_back_def)
  obtain c r where c: "render_chars v = c # r" "\<not> is_json_space c" "c \<noteq> 0x5D"
    using render_first Cons.prems(2) by (metis list.set_intros(1))
  then have v': "ends s \<Longrightarrow> p_value (c # r @ s) = Some (v, s)" for s using v [of s] by simp
  show ?case
  proof (cases vs)
    case Nil
    then show ?thesis using c v' by (simp add: p_elements.simps)
  next
    case (Cons k ks)
    obtain d q where d: "render_chars k = d # q" "\<not> is_json_space d" "d \<noteq> 0x5D"
      using render_first Cons.prems(2) Cons by (metis list.set_intros(1,2))
    have "p_elements (acc @ [v]) (comma_join (map render_chars vs) @ 0x5D # e) = Some (JArray (acc @ v # vs), e)"
      using Cons.IH [of "acc @ [v]"] Cons.prems(2) Cons by simp
    moreover obtain u where "comma_join (map render_chars vs) = d # u"
      using Cons d(1) by (cases ks) simp_all
    ultimately show ?thesis
      using c v' Cons d(2,3) by (subst p_elements.simps) simp
  qed
qed simp

lemma render_reads_back: "json_ok v \<Longrightarrow> reads_back v"
proof (induction v)
  case (JBool b)
  then show ?case by (simp add: reads_back_def p_value.simps p_literal_def)
next
  case JNull
  then show ?case by (simp add: reads_back_def p_value.simps p_literal_def)
next
  case (JNumber n)
  then show ?case using number_reads_back by simp
next
  case (JString s)
  then show ?case using p_string_quoted [of s]
    by (simp add: reads_back_def p_value.simps) (simp add: quoted_Cons)
next
  case (JObject ms)
  have eq: "map (\<lambda>(n, v). quoted n @ 0x3A # render_chars v) ms = map member_chars ms"
    by (auto simp: member_chars_def)
  have r: "\<forall>(n, v)\<in>set ms. utf8_ok n \<and> reads_back v"
    using JObject by (fastforce simp: list_all_iff)
  show ?case
  proof (cases "ms = []")
    case True
    then show ?thesis by (simp add: reads_back_def p_value.simps p_fields.simps)
  next
    case False
    then show ?thesis
      using fields_read_back [of ms "[]"] r JObject.prems
      by (simp add: reads_back_def p_value.simps eq)
  qed
next
  case (JArray vs)
  have r: "\<forall>v\<in>set vs. json_ok v \<and> reads_back v"
    using JArray by (simp add: list_all_iff)
  show ?case
  proof (cases "vs = []")
    case True
    then show ?thesis by (simp add: reads_back_def p_value.simps p_elements.simps)
  next
    case False
    then show ?thesis
      using elements_read_back [of vs "[]"] r by (simp add: reads_back_def p_value.simps)
  qed
qed

definition newline :: str where
  "newline = [CHR 0x0A]"

lemma newline_chars: "newline = of_chars [10]"
  unfolding newline_def by code_simp

lemma render_newline: "render v @ newline = of_chars (render_chars v @ [10])"
  by (simp only: newline_chars render_def of_chars_simps)

lemma parse_render_line:
  assumes "json_ok v" shows "parse (render v @ newline) = Some v"
proof -
  have "chars (render v @ newline) = render_chars v @ [10]"
    using chars_of_scalars [of "render_chars v @ [10]"] by (simp add: render_newline scalars_render)
  then show ?thesis
    using render_reads_back [OF assms] by (simp add: parse_def reads_back_def p_ws_def is_json_space_def)
qed

lemma parse_render:
  assumes "json_ok v" shows "parse (render v) = Some v"
  using render_reads_back [OF assms, unfolded reads_back_def, rule_format, of "[]"]
  by (simp add: parse_def chars_render)

section \<open>What the parser accepts\<close>

text \<open>A number token does not depend on what follows it.\<close>

lemma p_skip_suffix: "suffix (p_skip c s) s"
  by (auto simp: p_skip_def p_consume_Some split: option.splits intro: suffix_ConsI)

lemma p_digits_suffix: "p_digits s = Some r \<Longrightarrow> suffix r s"
  by (auto simp: p_digits_def suffix_dropWhile split: if_splits)

lemma p_int_suffix: "p_int s = Some r \<Longrightarrow> suffix r s"
  by (auto simp: p_int_def p_consume_Some p_digits_suffix suffix_ConsI split: option.splits)

lemma p_frac_suffix: "p_frac s = Some r \<Longrightarrow> suffix r s"
  by (auto simp: p_frac_def p_consume_Some dest!: p_digits_suffix split: option.splits intro: suffix_ConsI)

lemma p_skip2_suffix: "suffix r (p_skip c (p_skip d s)) \<Longrightarrow> suffix r s"
  by (meson p_skip_suffix suffix_order.trans)

lemma p_exp_suffix: "p_exp s = Some r \<Longrightarrow> suffix r s"
  by (cases s) (auto simp: p_exp_def split: if_splits dest!: p_digits_suffix p_skip2_suffix intro: suffix_ConsI)

lemma p_digits_cut:
  assumes "p_digits (s @ t) = Some (r @ t)" shows "p_digits s = Some r"
proof -
  let ?D = is_ascii_digit
  have d: "dropWhile ?D (s @ t) = r @ t" "takeWhile ?D (s @ t) \<noteq> []"
    using assms by (auto simp: p_digits_def split: if_splits)
  show ?thesis
  proof (cases "\<forall>c\<in>set s. ?D c")
    case True
    then have s: "takeWhile ?D s = s" "dropWhile ?D s = []" and t: "dropWhile ?D t = r @ t"
      using d(1) by simp_all
    have r: "r = []" using length_dropWhile_le [of ?D t] by (simp add: t)
    then have "takeWhile ?D t = []" using takeWhile_dropWhile_id [of ?D t] t by simp
    then have "s \<noteq> []" using d(2) by auto
    then show ?thesis unfolding p_digits_def s r by simp
  next
    case False
    then obtain x where "x \<in> set s" "\<not> ?D x" by blast
    then have "dropWhile ?D s = r" "takeWhile ?D s \<noteq> []"
      using d by (simp_all add: dropWhile_append1 takeWhile_append1)
    then show ?thesis by (simp add: p_digits_def)
  qed
qed

lemma p_skip_cut: "p_skip c (s @ t) = r @ t \<Longrightarrow> s \<noteq> [] \<Longrightarrow> p_skip c s = r"
  by (cases s) (auto simp: p_skip_def split: if_splits)

lemma p_skip_append: "s \<noteq> [] \<Longrightarrow> p_skip c (s @ t) = p_skip c s @ t"
  by (cases s) (auto simp: p_skip_def)

lemma p_int_cut: "p_int (s @ t) = Some (r @ t) \<Longrightarrow> p_int s = Some r"
  using p_int_shorter [of "s @ t" "r @ t"] p_digits_cut [of s t r]
  by (cases s) (auto simp: p_int_def)

lemma p_frac_cut: "p_frac (s @ t) = Some (r @ t) \<Longrightarrow> p_frac s = Some r"
  using p_frac_shorter [of "s @ t" "r @ t"] p_digits_cut [of "tl s" t r]
  by (cases s) (auto simp: p_frac_def)

lemma p_skip_digits_cut:
  assumes "p_digits (p_skip c (s @ t)) = Some (r @ t)" shows "p_digits (p_skip c s) = Some r"
proof (cases "s = []")
  case True
  then show ?thesis using p_digits_shorter [OF assms] p_skip_shorter [of c t] by simp
next
  case False
  then show ?thesis using p_digits_cut [of "p_skip c s" t r] assms by (simp add: p_skip_append)
qed

lemma p_skip2_digits_cut:
  assumes "p_digits (p_skip c (p_skip d (s @ t))) = Some (r @ t)"
  shows "p_digits (p_skip c (p_skip d s)) = Some r"
proof (cases "s = []")
  case True
  then show ?thesis
    using p_digits_shorter [OF assms] p_skip_shorter [of c "p_skip d t"] p_skip_shorter [of d t] by simp
next
  case False
  then show ?thesis using p_skip_digits_cut [of c "p_skip d s" t r] assms by (simp add: p_skip_append)
qed

lemma p_exp_cut: "p_exp (s @ t) = Some (r @ t) \<Longrightarrow> p_exp s = Some r"
  using p_exp_shorter [of "s @ t" "r @ t"] p_skip2_digits_cut [of "0x2D" "0x2B" "tl s" t r]
  by (cases s) (auto simp: p_exp_def split: if_splits)

lemma p_number_cut:
  assumes "p_number (s @ t) = Some (n, r @ t)" shows "p_number s = Some (n, r)"
proof -
  obtain s1 s2 where p: "p_int (p_skip 0x2D (s @ t)) = Some s1" "p_frac s1 = Some s2" "p_exp s2 = Some (r @ t)"
      "n = of_chars (take (length (s @ t) - length (r @ t)) (s @ t))" "length (r @ t) < length (s @ t)"
    using p_number_parts [OF assms] .
  have "suffix t s2" using p_exp_suffix [OF p(3)] suffix_appendD by blast
  then obtain r2 where r2: "s2 = r2 @ t" by (auto simp: suffix_def)
  have "suffix t s1" using p_frac_suffix [OF p(2)] r2 suffix_appendD by blast
  then obtain r1 where r1: "s1 = r1 @ t" by (auto simp: suffix_def)
  have "p_int (p_skip 0x2D s @ t) = Some (r1 @ t)" using p(1,5) r1 p_skip_append [of s "0x2D" t] by (cases s) auto
  then show ?thesis
    using p_int_cut [of "p_skip 0x2D s" t r1] p_frac_cut [of r1 t r2] p_exp_cut [of r2 t r] p r1 r2
    by (simp add: p_number_def)
qed

lemma scalars_number_chars: "scalars cs \<Longrightarrow> utf8_ok (of_chars cs)"
  by (simp add: scalars_def list_all_iff utf8_ok_of_chars)

lemma p_number_suffix: "p_number s = Some (n, r) \<Longrightarrow> suffix r s"
  by (elim p_number_parts)
    (meson p_int_suffix p_frac_suffix p_exp_suffix p_skip_suffix suffix_order.trans)

lemma p_number_ok:
  assumes "p_number s = Some (n, r)" "scalars s" shows "number_ok n \<and> scalars r"
proof -
  obtain u where u: "s = u @ r" using p_number_suffix [OF assms(1)] by (auto simp: suffix_def)
  then have n: "p_number u = Some (n, [])" using p_number_cut [of u r n "[]"] assms(1) by simp
  then have "n = of_chars u" by (rule p_number_parts) simp
  moreover have "scalars u" using assms(2) u by simp
  ultimately show ?thesis
    using n chars_of_scalars [of u] scalars_number_chars [of u] assms(2) u by (simp add: number_ok_def)
qed

lemma scalars_suffix: "suffix r s \<Longrightarrow> scalars s \<Longrightarrow> scalars r"
  by (auto simp: suffix_def)

lemma scalars_p_ws: "scalars s \<Longrightarrow> scalars (p_ws s)"
  unfolding p_ws_def by (rule scalars_suffix [OF suffix_dropWhile])

lemma p_hex4_scalars: "p_hex4 s = Some (n, r) \<Longrightarrow> scalars s \<Longrightarrow> scalars r"
  by (auto simp: p_hex4_def split: if_splits intro: scalars_suffix suffix_drop)

lemma p_unicode_escape_scalars:
  "p_unicode_escape s = Some (c, r) \<Longrightarrow> scalars s \<Longrightarrow> is_scalar c \<and> scalars r"
  by (auto simp: p_unicode_escape_def p_consume_Some from_u32_def split: option.splits if_splits
      dest!: p_hex4_scalars)

lemma simple_escape_scalar: "simple_escape c = Some x \<Longrightarrow> is_scalar x"
  by (auto simp: simple_escape_def split: if_splits)

lemma p_chars_scalars: "p_chars s = Some (cs, r) \<Longrightarrow> scalars s \<Longrightarrow> scalars cs \<and> scalars r"
proof (induction s arbitrary: cs rule: p_chars.induct)
  case 1
  then show ?case by (simp add: p_chars.simps)
next
  case (2 c s)
  show ?case
  proof (cases "c = 0x5C")
    case True
    then obtain e r0 where s: "s = e # r0" using 2(4) by (auto simp: p_chars.simps split: list.splits)
    show ?thesis
      using 2(1) [OF True s] 2(2) [OF True s] 2(4,5) True s
      by (auto simp: p_chars.simps split: option.splits if_splits
          dest!: p_unicode_escape_scalars dest: simple_escape_scalar)
  next
    case False
    then show ?thesis using 2(3) [OF False] 2(4,5)
      by (auto simp: p_chars.simps split: if_splits)
  qed
qed

lemma p_string_ok: "p_string s = Some (v, r) \<Longrightarrow> scalars s \<Longrightarrow> utf8_ok v \<and> scalars r"
  by (auto simp: p_string_def p_consume_Some scalars_number_chars split: option.splits
      dest!: p_chars_scalars)

lemma p_literal_ok: "p_literal l v s = Some (x, r) \<Longrightarrow> scalars s \<Longrightarrow> x = v \<and> scalars r"
  by (auto simp: p_literal_def split: if_splits intro: scalars_suffix suffix_drop)

text \<open>How an object or array that was accepted went on: the closing bracket, or one more element.\<close>

lemma p_fieldsE:
  assumes "p_fields acc s = Some (v, r)"
  obtains (Close) "p_consume 0x7D (p_ws s) = Some r" "v = JObject acc"
  | (Member) name s2 s3 w s4 where "p_consume 0x7D (p_ws s) = None"
      "p_string (p_ws s) = Some (name, s2)" "name \<notin> fst ` set acc"
      "p_consume 0x3A (p_ws s2) = Some s3" "p_value s3 = Some (w, s4)"
      "p_consume 0x7D (p_ws s4) = Some r \<and> v = JObject (acc @ [(name, w)])
       \<or> p_consume 0x7D (p_ws s4) = None \<and> (\<exists>s5. p_consume 0x2C (p_ws s4) = Some s5
           \<and> p_consume 0x7D (p_ws s5) = None \<and> p_fields (acc @ [(name, w)]) (p_ws s5) = Some (v, r))"
  using assms by (subst (asm) p_fields.simps) (auto simp: Let_def split: option.splits if_splits)

lemma p_elementsE:
  assumes "p_elements vs s = Some (v, r)"
  obtains (Close) "p_consume 0x5D (p_ws s) = Some r" "v = JArray vs"
  | (Element) w s2 where "p_consume 0x5D (p_ws s) = None" "p_value (p_ws s) = Some (w, s2)"
      "p_consume 0x5D (p_ws s2) = Some r \<and> v = JArray (vs @ [w])
       \<or> p_consume 0x5D (p_ws s2) = None \<and> (\<exists>s3. p_consume 0x2C (p_ws s2) = Some s3
           \<and> p_consume 0x5D (p_ws s3) = None \<and> p_elements (vs @ [w]) (p_ws s3) = Some (v, r))"
  using assms by (subst (asm) p_elements.simps) (auto simp: Let_def split: option.splits if_splits)

lemma p_consume_scalars: "p_consume c s = Some r \<Longrightarrow> scalars s \<Longrightarrow> scalars r"
  by (auto simp: p_consume_Some)

lemma p_value_ok:
  "\<forall>v r. p_value s = Some (v, r) \<longrightarrow> scalars s \<longrightarrow> json_ok v \<and> scalars r"
  "\<forall>v r. p_fields acc s = Some (v, r) \<longrightarrow> scalars s \<longrightarrow> json_ok (JObject acc) \<longrightarrow> json_ok v \<and> scalars r"
  "\<forall>v r. p_elements vs s = Some (v, r) \<longrightarrow> scalars s \<longrightarrow> json_ok (JArray vs) \<longrightarrow> json_ok v \<and> scalars r"
proof (induction s and acc s and vs s rule: p_value_p_fields_p_elements.induct)
  case (1 s)
  show ?case
  proof (intro allI impI)
    fix v r
    assume a: "p_value s = Some (v, r)" "scalars s"
    obtain c t where s: "p_ws s = c # t" using a(1) by (cases "p_ws s") (simp_all add: p_value.simps)
    have c: "scalars (c # t)" using scalars_p_ws [OF a(2)] s by simp
    show "json_ok v \<and> scalars r"
      using a(1) s c 1 [OF s]
      by (auto simp: p_value.simps split: if_splits dest!: p_literal_ok p_string_ok p_number_ok)
  qed
next
  case (2 acc s)
  show ?case
  proof (intro allI impI)
    fix v r
    assume a: "p_fields acc s = Some (v, r)" "scalars s" "json_ok (JObject acc)"
    have s: "scalars (p_ws s)" using a(2) by (rule scalars_p_ws)
    from a(1) show "json_ok v \<and> scalars r"
    proof (cases rule: p_fieldsE)
      case Close
      then show ?thesis using a(3) p_consume_scalars [OF Close(1) s] by simp
    next
      case (Member name s2 s3 w s4)
      have n: "utf8_ok name" "scalars s2" using p_string_ok [OF Member(2) s] by simp_all
      have "scalars s3" by (rule p_consume_scalars [OF Member(4) scalars_p_ws [OF n(2)]])
      then have w: "json_ok w" "scalars s4"
        using 2(1) [OF refl Member(1,2) refl Member(3,4)] Member(5) by blast+
      then have ok: "json_ok (JObject (acc @ [(name, w)]))" using a(3) n(1) Member(3) by auto
      from Member(6) show ?thesis
      proof (elim disjE conjE exE)
        assume "p_consume 0x7D (p_ws s4) = Some r" "v = JObject (acc @ [(name, w)])"
        then show ?thesis using ok p_consume_scalars scalars_p_ws [OF w(2)] by blast
      next
        fix s5
        assume e: "p_consume 0x7D (p_ws s4) = None" "p_consume 0x2C (p_ws s4) = Some s5"
          "p_consume 0x7D (p_ws s5) = None" "p_fields (acc @ [(name, w)]) (p_ws s5) = Some (v, r)"
        have "scalars (p_ws s5)"
          using p_consume_scalars [OF e(2) scalars_p_ws [OF w(2)]] by (rule scalars_p_ws)
        then show ?thesis
          using 2(2) [OF refl Member(1,2) refl Member(3-5) refl e(1,2)] e(3,4) ok by blast
      qed
    qed
  qed
next
  case (3 vs s)
  show ?case
  proof (intro allI impI)
    fix v r
    assume a: "p_elements vs s = Some (v, r)" "scalars s" "json_ok (JArray vs)"
    have s: "scalars (p_ws s)" using a(2) by (rule scalars_p_ws)
    from a(1) show "json_ok v \<and> scalars r"
    proof (cases rule: p_elementsE)
      case Close
      then show ?thesis using a(3) p_consume_scalars [OF Close(1) s] by simp
    next
      case (Element w s2)
      have w: "json_ok w" "scalars s2" using 3(1) [OF refl Element(1)] Element(2) s by blast+
      then have ok: "json_ok (JArray (vs @ [w]))" using a(3) by simp
      from Element(3) show ?thesis
      proof (elim disjE conjE exE)
        assume "p_consume 0x5D (p_ws s2) = Some r" "v = JArray (vs @ [w])"
        then show ?thesis using ok p_consume_scalars scalars_p_ws [OF w(2)] by blast
      next
        fix s3
        assume e: "p_consume 0x5D (p_ws s2) = None" "p_consume 0x2C (p_ws s2) = Some s3"
          "p_consume 0x5D (p_ws s3) = None" "p_elements (vs @ [w]) (p_ws s3) = Some (v, r)"
        have "scalars (p_ws s3)"
          using p_consume_scalars [OF e(2) scalars_p_ws [OF w(2)]] by (rule scalars_p_ws)
        then show ?thesis
          using 3(2) [OF refl Element(1,2) refl e(1,2)] e(3,4) ok by blast
      qed
    qed
  qed
qed

lemma parse_json_ok:
  assumes "parse s = Some v" shows "json_ok v"
  using assms p_value_ok(1) [of "chars s"] by (auto simp: parse_def split: option.splits if_splits)

section \<open>Round trips\<close>

text \<open>
  Quoting is faithful: a text printed by \<open>json_quote\<close> is read by the parser as the string
  it was made from, whatever control characters, quotes, backslashes or non-ASCII characters
  it holds.
\<close>

theorem json_quote_roundtrip:
  assumes "utf8_ok s" shows "parse (json_quote s) = Some (JString s)"
  using assms parse_render [of "JString s"] by (simp add: render_def json_quote_def)

theorem json_quote_roundtrip_witness:
  "parse (json_quote [CHR 0x0A, CHR 0x22, CHR 0x01]) = Some (JString [CHR 0x0A, CHR 0x22, CHR 0x01])"
  by (rule json_quote_roundtrip) code_simp

text \<open>
  C28: What the parser accepts is a value with distinct member names, one-token numbers and valid
  text, and printing that value and parsing the print gives the value back, so parsing after
  printing is the identity on everything that was ever parsed.
\<close>

theorem parse_normal_form:
  assumes "parse s = Some v" shows "json_ok v \<and> parse (render v) = Some v"
  using parse_json_ok [OF assms] parse_render by blast

theorem parse_normal_form_witness:
  \<open>json_ok (JObject [(''a'', JArray [JNumber ''-1.5e3'', JNull])])
   \<and> parse (render (JObject [(''a'', JArray [JNumber ''-1.5e3'', JNull])]))
     = Some (JObject [(''a'', JArray [JNumber ''-1.5e3'', JNull])])\<close>
proof (rule parse_normal_form)
  show \<open>parse ''{"a" : [-1.5e3,null] }'' = Some (JObject [(''a'', JArray [JNumber ''-1.5e3'', JNull])])\<close>
    by code_simp
qed

end
