(* ===== verification/Protocol.thy ===== *)
theory Protocol
  imports Render "HOL-Library.Word"
begin

text \<open>
  The messages of \<open>src/src/main.rs\<close>: error text and exit codes, identifiers, the request handler
  of the daemon, and the checks a client makes on a response. The identifier counter
  \<open>NEXT_ID\<close> is a 64-bit word every function takes and returns. Each message the program formats
  by hand is shown to be the print of a JSON value, so the parser's round trip applies to it.
\<close>

section \<open>Constants, errors and exit codes\<close>

definition VERSION :: str where
  "VERSION = ''0.1.0''"

definition PROTOCOL :: str where
  "PROTOCOL = ''akashic.local''"

definition bool_text :: "bool \<Rightarrow> str" where
  "bool_text b = (if b then ''true'' else ''false'')"

definition error_text :: "str \<Rightarrow> str \<Rightarrow> bool \<Rightarrow> str" where
  \<open>error_text c message retryable =
     ''{"code":'' @ json_quote c @ '',"message":'' @ json_quote message
     @ '',"retryable":'' @ bool_text retryable @ ''}''\<close>

text \<open>\<open>startup_error\<close>: the line on the error stream, and the exit status handed back.\<close>

definition startup_error :: "str \<Rightarrow> str \<Rightarrow> int \<Rightarrow> str \<times> int" where
  "startup_error c message ex =
     (error_text c message (starts_with ''lifecycle.'' c \<or> c = ''internal.unexpected'') @ newline, ex)"

definition usage_error :: "str \<times> int" where
  "usage_error = (error_text ''usage.invalid'' ''invalid usage'' False @ newline, 2)"

definition startup_exit_for_code :: "str \<Rightarrow> int" where
  "startup_exit_for_code c =
     (if starts_with ''config.'' c then 2
      else if starts_with ''protocol.'' c \<or> starts_with ''authorization.'' c then 3
      else if c = ''lifecycle.shutdown_timeout'' then 124
      else if starts_with ''lifecycle.'' c then 4
      else 1)"

section \<open>Identifiers\<close>

definition new_id :: "64 word \<Rightarrow> str \<times> 64 word" where
  "new_id n = (''00000000-0000-4000-8000-'' @ hex_pad 12 (unat n), n + 1)"

definition valid_uuid :: "str \<Rightarrow> bool" where
  "valid_uuid s = (length s = 36 \<and>
     list_all (\<lambda>(i, b). if i \<in> {8, 13, 18, 23} then b = CHR ''-'' else is_hex b) (List.enumerate 0 s))"

definition semver_part :: "str \<Rightarrow> bool" where
  "semver_part p = (p \<noteq> [] \<and> list_all (\<lambda>c. is_alnum c \<or> c = CHR ''-'') p)"

definition core_part :: "str \<Rightarrow> bool" where
  "core_part p = (p \<noteq> [] \<and> \<not> (1 < length p \<and> starts_with ''0'' p) \<and> list_all is_digit p)"

definition valid_semver :: "str \<Rightarrow> bool" where
  "valid_semver s =
     (let (core, build) = (case split_once (CHR ''+'') s of Some (c, b) \<Rightarrow> (c, Some b) | None \<Rightarrow> (s, None)) in
      if opt_any (\<lambda>b. b = [] \<or> list_ex (\<lambda>p. \<not> semver_part p) (split_on (CHR ''.'') b)) build then False
      else
      let (core, prerelease) =
            (case split_once (CHR ''-'') core of Some (c, p) \<Rightarrow> (c, Some p) | None \<Rightarrow> (core, None));
          core_parts = split_on (CHR ''.'') core in
      if length core_parts \<noteq> 3 \<or> list_ex (\<lambda>p. \<not> core_part p) core_parts then False
      else opt_all (\<lambda>p. p \<noteq> [] \<and>
             list_all (\<lambda>q. semver_part q \<and> \<not> (1 < length q \<and> list_all is_digit q \<and> starts_with ''0'' q))
               (split_on (CHR ''.'') p)) prerelease)"

definition correlation_prefix :: "bytes \<Rightarrow> 64 word \<Rightarrow> str \<times> 64 word" where
  "correlation_prefix input n =
     (case (if utf8_ok input then top_level_string_prefix input ''id'' else None) of
        Some i \<Rightarrow> if valid_uuid i then (i, n) else new_id n
      | None \<Rightarrow> new_id n)"

section \<open>The request handler\<close>

definition response_error :: "str \<Rightarrow> str \<Rightarrow> str \<Rightarrow> 64 word \<Rightarrow> str \<times> 64 word" where
  \<open>response_error correlation c message n =
     (let (i, n') = new_id n in
      (''{"protocol":"'' @ PROTOCOL @ ''","version":1,"kind":"error.response","id":"'' @ i
       @ ''","correlation_id":'' @ json_quote correlation @ '',"error":'' @ error_text c message False
       @ ''}'' @ newline, n'))\<close>

definition object_has_exact_fields :: "json \<Rightarrow> str list \<Rightarrow> bool" where
  "object_has_exact_fields v expected =
     (case v of JObject ms \<Rightarrow> length ms = length expected
          \<and> list_all (\<lambda>f. list_ex (\<lambda>(key, _). key = f) ms) expected
      | _ \<Rightarrow> False)"

definition handshake_complete :: "json \<Rightarrow> bool" where
  "handshake_complete payload =
     (if \<not> object_has_exact_fields payload [''client_role'', ''client_version'', ''client_instance_id'']
      then False
      else case Option.bind (object_field payload ''client_role'') string_value of
        None \<Rightarrow> False
      | Some role \<Rightarrow> role \<in> {''tui'', ''jsonl'', ''doctor''}
          \<and> opt_any valid_semver (Option.bind (object_field payload ''client_version'') string_value)
          \<and> opt_any valid_uuid (Option.bind (object_field payload ''client_instance_id'') string_value))"

definition handshake_response :: "str \<Rightarrow> str \<Rightarrow> 64 word \<Rightarrow> str \<times> 64 word" where
  \<open>handshake_response correlation daemon_id n =
     (let (i, n') = new_id n in
      (''{"protocol":"'' @ PROTOCOL @ ''","version":1,"kind":"handshake.response","id":"'' @ i
       @ ''","correlation_id":'' @ json_quote correlation @ '',"payload":{"daemon_version":"'' @ VERSION
       @ ''","daemon_instance_id":'' @ json_quote daemon_id
       @ '',"protocol_version":1,"capabilities":["health"]}}'' @ newline, n'))\<close>

definition health_response :: "str \<Rightarrow> str \<Rightarrow> 64 word \<Rightarrow> str \<times> 64 word" where
  \<open>health_response correlation daemon_id n =
     (let (i, n') = new_id n in
      (''{"protocol":"'' @ PROTOCOL @ ''","version":1,"kind":"health.response","id":"'' @ i
       @ ''","correlation_id":'' @ json_quote correlation @ '',"payload":{"status":"ok","daemon_version":"''
       @ VERSION @ ''","daemon_instance_id":'' @ json_quote daemon_id
       @ '',"protocol_version":1}}'' @ newline, n'))\<close>

definition refuse :: "str \<Rightarrow> str \<Rightarrow> str \<Rightarrow> 64 word \<Rightarrow> (str \<times> bool) \<times> 64 word" where
  "refuse correlation c message n =
     (let (r, n') = response_error correlation c message n in ((r, False), n'))"

definition malformed :: "str \<Rightarrow> 64 word \<Rightarrow> (str \<times> bool) \<times> 64 word" where
  "malformed correlation n = refuse correlation ''protocol.malformed'' ''malformed request'' n"

definition handle_request :: "bytes \<Rightarrow> bool \<Rightarrow> str \<Rightarrow> 64 word \<Rightarrow> (str \<times> bool) \<times> 64 word" where
  "handle_request line handshaken daemon_id n =
     (if \<not> utf8_ok line then (let (i, n1) = new_id n in malformed i n1)
      else case read_envelope line of
        None \<Rightarrow> (let (correlation, n1) = correlation_prefix line n in malformed correlation n1)
      | Some e \<Rightarrow>
         (let (correlation, n1) =
                (case en_id e of Some i \<Rightarrow> if valid_uuid i then (i, n) else new_id n | None \<Rightarrow> new_id n) in
          if \<not> opt_any valid_uuid (en_id e) then malformed correlation n1
          else if (en_correlation_id_present e \<and> en_correlation_id e = None)
               \<or> opt_any (\<lambda>i. \<not> valid_uuid i) (en_correlation_id e) then malformed correlation n1
          else if \<not> en_version_present e \<or> en_version e = None then malformed correlation n1
          else if en_protocol e \<noteq> Some PROTOCOL \<or> en_version e \<noteq> Some ''1'' then
            refuse correlation ''protocol.unsupported_version'' ''unsupported protocol'' n1
          else if (en_payload e \<noteq> None) = (en_error e \<noteq> None) then malformed correlation n1
          else if en_kind e = Some ''handshake.request'' \<and> \<not> handshaken then
            (if \<not> opt_any handshake_complete (en_payload e) then malformed correlation n1
             else (let (r, n2) = handshake_response correlation daemon_id n1 in ((r, True), n2)))
          else if en_kind e = Some ''health.request'' \<and> handshaken \<and> en_payload e = Some (JObject []) then
            (let (r, n2) = health_response correlation daemon_id n1 in ((r, False), n2))
          else malformed correlation n1))"

section \<open>The client's checks\<close>

definition locked_retryable :: "str \<Rightarrow> bool option" where
  "locked_retryable c =
     (if c = ''usage.invalid'' \<or> starts_with ''config.'' c \<or> starts_with ''protocol.'' c
         \<or> starts_with ''authorization.'' c then Some False
      else if starts_with ''lifecycle.'' c \<or> c = ''internal.unexpected'' then Some True
      else None)"

definition locked_codes :: "str list" where
  "locked_codes =
     [''usage.invalid'', ''config.invalid'', ''config.unsupported_version'', ''config.secret_forbidden'',
      ''protocol.malformed'', ''protocol.unsupported_version'', ''protocol.oversized'',
      ''authorization.peer_uid'', ''lifecycle.daemon_running'', ''lifecycle.daemon_unavailable'',
      ''lifecycle.shutdown_timeout'', ''internal.unexpected'']"

definition bool_value :: "json \<Rightarrow> bool option" where
  "bool_value v = (case v of JBool b \<Rightarrow> Some b | _ \<Rightarrow> None)"

definition response_error_code :: "str \<Rightarrow> str \<Rightarrow> str option" where
  "response_error_code response correlation_id =
     (case read_envelope response of None \<Rightarrow> None | Some e \<Rightarrow>
      if en_protocol e \<noteq> Some PROTOCOL \<or> en_version e \<noteq> Some ''1'' \<or> en_kind e \<noteq> Some ''error.response''
         \<or> en_payload e \<noteq> None \<or> \<not> opt_any valid_uuid (en_id e)
         \<or> en_correlation_id e \<noteq> Some correlation_id then None
      else (case en_error e of
        Some (JObject ms) \<Rightarrow>
          if length ms \<noteq> 3
             \<or> list_ex (\<lambda>(key, _). key \<notin> {''code'', ''message'', ''retryable''}) ms then None
          else (case Option.bind (field ms ''code'') string_value of None \<Rightarrow> None | Some c \<Rightarrow>
            (case Option.bind (field ms ''message'') string_value of None \<Rightarrow> None | Some _ \<Rightarrow>
              (case Option.bind (field ms ''retryable'') bool_value of None \<Rightarrow> None | Some retryable \<Rightarrow>
                if locked_retryable c \<noteq> Some retryable then None
                else if c \<in> set locked_codes then Some c else None)))
      | _ \<Rightarrow> None))"

definition expected_fields :: "str \<Rightarrow> str list option" where
  "expected_fields kind =
     (if kind = ''handshake.response''
      then Some [''daemon_version'', ''daemon_instance_id'', ''protocol_version'', ''capabilities'']
      else if kind = ''health.response''
      then Some [''status'', ''daemon_version'', ''daemon_instance_id'', ''protocol_version'']
      else None)"

definition response_matches :: "str \<Rightarrow> str \<Rightarrow> str \<Rightarrow> bool" where
  "response_matches response expected_kind correlation_id =
     (case read_envelope response of None \<Rightarrow> False | Some e \<Rightarrow>
      if en_protocol e \<noteq> Some PROTOCOL \<or> en_version e \<noteq> Some ''1'' \<or> en_kind e \<noteq> Some expected_kind
         \<or> \<not> opt_any valid_uuid (en_id e) \<or> en_correlation_id e \<noteq> Some correlation_id
         \<or> en_payload e = None \<or> en_error e \<noteq> None then False
      else (case en_payload e of
        Some (JObject payload) \<Rightarrow>
          (case expected_fields expected_kind of None \<Rightarrow> False | Some expected \<Rightarrow>
           if length payload \<noteq> length expected
              \<or> list_ex (\<lambda>f. \<not> list_ex (\<lambda>(key, _). key = f) payload) expected then False
           else (case Option.bind (field payload ''daemon_version'') string_value of None \<Rightarrow> False
             | Some daemon_version \<Rightarrow>
               if \<not> valid_semver daemon_version
                  \<or> \<not> opt_any valid_uuid (Option.bind (field payload ''daemon_instance_id'') string_value)
                  \<or> \<not> list_ex (\<lambda>(key, v). key = ''protocol_version'' \<and> number_is v ''1'') payload then False
               else if expected_kind = ''handshake.response''
                 then list_ex (\<lambda>(key, v). key = ''capabilities'' \<and> v = JArray [JString ''health'']) payload
                 else list_ex (\<lambda>(key, v). key = ''status'' \<and> string_value v = Some ''ok'') payload))
      | _ \<Rightarrow> False))"

definition handshake_request :: "str \<Rightarrow> 64 word \<Rightarrow> (str \<times> str) \<times> 64 word" where
  \<open>handshake_request role n =
     (let (request_id, n1) = new_id n; (instance_id, n2) = new_id n1 in
      ((''{"protocol":"'' @ PROTOCOL @ ''","version":1,"kind":"handshake.request","id":"'' @ request_id
        @ ''","payload":{"client_role":"'' @ role @ ''","client_version":"'' @ VERSION
        @ ''","client_instance_id":"'' @ instance_id @ ''"}}'' @ newline, request_id), n2))\<close>

definition health_request :: "64 word \<Rightarrow> (str \<times> str) \<times> 64 word" where
  \<open>health_request n =
     (let (request_id, n1) = new_id n in
      ((''{"protocol":"'' @ PROTOCOL @ ''","version":1,"kind":"health.request","id":"'' @ request_id
        @ ''","payload":{}}'' @ newline, request_id), n1))\<close>

section \<open>Messages as printed values\<close>

text \<open>Text that quotes to itself between two quotation marks.\<close>

definition plain :: "char \<Rightarrow> bool" where
  "plain c = (0x20 \<le> byte_of c \<and> byte_of c < (0x7F::nat) \<and> c \<noteq> CHR 0x22 \<and> c \<noteq> CHR 0x5C)"

lemma plain_byte: "plain c \<Longrightarrow> byte_of c < (0x80::nat) \<and> byte_of c \<noteq> (0x22::nat) \<and> byte_of c \<noteq> (0x5C::nat)"
proof -
  assume p: "plain c"
  have "CHR 0x22 = char_of (0x22::nat)" "CHR 0x5C = char_of (0x5C::nat)" by code_simp+
  then show ?thesis using p char_of_byte unfolding plain_def by fastforce
qed

lemma utf8_encode_plain: "plain c \<Longrightarrow> utf8_encode (byte_of c) = [c]"
  using plain_byte [of c] by (simp add: utf8_encode_def)

lemma chars_plain: "list_all plain s \<Longrightarrow> chars s = map byte_of s"
proof (induction s)
  case Nil
  show ?case by (simp add: chars.simps)
next
  case (Cons c s)
  then show ?case using plain_byte [of c] by (subst chars.simps) (simp add: next_char_ascii)
qed

lemma of_chars_plain: "list_all plain s \<Longrightarrow> of_chars (map byte_of s) = s"
  by (induction s) (simp_all add: utf8_encode_plain)

lemma quote_char_plain: "plain c \<Longrightarrow> quote_char (byte_of c) = [byte_of c]"
  using plain_byte [of c] by (auto simp: quote_char_def is_control_def plain_def)

lemma quoted_plain: "list_all plain s \<Longrightarrow> concat (map quote_char (map byte_of s)) = map byte_of s"
  by (induction s) (simp_all add: quote_char_plain)

definition quotation :: str where
  "quotation = [CHR 0x22]"

lemma quotation_chars: "of_chars [0x22] = quotation"
  unfolding quotation_def by code_simp

lemma json_quote_plain: "list_all plain s \<Longrightarrow> json_quote s = quotation @ s @ quotation"
proof -
  assume s: "list_all plain s"
  have "quoted s = [0x22] @ map byte_of s @ [0x22]"
    using quoted_plain [OF s] by (simp add: quoted_def chars_plain [OF s])
  then show ?thesis
    by (simp only: json_quote_def of_chars_simps(3) quotation_chars of_chars_plain [OF s])
qed

lemma hex_digit_plain: "is_hex c \<Longrightarrow> plain c"
proof -
  assume "is_hex c"
  moreover have "byte_of (CHR 0x22) = (34::nat)" "byte_of (CHR 0x5C) = (92::nat)" by code_simp+
  ultimately show ?thesis unfolding plain_def is_hex_def Let_def by auto
qed

lemma new_id_plain: "list_all plain (fst (new_id n))"
proof -
  have "list_all plain (hex_pad 12 (unat n))"
    using hex_digits [of _ "unat n"] hex_digit_plain
    by (auto simp: hex_pad_def list_all_iff) (simp add: plain_def)
  moreover have "list_all plain ''00000000-0000-4000-8000-''" by code_simp
  ultimately show ?thesis by (simp add: new_id_def)
qed

lemma valid_uuid_plain: "valid_uuid s \<Longrightarrow> list_all plain s"
proof -
  assume v: "valid_uuid s"
  have "plain (s ! i)" if "i < length s" for i
  proof -
    have "(i, s ! i) \<in> set (List.enumerate 0 s)"
      using that by (auto simp: in_set_enumerate_eq)
    then have "s ! i = CHR ''-'' \<or> is_hex (s ! i)"
      using v by (fastforce simp: valid_uuid_def list_all_iff split: if_splits)
    moreover have "plain (CHR ''-'')" by code_simp
    ultimately show ?thesis using hex_digit_plain by metis
  qed
  then show ?thesis by (simp add: list_all_length)
qed

lemma plain_utf8: "list_all plain s \<Longrightarrow> utf8_ok s"
  by (induction s) (use plain_byte in auto)

text \<open>The reference printer, on text.\<close>

primrec members_text :: "(str \<times> json) list \<Rightarrow> str" where
  "members_text [] = ''}''"
| "members_text (m # ms) = '','' @ json_quote (fst m) @ '':'' @ render (snd m) @ members_text ms"

lemma of_chars_ascii:
  "of_chars [0x7B] = ''{''" "of_chars [0x7D] = ''}''" "of_chars [0x2C] = '',''" "of_chars [0x3A] = '':''"
  "of_chars [0x5B] = ''[''" "of_chars [0x5D] = '']''"
  by code_simp+

lemma render_scalar:
  "render JNull = ''null''" "render (JBool b) = bool_text b" "render (JString s) = json_quote s"
  "utf8_ok n \<Longrightarrow> render (JNumber n) = n"
proof -
  show "render JNull = ''null''" by code_simp
  have "render (JBool True) = ''true''" "render (JBool False) = ''false''" by code_simp+
  then show "render (JBool b) = bool_text b" by (cases b) (simp_all add: bool_text_def)
qed (simp_all add: render_def json_quote_def of_chars_chars)

lemma member_text: "of_chars (member_chars m) = json_quote (fst m) @ '':'' @ render (snd m)"
proof -
  have "member_chars m = quoted (fst m) @ [0x3A] @ render_chars (snd m)" by (simp add: member_chars_def)
  then show ?thesis by (simp only: of_chars_simps(3) of_chars_ascii json_quote_def render_def)
qed

lemma comma_join_text:
  "of_chars (comma_join (map member_chars (m # ms)) @ [0x7D])
   = json_quote (fst m) @ '':'' @ render (snd m) @ members_text ms"
proof (induction ms arbitrary: m)
  case Nil
  show ?case
    by (simp only: list.map comma_join.simps of_chars_simps(3) of_chars_ascii member_text
        members_text.simps append_assoc)
next
  case (Cons k ms)
  have "comma_join (map member_chars (m # k # ms)) @ [0x7D]
      = member_chars m @ [0x2C] @ comma_join (map member_chars (k # ms)) @ [0x7D]" by simp
  then show ?case
    by (simp only: of_chars_simps(3) [of _ "[0x2C] @ _"] of_chars_simps(3) [of "[0x2C]"] of_chars_ascii
        member_text Cons.IH members_text.simps append_assoc)
qed

lemma render_object_chars: "render_chars (JObject ms) = [0x7B] @ comma_join (map member_chars ms) @ [0x7D]"
proof -
  have "(\<lambda>(n, v). quoted n @ 0x3A # render_chars v) = member_chars"
    by (rule ext) (auto simp: member_chars_def)
  then show ?thesis by simp
qed

lemma render_object:
  "render (JObject (m # ms)) = ''{'' @ json_quote (fst m) @ '':'' @ render (snd m) @ members_text ms"
  "render (JObject []) = ''{}''"
proof -
  show "render (JObject (m # ms)) = ''{'' @ json_quote (fst m) @ '':'' @ render (snd m) @ members_text ms"
    by (simp only: render_def [of "JObject _"] render_object_chars of_chars_simps(3) [of "[0x7B]"]
        comma_join_text of_chars_ascii)
  show "render (JObject []) = ''{}''" by code_simp
qed

lemma quote_names:
  \<open>json_quote ''code'' = ''"code"''\<close> \<open>json_quote ''message'' = ''"message"''\<close>
  \<open>json_quote ''retryable'' = ''"retryable"''\<close> \<open>json_quote ''protocol'' = ''"protocol"''\<close>
  \<open>json_quote ''version'' = ''"version"''\<close> \<open>json_quote ''kind'' = ''"kind"''\<close>
  \<open>json_quote ''id'' = ''"id"''\<close> \<open>json_quote ''correlation_id'' = ''"correlation_id"''\<close>
  \<open>json_quote ''payload'' = ''"payload"''\<close> \<open>json_quote ''error'' = ''"error"''\<close>
  \<open>json_quote ''daemon_version'' = ''"daemon_version"''\<close>
  \<open>json_quote ''daemon_instance_id'' = ''"daemon_instance_id"''\<close>
  \<open>json_quote ''protocol_version'' = ''"protocol_version"''\<close>
  \<open>json_quote ''capabilities'' = ''"capabilities"''\<close> \<open>json_quote ''status'' = ''"status"''\<close>
  \<open>json_quote ''client_role'' = ''"client_role"''\<close> \<open>json_quote ''client_version'' = ''"client_version"''\<close>
  \<open>json_quote ''client_instance_id'' = ''"client_instance_id"''\<close>
  \<open>json_quote ''error.response'' = ''"error.response"''\<close>
  \<open>json_quote ''handshake.response'' = ''"handshake.response"''\<close>
  \<open>json_quote ''health.response'' = ''"health.response"''\<close>
  \<open>json_quote ''handshake.request'' = ''"handshake.request"''\<close>
  \<open>json_quote ''health.request'' = ''"health.request"''\<close>
  \<open>json_quote ''ok'' = ''"ok"''\<close>
  \<open>json_quote ''akashic.local'' = ''"akashic.local"''\<close> \<open>json_quote ''0.1.0'' = ''"0.1.0"''\<close>
  \<open>render (JNumber ''1'') = ''1''\<close> \<open>render (JArray [JString ''health'']) = ''["health"]''\<close>
  by code_simp+

definition error_value :: "str \<Rightarrow> str \<Rightarrow> bool \<Rightarrow> json" where
  "error_value c message retryable =
     JObject [(''code'', JString c), (''message'', JString message), (''retryable'', JBool retryable)]"

definition message_value :: "str \<Rightarrow> str \<Rightarrow> (str \<times> json) list \<Rightarrow> json" where
  "message_value kind i ms =
     JObject ((''protocol'', JString PROTOCOL) # (''version'', JNumber ''1'') # (''kind'', JString kind)
       # (''id'', JString i) # ms)"

lemma error_text_render: "error_text c message r = render (error_value c message r)"
  by (simp add: error_text_def error_value_def render_object render_scalar quote_names)

lemma quotation_text: "quotation = [CHR 0x22]"
  by (rule quotation_def)

lemma uuid_quote: "valid_uuid s \<Longrightarrow> json_quote s = quotation @ s @ quotation"
  by (rule json_quote_plain [OF valid_uuid_plain])

lemma new_id_quote: "json_quote (fst (new_id n)) = quotation @ fst (new_id n) @ quotation"
  by (rule json_quote_plain [OF new_id_plain])

definition reply_value :: "str \<Rightarrow> str \<Rightarrow> str \<Rightarrow> str \<times> json \<Rightarrow> json" where
  "reply_value kind i correlation body =
     message_value kind i [(''correlation_id'', JString correlation), body]"

definition handshake_payload :: "str \<Rightarrow> json" where
  "handshake_payload daemon_id = JObject [(''daemon_version'', JString VERSION),
     (''daemon_instance_id'', JString daemon_id), (''protocol_version'', JNumber ''1''),
     (''capabilities'', JArray [JString ''health''])]"

definition health_payload :: "str \<Rightarrow> json" where
  "health_payload daemon_id = JObject [(''status'', JString ''ok''), (''daemon_version'', JString VERSION),
     (''daemon_instance_id'', JString daemon_id), (''protocol_version'', JNumber ''1'')]"

definition hello_payload :: "str \<Rightarrow> str \<Rightarrow> json" where
  "hello_payload role instance_id = JObject [(''client_role'', JString role),
     (''client_version'', JString VERSION), (''client_instance_id'', JString instance_id)]"

lemmas message_texts = message_value_def reply_value_def handshake_payload_def health_payload_def
  hello_payload_def render_object render_scalar quote_names new_id_quote quotation_def
  PROTOCOL_def VERSION_def

lemma response_error_render:
  "response_error correlation c message n =
     (render (reply_value ''error.response'' (fst (new_id n)) correlation
        (''error'', error_value c message False)) @ newline, snd (new_id n))"
  by (simp add: response_error_def error_text_render message_texts split_beta Let_def PROTOCOL_def)

lemma handshake_response_render:
  "handshake_response correlation daemon_id n =
     (render (reply_value ''handshake.response'' (fst (new_id n)) correlation
        (''payload'', handshake_payload daemon_id)) @ newline, snd (new_id n))"
  by (simp add: handshake_response_def message_texts split_beta Let_def PROTOCOL_def VERSION_def)

lemma health_response_render:
  "health_response correlation daemon_id n =
     (render (reply_value ''health.response'' (fst (new_id n)) correlation
        (''payload'', health_payload daemon_id)) @ newline, snd (new_id n))"
  by (simp add: health_response_def message_texts split_beta Let_def PROTOCOL_def VERSION_def)

lemma health_request_render:
  "health_request n =
     ((render (message_value ''health.request'' (fst (new_id n)) [(''payload'', JObject [])]) @ newline,
       fst (new_id n)), snd (new_id n))"
  by (simp add: health_request_def message_texts split_beta Let_def PROTOCOL_def)

lemma handshake_request_render:
  assumes "list_all plain role"
  shows "handshake_request role n =
     ((render (message_value ''handshake.request'' (fst (new_id n))
         [(''payload'', hello_payload role (fst (new_id (n + 1))))]) @ newline, fst (new_id n)), n + 2)"
proof -
  have "snd (new_id n) = n + 1" "snd (new_id (n + 1)) = n + 2" by (simp_all add: new_id_def)
  then show ?thesis
    by (simp add: handshake_request_def message_texts split_beta Let_def PROTOCOL_def VERSION_def
        json_quote_plain [OF assms])
qed

section \<open>Identifiers are valid up to 48 bits\<close>

definition id_prefix :: str where
  "id_prefix = ''00000000-0000-4000-8000-''"

definition uuid_byte :: "nat \<times> char \<Rightarrow> bool" where
  "uuid_byte = (\<lambda>(i, b). if i \<in> {8, 13, 18, 23} then b = CHR ''-'' else is_hex b)"

lemma valid_uuid_bytes: "valid_uuid s \<longleftrightarrow> length s = 36 \<and> list_all uuid_byte (List.enumerate 0 s)"
  by (simp only: valid_uuid_def uuid_byte_def)

lemma valid_uuid_shape:
  "valid_uuid (id_prefix @ h) \<longleftrightarrow> length h = 12 \<and> list_all is_hex h"
proof -
  have "list_all uuid_byte (List.enumerate 24 h) \<longleftrightarrow> list_all is_hex h"
  proof -
    have "uuid_byte (24 + k, b) = is_hex b" for k b by (simp add: uuid_byte_def)
    then show ?thesis by (simp add: list_all_length nth_enumerate_eq)
  qed
  moreover have "list_all uuid_byte (List.enumerate 0 id_prefix)" "length id_prefix = 24" by code_simp+
  ultimately show ?thesis
    by (simp add: valid_uuid_bytes enumerate_append_eq)
qed

lemma new_id_valid: "valid_uuid (fst (new_id n)) \<longleftrightarrow> unat n < 2 ^ 48"
proof -
  have "is_hex (CHR ''0'')" by code_simp
  then have h: "list_all is_hex (hex_pad 12 (unat n))"
    using hex_digits [of _ "unat n"] by (auto simp: hex_pad_def list_all_iff)
  have "length (hex_pad 12 (unat n)) = 12 \<longleftrightarrow> unat n < 2 ^ 48"
  proof
    assume "length (hex_pad 12 (unat n)) = 12"
    then have "length (hex (unat n)) \<le> 12" by (simp add: hex_pad_length)
    then show "unat n < 2 ^ 48" using hex_length_gt [of 12 "unat n"] by fastforce
  next
    assume "unat n < 2 ^ 48"
    then show "length (hex_pad 12 (unat n)) = 12" using hex_length [of 12 "unat n"] by (simp add: hex_pad_length)
  qed
  then show ?thesis using h valid_uuid_shape by (simp add: new_id_def id_prefix_def)
qed

lemma new_id_state [simp]: "snd (new_id n) = n + 1"
  by (simp add: new_id_def)

section \<open>Reading a printed message\<close>

lemma version_ok [simp]: "valid_semver VERSION" "json_ok (JNumber ''1'')"
  by code_simp+

lemma ascii_ok [simp]: "list_all plain s \<Longrightarrow> json_ok (JString s)"
  by (simp add: plain_utf8)

lemma read_message:
  assumes "json_ok (message_value kind i ms)" "\<forall>m\<in>set ms. fst m \<in> set envelope_names"
  shows "read_envelope (render (message_value kind i ms) @ newline)
    = Some \<lparr>en_protocol = Some PROTOCOL, en_version = Some ''1'', en_version_present = True,
        en_kind = Some kind, en_id = Some i,
        en_correlation_id = string_field ms ''correlation_id'',
        en_correlation_id_present = (field ms ''correlation_id'' \<noteq> None),
        en_payload = field ms ''payload'', en_error = field ms ''error''\<rparr>"
proof -
  have "\<not> list_ex (\<lambda>(key, _). key \<notin> set envelope_names) ms"
    using assms(2) by (auto simp: list_ex_iff)
  moreover have "parse (render (message_value kind i ms) @ newline)
      = Some (JObject ((''protocol'', JString PROTOCOL) # (''version'', JNumber ''1'')
          # (''kind'', JString kind) # (''id'', JString i) # ms))"
    using parse_render_line [OF assms(1)] by (simp only: message_value_def)
  moreover have "{''protocol'', ''version'', ''kind'', ''id''} \<subseteq> set envelope_names" by code_simp
  ultimately show ?thesis
    by (simp add: read_envelope_def string_field_def number_field_def field_def string_value_def)
qed

section \<open>The daemon's answers\<close>

lemma read_envelope_present:
  assumes "read_envelope line = Some e"
  shows "en_version e \<noteq> None \<Longrightarrow> en_version_present e"
    and "en_correlation_id e \<noteq> None \<Longrightarrow> en_correlation_id_present e"
  using assms by (auto simp: read_envelope_def number_field_def string_field_def Option.bind_eq_Some_conv
      split: option.splits json.splits if_splits)

definition well_addressed :: "envelope \<Rightarrow> bool" where
  "well_addressed e = (opt_any valid_uuid (en_id e)
     \<and> (en_correlation_id_present e \<longrightarrow> opt_any valid_uuid (en_correlation_id e)))"

lemma reply_ok:
  assumes "utf8_ok kind" "valid_uuid i" "utf8_ok correlation" "json_ok v" "name \<in> {''payload'', ''error''}"
  shows "json_ok (reply_value kind i correlation (name, v))"
proof -
  have "utf8_ok ''protocol''" "utf8_ok ''version''" "utf8_ok ''kind''" "utf8_ok ''id''"
      "utf8_ok ''correlation_id''" "utf8_ok ''payload''" "utf8_ok ''error''" "utf8_ok PROTOCOL"
    by code_simp+
  then show ?thesis
    using assms plain_utf8 [OF valid_uuid_plain] version_ok(2)
    by (auto simp: reply_value_def message_value_def simp del: utf8_ok_ascii)
qed

lemma read_reply:
  assumes "json_ok (reply_value kind i correlation (name, v))" "name \<in> {''payload'', ''error''}"
  shows "read_envelope (render (reply_value kind i correlation (name, v)) @ newline)
    = Some \<lparr>en_protocol = Some PROTOCOL, en_version = Some ''1'', en_version_present = True,
        en_kind = Some kind, en_id = Some i, en_correlation_id = Some correlation,
        en_correlation_id_present = True,
        en_payload = (if name = ''payload'' then Some v else None),
        en_error = (if name = ''error'' then Some v else None)\<rparr>"
proof -
  have "{''correlation_id'', ''payload'', ''error''} \<subseteq> set envelope_names" by code_simp
  then have "\<forall>m\<in>set [(''correlation_id'', JString correlation), (name, v)]. fst m \<in> set envelope_names"
    using assms(2) by auto
  from read_message [OF assms(1) [unfolded reply_value_def] this] show ?thesis
    using assms(2) by (auto simp: reply_value_def string_field_def field_def string_value_def)
qed

lemma error_value_ok: "utf8_ok c \<Longrightarrow> utf8_ok message \<Longrightarrow> json_ok (error_value c message r)"
proof -
  assume "utf8_ok c" "utf8_ok message"
  moreover have "utf8_ok ''code''" "utf8_ok ''message''" "utf8_ok ''retryable''" by code_simp+
  ultimately show ?thesis by (simp add: error_value_def del: utf8_ok_ascii)
qed

lemma payload_ok:
  assumes "valid_uuid d" shows "json_ok (handshake_payload d)" "json_ok (health_payload d)"
proof -
  have "utf8_ok ''daemon_version''" "utf8_ok ''daemon_instance_id''" "utf8_ok ''protocol_version''"
      "utf8_ok ''capabilities''" "utf8_ok ''status''" "utf8_ok ''health''" "utf8_ok ''ok''" "utf8_ok VERSION"
    by code_simp+
  then show "json_ok (handshake_payload d)" "json_ok (health_payload d)"
    using plain_utf8 [OF valid_uuid_plain [OF assms]] version_ok(2)
    by (simp_all add: handshake_payload_def health_payload_def del: utf8_ok_ascii)
qed

text \<open>The request names a sender the answer can be correlated with.\<close>

definition names_sender :: "bytes \<Rightarrow> str \<Rightarrow> bool" where
  "names_sender line i = (utf8_ok line \<and> valid_uuid i \<and>
     (case read_envelope line of None \<Rightarrow> False | Some e \<Rightarrow> en_id e = Some i))"

definition asks :: "bytes \<Rightarrow> str \<Rightarrow> (json \<Rightarrow> bool) \<Rightarrow> bool" where
  "asks line kind P = (utf8_ok line \<and>
     (case read_envelope line of None \<Rightarrow> False
      | Some e \<Rightarrow> well_addressed e \<and> en_protocol e = Some PROTOCOL \<and> en_version e = Some ''1''
          \<and> en_kind e = Some kind \<and> en_error e = None \<and> opt_any P (en_payload e)))"

lemma asks_same_kind: "asks line kind P \<Longrightarrow> asks line kind' Q \<Longrightarrow> kind = kind'"
  by (auto simp: asks_def split: option.splits)

datatype answer = Refused str str | Welcomed | Healthy

text \<open>What the handler answers, and with which correlation and counter.\<close>

definition answered :: "bytes \<Rightarrow> str \<Rightarrow> 64 word \<Rightarrow> str \<Rightarrow> 64 word \<Rightarrow> bool" where
  "answered line d n correlation m =
     ((valid_uuid correlation \<and> m = n \<or> correlation = fst (new_id n) \<and> m = n + 1)
      \<and> (\<forall>i. names_sender line i \<longrightarrow> correlation = i \<and> m = n))"

lemma answered_new: "(\<And>i. \<not> names_sender line i) \<Longrightarrow> answered line d n (fst (new_id n)) (n + 1)"
  by (simp add: answered_def)

lemma handle_request_cases:
  obtains
    (Refuse) correlation m c message where "answered line d n correlation m"
      "(c, message) \<in> {(''protocol.malformed'', ''malformed request''),
         (''protocol.unsupported_version'', ''unsupported protocol'')}"
      "handle_request line h d n = refuse correlation c message m"
      "\<not> (asks line ''handshake.request'' handshake_complete \<and> \<not> h)"
      "\<not> (asks line ''health.request'' (\<lambda>v. v = JObject []) \<and> h)"
  | (Welcome) i where "names_sender line i" "\<not> h" "asks line ''handshake.request'' handshake_complete"
      "handle_request line h d n = ((fst (handshake_response i d n), True), snd (handshake_response i d n))"
  | (Health) i where "names_sender line i" "h" "asks line ''health.request'' (\<lambda>v. v = JObject [])"
      "handle_request line h d n = ((fst (health_response i d n), False), snd (health_response i d n))"
proof -
  note Malformed = Refuse [of _ _ "''protocol.malformed''" "''malformed request''", folded malformed_def]
  note Unsupported = Refuse [of _ _ "''protocol.unsupported_version''" "''unsupported protocol''"]
  show ?thesis
proof (cases "\<not> utf8_ok line")
  case True
  then show ?thesis
    using Malformed [OF answered_new]
    by (simp add: handle_request_def names_sender_def asks_def split_beta)
next
  case u: False
  show ?thesis
  proof (cases "read_envelope line")
    case None
    obtain c1 m where c1: "correlation_prefix line n = (c1, m)" by fastforce
    then have "answered line d n c1 m"
      using None by (auto simp: correlation_prefix_def answered_def names_sender_def prod_eq_iff
          split: option.splits if_splits)
    then show ?thesis
      using Malformed [of c1 m] u None c1
      by (simp add: handle_request_def asks_def split_beta)
  next
    case (Some e)
    show ?thesis
    proof (cases "opt_any valid_uuid (en_id e)")
      case False
      then have "answered line d n (fst (new_id n)) (n + 1)"
        using Some by (auto simp: answered_def names_sender_def)
      moreover have "handle_request line h d n = malformed (fst (new_id n)) (n + 1)"
        using False u Some by (auto simp: handle_request_def split_beta Let_def split: option.splits)
      ultimately show ?thesis
        using Malformed [of "fst (new_id n)" "n + 1"] False Some
        by (simp add: asks_def well_addressed_def)
    next
      case True
      then obtain i where i: "en_id e = Some i" "valid_uuid i" by (cases "en_id e") auto
      have a: "answered line d n i n" and ns: "names_sender line i"
        using i u Some by (auto simp: answered_def names_sender_def)
      let ?handshake = "en_kind e = Some ''handshake.request'' \<and> \<not> h"
      let ?health = "en_kind e = Some ''health.request'' \<and> h \<and> en_payload e = Some (JObject [])"
      have addressed: "((en_correlation_id_present e \<and> en_correlation_id e = None)
          \<or> opt_any (\<lambda>i. \<not> valid_uuid i) (en_correlation_id e)) \<longleftrightarrow> \<not> well_addressed e"
        using read_envelope_present(2) [OF Some] i
        by (cases "en_correlation_id e") (auto simp: well_addressed_def)
      have versioned: "(\<not> en_version_present e \<or> en_version e = None) \<longleftrightarrow> en_version e = None"
        using read_envelope_present(1) [OF Some] by blast
      have raw: "handle_request line h d n =
         (if (en_correlation_id_present e \<and> en_correlation_id e = None)
             \<or> opt_any (\<lambda>i. \<not> valid_uuid i) (en_correlation_id e) then malformed i n
          else if \<not> en_version_present e \<or> en_version e = None then malformed i n
          else if en_protocol e \<noteq> Some PROTOCOL \<or> en_version e \<noteq> Some ''1'' then
            refuse i ''protocol.unsupported_version'' ''unsupported protocol'' n
          else if (en_payload e \<noteq> None) = (en_error e \<noteq> None) then malformed i n
          else if ?handshake then
            (if \<not> opt_any handshake_complete (en_payload e) then malformed i n
             else ((fst (handshake_response i d n), True), snd (handshake_response i d n)))
          else if ?health then ((fst (health_response i d n), False), snd (health_response i d n))
          else malformed i n)"
        using u Some i
        by (simp only: handle_request_def Let_def split_beta option.case opt_any_simps simp_thms
            if_True if_False prod.sel)
      have eval: "handle_request line h d n =
         (if \<not> well_addressed e then malformed i n
          else if en_version e = None then malformed i n
          else if en_protocol e \<noteq> Some PROTOCOL \<or> en_version e \<noteq> Some ''1'' then
            refuse i ''protocol.unsupported_version'' ''unsupported protocol'' n
          else if (en_payload e \<noteq> None) = (en_error e \<noteq> None) then malformed i n
          else if ?handshake then
            (if \<not> opt_any handshake_complete (en_payload e) then malformed i n
             else ((fst (handshake_response i d n), True), snd (handshake_response i d n)))
          else if ?health then ((fst (health_response i d n), False), snd (health_response i d n))
          else malformed i n)"
        unfolding raw addressed versioned by (rule refl)
      have asks: "asks line kind P \<longleftrightarrow> well_addressed e \<and> en_protocol e = Some PROTOCOL
          \<and> en_version e = Some ''1'' \<and> en_kind e = Some kind \<and> en_error e = None \<and> opt_any P (en_payload e)"
        for kind P using u Some by (simp add: asks_def)
      have payload: "opt_any P (en_payload e) \<Longrightarrow> en_payload e \<noteq> None" for P by (cases "en_payload e") auto
      consider (bad) "\<not> well_addressed e \<or> en_version e = None"
        | (other) "well_addressed e" "en_protocol e \<noteq> Some PROTOCOL \<or> en_version e \<noteq> Some ''1''" "en_version e \<noteq> None"
        | (good) "well_addressed e" "en_protocol e = Some PROTOCOL" "en_version e = Some ''1''" by blast
      then show ?thesis
      proof cases
        case bad
        then show ?thesis using Malformed [OF a] eval by (auto simp: asks)
      next
        case other
        then show ?thesis using Unsupported [OF a] eval by (auto simp: asks)
      next
        case good
        consider (same) "(en_payload e \<noteq> None) = (en_error e \<noteq> None)"
          | (handshake) "(en_payload e \<noteq> None) \<noteq> (en_error e \<noteq> None)" ?handshake
          | (rest) "(en_payload e \<noteq> None) \<noteq> (en_error e \<noteq> None)" "\<not> ?handshake" by blast
        then show ?thesis
        proof cases
          case same
          then have "handle_request line h d n = malformed i n" unfolding eval using good same by auto
          then show ?thesis using Malformed [OF a] same payload by (auto simp: asks)
        next
          case handshake
          show ?thesis
          proof (cases "opt_any handshake_complete (en_payload e)")
            case True
            then have e: "en_error e = None" using handshake(1) payload by blast
            have "handle_request line h d n
                = ((fst (handshake_response i d n), True), snd (handshake_response i d n))"
              unfolding eval using handshake good True e by auto
            then show ?thesis using Welcome [OF ns] handshake good True e by (simp add: asks)
          next
            case False
            then have "handle_request line h d n = malformed i n" unfolding eval using handshake good False by auto
            then show ?thesis using Malformed [OF a] False handshake by (simp add: asks)
          qed
        next
          case rest
          show ?thesis
          proof (cases ?health)
            case True
            then have e: "en_error e = None" using rest(1) by auto
            have "handle_request line h d n
                = ((fst (health_response i d n), False), snd (health_response i d n))"
              unfolding eval using rest good True e by auto
            then show ?thesis using Health [OF ns] good True e by (simp add: asks)
          next
            case False
            then have "\<not> (asks line ''health.request'' (\<lambda>v. v = JObject []) \<and> h)"
              by (cases "en_payload e") (auto simp: asks)
            moreover have "handle_request line h d n = malformed i n" unfolding eval using rest good False by auto
            ultimately show ?thesis using Malformed [OF a] rest by (auto simp: asks)
          qed
        qed
      qed
    qed
  qed
qed
qed

section \<open>The client reads the answers\<close>

lemma error_reply_code:
  fixes b :: bool
  assumes "valid_uuid i" "utf8_ok correlation" "utf8_ok c" "utf8_ok message"
  defines "r \<equiv> render (reply_value ''error.response'' i correlation (''error'', error_value c message b)) @ newline"
  shows "response_error_code r correlation
      = (if c \<in> set locked_codes \<and> locked_retryable c = Some b then Some c else None)"
    "\<not> response_matches r kind correlation'"
proof -
  have "utf8_ok ''error.response''" by code_simp
  then have "json_ok (reply_value ''error.response'' i correlation (''error'', error_value c message b))"
    using reply_ok [of "''error.response''" i correlation _ "''error''"] error_value_ok assms(1-4) by simp
  from read_reply [OF this] have e: "read_envelope r
      = Some \<lparr>en_protocol = Some PROTOCOL, en_version = Some ''1'', en_version_present = True,
          en_kind = Some ''error.response'', en_id = Some i, en_correlation_id = Some correlation,
          en_correlation_id_present = True, en_payload = None,
          en_error = Some (error_value c message b)\<rparr>"
    by (simp add: r_def)
  show "response_error_code r correlation
      = (if c \<in> set locked_codes \<and> locked_retryable c = Some b then Some c else None)"
    using assms(1) by (simp add: response_error_code_def e error_value_def field_def string_value_def bool_value_def)
  show "\<not> response_matches r kind correlation'"
    by (simp add: response_matches_def e)
qed

lemma payload_reply:
  assumes "valid_uuid i" "valid_uuid d" "utf8_ok correlation"
  shows "response_matches (render (reply_value ''handshake.response'' i correlation
      (''payload'', handshake_payload d)) @ newline) ''handshake.response'' correlation" (is ?A)
    "response_matches (render (reply_value ''health.response'' i correlation
      (''payload'', health_payload d)) @ newline) ''health.response'' correlation" (is ?B)
    "\<not> response_matches (render (reply_value ''handshake.response'' i correlation
      (''payload'', handshake_payload d)) @ newline) ''health.response'' correlation'" (is ?C)
    "\<not> response_matches (render (reply_value ''health.response'' i correlation
      (''payload'', health_payload d)) @ newline) ''handshake.response'' correlation'" (is ?D)
    "response_error_code (render (reply_value ''handshake.response'' i correlation
      (''payload'', handshake_payload d)) @ newline) correlation' = None" (is ?E)
    "response_error_code (render (reply_value ''health.response'' i correlation
      (''payload'', health_payload d)) @ newline) correlation' = None" (is ?F)
proof -
  have "utf8_ok ''handshake.response''" "utf8_ok ''health.response''" by code_simp+
  then have ok: "json_ok (reply_value ''handshake.response'' i correlation (''payload'', handshake_payload d))"
      "json_ok (reply_value ''health.response'' i correlation (''payload'', health_payload d))"
    using reply_ok payload_ok [OF assms(2)] assms by simp_all
  note e = read_reply [OF ok(1), simplified] read_reply [OF ok(2), simplified]
  show ?A ?B unfolding response_matches_def e using assms
    by (simp_all add: expected_fields_def handshake_payload_def health_payload_def
        field_def string_value_def number_is_def)
  show ?C ?D by (simp_all add: response_matches_def e)
  show ?E ?F by (simp_all add: response_error_code_def e)
qed

section \<open>Correctness of the protocol\<close>

lemma malformed_text:
  "(c, message) \<in> {(''protocol.malformed'', ''malformed request''),
      (''protocol.unsupported_version'', ''unsupported protocol'')} \<Longrightarrow>
   utf8_ok c \<and> utf8_ok message \<and> c \<in> set locked_codes \<and> locked_retryable c = Some False"
proof -
  have "utf8_ok ''protocol.malformed'' \<and> utf8_ok ''malformed request''
      \<and> ''protocol.malformed'' \<in> set locked_codes \<and> locked_retryable ''protocol.malformed'' = Some False"
      "utf8_ok ''protocol.unsupported_version'' \<and> utf8_ok ''unsupported protocol''
      \<and> ''protocol.unsupported_version'' \<in> set locked_codes
      \<and> locked_retryable ''protocol.unsupported_version'' = Some False"
    by code_simp+
  then show "(c, message) \<in> {(''protocol.malformed'', ''malformed request''),
      (''protocol.unsupported_version'', ''unsupported protocol'')} \<Longrightarrow> ?thesis" by blast
qed

lemma answered_ok:
  assumes "answered line d n correlation m" "unat n + 1 < 2 ^ 48"
  shows "valid_uuid correlation" "valid_uuid (fst (new_id m))" "utf8_ok correlation"
proof -
  have "unat (n + 1) = unat n + 1" using assms(2) by (intro unat_plus_simple [THEN iffD1, THEN trans])
      (simp_all add: word_le_nat_alt unat_word_ariths)
  then have ids: "valid_uuid (fst (new_id n))" "valid_uuid (fst (new_id (n + 1)))"
    using assms(2) by (simp_all add: new_id_valid)
  then show c: "valid_uuid correlation" and "valid_uuid (fst (new_id m))"
    using assms(1) by (auto simp: answered_def)
  show "utf8_ok correlation" by (rule plain_utf8 [OF valid_uuid_plain [OF c]])
qed

text \<open>
  The handler completes a handshake exactly when the line is a valid handshake request on a
  connection that has not had one: well-formed and addressed, of this protocol and version, without
  an error member, and with the three fields of the handshake, each of them valid. Every other line,
  whatever its bytes, leaves the connection as it was.
\<close>

theorem handshake_accepts_iff:
  "snd (fst (handle_request line h d n)) \<longleftrightarrow> asks line ''handshake.request'' handshake_complete \<and> \<not> h"
proof (cases rule: handle_request_cases [of line d n h])
  case (Refuse correlation m c message)
  then show ?thesis by (simp add: refuse_def split_beta)
next
  case (Welcome i)
  then show ?thesis by simp
next
  case (Health i)
  then show ?thesis by simp
qed

text \<open>
  The daemon never reports its health on a connection without a handshake, and never repeats a
  handshake: what it wrote in answer to any line is a health response for a client only if the
  handshake was done and the line asked for health, and a handshake response only if it was not.
\<close>

theorem no_service_before_handshake:
  assumes "unat n + 1 < 2 ^ 48" "valid_uuid d"
  shows "(\<exists>i. response_matches (fst (fst (handle_request line h d n))) ''health.response'' i)
       = (asks line ''health.request'' (\<lambda>v. v = JObject []) \<and> h) \<and>
     (\<exists>i. response_matches (fst (fst (handle_request line h d n))) ''handshake.response'' i)
       = (asks line ''handshake.request'' handshake_complete \<and> \<not> h)"
proof (cases rule: handle_request_cases [of line d n h])
  case (Refuse correlation m c message)
  note v = answered_ok [OF Refuse(1) assms(1)]
  show ?thesis
    using Refuse(3-5) error_reply_code(2) [OF v(2,3), of c message] malformed_text [OF Refuse(2)]
    by (simp add: refuse_def response_error_render)
next
  case (Welcome i)
  have i: "valid_uuid i" using Welcome(1) by (simp add: names_sender_def)
  have "valid_uuid (fst (new_id n))" using assms(1) by (simp add: new_id_valid)
  note r = payload_reply [OF this assms(2) plain_utf8 [OF valid_uuid_plain [OF i]]]
  show ?thesis using Welcome(2-4) r(1,3) by (auto simp: handshake_response_render)
next
  case (Health i)
  have i: "valid_uuid i" using Health(1) by (simp add: names_sender_def)
  have "valid_uuid (fst (new_id n))" using assms(1) by (simp add: new_id_valid)
  note r = payload_reply [OF this assms(2) plain_utf8 [OF valid_uuid_plain [OF i]]]
  show ?thesis using Health(2-4) r(2,4) by (auto simp: health_response_render)
qed

text \<open>
  C24: Every reply is one the client understands: for some valid correlation identifier, which is the
  request's own whenever the request names its sender, the reply is a handshake response, or a
  health response, or an error whose code and retry flag are in the locked table.
\<close>

theorem every_reply_understood:
  assumes "unat n + 1 < 2 ^ 48" "valid_uuid d" "handle_request line h d n = ((r, complete), n')"
  shows "\<exists>i. valid_uuid i \<and> (\<forall>j. names_sender line j \<longrightarrow> i = j)
     \<and> (if complete then response_matches r ''handshake.response'' i
         else response_matches r ''health.response'' i
           \<or> response_error_code r i \<in> {Some ''protocol.malformed'', Some ''protocol.unsupported_version''})"
proof (cases rule: handle_request_cases [of line d n h])
  case (Refuse correlation m c message)
  note v = answered_ok [OF Refuse(1) assms(1)]
  have "response_error_code r correlation = Some c"
    using error_reply_code(1) [OF v(2,3), of c message False] malformed_text [OF Refuse(2)]
      Refuse(3) assms(3) by (auto simp: refuse_def response_error_render)
  moreover have "\<not> complete" using Refuse(3) assms(3) by (simp add: refuse_def split_beta)
  ultimately show ?thesis using Refuse(1,2) v(1) unfolding answered_def by auto
next
  case (Welcome i)
  have i: "valid_uuid i" using Welcome(1) by (simp add: names_sender_def)
  have "valid_uuid (fst (new_id n))" using assms(1) by (simp add: new_id_valid)
  note r = payload_reply [OF this assms(2) plain_utf8 [OF valid_uuid_plain [OF i]]]
  have "names_sender line j \<Longrightarrow> i = j" for j
    using Welcome(1) by (auto simp: names_sender_def split: option.splits)
  then show ?thesis using Welcome(4) r(1) i assms(3) by (auto simp: handshake_response_render)
next
  case (Health i)
  have i: "valid_uuid i" using Health(1) by (simp add: names_sender_def)
  have "valid_uuid (fst (new_id n))" using assms(1) by (simp add: new_id_valid)
  note r = payload_reply [OF this assms(2) plain_utf8 [OF valid_uuid_plain [OF i]]]
  have "names_sender line j \<Longrightarrow> i = j" for j
    using Health(1) by (auto simp: names_sender_def split: option.splits)
  then show ?thesis using Health(4) r(2) i assms(3) by (auto simp: health_response_render)
qed

theorem no_service_before_handshake_witness:
  "\<exists>i. response_matches (fst (fst (handle_request (fst (fst (health_request 5))) True (fst (new_id 7)) 9)))
     ''health.response'' i"
proof -
  have "asks (fst (fst (health_request 5))) ''health.request'' (\<lambda>v. v = JObject [])" by code_simp
  then show ?thesis
    using no_service_before_handshake [of 9 "fst (new_id 7)" "fst (fst (health_request 5))" True]
    by (simp add: new_id_valid)
qed

theorem every_reply_understood_witness:
  "\<exists>i. valid_uuid i \<and> (response_matches (fst (fst (handle_request ''[]'' False (fst (new_id 7)) 9))) ''health.response'' i
     \<or> response_error_code (fst (fst (handle_request ''[]'' False (fst (new_id 7)) 9))) i
     \<in> {Some ''protocol.malformed'', Some ''protocol.unsupported_version''})"
proof -
  have "snd (fst (handle_request ''[]'' False (fst (new_id 7)) 9)) = False" by code_simp
  then have "handle_request ''[]'' False (fst (new_id 7)) 9
      = ((fst (fst (handle_request ''[]'' False (fst (new_id 7)) 9)), False),
         snd (handle_request ''[]'' False (fst (new_id 7)) 9))" by (simp add: prod_eq_iff)
  from every_reply_understood [OF _ _ this] show ?thesis by (auto simp: new_id_valid)
qed

definition unhex :: "str \<Rightarrow> nat" where
  "unhex s = foldl (\<lambda>n c. 16 * n + hex_val c) 0 s"

lemma unhex_hex: "unhex (hex n) = n"
proof (induction n rule: hex.induct)
  case (1 n)
  show ?case
    using 1 hex_digit_val [of "n mod 16"] hex_digit_val [of n]
    by (subst hex.simps) (auto simp: unhex_def)
qed

lemma unhex_pad: "unhex (hex_pad k n) = n"
proof -
  have "hex_val (CHR ''0'') = 0" by code_simp
  then have "unhex (replicate j (CHR ''0'') @ s) = unhex s" for j s
    by (induction j) (simp_all add: unhex_def)
  then show ?thesis by (simp add: hex_pad_def unhex_hex)
qed

text \<open>
  Identifiers are distinct for the whole life of the 64-bit counter, and they are well-formed
  exactly as long as the counter fits the twelve digits the format leaves it: after \<open>2 ^ 48\<close>
  identifiers the daemon would hand out ones its own checks reject.
\<close>

theorem identifiers_unique_and_valid:
  "valid_uuid (fst (new_id n)) = (unat n < 2 ^ 48) \<and> (fst (new_id n) = fst (new_id m)) = (n = m)"
proof -
  have "n = m" if "fst (new_id n) = fst (new_id m)"
  proof -
    have "hex_pad 12 (unat n) = hex_pad 12 (unat m)" using that by (simp add: new_id_def)
    then have "unat n = unat m" by (metis unhex_pad)
    then show ?thesis by (simp add: word_unat_eq_iff)
  qed
  then show ?thesis using new_id_valid by auto
qed

section \<open>A whole session\<close>

lemma hello_ok:
  assumes "role \<in> {''tui'', ''jsonl'', ''doctor''}" "valid_uuid i"
  shows "json_ok (hello_payload role i)" "handshake_complete (hello_payload role i)"
proof -
  have "utf8_ok ''tui'' \<and> utf8_ok ''jsonl'' \<and> utf8_ok ''doctor'' \<and> utf8_ok VERSION \<and> utf8_ok ''client_role''
      \<and> utf8_ok ''client_version'' \<and> utf8_ok ''client_instance_id''" by code_simp
  then show "json_ok (hello_payload role i)"
    using assms plain_utf8 [OF valid_uuid_plain [OF assms(2)]]
    by (auto simp: hello_payload_def simp del: utf8_ok_ascii)
  show "handshake_complete (hello_payload role i)"
    using assms by (auto simp: handshake_complete_def hello_payload_def object_has_exact_fields_def
        object_field_def field_def string_value_def)
qed

lemma request_asks:
  assumes "utf8_ok kind" "valid_uuid i" "json_ok v" "P v"
  shows "asks (render (message_value kind i [(''payload'', v)]) @ newline) kind P"
    "names_sender (render (message_value kind i [(''payload'', v)]) @ newline) i"
proof -
  have "utf8_ok ''protocol'' \<and> utf8_ok ''version'' \<and> utf8_ok ''kind'' \<and> utf8_ok ''id''
      \<and> utf8_ok ''payload'' \<and> utf8_ok PROTOCOL \<and> ''payload'' \<in> set envelope_names \<and> utf8_ok newline" by code_simp
  note n = this
  then have "json_ok (message_value kind i [(''payload'', v)])"
    using assms plain_utf8 [OF valid_uuid_plain [OF assms(2)]] version_ok(2)
    by (simp add: message_value_def del: utf8_ok_ascii)
  from read_message [OF this] have e: "read_envelope (render (message_value kind i [(''payload'', v)]) @ newline)
      = Some \<lparr>en_protocol = Some PROTOCOL, en_version = Some ''1'', en_version_present = True,
          en_kind = Some kind, en_id = Some i, en_correlation_id = None,
          en_correlation_id_present = False, en_payload = Some v, en_error = None\<rparr>"
    using n by (simp add: string_field_def field_def)
  have u: "utf8_ok (render (message_value kind i [(''payload'', v)]) @ newline)"
    using n by (simp add: utf8_ok_append)
  show "asks (render (message_value kind i [(''payload'', v)]) @ newline) kind P"
    using assms(2,4) u by (simp add: asks_def e well_addressed_def)
  show "names_sender (render (message_value kind i [(''payload'', v)]) @ newline) i"
    using assms(2) u by (simp add: names_sender_def e)
qed

lemma names_sender_unique: "names_sender line i \<Longrightarrow> names_sender line j \<Longrightarrow> i = j"
  by (auto simp: names_sender_def split: option.splits)

lemma answer_to:
  assumes "valid_uuid (fst (new_id m))" "valid_uuid d" "names_sender line i"
  shows "asks line ''handshake.request'' handshake_complete \<Longrightarrow>
      snd (fst (handle_request line False d m)) \<and> snd (handle_request line False d m) = m + 1 \<and>
      response_matches (fst (fst (handle_request line False d m))) ''handshake.response'' i" (is "_ \<Longrightarrow> ?A")
    and "asks line ''health.request'' (\<lambda>v. v = JObject []) \<Longrightarrow>
      response_matches (fst (fst (handle_request line True d m))) ''health.response'' i" (is "_ \<Longrightarrow> ?B")
proof -
  have i: "utf8_ok i" using assms(3) plain_utf8 valid_uuid_plain by (auto simp: names_sender_def)
  note r = payload_reply [OF assms(1,2) i]
  show ?A if "asks line ''handshake.request'' handshake_complete"
    using that names_sender_unique [OF assms(3)] r(1)
    by (cases rule: handle_request_cases [of line d m False]) (auto simp: handshake_response_render)
  show ?B if "asks line ''health.request'' (\<lambda>v. v = JObject [])"
    using that names_sender_unique [OF assms(3)] r(2)
    by (cases rule: handle_request_cases [of line d m True]) (auto simp: health_response_render)
qed

text \<open>
  Client and daemon agree: the handshake request a client formats completes the handshake at the
  daemon and the daemon's reply passes the client's check for that request; after it the client's
  health request is answered by a reply that passes the client's health check.
\<close>

theorem session_agreement:
  assumes "role \<in> {''tui'', ''jsonl'', ''doctor''}" "unat n + 2 < 2 ^ 48" "unat m + 1 < 2 ^ 48" "valid_uuid d"
    and hello: "handshake_request role n = ((hello, hello_id), n1)"
    and first: "handle_request hello False d m = ((reply1, complete), m1)"
    and probe: "health_request n1 = ((health, health_id), n2)"
    and second: "handle_request health True d m1 = ((reply2, again), m2)"
  shows "complete \<and> response_matches reply1 ''handshake.response'' hello_id
     \<and> response_matches reply2 ''health.response'' health_id"
proof -
  have w: "unat (n + 1) = unat n + 1" "unat (n + 2) = unat n + 2" "unat (m + 1) = unat m + 1"
    using assms(2,3) by (simp_all add: unat_word_ariths)
  have ids: "valid_uuid (fst (new_id n))" "valid_uuid (fst (new_id (n + 1)))" "valid_uuid (fst (new_id (n + 2)))"
      "valid_uuid (fst (new_id m))" "valid_uuid (fst (new_id (m + 1)))"
    using assms(2,3) w by (simp_all add: new_id_valid)
  have kinds: "utf8_ok ''handshake.request''" "utf8_ok ''health.request''" by code_simp+
  have "list_all plain ''tui'' \<and> list_all plain ''jsonl'' \<and> list_all plain ''doctor''" by code_simp
  then have role: "list_all plain role" using assms(1) by auto
  note h = hello_ok [OF assms(1) ids(2)]
  have hello': "hello = render (message_value ''handshake.request'' (fst (new_id n))
        [(''payload'', hello_payload role (fst (new_id (n + 1))))]) @ newline"
      "hello_id = fst (new_id n)" "n1 = n + 2"
    using hello by (auto simp: handshake_request_render [OF role])
  note a1 = answer_to(1) [OF ids(4) assms(4), of hello hello_id] request_asks [OF kinds(1) ids(1) h(1), of handshake_complete]
  have 1: "complete \<and> m1 = m + 1 \<and> response_matches reply1 ''handshake.response'' hello_id"
    using a1 h(2) first hello' by auto
  have health': "health = render (message_value ''health.request'' (fst (new_id (n + 2)))
        [(''payload'', JObject [])]) @ newline" "health_id = fst (new_id (n + 2))"
    using probe hello'(3) by (auto simp: health_request_render)
  have "json_ok (JObject [])" by simp
  note a2 = answer_to(2) [OF ids(5) assms(4), of health health_id]
    request_asks [OF kinds(2) ids(3) this, of "\<lambda>v. v = JObject []"]
  have "response_matches reply2 ''health.response'' health_id"
    using a2 second health' 1 by auto
  with 1 show ?thesis by blast
qed

lemma nested_collapse: "x = ((fst (fst x), snd (fst x)), snd x)"
  by simp

theorem session_agreement_witness:
  "let x = handshake_request ''tui'' 1; y = handle_request (fst (fst x)) False (fst (new_id 7)) 9;
       z = health_request (snd x); w = handle_request (fst (fst z)) True (fst (new_id 7)) (snd y)
   in snd (fst y) \<and> response_matches (fst (fst y)) ''handshake.response'' (snd (fst x))
      \<and> response_matches (fst (fst w)) ''health.response'' (snd (fst z))"
  unfolding Let_def
  by (rule session_agreement [OF _ _ _ _ nested_collapse nested_collapse nested_collapse nested_collapse,
        where role = "''tui''"]) (simp_all add: new_id_valid)

text \<open>
  An error reply brings its code to the client exactly when the code is in the locked table and
  is not to be retried: the daemon's formatter always writes \<open>retryable: false\<close>, so a lifecycle
  code sent through it would be refused, and every other code arrives unchanged.
\<close>

theorem error_code_transport:
  assumes "unat n < 2 ^ 48" "utf8_ok correlation" "utf8_ok c" "utf8_ok message"
  shows "response_error_code (fst (response_error correlation c message n)) correlation
    = (if c \<in> set locked_codes \<and> locked_retryable c = Some False then Some c else None)"
  using error_reply_code(1) [OF _ assms(2-4), of "fst (new_id n)" False] assms(1)
  by (simp add: response_error_render new_id_valid)

theorem error_code_transport_witness:
  "response_error_code (fst (response_error ''x'' ''authorization.peer_uid'' ''peer authorization failed'' 3)) ''x''
     = Some ''authorization.peer_uid''
   \<and> response_error_code (fst (response_error ''x'' ''lifecycle.shutdown_timeout'' ''late'' 3)) ''x'' = None"
proof -
  have "utf8_ok ''x'' \<and> utf8_ok ''authorization.peer_uid'' \<and> utf8_ok ''peer authorization failed''
      \<and> utf8_ok ''lifecycle.shutdown_timeout'' \<and> utf8_ok ''late''
      \<and> ''authorization.peer_uid'' \<in> set locked_codes
      \<and> locked_retryable ''authorization.peer_uid'' = Some False
      \<and> locked_retryable ''lifecycle.shutdown_timeout'' \<noteq> Some False" by code_simp
  then show ?thesis
    using error_code_transport [of 3 "''x''" "''authorization.peer_uid''" "''peer authorization failed''"]
      error_code_transport [of 3 "''x''" "''lifecycle.shutdown_timeout''" "''late''"] by (simp del: utf8_ok_ascii)
qed

end
