(* ===== verification/Frames.thy ===== *)
theory Frames
  imports Protocol
begin

text \<open>
  \<open>FrameReader\<close>, \<open>frame_error\<close> and \<open>handle_client\<close> of \<open>src/src/main.rs\<close>: cutting the bytes of a
  connection into lines of bounded length, and one connection of the daemon. What a read answers
  is the list of outcomes ahead of the reader; the empty list is the end of the input.
\<close>

section \<open>The frame reader\<close>

datatype read_outcome = Byte char | Blocked | Broken

datatype frame =
    End
  | Pending
  | Complete bytes
  | Incomplete bytes
  | InvalidUtf8 bool
  | Oversized bytes

record frame_reader =
  fr_frame :: bytes
  fr_discarding :: bool

definition new_reader :: frame_reader where
  "new_reader = \<lparr>fr_frame = [], fr_discarding = False\<rparr>"

abbreviation NL :: char where
  "NL \<equiv> CHR 0x0A"

text \<open>\<open>next\<close>: the frame, or \<open>None\<close> for an I/O error, with the reader and the reads left.\<close>

fun next_frame :: "nat \<Rightarrow> frame_reader \<Rightarrow> read_outcome list \<Rightarrow> frame option \<times> frame_reader \<times> read_outcome list" where
  "next_frame limit r [] =
     (if fr_discarding r then
        (Some (Oversized (fr_frame r)), r\<lparr>fr_discarding := False, fr_frame := []\<rparr>, [])
      else if fr_frame r = [] then (Some End, r, [])
      else if utf8_ok (fr_frame r) then (Some (Incomplete (fr_frame r)), r\<lparr>fr_frame := []\<rparr>, [])
      else (Some (InvalidUtf8 True), r\<lparr>fr_frame := []\<rparr>, []))"
| "next_frame limit r (Blocked # s) = (Some Pending, r, s)"
| "next_frame limit r (Broken # s) = (None, r, s)"
| "next_frame limit r (Byte b # s) =
     (if fr_discarding r then
        (if b = NL then (Some (Oversized (fr_frame r)), r\<lparr>fr_discarding := False, fr_frame := []\<rparr>, s)
         else next_frame limit r s)
      else if limit \<le> length (fr_frame r) then
        (if b = NL then (Some (Oversized (fr_frame r)), r\<lparr>fr_discarding := False, fr_frame := []\<rparr>, s)
         else next_frame limit (r\<lparr>fr_discarding := True\<rparr>) s)
      else if b = NL then
        (if utf8_ok (fr_frame r @ [b]) then (Some (Complete (fr_frame r @ [b])), r\<lparr>fr_frame := []\<rparr>, s)
         else (Some (InvalidUtf8 False), r\<lparr>fr_frame := []\<rparr>, s))
      else next_frame limit (r\<lparr>fr_frame := fr_frame r @ [b]\<rparr>) s)"

definition frame_error :: "frame \<Rightarrow> 64 word \<Rightarrow> str \<times> 64 word" where
  "frame_error f n =
     (let (correlation, n1) =
            (case f of Incomplete b \<Rightarrow> correlation_prefix b n | Oversized b \<Rightarrow> correlation_prefix b n
             | _ \<Rightarrow> new_id n) in
      case f of
        Oversized _ \<Rightarrow> response_error correlation ''protocol.oversized'' ''request too large'' n1
      | Incomplete _ \<Rightarrow> response_error correlation ''protocol.malformed'' ''malformed request'' n1
      | InvalidUtf8 _ \<Rightarrow> response_error correlation ''protocol.malformed'' ''malformed request'' n1
      | _ \<Rightarrow> ([], n1))"

section \<open>One connection of the daemon\<close>

text \<open>
  What the connection does not control: whether the stop flag is set when its \<open>i\<close>-th pass through
  the loop looks, and whether the response of that pass is written whole (\<open>None\<close>) or \<open>write_all\<close>
  fails after some bytes.
\<close>

record client_env =
  ce_timeout_set :: bool
  ce_cloned :: bool
  ce_stopping :: "nat \<Rightarrow> bool"
  ce_cut :: "nat \<Rightarrow> nat option"

definition terminal :: "frame \<Rightarrow> bool" where
  "terminal f = (case f of Incomplete _ \<Rightarrow> True | InvalidUtf8 t \<Rightarrow> t | _ \<Rightarrow> False)"

lemma next_frame_length: "next_frame limit r s = (f, r', s') \<Longrightarrow> length s' \<le> length s - 1"
proof (induction limit r s rule: next_frame.induct)
  case (4 limit r b s)
  have le: "length s - 1 \<le> length s" by simp
  show ?case using 4 le by (auto split: if_splits intro: order_trans)
qed (auto split: if_splits)

lemma next_frame_shorter: "next_frame limit r (x # s) = (f, r', s') \<Longrightarrow> length s' < Suc (length s)"
  using next_frame_length [of limit r "x # s" f r' s'] by simp

lemma next_frame_end:
  "next_frame limit r [] = (Some f, r', s') \<Longrightarrow> f \<noteq> End \<Longrightarrow>
   s' = [] \<and> \<not> fr_discarding r' \<and> fr_frame r' = [] \<and> (fr_discarding r \<or> fr_frame r \<noteq> [])"
  by (auto split: if_splits)

text \<open>What is left to read: the outcomes ahead, and what the reader still holds.\<close>

definition left_to_read :: "frame_reader \<Rightarrow> read_outcome list \<Rightarrow> nat" where
  "left_to_read r s = 2 * length s + (if fr_discarding r \<or> fr_frame r \<noteq> [] then 1 else 0)"

lemma left_to_read_less:
  "next_frame limit r s = (Some f, r', s') \<Longrightarrow> f \<noteq> End \<Longrightarrow> left_to_read r' s' < left_to_read r s"
proof (cases s)
  case Nil
  assume "next_frame limit r s = (Some f, r', s')" "f \<noteq> End"
  then show ?thesis using next_frame_end [of limit r f r' s'] Nil by (simp add: left_to_read_def)
next
  case (Cons x t)
  assume "next_frame limit r s = (Some f, r', s')"
  then show ?thesis using next_frame_shorter [of limit r x t "Some f" r' s'] Cons by (simp add: left_to_read_def)
qed

text \<open>The responses written whole, what was written of one more, and the counter.\<close>

function serve :: "client_env \<Rightarrow> nat \<Rightarrow> str \<Rightarrow> nat \<Rightarrow> bool \<Rightarrow> frame_reader \<Rightarrow> read_outcome list \<Rightarrow> 64 word
    \<Rightarrow> str list \<times> str \<times> 64 word" where
  "serve env limit daemon_id i handshaken r s n =
     (if ce_stopping env i then ([], [], n)
      else case next_frame limit r s of
        (None, r1, s1) \<Rightarrow> ([], [], n)
      | (Some f, r1, s1) \<Rightarrow>
          if f = Pending then serve env limit daemon_id (i + 1) handshaken r1 s1 n
          else if f = End then ([], [], n)
          else (let ((response, completed), n1) =
                      (case f of Complete line \<Rightarrow> handle_request line handshaken daemon_id n
                       | _ \<Rightarrow> (let (e, n1) = frame_error f n in ((e, False), n1))) in
                case ce_cut env i of
                  Some k \<Rightarrow> ([], take k response, n1)
                | None \<Rightarrow>
                    if terminal f then ([response], [], n1)
                    else (let (rest, cut, n2) = serve env limit daemon_id (i + 1) (handshaken \<or> completed) r1 s1 n1
                          in (response # rest, cut, n2))))"
  by pat_completeness auto
termination
  by (relation "measure (\<lambda>(env, limit, d, i, h, r, s, n). left_to_read r s)")
    (auto intro!: left_to_read_less [OF sym])

declare serve.simps [simp del]

text \<open>\<open>handle_client\<close>: what it writes to the connection, as above.\<close>

definition handle_client ::
  "client_env \<Rightarrow> str \<Rightarrow> nat \<Rightarrow> read_outcome list \<Rightarrow> 64 word \<Rightarrow> str list \<times> str \<times> 64 word" where
  "handle_client env daemon_id limit s n =
     (if \<not> ce_timeout_set env \<or> \<not> ce_cloned env then ([], [], n)
      else serve env limit daemon_id 0 False new_reader s n)"

section \<open>What the reader cuts\<close>

text \<open>The text the reader returns is never longer than the limit.\<close>

fun frame_bytes :: "frame \<Rightarrow> bytes" where
  "frame_bytes (Complete b) = b"
| "frame_bytes (Incomplete b) = b"
| "frame_bytes (Oversized b) = b"
| "frame_bytes f = []"

lemma next_frame_bounded:
  "next_frame limit r s = (f, r', s') \<Longrightarrow> length (fr_frame r) \<le> limit \<Longrightarrow>
   length (fr_frame r') \<le> limit \<and> (case f of None \<Rightarrow> True | Some g \<Rightarrow> length (frame_bytes g) \<le> limit)"
  by (induction limit r s rule: next_frame.induct) (auto split: if_splits)

text \<open>What the bytes of one line become.\<close>

definition line_frame :: "nat \<Rightarrow> bytes \<Rightarrow> frame" where
  "line_frame limit l =
     (if limit \<le> length l then Oversized (take limit l)
      else if utf8_ok (l @ [NL]) then Complete (l @ [NL]) else InvalidUtf8 False)"

definition last_frame :: "nat \<Rightarrow> bytes \<Rightarrow> frame" where
  "last_frame limit l =
     (if l = [] then End else if limit < length l then Oversized (take limit l)
      else if utf8_ok l then Incomplete l else InvalidUtf8 True)"

lemma discarding_line:
  "NL \<notin> set l \<Longrightarrow> fr_discarding r \<Longrightarrow>
   next_frame limit r (map Byte (l @ [NL]) @ s) = (Some (Oversized (fr_frame r)), new_reader, s)"
  by (induction l) (auto simp: new_reader_def)

lemma discarding_end:
  "NL \<notin> set l \<Longrightarrow> fr_discarding r \<Longrightarrow>
   next_frame limit r (map Byte l) = (Some (Oversized (fr_frame r)), new_reader, [])"
  by (induction l) (auto simp: new_reader_def)

lemma next_line:
  "NL \<notin> set l \<Longrightarrow> length p \<le> limit \<Longrightarrow> NL \<notin> set p \<Longrightarrow>
   next_frame limit \<lparr>fr_frame = p, fr_discarding = False\<rparr> (map Byte (l @ [NL]) @ s)
     = (Some (line_frame limit (p @ l)), new_reader, s)"
proof (induction l arbitrary: p)
  case Nil
  then show ?case by (auto simp: line_frame_def new_reader_def)
next
  case (Cons b l)
  show ?case
  proof (cases "limit \<le> length p")
    case True
    then have "length p = limit" using Cons.prems(2) by simp
    then show ?thesis
      using Cons.prems True discarding_line [of l "\<lparr>fr_frame = p, fr_discarding = True\<rparr>" limit s]
      by (auto simp: line_frame_def)
  next
    case False
    then show ?thesis using Cons.prems Cons.IH [of "p @ [b]"] by auto
  qed
qed

lemma next_last:
  "NL \<notin> set l \<Longrightarrow> length p \<le> limit \<Longrightarrow>
   next_frame limit \<lparr>fr_frame = p, fr_discarding = False\<rparr> (map Byte l)
     = (Some (last_frame limit (p @ l)), new_reader, [])"
proof (induction l arbitrary: p)
  case Nil
  then show ?case by (auto simp: last_frame_def new_reader_def)
next
  case (Cons b l)
  show ?case
  proof (cases "limit \<le> length p")
    case True
    then have "length p = limit" using Cons.prems(2) by simp
    then show ?thesis
      using Cons.prems True discarding_end [of l "\<lparr>fr_frame = p, fr_discarding = True\<rparr>" limit]
      by (auto simp: last_frame_def)
  next
    case False
    then show ?thesis using Cons.prems Cons.IH [of "p @ [b]"] by auto
  qed
qed

section \<open>The reference: lines of a text\<close>

text \<open>All frames of a connection up to its end, a broken read or an unfinished last line.\<close>

function read_all :: "nat \<Rightarrow> frame_reader \<Rightarrow> read_outcome list \<Rightarrow> frame list" where
  "read_all limit r s =
     (case next_frame limit r s of
        (None, r1, s1) \<Rightarrow> []
      | (Some f, r1, s1) \<Rightarrow>
          if f = End then [] else if f = Pending then read_all limit r1 s1
          else f # (if terminal f then [] else read_all limit r1 s1))"
  by pat_completeness auto
termination
  by (relation "measure (\<lambda>(limit, r, s). left_to_read r s)") (auto intro!: left_to_read_less [OF sym])

declare read_all.simps [simp del]

text \<open>The specification: cut the bytes at the newlines, then judge each line by itself.\<close>

function frames_of :: "nat \<Rightarrow> bytes \<Rightarrow> frame list" where
  "frames_of limit b =
     (case split_once NL b of
        None \<Rightarrow> if b = [] then [] else [last_frame limit b]
      | Some (l, rest) \<Rightarrow> line_frame limit l # frames_of limit rest)"
  by pat_completeness auto
termination
  by (relation "measure (length \<circ> snd)") (auto dest!: sym [of "Some _"] simp: split_once_Some)

declare frames_of.simps [simp del]

fun bytes_of :: "read_outcome list \<Rightarrow> bytes" where
  "bytes_of [] = []"
| "bytes_of (Byte b # s) = b # bytes_of s"
| "bytes_of (x # s) = bytes_of s"

lemma read_all_Blocked: "read_all limit r (Blocked # s) = read_all limit r s"
  by (subst read_all.simps) simp

lemma read_all_cong:
  assumes "next_frame limit r s = next_frame limit r' s'" shows "read_all limit r s = read_all limit r' s'"
  unfolding read_all.simps [of limit r s] read_all.simps [of limit r' s'] assms ..

lemma read_all_step:
  assumes "next_frame limit r s = (Some f, r', s')" "f \<noteq> End" "f \<noteq> Pending" "\<not> terminal f"
  shows "read_all limit r s = f # read_all limit r' s'"
  using assms by (subst read_all.simps) simp

lemma read_all_Byte:
  "read_all limit r (Byte b # s) =
     (if fr_discarding r \<or> limit \<le> length (fr_frame r) then
        (if b = NL then Oversized (fr_frame r) # read_all limit (r\<lparr>fr_discarding := False, fr_frame := []\<rparr>) s
         else read_all limit (r\<lparr>fr_discarding := True\<rparr>) s)
      else if b = NL then
        (if utf8_ok (fr_frame r @ [b]) then Complete (fr_frame r @ [b]) else InvalidUtf8 False)
          # read_all limit (r\<lparr>fr_frame := []\<rparr>) s
      else read_all limit (r\<lparr>fr_frame := fr_frame r @ [b]\<rparr>) s)"
proof -
  have d: "fr_discarding r \<Longrightarrow> r\<lparr>fr_discarding := True\<rparr> = r" by (cases r) simp
  show ?thesis
    by (auto simp: terminal_def d intro!: read_all_cong read_all_step)
qed

lemma read_all_unblocked:
  "Broken \<notin> set s \<Longrightarrow> read_all limit r s = read_all limit r (map Byte (bytes_of s))"
proof (induction s arbitrary: r)
  case (Cons x s)
  then show ?case by (cases x) (simp_all add: read_all_Blocked read_all_Byte)
qed simp

lemma read_all_bytes: "read_all limit new_reader (map Byte bs) = frames_of limit bs"
proof (induction bs rule: frames_of.induct [of _ limit])
  case (1 limit bs)
  have empty: "read_all limit new_reader [] = []" by (subst read_all.simps) (simp add: new_reader_def)
  show ?case
  proof (cases "split_once NL bs")
    case None
    then have "next_frame limit new_reader (map Byte bs) = (Some (last_frame limit bs), new_reader, [])"
      using next_last [of bs "[]" limit] by (simp add: split_once_None new_reader_def)
    then show ?thesis
      using None empty by (subst read_all.simps, subst frames_of.simps) (auto simp: last_frame_def)
  next
    case (Some lr)
    obtain l rest where lr: "lr = (l, rest)" by (cases lr)
    then have bs: "bs = l @ NL # rest" "NL \<notin> set l" using Some by (simp_all add: split_once_Some)
    have "next_frame limit new_reader (map Byte bs) = (Some (line_frame limit l), new_reader, map Byte rest)"
      using next_line [of l "[]" limit "map Byte rest"] bs by (simp add: new_reader_def)
    from read_all_step [OF this] have "read_all limit new_reader (map Byte bs)
        = line_frame limit l # read_all limit new_reader (map Byte rest)"
      by (auto simp: line_frame_def terminal_def)
    then show ?thesis using 1 [OF Some lr [symmetric]] Some lr by (subst frames_of.simps) simp
  qed
qed

text \<open>
  C27: The incremental reader agrees with the specification: however the input is delivered, byte by
  byte with any number of timeouts between, the frames of a connection are those of its bytes cut at
  the newlines, each line complete, invalid or oversized by itself, and the last one unfinished
  unless it is empty.
\<close>

theorem reader_cuts_lines:
  assumes "Broken \<notin> set s"
  shows "read_all limit new_reader s = frames_of limit (bytes_of s)"
  using read_all_unblocked [OF assms] read_all_bytes by simp

theorem reader_cuts_lines_witness:
  "read_all 3 new_reader [Byte (CHR ''a''), Blocked, Byte NL, Byte (CHR ''b''), Byte (CHR ''c''),
      Byte (CHR ''d''), Byte (CHR ''e''), Blocked, Byte NL, Byte (CHR ''f'')]
    = [Complete [CHR ''a'', NL], Oversized ''bcd'', Incomplete ''f'']"
proof -
  let ?s = "[Byte (CHR ''a''), Blocked, Byte NL, Byte (CHR ''b''), Byte (CHR ''c''),
      Byte (CHR ''d''), Byte (CHR ''e''), Blocked, Byte NL, Byte (CHR ''f'')]"
  have "frames_of 3 (bytes_of ?s) = [Complete [CHR ''a'', NL], Oversized ''bcd'', Incomplete ''f'']"
    by code_simp
  then show ?thesis using reader_cuts_lines [of ?s 3] by simp
qed

section \<open>A connection answers line by line\<close>

definition answer_frame :: "str \<Rightarrow> bool \<Rightarrow> frame \<Rightarrow> 64 word \<Rightarrow> (str \<times> bool) \<times> 64 word" where
  "answer_frame daemon_id h f n =
     (case f of Complete line \<Rightarrow> handle_request line h daemon_id n
      | _ \<Rightarrow> (let (e, n1) = frame_error f n in ((e, False), n1)))"

text \<open>The specification of a connection: its frames answered one after the other.\<close>

fun session :: "str \<Rightarrow> bool \<Rightarrow> frame list \<Rightarrow> 64 word \<Rightarrow> str list" where
  "session daemon_id h [] n = []"
| "session daemon_id h (f # fs) n =
     (let ((response, completed), n1) = answer_frame daemon_id h f n in
      response # session daemon_id (h \<or> completed) fs n1)"

definition undisturbed :: "client_env \<Rightarrow> bool" where
  "undisturbed env = (\<forall>i. \<not> ce_stopping env i \<and> ce_cut env i = None)"

text \<open>All bytes a connection sent.\<close>

definition sent_bytes :: "str list \<times> str \<times> 64 word \<Rightarrow> bytes" where
  "sent_bytes x = concat (fst x) @ fst (snd x)"

lemma serve_session:
  "prefix (fst (serve env limit d i h r s n)) (session d h (read_all limit r s) n)
   \<and> prefix (sent_bytes (serve env limit d i h r s n)) (concat (session d h (read_all limit r s) n))
   \<and> (undisturbed env \<longrightarrow> fst (serve env limit d i h r s n) = session d h (read_all limit r s) n)"
proof (induction env limit d i h r s n rule: serve.induct)
  case (1 env limit d i h r s n)
  obtain o1 r1 s1 where nf: "next_frame limit r s = (o1, r1, s1)" by (cases "next_frame limit r s")
  show ?case
  proof (cases "ce_stopping env i \<or> o1 = None \<or> o1 = Some End")
    case True
    then show ?thesis
      using nf by (subst (1 2 3) serve.simps, subst (3) read_all.simps) (auto simp: undisturbed_def sent_bytes_def)
  next
    case False
    then obtain f where f: "o1 = Some f" "\<not> ce_stopping env i" "f \<noteq> End" by auto
    show ?thesis
    proof (cases "f = Pending")
      case True
      then show ?thesis
        using 1(1) [OF f(2) nf [symmetric] f(1) refl] f nf
        by (subst (1 2 3) serve.simps, subst (1 2 3) read_all.simps) simp
    next
      case p: False
      obtain resp c n1 where a: "answer_frame d h f n = ((resp, c), n1)"
        by (cases "answer_frame d h f n") (metis prod.collapse)
      have serve: "serve env limit d i h r s n =
          (case ce_cut env i of Some k \<Rightarrow> ([], take k resp, n1)
           | None \<Rightarrow> if terminal f then ([resp], [], n1)
              else (resp # fst (serve env limit d (i + 1) (h \<or> c) r1 s1 n1), snd (serve env limit d (i + 1) (h \<or> c) r1 s1 n1)))"
        using nf f p a
        by (subst serve.simps) (simp add: answer_frame_def [symmetric] split_beta Let_def split: option.split)
      have all: "read_all limit r s = f # (if terminal f then [] else read_all limit r1 s1)"
        using nf f p by (subst read_all.simps) simp
      show ?thesis
      proof (cases "ce_cut env i = None \<and> \<not> terminal f")
        case True
        then have "ce_cut env i = None" "\<not> terminal f" by simp_all
        from 1(2) [OF f(2) nf [symmetric] f(1) refl p f(3) refl a [unfolded answer_frame_def, symmetric] refl this]
        show ?thesis unfolding serve all using True a by (auto simp: undisturbed_def sent_bytes_def)
      next
        case False
        then show ?thesis
          unfolding serve all using a take_is_prefix [of _ resp]
          by (auto simp: undisturbed_def sent_bytes_def split: option.split)
      qed
    qed
  qed
qed

lemma correlation_prefix_answered:
  assumes "correlation_prefix b n = (i, n1)"
  shows "valid_uuid i \<and> n1 = n \<or> i = fst (new_id n) \<and> n1 = n + 1"
  using assms by (auto simp: correlation_prefix_def prod_eq_iff split: option.splits if_splits)

lemma unat_add_less: "unat (n::64 word) + 2 < 2 ^ 48 \<Longrightarrow> unat (n + 1) = unat n + 1 \<and> unat (n + 2) = unat n + 2"
  by (simp add: unat_word_ariths)

lemma no_match_empty: "\<not> response_matches [] kind i"
proof -
  have "read_envelope [] = None" by code_simp
  then show ?thesis by (simp add: response_matches_def)
qed

lemma frame_error_text:
  assumes "unat n + 2 < 2 ^ 48" "frame_error f n = (e, n1)"
  shows "\<not> response_matches e kind i \<and> unat n1 \<le> unat n + 2"
proof -
  note w = unat_add_less [OF assms(1)]
  have ids: "valid_uuid (fst (new_id n))" "valid_uuid (fst (new_id (n + 1)))"
    using assms(1) w by (simp_all add: new_id_valid)
  have texts: "utf8_ok ''protocol.oversized'' \<and> utf8_ok ''request too large''
      \<and> utf8_ok ''protocol.malformed'' \<and> utf8_ok ''malformed request''" by code_simp
  obtain c m where c: "(case f of Incomplete b \<Rightarrow> correlation_prefix b n
      | Oversized b \<Rightarrow> correlation_prefix b n | _ \<Rightarrow> new_id n) = (c, m)" by fastforce
  then have "valid_uuid c \<and> m = n \<or> c = fst (new_id n) \<and> m = n + 1"
    by (cases f) (use correlation_prefix_answered [of _ n c m] in \<open>auto simp: new_id_def\<close>)
  then have m: "utf8_ok c" "valid_uuid (fst (new_id m))" "unat m \<le> unat n + 1" "unat (m + 1) \<le> unat n + 2"
    using ids w plain_utf8 [OF valid_uuid_plain] by (auto simp: add.assoc)
  have "\<not> response_matches (fst (response_error c x y m)) kind i" if "utf8_ok x" "utf8_ok y" for x y
    using error_reply_code(2) [OF m(2,1) that] by (simp add: response_error_render)
  moreover have "snd (response_error c x y m) = m + 1" for x y by (simp add: response_error_render)
  ultimately show ?thesis
    using assms(2) c m texts no_match_empty
    by (cases f) (auto simp: frame_error_def split_beta Let_def prod_eq_iff)
qed

text \<open>What one answer does to the connection.\<close>

lemma answer_line_ok:
  assumes "unat n + 2 < 2 ^ 48" "valid_uuid d" "handle_request line h d n = ((resp, c), n1)"
  shows "unat n1 \<le> unat n + 2 \<and> (response_matches resp ''health.response'' i \<longrightarrow> h)
    \<and> (c \<longrightarrow> \<not> h \<and> (\<exists>i. response_matches resp ''handshake.response'' i))
    \<and> (response_matches resp ''handshake.response'' i \<longrightarrow> c)"
proof -
  have n: "unat n + 1 < 2 ^ 48" "valid_uuid (fst (new_id n))" using assms(1) by (simp_all add: new_id_valid)
  note w = unat_add_less [OF assms(1)]
  have uuid: "names_sender line j \<Longrightarrow> utf8_ok j" for j
    using plain_utf8 valid_uuid_plain by (auto simp: names_sender_def)
  show ?thesis
  proof (cases rule: handle_request_cases [of line d n h])
    case (Refuse correlation m x message)
    note v = answered_ok [OF Refuse(1) n(1)]
    have "m = n \<or> m = n + 1" using Refuse(1) by (auto simp: answered_def)
    then have "unat (m + 1) \<le> unat n + 2" using w by (auto simp: add.assoc)
    then show ?thesis
      using assms(3) Refuse(3) error_reply_code(2) [OF v(2,3)] malformed_text [OF Refuse(2)]
      by (auto simp: refuse_def response_error_render)
  next
    case (Welcome j)
    then show ?thesis using assms(3) payload_reply(1,3) [OF n(2) assms(2) uuid [OF Welcome(1)]] w
      by (auto simp: handshake_response_render)
  next
    case (Health j)
    then show ?thesis using assms(3) payload_reply(2,4) [OF n(2) assms(2) uuid [OF Health(1)]] w
      by (auto simp: health_response_render)
  qed
qed

lemma answer_frame_ok:
  assumes "unat n + 2 < 2 ^ 48" "valid_uuid d" "answer_frame d h f n = ((resp, c), n1)"
  shows "unat n1 \<le> unat n + 2" "response_matches resp ''health.response'' i \<Longrightarrow> h"
    "c \<Longrightarrow> \<not> h \<and> (\<exists>i. response_matches resp ''handshake.response'' i)"
    "response_matches resp ''handshake.response'' i \<Longrightarrow> c"
proof -
  have "unat n1 \<le> unat n + 2 \<and> (response_matches resp ''health.response'' i \<longrightarrow> h)
    \<and> (c \<longrightarrow> \<not> h \<and> (\<exists>i. response_matches resp ''handshake.response'' i))
    \<and> (response_matches resp ''handshake.response'' i \<longrightarrow> c)"
  proof (cases "\<exists>line. f = Complete line")
    case True
    then obtain line where "f = Complete line" by blast
    then have "handle_request line h d n = ((resp, c), n1)" using assms(3) by (simp add: answer_frame_def)
    from answer_line_ok [OF assms(1,2) this] show ?thesis by blast
  next
    case False
    then have "resp = fst (frame_error f n)" "\<not> c" "n1 = snd (frame_error f n)"
      using assms(3) by (cases f; simp add: answer_frame_def split_beta)+
    then show ?thesis using frame_error_text [OF assms(1), of f resp n1] by simp
  qed
  then show "unat n1 \<le> unat n + 2" "response_matches resp ''health.response'' i \<Longrightarrow> h"
    "c \<Longrightarrow> \<not> h \<and> (\<exists>i. response_matches resp ''handshake.response'' i)"
    "response_matches resp ''handshake.response'' i \<Longrightarrow> c" by blast+
qed

lemma session_handshake_first:
  "unat n + 2 * length fs < 2 ^ 48 \<Longrightarrow> valid_uuid d \<Longrightarrow> k < length (session d h fs n) \<Longrightarrow>
   response_matches (session d h fs n ! k) ''health.response'' i \<Longrightarrow>
   h \<or> (\<exists>j<k. \<exists>i. response_matches (session d h fs n ! j) ''handshake.response'' i)"
proof (induction fs arbitrary: h n k)
  case (Cons f fs)
  obtain resp c n1 where a: "answer_frame d h f n = ((resp, c), n1)"
    by (cases "answer_frame d h f n") (metis prod.collapse)
  have s: "session d h (f # fs) n = resp # session d (h \<or> c) fs n1" using a by simp
  have n: "unat n + 2 < 2 ^ 48" using Cons.prems(1) by simp
  note ok = answer_frame_ok [OF n Cons.prems(2) a]
  show ?case
  proof (cases k)
    case 0
    then show ?thesis using ok(2) Cons.prems(4) s by simp
  next
    case (Suc k')
    have "h \<or> c \<or> (\<exists>j<k'. \<exists>i. response_matches (session d (h \<or> c) fs n1 ! j) ''handshake.response'' i)"
      using Cons.IH [of n1 k' "h \<or> c"] Cons.prems ok(1) s Suc by simp
    then show ?thesis
      unfolding s Suc using ok(3) by (metis Suc_mono nth_Cons_0 nth_Cons_Suc zero_less_Suc)
  qed
qed simp

lemma session_one_handshake:
  "unat n + 2 * length fs < 2 ^ 48 \<Longrightarrow> valid_uuid d \<Longrightarrow>
   length (filter (\<lambda>r. \<exists>i. response_matches r ''handshake.response'' i) (session d h fs n)) \<le> (if h then 0 else 1)"
proof (induction fs arbitrary: h n)
  case (Cons f fs)
  obtain resp c n1 where a: "answer_frame d h f n = ((resp, c), n1)"
    by (cases "answer_frame d h f n") (metis prod.collapse)
  have n: "unat n + 2 < 2 ^ 48" using Cons.prems(1) by simp
  note ok = answer_frame_ok [OF n Cons.prems(2) a]
  have IH: "length (filter (\<lambda>r. \<exists>i. response_matches r ''handshake.response'' i) (session d (h \<or> c) fs n1))
      \<le> (if h \<or> c then 0 else 1)"
    using Cons.IH [of n1 "h \<or> c"] Cons.prems ok(1) by simp
  show ?case
  proof (cases c)
    case True
    then show ?thesis using IH ok(3) a by simp
  next
    case False
    then show ?thesis using IH ok(4) a by auto
  qed
qed simp

lemma read_all_length: "length (read_all limit r s) \<le> left_to_read r s"
proof (induction limit r s rule: read_all.induct)
  case (1 limit r s)
  obtain o1 r1 s1 where nf: "next_frame limit r s = (o1, r1, s1)" by (cases "next_frame limit r s")
  show ?case
  proof (cases "o1 = None \<or> o1 = Some End")
    case True
    then show ?thesis using nf by (subst read_all.simps) auto
  next
    case False
    then obtain f where f: "o1 = Some f" "f \<noteq> End" by auto
    have less: "left_to_read r1 s1 < left_to_read r s" using left_to_read_less nf f by blast
    show ?thesis
    proof (cases "f = Pending")
      case True
      then show ?thesis using 1(1) [OF nf [symmetric] f(1) refl f(2)] nf f less by (subst read_all.simps) simp
    next
      case p: False
      then show ?thesis
        using 1(2) [OF nf [symmetric] f(1) refl f(2) p] nf f less by (subst read_all.simps) (cases "terminal f"; simp)
    qed
  qed
qed

lemma read_all_bounded:
  "length (fr_frame r) \<le> limit \<Longrightarrow> f \<in> set (read_all limit r s) \<Longrightarrow> length (frame_bytes f) \<le> limit"
proof (induction limit r s rule: read_all.induct)
  case (1 limit r s)
  obtain o1 r1 s1 where nf: "next_frame limit r s = (o1, r1, s1)" by (cases "next_frame limit r s")
  note b = next_frame_bounded [OF nf 1(3)]
  show ?case
  proof (cases "o1 = None \<or> o1 = Some End")
    case True
    then show ?thesis using nf 1(4) by (subst (asm) read_all.simps) auto
  next
    case False
    then obtain g where g: "o1 = Some g" "g \<noteq> End" by auto
    show ?thesis
    proof (cases "g = Pending")
      case True
      then show ?thesis
        using 1(1) [OF nf [symmetric] g(1) refl g(2)] 1(4) nf g b by (subst (asm) read_all.simps) simp
    next
      case p: False
      then show ?thesis
        using 1(2) [OF nf [symmetric] g(1) refl g(2) p] 1(4) nf g b
        by (subst (asm) read_all.simps) (auto split: if_splits)
    qed
  qed
qed

section \<open>Correctness of a connection\<close>

text \<open>
  No frame the reader hands on, oversized ones included, holds more bytes than the limit,
  whatever the peer sends and however the reads fail.
\<close>

theorem frames_bounded:
  "list_all (\<lambda>f. length (frame_bytes f) \<le> limit) (read_all limit new_reader s)"
  using read_all_bounded [of new_reader limit _ s] by (simp add: list_all_iff new_reader_def)

text \<open>
  C25: A connection that is neither stopped nor cut off refines the line protocol: what it writes is,
  in order, exactly one answer to each line of the bytes received, whatever the timing of the
  reads; stopping or a failed write only cut this sequence short, in the bytes sent as in the
  answers.
\<close>

theorem connection_refines_session:
  assumes "Broken \<notin> set s" "ce_timeout_set env" "ce_cloned env"
  shows "prefix (fst (handle_client env d limit s n)) (session d False (frames_of limit (bytes_of s)) n) \<and>
     prefix (sent_bytes (handle_client env d limit s n)) (concat (session d False (frames_of limit (bytes_of s)) n)) \<and>
     (undisturbed env \<longrightarrow>
        fst (handle_client env d limit s n) = session d False (frames_of limit (bytes_of s)) n)"
  using serve_session [of env limit d 0 False new_reader s n] read_all_unblocked [OF assms(1), of limit new_reader]
    read_all_bytes assms(2,3) by (simp add: handle_client_def)

definition calm :: client_env where
  "calm = \<lparr>ce_timeout_set = True, ce_cloned = True, ce_stopping = (\<lambda>i. False), ce_cut = (\<lambda>i. None)\<rparr>"

theorem connection_refines_session_witness:
  "fst (handle_client calm (fst (new_id 7)) 4 [Byte (CHR ''{''), Blocked, Byte NL] 9)
     = session (fst (new_id 7)) False [Complete [CHR ''{'', NL]] 9"
proof -
  have "frames_of 4 (bytes_of [Byte (CHR ''{''), Blocked, Byte NL]) = [Complete [CHR ''{'', NL]]" by code_simp
  then show ?thesis
    using connection_refines_session [of "[Byte (CHR ''{''), Blocked, Byte NL]" calm "fst (new_id 7)" 4 9]
    by (simp add: calm_def undisturbed_def)
qed

text \<open>
  C26: On every connection, disturbed or not, a health response is preceded by a handshake response,
  and there is at most one handshake response: the daemon serves no one it has not shaken hands with.
\<close>

theorem handshake_precedes_health:
  assumes "unat n + 4 * length s < 2 ^ 48" "valid_uuid d"
    and rs_def: "rs = fst (handle_client env d limit s n)"
  shows "(\<forall>k i. k < length rs \<and> response_matches (rs ! k) ''health.response'' i \<longrightarrow>
       (\<exists>j<k. \<exists>i. response_matches (rs ! j) ''handshake.response'' i))
    \<and> length (filter (\<lambda>r. \<exists>i. response_matches r ''handshake.response'' i) rs) \<le> 1"
proof -
  let ?fs = "read_all limit new_reader s"
  let ?all = "session d False ?fs n"
  have "length ?fs \<le> 2 * length s" using read_all_length [of limit new_reader s]
    by (simp add: left_to_read_def new_reader_def)
  then have n: "unat n + 2 * length ?fs < 2 ^ 48" using assms(1) by simp
  have "prefix rs ?all"
    using serve_session [of env limit d 0 False new_reader s n] by (simp add: rs_def handle_client_def)
  then obtain zs where zs: "?all = rs @ zs" by (auto simp: prefix_def)
  have "length (filter (\<lambda>r. \<exists>i. response_matches r ''handshake.response'' i) rs) \<le> 1"
    using session_one_handshake [OF n assms(2), of False] zs by simp
  moreover have "\<exists>j<k. \<exists>i. response_matches (rs ! j) ''handshake.response'' i"
    if "k < length rs" "response_matches (rs ! k) ''health.response'' i" for k i
  proof -
    note m = that(2)
    have nth: "?all ! j = rs ! j" if "j \<le> k" for j using that \<open>k < length rs\<close> zs by (simp add: nth_append)
    have "k < length ?all" using that(1) zs by simp
    from session_handshake_first [OF n assms(2) this, of i] obtain j i' where
      "j < k" "response_matches (?all ! j) ''handshake.response'' i'" using m nth by auto
    then show ?thesis using nth by auto
  qed
  ultimately show ?thesis by blast
qed

theorem handshake_precedes_health_witness:
  "let rs = fst (handle_client calm (fst (new_id 7)) 1024
        (map Byte (fst (fst (handshake_request ''tui'' 1)) @ fst (fst (health_request 3)))) 9)
   in (\<forall>k<length rs. \<forall>i. response_matches (rs ! k) ''health.response'' i \<longrightarrow>
       (\<exists>j<k. \<exists>i. response_matches (rs ! j) ''handshake.response'' i))
    \<and> length (filter (\<lambda>r. \<exists>i. response_matches r ''handshake.response'' i) rs) \<le> 1"
proof -
  let ?s = "map Byte (fst (fst (handshake_request ''tui'' 1)) @ fst (fst (health_request 3)))"
  have "length ?s < 1000" by code_simp
  then have "unat (9::64 word) + 4 * length ?s < 2 ^ 48" by simp
  from handshake_precedes_health [OF this _ refl, of "fst (new_id 7)" calm 1024] show ?thesis
    unfolding Let_def by (auto simp: new_id_valid)
qed

end
