(* ===== verification/Lines.thy ===== *)
theory Lines
  imports Frames
begin

text \<open>
  Every message is one line: the framing of both directions cuts at newlines, so a printed JSON value
  must not contain one. Quoting escapes control characters, and numbers are made of digits, signs,
  points and exponents only.
\<close>

section \<open>Printed values contain no newline\<close>

lemma quote_char_no_newline: "10 \<notin> set (quote_char c)"
proof -
  have "code d \<noteq> 10" if "d \<in> set (hex_pad 4 c)" for d
  proof -
    have "d = CHR ''0'' \<or> is_hex d" using that hex_digits [of d c] by (auto simp: hex_pad_def)
    then have "plain d" using hex_digit_plain by (auto simp: plain_def)
    then show ?thesis unfolding plain_def by linarith
  qed
  then have "10 \<notin> set (map code (hex_pad 4 c))" unfolding set_map by fastforce
  then show ?thesis by (auto simp: quote_char_def simp del: set_map)
qed

lemma quoted_no_newline: "10 \<notin> set (quoted s)"
  using quote_char_no_newline by (auto simp: quoted_def)

lemma comma_join_no_newline: "(\<forall>x\<in>set xs. 10 \<notin> set x) \<Longrightarrow> 10 \<notin> set (comma_join xs)"
  by (induction xs rule: comma_join.induct) auto

text \<open>What a number token is made of.\<close>

lemma p_skip_set: "c \<noteq> 10 \<Longrightarrow> 10 \<in> set s \<Longrightarrow> 10 \<in> set (p_skip c s)"
  by (auto simp: p_skip_def p_consume_Some split: option.splits)

lemma p_digits_set: "p_digits s = Some r \<Longrightarrow> 10 \<in> set s \<Longrightarrow> 10 \<in> set r"
proof -
  assume a: "p_digits s = Some r" "10 \<in> set s"
  have "10 \<notin> set (takeWhile is_ascii_digit s)" by (auto dest: set_takeWhileD simp: is_ascii_digit_def)
  then have "10 \<in> set (dropWhile is_ascii_digit s)"
    using a(2) by (metis Un_iff set_append takeWhile_dropWhile_id)
  then show ?thesis using a(1) by (auto simp: p_digits_def split: if_splits)
qed

lemma p_int_set: "p_int s = Some r \<Longrightarrow> 10 \<in> set s \<Longrightarrow> 10 \<in> set r"
  by (auto simp: p_int_def p_consume_Some p_digits_set split: option.splits)

lemma p_frac_set: "p_frac s = Some r \<Longrightarrow> 10 \<in> set s \<Longrightarrow> 10 \<in> set r"
  by (auto simp: p_frac_def p_consume_Some p_digits_set split: option.splits)

lemma p_exp_set: "p_exp s = Some r \<Longrightarrow> 10 \<in> set s \<Longrightarrow> 10 \<in> set r"
  by (auto simp: p_exp_def p_skip_set dest: p_digits_set split: list.splits if_splits)

lemma number_no_newline: "number_ok n \<Longrightarrow> 10 \<notin> set (chars n)"
proof
  assume "number_ok n" and nl: "10 \<in> set (chars n)"
  then obtain s1 s2 where n: "p_int (p_skip 0x2D (chars n)) = Some s1" "p_frac s1 = Some s2" "p_exp s2 = Some []"
    by (auto simp: number_ok_def p_number_def split: option.splits)
  have "10 \<in> set (p_skip 0x2D (chars n))" by (rule p_skip_set [OF _ nl]) simp
  from p_exp_set [OF n(3) p_frac_set [OF n(2) p_int_set [OF n(1) this]]] show False by simp
qed

lemma render_chars_no_newline: "json_ok v \<Longrightarrow> 10 \<notin> set (render_chars v)"
proof (induction v)
  case (JObject ms)
  have "\<forall>x\<in>set (map (\<lambda>(n, v). quoted n @ 0x3A # render_chars v) ms). 10 \<notin> set x"
    using JObject quoted_no_newline by (fastforce simp: list_all_iff)
  from comma_join_no_newline [OF this] show ?case by simp
next
  case (JArray vs)
  then have "\<forall>x\<in>set (map render_chars vs). 10 \<notin> set x" by (auto simp: list_all_iff)
  from comma_join_no_newline [OF this] show ?case by simp
next
  case (JBool b)
  have "10 \<notin> set (map code ''true'')" "10 \<notin> set (map code ''false'')" by code_simp+
  then show ?case by (cases b) (simp_all del: list.map set_map)
qed (auto simp: number_no_newline quoted_no_newline)

lemma high_byte_not_newline: "0x80 \<le> k \<Longrightarrow> k < 0x100 \<Longrightarrow> char_of (k::nat) \<noteq> NL"
proof
  assume "0x80 \<le> k" "k < 0x100" "char_of k = NL"
  moreover have "byte_of NL = (10::nat)" by code_simp
  moreover have "byte_of (char_of k) = k mod 256" by simp
  ultimately show False by simp
qed

lemma utf8_encode_no_newline:
  assumes "c \<noteq> 10" "is_scalar c" shows "NL \<notin> set (utf8_encode c)"
proof (cases "c < 0x80")
  case True
  then have "byte_of (char_of c) = c" by simp
  moreover have "byte_of NL = (10::nat)" by code_simp
  ultimately have "char_of c \<noteq> NL" using assms(1) by metis
  then show ?thesis using True by (auto simp: utf8_encode_def)
next
  case False
  have "c div 64 < 0x20" if "c < 0x800" using that by simp
  moreover have "c div 4096 < 0x10" if "c < 0x10000" using that by simp
  moreover have "c div 262144 < 5" using assms(2) by (auto simp: is_scalar_def)
  ultimately show ?thesis
    using False high_byte_not_newline [THEN not_sym] by (auto simp: utf8_encode_def)
qed

lemma of_chars_no_newline: "10 \<notin> set cs \<Longrightarrow> scalars cs \<Longrightarrow> NL \<notin> set (of_chars cs)"
  by (induction cs) (auto simp: utf8_encode_no_newline)

lemma render_no_newline: "json_ok v \<Longrightarrow> NL \<notin> set (render v)"
  by (simp add: render_def of_chars_no_newline render_chars_no_newline scalars_render)

section \<open>Messages are lines\<close>

definition one_line :: "str \<Rightarrow> bool" where
  "one_line s = (utf8_ok s \<and> (\<exists>t. NL \<notin> set t \<and> s = t @ newline))"

lemma one_line_render: "json_ok v \<Longrightarrow> one_line (render v @ newline)"
proof -
  assume "json_ok v"
  moreover have "utf8_ok newline" by code_simp
  ultimately show ?thesis unfolding one_line_def using render_no_newline [of v] by (auto simp: utf8_ok_append)
qed

lemma response_error_line:
  assumes "valid_uuid (fst (new_id n))" "utf8_ok correlation" "utf8_ok c" "utf8_ok message"
  shows "one_line (fst (response_error correlation c message n))"
proof -
  have "utf8_ok ''error.response''" by code_simp
  then have "json_ok (reply_value ''error.response'' (fst (new_id n)) correlation (''error'', error_value c message False))"
    using reply_ok [of _ _ _ _ "''error''"] error_value_ok assms by simp
  then show ?thesis by (simp add: response_error_render one_line_render)
qed

lemma handle_request_line:
  assumes "unat n + 1 < 2 ^ 48" "valid_uuid d"
  shows "one_line (fst (fst (handle_request line h d n)))"
proof -
  have n: "valid_uuid (fst (new_id n))" using assms(1) by (simp add: new_id_valid)
  have kinds: "utf8_ok ''handshake.response''" "utf8_ok ''health.response''" by code_simp+
  have sender: "utf8_ok i" if "names_sender line i" for i
    using that plain_utf8 valid_uuid_plain by (auto simp: names_sender_def)
  show ?thesis
  proof (cases rule: handle_request_cases [of line d n h])
    case (Refuse correlation m c message)
    note v = answered_ok [OF Refuse(1) assms(1)]
    show ?thesis
      using response_error_line [OF v(2,3)] malformed_text [OF Refuse(2)] Refuse(3)
      by (simp add: refuse_def split_beta)
  next
    case (Welcome i)
    have "json_ok (reply_value ''handshake.response'' (fst (new_id n)) i (''payload'', handshake_payload d))"
      using reply_ok [OF kinds(1) n sender [OF Welcome(1)]] payload_ok(1) [OF assms(2)] by simp
    then show ?thesis using Welcome(4) by (simp add: handshake_response_render one_line_render)
  next
    case (Health i)
    have "json_ok (reply_value ''health.response'' (fst (new_id n)) i (''payload'', health_payload d))"
      using reply_ok [OF kinds(2) n sender [OF Health(1)]] payload_ok(2) [OF assms(2)] by simp
    then show ?thesis using Health(4) by (simp add: health_response_render one_line_render)
  qed
qed

lemma frame_error_line:
  assumes "unat n + 2 < 2 ^ 48" "f \<notin> {End, Pending}" "\<forall>line. f \<noteq> Complete line"
  shows "one_line (fst (frame_error f n))"
proof -
  note w = unat_add_less [OF assms(1)]
  have ids: "valid_uuid (fst (new_id n))" "valid_uuid (fst (new_id (n + 1)))"
    using assms(1) w by (simp_all add: new_id_valid)
  have texts: "utf8_ok ''protocol.oversized'' \<and> utf8_ok ''request too large''
      \<and> utf8_ok ''protocol.malformed'' \<and> utf8_ok ''malformed request''" by code_simp
  obtain c m where c: "(case f of Incomplete b \<Rightarrow> correlation_prefix b n
      | Oversized b \<Rightarrow> correlation_prefix b n | _ \<Rightarrow> new_id n) = (c, m)" by fastforce
  then have "valid_uuid c \<and> m = n \<or> c = fst (new_id n) \<and> m = n + 1"
    by (cases f) (use correlation_prefix_answered [of _ n c m] in \<open>auto simp: new_id_def\<close>)
  then have "utf8_ok c" "valid_uuid (fst (new_id m))"
    using ids plain_utf8 [OF valid_uuid_plain] by auto
  from response_error_line [OF this(2,1)] show ?thesis
    using assms(2,3) c texts by (cases f) (auto simp: frame_error_def)
qed

text \<open>Every answer of the daemon, to whatever frame, is one line.\<close>

lemma answer_frame_line:
  assumes "unat n + 2 < 2 ^ 48" "valid_uuid d" "f \<notin> {End, Pending}"
  shows "one_line (fst (fst (answer_frame d h f n)))"
proof (cases "\<exists>line. f = Complete line")
  case True
  then show ?thesis using handle_request_line [of n d] assms by (auto simp: answer_frame_def)
next
  case False
  then show ?thesis using frame_error_line [OF assms(1,3)] by (cases f) (auto simp: answer_frame_def split_beta)
qed

end
