(* ===== verification/Config.thy ===== *)
theory Config
  imports Files Utf8 "HOL-Library.Code_Target_Nat"
begin

text \<open>
  \<open>src/src/config.rs\<close>: the settings, the configuration files they are read from, and the order
  in which defaults, files, environment and command line decide. The process environment is a
  record of what its lookups answer; files and directories are read at most once each.
\<close>

section \<open>Data\<close>

record config =
  log_level :: str
  shutdown_timeout_seconds :: nat
  jsonl_max_line_bytes :: nat

record overrides =
  ov_log_level :: "str option"
  ov_shutdown_timeout_seconds :: "str option"
  ov_jsonl_max_line_bytes :: "str option"

datatype config_error = ConfigInvalid | ConfigUnsupportedVersion | ConfigSecretForbidden

fun config_error_code :: "config_error \<Rightarrow> str" where
  "config_error_code ConfigInvalid = ''config.invalid''"
| "config_error_code ConfigUnsupportedVersion = ''config.unsupported_version''"
| "config_error_code ConfigSecretForbidden = ''config.secret_forbidden''"

definition config_error_message :: "config_error \<Rightarrow> str" where
  "config_error_message e = ''invalid configuration''"

record partial =
  pa_log_level :: "str option"
  pa_shutdown_timeout_seconds :: "nat option"
  pa_jsonl_max_line_bytes :: "nat option"

definition empty_partial :: partial where
  "empty_partial = \<lparr>pa_log_level = None, pa_shutdown_timeout_seconds = None, pa_jsonl_max_line_bytes = None\<rparr>"

datatype file_text = FileMissing | FileUnreadable | FileText bytes

record process_env =
  pe_var :: "str \<Rightarrow> bytes option"
  pe_current_dir :: "str option"
  pe_exists :: "str \<Rightarrow> bool"
  pe_read :: "str \<Rightarrow> file_text"

section \<open>Text\<close>

text \<open>\<open>to_string_lossy\<close>: each maximal ill-formed piece becomes one U+FFFD.\<close>

definition second_ok :: "nat \<Rightarrow> nat \<Rightarrow> bool" where
  "second_ok a b = (if a = 0xE0 then 0xA0 \<le> b \<and> b \<le> 0xBF else if a = 0xED then 0x80 \<le> b \<and> b \<le> 0x9F
     else if a = 0xF0 then 0x90 \<le> b \<and> b \<le> 0xBF else if a = 0xF4 then 0x80 \<le> b \<and> b \<le> 0x8F
     else 0x80 \<le> b \<and> b \<le> 0xBF)"

definition bad_len :: "bytes \<Rightarrow> nat" where
  "bad_len s = (case map byte_of s of
       a # b # c # _ \<Rightarrow>
         if 0xE0 \<le> a \<and> a \<le> 0xEF \<and> second_ok a b then 2
         else if 0xF0 \<le> a \<and> a \<le> 0xF4 \<and> second_ok a b then (if 0x80 \<le> c \<and> c \<le> 0xBF then 3 else 2)
         else 1
     | [a, b] \<Rightarrow> if 0xE0 \<le> a \<and> a \<le> 0xF4 \<and> second_ok a b then 2 else 1
     | _ \<Rightarrow> 1)"

function lossy :: "bytes \<Rightarrow> str" where
  "lossy s = (if s = [] then [] else case next_char s of
       Some (c, b, r) \<Rightarrow> b @ lossy r
     | None \<Rightarrow> [CHR 0xEF, CHR 0xBF, CHR 0xBD] @ lossy (drop (bad_len s) s))"
  by pat_completeness auto
termination
proof (relation "measure length", goal_cases)
  case (2 s)
  have "0 < bad_len s" by (auto simp: bad_len_def split: list.splits)
  then show ?case using 2 by simp
next
  case (3 s x c y b r)
  then have "next_char s = Some (c, b, r)" by simp
  from next_char_shorter [OF this] show ?case by simp
qed simp

declare lossy.simps [simp del]

text \<open>\<open>str::lines\<close>: the pieces a newline ends, each without a carriage return before it.\<close>

definition strip_cr :: "str \<Rightarrow> str" where
  "strip_cr l = (if l \<noteq> [] \<and> last l = CHR 0x0D then butlast l else l)"

definition text_lines :: "str \<Rightarrow> str list" where
  "text_lines s = (let ls = split_on (CHR 0x0A) s in
     map strip_cr (butlast ls) @ (if last ls = [] then [] else [last ls]))"

definition to_ascii_lowercase :: "str \<Rightarrow> str" where
  "to_ascii_lowercase s = map (\<lambda>c. if 65 \<le> byte_of c \<and> byte_of c \<le> (90::nat)
     then char_of (byte_of c + (32::nat)) else c) s"

section \<open>Values\<close>

definition parse_integer :: "str \<Rightarrow> nat option" where
  "parse_integer s =
     (if s \<noteq> [] \<and> list_all is_digit s then (if undec s < 2 ^ 64 then Some (undec s) else None) else None)"

definition parse_quoted :: "str \<Rightarrow> str option" where
  "parse_quoted s = (case s of [] \<Rightarrow> None
     | c # r \<Rightarrow> if c = CHR 0x22 then (if r \<noteq> [] \<and> last r = CHR 0x22 then Some (butlast r) else None) else None)"

definition secret_like :: "str \<Rightarrow> bool" where
  "secret_like key = (let k = to_ascii_lowercase key in
     list_ex (\<lambda>part. contains part k)
       [''token'', ''secret'', ''password'', ''api_key'', ''authorization'', ''cookie'', ''credential''])"

definition validate_log_level :: "str \<Rightarrow> config_error + unit" where
  "validate_log_level v =
     (if v \<in> {''error'', ''warn'', ''info'', ''debug'', ''trace''} then Inr () else Inl ConfigInvalid)"

definition validate_timeout :: "nat \<Rightarrow> config_error + unit" where
  "validate_timeout v = (if 1 \<le> v \<and> v \<le> 600 then Inr () else Inl ConfigInvalid)"

definition validate_line_bytes :: "nat \<Rightarrow> config_error + unit" where
  "validate_line_bytes v = (if 1024 \<le> v \<and> v \<le> 1048576 then Inr () else Inl ConfigInvalid)"

definition parse_log_level :: "str \<Rightarrow> config_error + str" where
  "parse_log_level v = (case validate_log_level v of Inl e \<Rightarrow> Inl e | Inr _ \<Rightarrow> Inr v)"

definition parse_timeout :: "str \<Rightarrow> config_error + nat" where
  "parse_timeout s = (case parse_integer s of None \<Rightarrow> Inl ConfigInvalid
     | Some v \<Rightarrow> (case validate_timeout v of Inl e \<Rightarrow> Inl e | Inr _ \<Rightarrow> Inr v))"

text \<open>\<open>usize\<close> is 64 bits wide, so \<open>usize::try_from\<close> accepts every \<open>u64\<close>.\<close>

definition parse_line_bytes :: "str \<Rightarrow> config_error + nat" where
  "parse_line_bytes s = (case parse_integer s of None \<Rightarrow> Inl ConfigInvalid
     | Some v \<Rightarrow> (case validate_line_bytes v of Inl e \<Rightarrow> Inl e | Inr _ \<Rightarrow> Inr v))"

definition validate_partial :: "partial \<Rightarrow> config_error + unit" where
  "validate_partial p =
     (case (case pa_log_level p of Some v \<Rightarrow> validate_log_level v | None \<Rightarrow> Inr ()) of
        Inl e \<Rightarrow> Inl e
      | Inr _ \<Rightarrow>
         (case (case pa_shutdown_timeout_seconds p of Some v \<Rightarrow> validate_timeout v | None \<Rightarrow> Inr ()) of
            Inl e \<Rightarrow> Inl e
          | Inr _ \<Rightarrow> (case pa_jsonl_max_line_bytes p of Some v \<Rightarrow> validate_line_bytes v | None \<Rightarrow> Inr ())))"

section \<open>Configuration files\<close>

text \<open>One assignment: the key has been checked and not been seen before.\<close>

definition set_key :: "str \<Rightarrow> str \<Rightarrow> partial \<times> bool \<Rightarrow> config_error + partial \<times> bool" where
  "set_key key value st =
     (let (p, version_seen) = st in
      if key = ''config_version'' then
        (if version_seen then Inl ConfigInvalid
         else case parse_integer value of
           None \<Rightarrow> Inl ConfigInvalid
         | Some v \<Rightarrow> if v = 1 then Inr (p, True) else Inl ConfigUnsupportedVersion)
      else if key = ''log_level'' then
        (case parse_quoted value of None \<Rightarrow> Inl ConfigInvalid
         | Some v \<Rightarrow> Inr (p\<lparr>pa_log_level := Some v\<rparr>, version_seen))
      else if key = ''shutdown_timeout_seconds'' then
        (case parse_integer value of None \<Rightarrow> Inl ConfigInvalid
         | Some v \<Rightarrow> Inr (p\<lparr>pa_shutdown_timeout_seconds := Some v\<rparr>, version_seen))
      else if key = ''jsonl_max_line_bytes'' then
        (case parse_integer value of None \<Rightarrow> Inl ConfigInvalid
         | Some v \<Rightarrow> Inr (p\<lparr>pa_jsonl_max_line_bytes := Some v\<rparr>, version_seen))
      else Inl ConfigInvalid)"

definition effective :: "str \<Rightarrow> str" where
  "effective raw = trim (hd (split_on (CHR 0x23) raw))"

fun read_lines :: "str list \<Rightarrow> str list \<Rightarrow> partial \<times> bool \<Rightarrow> config_error + partial \<times> bool" where
  "read_lines [] seen st = Inr st"
| "read_lines (raw # ls) seen st =
     (let line = effective raw in
      if line = [] then read_lines ls seen st
      else case split_once (CHR ''='') line of
        None \<Rightarrow> Inl ConfigInvalid
      | Some (k, v) \<Rightarrow>
          (let key = trim k; value = trim v in
           if secret_like key then Inl ConfigSecretForbidden
           else if key \<in> set seen then Inl ConfigInvalid
           else case set_key key value st of
             Inl e \<Rightarrow> Inl e
           | Inr st' \<Rightarrow> read_lines ls (key # seen) st'))"

definition read_config_text :: "str \<Rightarrow> config_error + partial" where
  "read_config_text contents =
     (case read_lines (text_lines contents) [] (empty_partial, False) of
        Inl e \<Rightarrow> Inl e
      | Inr (p, version_seen) \<Rightarrow>
          if \<not> version_seen then Inl ConfigInvalid
          else (case validate_partial p of Inl e \<Rightarrow> Inl e | Inr _ \<Rightarrow> Inr p))"

definition read_config :: "process_env \<Rightarrow> str \<Rightarrow> config_error + partial option" where
  "read_config env path =
     (case pe_read env path of
        FileMissing \<Rightarrow> Inr None
      | FileUnreadable \<Rightarrow> Inl ConfigInvalid
      | FileText b \<Rightarrow>
          if \<not> utf8_ok b then Inl ConfigInvalid
          else (case read_config_text b of Inl e \<Rightarrow> Inl e | Inr p \<Rightarrow> Inr (Some p)))"

section \<open>Resolving the configuration\<close>

definition apply_partial :: "config \<Rightarrow> partial \<Rightarrow> config" where
  "apply_partial c p = \<lparr>
     log_level = (case pa_log_level p of Some v \<Rightarrow> v | None \<Rightarrow> log_level c),
     shutdown_timeout_seconds =
       (case pa_shutdown_timeout_seconds p of Some v \<Rightarrow> v | None \<Rightarrow> shutdown_timeout_seconds c),
     jsonl_max_line_bytes =
       (case pa_jsonl_max_line_bytes p of Some v \<Rightarrow> v | None \<Rightarrow> jsonl_max_line_bytes c)\<rparr>"

definition project_config_path :: "process_env \<Rightarrow> str \<Rightarrow> str" where
  "project_config_path env cwd =
     (case find (\<lambda>p. pe_exists env (path_join p ''.git'')) (cwd # path_ancestors cwd) of
        Some p \<Rightarrow> path_join p ''.akashic/config.toml''
      | None \<Rightarrow> path_join cwd ''.akashic/config.toml'')"

definition user_config_path :: "process_env \<Rightarrow> str" where
  "user_config_path env =
     (let home = (case pe_var env ''HOME'' of Some h \<Rightarrow> h | None \<Rightarrow> ''.'') in
      path_join (case pe_var env ''XDG_CONFIG_HOME'' of Some c \<Rightarrow> c | None \<Rightarrow> path_join home ''.config'')
        ''akashic/config.toml'')"

definition default_config :: config where
  "default_config = \<lparr>log_level = ''info'', shutdown_timeout_seconds = 10, jsonl_max_line_bytes = 1048576\<rparr>"

definition apply_file :: "process_env \<Rightarrow> str \<Rightarrow> config \<Rightarrow> config_error + config" where
  "apply_file env path c =
     (case read_config env path of Inl e \<Rightarrow> Inl e
      | Inr None \<Rightarrow> Inr c | Inr (Some p) \<Rightarrow> Inr (apply_partial c p))"

text \<open>\<open>if let Some(value) = .. { config.field = parse(value)?; }\<close>\<close>

definition set_if :: "str option \<Rightarrow> (str \<Rightarrow> config_error + 'a) \<Rightarrow> ('a \<Rightarrow> config \<Rightarrow> config)
    \<Rightarrow> config \<Rightarrow> config_error + config" where
  "set_if v parse_it put c =
     (case v of None \<Rightarrow> Inr c
      | Some s \<Rightarrow> (case parse_it s of Inl e \<Rightarrow> Inl e | Inr a \<Rightarrow> Inr (put a c)))"

definition set_all :: "str option \<Rightarrow> str option \<Rightarrow> str option \<Rightarrow> config \<Rightarrow> config_error + config" where
  "set_all level timeout bytes c =
     and_then (set_if level parse_log_level (\<lambda>v c. c\<lparr>log_level := v\<rparr>) c) (\<lambda>c.
     and_then (set_if timeout parse_timeout (\<lambda>v c. c\<lparr>shutdown_timeout_seconds := v\<rparr>) c) (\<lambda>c.
     set_if bytes parse_line_bytes (\<lambda>v c. c\<lparr>jsonl_max_line_bytes := v\<rparr>) c))"

definition resolve :: "process_env \<Rightarrow> overrides \<Rightarrow> config_error + config" where
  "resolve env ov =
     (case pe_current_dir env of None \<Rightarrow> Inl ConfigInvalid
      | Some cwd \<Rightarrow>
         (let project_path = project_config_path env cwd in
          and_then (apply_file env (user_config_path env) default_config) (\<lambda>c.
          and_then (apply_file env project_path c) (\<lambda>c.
          and_then (set_all (map_option lossy (pe_var env ''AKASHIC_LOG_LEVEL''))
             (map_option lossy (pe_var env ''AKASHIC_SHUTDOWN_TIMEOUT_SECONDS''))
             (map_option lossy (pe_var env ''AKASHIC_JSONL_MAX_LINE_BYTES'')) c) (\<lambda>c.
          set_all (ov_log_level ov) (ov_shutdown_timeout_seconds ov) (ov_jsonl_max_line_bytes ov) c)))))"

definition check_if :: "str option \<Rightarrow> (str \<Rightarrow> config_error + 'a) \<Rightarrow> config_error + unit" where
  "check_if v parse_it =
     (case v of None \<Rightarrow> Inr () | Some s \<Rightarrow> (case parse_it s of Inl e \<Rightarrow> Inl e | Inr _ \<Rightarrow> Inr ()))"

definition validate_overrides :: "overrides \<Rightarrow> config_error + unit" where
  "validate_overrides ov =
     and_then (check_if (ov_log_level ov) parse_log_level) (\<lambda>_.
     and_then (check_if (ov_shutdown_timeout_seconds ov) parse_timeout) (\<lambda>_.
     check_if (ov_jsonl_max_line_bytes ov) parse_line_bytes))"

definition summary :: "config \<Rightarrow> str" where
  "summary c = ''log_level='' @ log_level c @ ''; shutdown_timeout_seconds='' @ dec (shutdown_timeout_seconds c)
     @ ''; jsonl_max_line_bytes='' @ dec (jsonl_max_line_bytes c)"

section \<open>Values in range\<close>

definition config_ok :: "config \<Rightarrow> bool" where
  "config_ok c = (log_level c \<in> {''error'', ''warn'', ''info'', ''debug'', ''trace''}
     \<and> 1 \<le> shutdown_timeout_seconds c \<and> shutdown_timeout_seconds c \<le> 600
     \<and> 1024 \<le> jsonl_max_line_bytes c \<and> jsonl_max_line_bytes c \<le> 1048576)"

definition partial_ok :: "partial \<Rightarrow> bool" where
  "partial_ok p = (opt_all (\<lambda>v. v \<in> {''error'', ''warn'', ''info'', ''debug'', ''trace''}) (pa_log_level p)
     \<and> opt_all (\<lambda>v. 1 \<le> v \<and> v \<le> 600) (pa_shutdown_timeout_seconds p)
     \<and> opt_all (\<lambda>v. 1024 \<le> v \<and> v \<le> 1048576) (pa_jsonl_max_line_bytes p))"

lemma parse_log_level_Inr [simp]:
  "parse_log_level s = Inr v \<longleftrightarrow> v = s \<and> s \<in> {''error'', ''warn'', ''info'', ''debug'', ''trace''}"
  by (auto simp: parse_log_level_def validate_log_level_def)

lemma parse_timeout_Inr [simp]:
  "parse_timeout s = Inr v \<longleftrightarrow> parse_integer s = Some v \<and> 1 \<le> v \<and> v \<le> 600"
  by (auto simp: parse_timeout_def validate_timeout_def split: option.splits)

lemma parse_line_bytes_Inr [simp]:
  "parse_line_bytes s = Inr v \<longleftrightarrow> parse_integer s = Some v \<and> 1024 \<le> v \<and> v \<le> 1048576"
  by (auto simp: parse_line_bytes_def validate_line_bytes_def split: option.splits)

lemma validate_partial_Inr [simp]: "validate_partial p = Inr () \<longleftrightarrow> partial_ok p"
  by (auto simp: validate_partial_def partial_ok_def validate_log_level_def validate_timeout_def
      validate_line_bytes_def split: option.splits)

lemma read_config_text_ok: "read_config_text s = Inr p \<Longrightarrow> partial_ok p"
  using validate_partial_Inr by (fastforce simp: read_config_text_def split: sum.splits prod.splits if_splits)

lemma default_config_ok: "config_ok default_config"
  by (simp add: config_ok_def default_config_def)

lemma apply_partial_ok: "config_ok c \<Longrightarrow> partial_ok p \<Longrightarrow> config_ok (apply_partial c p)"
  by (auto simp: config_ok_def partial_ok_def apply_partial_def split: option.splits)

lemma apply_file_ok: "apply_file env path c = Inr c' \<Longrightarrow> config_ok c \<Longrightarrow> config_ok c'"
  by (auto simp: apply_file_def read_config_def split: sum.splits option.splits file_text.splits if_splits
      intro: apply_partial_ok read_config_text_ok)

lemma set_if_cases:
  "set_if v f put c = Inr c' \<Longrightarrow> (v = None \<and> c' = c) \<or> (\<exists>s a. v = Some s \<and> f s = Inr a \<and> c' = put a c)"
  by (auto simp: set_if_def split: option.splits sum.splits)

text \<open>What a group of overriding values decides.\<close>

definition decided :: "str option \<Rightarrow> 'a \<Rightarrow> (str \<Rightarrow> config_error + 'a) \<Rightarrow> 'a \<Rightarrow> bool" where
  "decided v old f new = (case v of None \<Rightarrow> new = old | Some s \<Rightarrow> f s = Inr new)"

lemma set_all_Inr:
  "set_all l t b c = Inr c' \<longleftrightarrow>
   decided l (log_level c) parse_log_level (log_level c')
   \<and> decided t (shutdown_timeout_seconds c) parse_timeout (shutdown_timeout_seconds c')
   \<and> decided b (jsonl_max_line_bytes c) parse_line_bytes (jsonl_max_line_bytes c')"
  by (cases l; cases t; cases b; cases c; cases c')
    (auto simp: set_all_def set_if_def decided_def split: sum.splits simp del: parse_log_level_Inr
      parse_timeout_Inr parse_line_bytes_Inr)

lemma set_all_ok: "set_all l t b c = Inr c' \<Longrightarrow> config_ok c \<Longrightarrow> config_ok c'"
  by (auto simp: set_all_Inr decided_def config_ok_def split: option.splits)

section \<open>Correctness\<close>

text \<open>
  C33: Whatever the files, the environment and the command line say, a configuration that is resolved
  at all is one the daemon can run on: a known log level, a timeout of 1 to 600 seconds and a line
  limit of 1024 bytes to one mebibyte.
\<close>

theorem resolved_config_in_bounds:
  assumes "resolve env ov = Inr c" shows "config_ok c"
  using assms default_config_ok
  by (auto simp: resolve_def Let_def split: option.splits sum.splits dest!: apply_file_ok set_all_ok)

text \<open>The highest-ranking source that mentions a setting.\<close>

definition file_partial :: "process_env \<Rightarrow> str \<Rightarrow> partial" where
  "file_partial env path = (case read_config env path of Inr (Some p) \<Rightarrow> p | _ \<Rightarrow> empty_partial)"

definition first_some :: "'a option list \<Rightarrow> 'a \<Rightarrow> 'a" where
  "first_some xs d = (case find (\<lambda>x. x \<noteq> None) xs of Some (Some a) \<Rightarrow> a | _ \<Rightarrow> d)"

definition env_text :: "process_env \<Rightarrow> str \<Rightarrow> str option" where
  "env_text env name = map_option lossy (pe_var env name)"

lemma apply_file_partial: "apply_file env path c = Inr c' \<Longrightarrow> c' = apply_partial c (file_partial env path)"
  by (auto simp: apply_file_def file_partial_def apply_partial_def empty_partial_def
      split: sum.splits option.splits)

lemma decided_first:
  assumes "decided v3 (case p2 of Some x \<Rightarrow> x | None \<Rightarrow> (case p1 of Some x \<Rightarrow> x | None \<Rightarrow> d)) f y"
    "decided v4 y f z" "\<And>s x. f s = Inr x \<Longrightarrow> g s = Some x"
  shows "z = first_some [Option.bind v4 g, Option.bind v3 g, p2, p1] d"
  using assms(1,2) by (cases v4; cases v3; cases p2; cases p1) (auto simp: decided_def first_some_def dest!: assms(3))

text \<open>
  C34: Each setting comes from the highest-ranking source that gives it: the command line, then the
  environment, then the project's file, then the user's file, then the built-in default.
\<close>

theorem resolve_precedence:
  assumes "resolve env ov = Inr c" "pe_current_dir env = Some cwd"
  shows "log_level c = first_some [ov_log_level ov, env_text env ''AKASHIC_LOG_LEVEL'',
        pa_log_level (file_partial env (project_config_path env cwd)),
        pa_log_level (file_partial env (user_config_path env))] ''info''
    \<and> shutdown_timeout_seconds c = first_some
       [Option.bind (ov_shutdown_timeout_seconds ov) parse_integer,
        Option.bind (env_text env ''AKASHIC_SHUTDOWN_TIMEOUT_SECONDS'') parse_integer,
        pa_shutdown_timeout_seconds (file_partial env (project_config_path env cwd)),
        pa_shutdown_timeout_seconds (file_partial env (user_config_path env))] 10
    \<and> jsonl_max_line_bytes c = first_some
       [Option.bind (ov_jsonl_max_line_bytes ov) parse_integer,
        Option.bind (env_text env ''AKASHIC_JSONL_MAX_LINE_BYTES'') parse_integer,
        pa_jsonl_max_line_bytes (file_partial env (project_config_path env cwd)),
        pa_jsonl_max_line_bytes (file_partial env (user_config_path env))] 1048576"
proof -
  obtain c1 c2 c3 where s: "apply_file env (user_config_path env) default_config = Inr c1"
      "apply_file env (project_config_path env cwd) c1 = Inr c2"
      "set_all (env_text env ''AKASHIC_LOG_LEVEL'') (env_text env ''AKASHIC_SHUTDOWN_TIMEOUT_SECONDS'')
         (env_text env ''AKASHIC_JSONL_MAX_LINE_BYTES'') c2 = Inr c3"
      "set_all (ov_log_level ov) (ov_shutdown_timeout_seconds ov) (ov_jsonl_max_line_bytes ov) c3 = Inr c"
    using assms by (auto simp: resolve_def Let_def env_text_def split: sum.splits)
  note files = apply_file_partial [OF s(1)] apply_file_partial [OF s(2)]
  let ?p1 = "file_partial env (user_config_path env)" and ?p2 = "file_partial env (project_config_path env cwd)"
  have c2: "log_level c2 = (case pa_log_level ?p2 of Some x \<Rightarrow> x | None \<Rightarrow>
        (case pa_log_level ?p1 of Some x \<Rightarrow> x | None \<Rightarrow> ''info''))"
      "shutdown_timeout_seconds c2 = (case pa_shutdown_timeout_seconds ?p2 of Some x \<Rightarrow> x | None \<Rightarrow>
        (case pa_shutdown_timeout_seconds ?p1 of Some x \<Rightarrow> x | None \<Rightarrow> 10))"
      "jsonl_max_line_bytes c2 = (case pa_jsonl_max_line_bytes ?p2 of Some x \<Rightarrow> x | None \<Rightarrow>
        (case pa_jsonl_max_line_bytes ?p1 of Some x \<Rightarrow> x | None \<Rightarrow> 1048576))"
    unfolding files apply_partial_def default_config_def by (simp_all split: option.splits)
  have e: "decided (env_text env ''AKASHIC_LOG_LEVEL'') (log_level c2) parse_log_level (log_level c3)"
      "decided (env_text env ''AKASHIC_SHUTDOWN_TIMEOUT_SECONDS'') (shutdown_timeout_seconds c2) parse_timeout
        (shutdown_timeout_seconds c3)"
      "decided (env_text env ''AKASHIC_JSONL_MAX_LINE_BYTES'') (jsonl_max_line_bytes c2) parse_line_bytes
        (jsonl_max_line_bytes c3)"
    using s(3) [unfolded set_all_Inr] by blast+
  have o: "decided (ov_log_level ov) (log_level c3) parse_log_level (log_level c)"
      "decided (ov_shutdown_timeout_seconds ov) (shutdown_timeout_seconds c3) parse_timeout (shutdown_timeout_seconds c)"
      "decided (ov_jsonl_max_line_bytes ov) (jsonl_max_line_bytes c3) parse_line_bytes (jsonl_max_line_bytes c)"
    using s(4) [unfolded set_all_Inr] by blast+
  show ?thesis
    using decided_first [OF e(1) [unfolded c2] o(1), of Some] decided_first [OF e(2) [unfolded c2] o(2), of parse_integer]
      decided_first [OF e(3) [unfolded c2] o(3), of parse_integer] by simp
qed

text \<open>
  Integers are read exactly: the digits of any 64-bit number read back as that number, a larger
  number is refused rather than wrapped, and nothing that is not all digits is a number.
\<close>

theorem parse_integer_exact:
  "parse_integer (dec n) = (if n < 2 ^ 64 then Some n else None) \<and>
   (parse_integer s = Some n) = (s \<noteq> [] \<and> list_all is_digit s \<and> undec s = n \<and> n < 2 ^ 64)"
proof -
  have "list_all is_digit (dec n)" using dec_digits by (fastforce simp: list_all_iff is_digit_def)
  then show ?thesis by (auto simp: parse_integer_def undec_dec)
qed

section \<open>What a configuration file says\<close>

text \<open>The assignments of a file: comments and blank lines dropped, each line cut at the first equals sign.\<close>

fun assignments :: "str list \<Rightarrow> (str \<times> str) list option" where
  "assignments [] = Some []"
| "assignments (raw # ls) =
     (if effective raw = [] then assignments ls
      else case split_once (CHR ''='') (effective raw) of None \<Rightarrow> None
       | Some (k, v) \<Rightarrow> map_option ((#) (trim k, trim v)) (assignments ls))"

definition known_keys :: "str list" where
  "known_keys = [''config_version'', ''log_level'', ''shutdown_timeout_seconds'', ''jsonl_max_line_bytes'']"

definition file_says :: "(str \<times> str) list \<Rightarrow> str \<Rightarrow> (str \<Rightarrow> 'a option) \<Rightarrow> 'a option \<Rightarrow> 'a option \<Rightarrow> bool" where
  "file_says as key f old new =
     (case map_of as key of None \<Rightarrow> new = old | Some v \<Rightarrow> f v \<noteq> None \<and> new = f v)"

text \<open>Reading assignments changes the partial configuration as \<open>file_says\<close> describes.\<close>

definition says_all :: "(str \<times> str) list \<Rightarrow> partial \<times> bool \<Rightarrow> partial \<times> bool \<Rightarrow> bool" where
  "says_all as st st' =
     (file_says as ''log_level'' parse_quoted (pa_log_level (fst st)) (pa_log_level (fst st'))
      \<and> file_says as ''shutdown_timeout_seconds'' parse_integer (pa_shutdown_timeout_seconds (fst st))
          (pa_shutdown_timeout_seconds (fst st'))
      \<and> file_says as ''jsonl_max_line_bytes'' parse_integer (pa_jsonl_max_line_bytes (fst st))
          (pa_jsonl_max_line_bytes (fst st'))
      \<and> (case map_of as ''config_version'' of None \<Rightarrow> snd st' = snd st
          | Some v \<Rightarrow> snd st' \<and> parse_integer v = Some 1))"

lemma set_key_cases:
  assumes "set_key k v st = Inr st1"
  obtains (Version) "k = ''config_version''" "parse_integer v = Some 1" "st1 = (fst st, True)"
  | (Level) w where "k = ''log_level''" "parse_quoted v = Some w"
      "st1 = ((fst st)\<lparr>pa_log_level := Some w\<rparr>, snd st)"
  | (Timeout) w where "k = ''shutdown_timeout_seconds''" "parse_integer v = Some w"
      "st1 = ((fst st)\<lparr>pa_shutdown_timeout_seconds := Some w\<rparr>, snd st)"
  | (Bytes) w where "k = ''jsonl_max_line_bytes''" "parse_integer v = Some w"
      "st1 = ((fst st)\<lparr>pa_jsonl_max_line_bytes := Some w\<rparr>, snd st)"
  using assms by (auto simp: set_key_def Let_def split_beta split: if_splits option.splits)

lemma file_says_other: "k \<noteq> key \<Longrightarrow> file_says ((k, v) # as) key f = file_says as key f"
  by (intro ext) (simp add: file_says_def)

lemma file_says_new:
  "map_of as k = None \<Longrightarrow> file_says as k f (Some w) new \<Longrightarrow> f v = Some w \<Longrightarrow> file_says ((k, v) # as) k f old new"
  by (simp add: file_says_def)

lemma set_key_says:
  assumes "set_key k v st = Inr st1" "says_all as st1 st'" "k \<notin> fst ` set as"
  shows "k \<in> set known_keys \<and> says_all ((k, v) # as) st st'"
proof -
  have n: "map_of as k = None" using assms(3) by (auto simp: map_of_eq_None_iff)
  from assms(1) show ?thesis
  proof (cases rule: set_key_cases)
    case Version
    then show ?thesis using assms(2) n by (simp add: says_all_def known_keys_def file_says_other)
  next
    case (Level w)
    then show ?thesis using assms(2) n file_says_new [of as k parse_quoted w _ v]
      by (cases "map_of as ''config_version''") (simp_all add: says_all_def known_keys_def file_says_other)
  next
    case (Timeout w)
    then show ?thesis using assms(2) n file_says_new [of as k parse_integer w _ v]
      by (cases "map_of as ''config_version''") (simp_all add: says_all_def known_keys_def file_says_other)
  next
    case (Bytes w)
    then show ?thesis using assms(2) n file_says_new [of as k parse_integer w _ v]
      by (cases "map_of as ''config_version''") (simp_all add: says_all_def known_keys_def file_says_other)
  qed
qed

lemma read_lines_says:
  "read_lines ls seen st = Inr st' \<Longrightarrow>
   \<exists>as. assignments ls = Some as \<and> distinct (map fst as) \<and> set (map fst as) \<inter> set seen = {}
     \<and> set (map fst as) \<subseteq> set known_keys \<and> (\<forall>k\<in>set (map fst as). \<not> secret_like k) \<and> says_all as st st'"
proof (induction ls seen st rule: read_lines.induct)
  case (1 seen st)
  then show ?case by (auto simp: says_all_def file_says_def)
next
  case (2 raw ls seen st)
  show ?case
  proof (cases "effective raw = []")
    case True
    then show ?thesis using 2 by simp
  next
    case False
    then obtain k v st1 where kv: "split_once (CHR ''='') (effective raw) = Some (k, v)"
        "\<not> secret_like (trim k)" "trim k \<notin> set seen" "set_key (trim k) (trim v) st = Inr st1"
        "read_lines ls (trim k # seen) st1 = Inr st'"
      using 2(3) by (auto simp: Let_def split: option.splits if_splits sum.splits)
    obtain as where as: "assignments ls = Some as" "distinct (map fst as)"
        "set (map fst as) \<inter> set (trim k # seen) = {}" "set (map fst as) \<subseteq> set known_keys"
        "\<forall>k\<in>set (map fst as). \<not> secret_like k" "says_all as st1 st'"
      using 2(2) [OF refl False kv(1) refl refl refl kv(2,3,4,5)] by blast
    have k: "trim k \<notin> fst ` set as" using as(3) by auto
    show ?thesis
      using False kv as k set_key_says [OF kv(4) as(6) k]
      by (intro exI [of _ "(trim k, trim v) # as"]) auto
  qed
qed

text \<open>
  A configuration file is accepted only for what it says: every line that is not blank or comment
  is an assignment, no key is repeated, unknown or looks like a secret, the version is there and is
  1, each setting of the result is the parsed value of its key, and a setting without its key is
  left open.
\<close>

theorem accepted_file_sound:
  assumes "read_config_text s = Inr p"
  shows "\<exists>as. assignments (text_lines s) = Some as \<and> distinct (map fst as)
     \<and> list_all (\<lambda>k. \<not> secret_like k \<and> k \<in> set known_keys) (map fst as)
     \<and> Option.bind (map_of as ''config_version'') parse_integer = Some 1
     \<and> pa_log_level p = Option.bind (map_of as ''log_level'') parse_quoted
     \<and> pa_shutdown_timeout_seconds p = Option.bind (map_of as ''shutdown_timeout_seconds'') parse_integer
     \<and> pa_jsonl_max_line_bytes p = Option.bind (map_of as ''jsonl_max_line_bytes'') parse_integer"
proof -
  have "read_lines (text_lines s) [] (empty_partial, False) = Inr (p, True)"
    using assms by (auto simp: read_config_text_def split: sum.splits prod.splits if_splits)
  from read_lines_says [OF this] show ?thesis
    by (fastforce simp: says_all_def file_says_def empty_partial_def list_all_iff split: option.splits)
qed

definition demo_file :: str where
  \<open>demo_file = ''# user settings'' @ [CHR 0x0A] @ ''config_version = 1'' @ [CHR 0x0D, CHR 0x0A]
     @ ''log_level = "warn" # quieter'' @ [CHR 0x0A] @ ''shutdown_timeout_seconds=30''\<close>

lemma demo_file_read: "read_config_text demo_file = Inr \<lparr>pa_log_level = Some ''warn'',
    pa_shutdown_timeout_seconds = Some 30, pa_jsonl_max_line_bytes = None\<rparr>"
  by code_simp

theorem accepted_file_sound_witness:
  "\<exists>as. assignments (text_lines demo_file) = Some as \<and> distinct (map fst as)
     \<and> Option.bind (map_of as ''log_level'') parse_quoted = Some ''warn''
     \<and> Option.bind (map_of as ''shutdown_timeout_seconds'') parse_integer = Some 30"
  using accepted_file_sound [OF demo_file_read] by fastforce

definition demo_env :: process_env where
  "demo_env = \<lparr>pe_var = (\<lambda>v. if v = ''HOME'' then Some ''/home/a'' else if v = ''AKASHIC_LOG_LEVEL'' then Some ''debug'' else None),
     pe_current_dir = Some ''/home/a/p/src'', pe_exists = (\<lambda>p. p = ''/home/a/p/.git''),
     pe_read = (\<lambda>p. if p = ''/home/a/p/.akashic/config.toml'' then FileText demo_file else FileMissing)\<rparr>"

definition demo_overrides :: overrides where
  "demo_overrides = \<lparr>ov_log_level = None, ov_shutdown_timeout_seconds = None, ov_jsonl_max_line_bytes = Some ''2048''\<rparr>"

lemma demo_resolved: "resolve demo_env demo_overrides =
    Inr \<lparr>log_level = ''debug'', shutdown_timeout_seconds = 30, jsonl_max_line_bytes = 2048\<rparr>"
  by code_simp

theorem resolved_config_in_bounds_witness:
  "config_ok \<lparr>log_level = ''debug'', shutdown_timeout_seconds = 30, jsonl_max_line_bytes = 2048\<rparr>"
  by (rule resolved_config_in_bounds [OF demo_resolved])

theorem resolve_precedence_witness:
  "''debug'' = first_some [ov_log_level demo_overrides, env_text demo_env ''AKASHIC_LOG_LEVEL'',
     pa_log_level (file_partial demo_env (project_config_path demo_env ''/home/a/p/src'')),
     pa_log_level (file_partial demo_env (user_config_path demo_env))] ''info''"
  using resolve_precedence [OF demo_resolved, of "''/home/a/p/src''"] by (simp add: demo_env_def)

end
