(* ===== verification/Shutdown.thy ===== *)
theory Shutdown
  imports Transition "HOL-Library.Multiset"
begin

text \<open>
  \<open>src/src/shutdown.rs\<close>: the two atomic cells the signal handler writes, and the exit statuses of a
  shutdown. The handler makes two separate compare-and-exchange steps, and handlers may run in
  several threads at once, so the cells are a transition system with the handlers that are between
  their two steps as part of the state.
\<close>

definition SIGINT :: int where "SIGINT = 2"
definition SIGTERM :: int where "SIGTERM = 15"

record signals =
  first_signal :: int
  second_signal :: int

text \<open>\<open>compare_exchange\<close>: the new value, and whether the exchange was made.\<close>

definition compare_exchange :: "int \<Rightarrow> int \<Rightarrow> int \<Rightarrow> int \<times> bool" where
  "compare_exchange cell current new = (if cell = current then (new, True) else (cell, False))"

definition handle_signal :: "int \<Rightarrow> signals \<Rightarrow> signals" where
  "handle_signal s c =
     (let (f, ok) = compare_exchange (first_signal c) 0 s in
      if ok then c\<lparr>first_signal := f\<rparr>
      else c\<lparr>second_signal := fst (compare_exchange (second_signal c) 0 s)\<rparr>)"

definition cleared :: signals where
  "cleared = \<lparr>first_signal = 0, second_signal = 0\<rparr>"

text \<open>\<open>install_signal_handlers\<close>: the cells are cleared before either handler is installed.\<close>

definition install_signal_handlers :: "bool \<Rightarrow> bool \<Rightarrow> signals \<times> bool" where
  "install_signal_handlers int_installed term_installed = (cleared, int_installed \<and> term_installed)"

definition second_signal_exit :: "int \<Rightarrow> int option" where
  "second_signal_exit s = (if s = SIGINT then Some 130 else if s = SIGTERM then Some 143 else None)"

datatype shutdown_outcome = Clean | TimedOut | ChildFailed

fun shutdown_exit :: "shutdown_outcome \<Rightarrow> int" where
  "shutdown_exit Clean = 0"
| "shutdown_exit TimedOut = 124"
| "shutdown_exit ChildFailed = 1"

definition shutdown_timeout_error :: "str \<times> str" where
  "shutdown_timeout_error = (''lifecycle.shutdown_timeout'', ''shutdown timed out'')"

section \<open>Handlers running concurrently\<close>

text \<open>
  The cells, and the signals whose handlers failed the first exchange and still owe the second. Two
  histories are kept beside them, which no step reads: the signals in the order in which their handlers made
  the first exchange, and those among them in the order of the second exchange.
\<close>

record signal_system =
  cells :: signals
  owing :: "int list"
  arrived :: "int list"
  passed :: "int list"

definition a_signal :: "int \<Rightarrow> bool" where
  "a_signal s = (s = SIGINT \<or> s = SIGTERM)"

inductive signal_step :: "signal_system \<Rightarrow> signal_system \<Rightarrow> bool" where
  first_exchange: "a_signal s \<Longrightarrow> compare_exchange (first_signal (cells c)) 0 s = (f, True) \<Longrightarrow>
     signal_step c (c\<lparr>cells := (cells c)\<lparr>first_signal := f\<rparr>, arrived := arrived c @ [s]\<rparr>)"
| first_refused: "a_signal s \<Longrightarrow> compare_exchange (first_signal (cells c)) 0 s = (f, False) \<Longrightarrow>
     signal_step c (c\<lparr>owing := owing c @ [s], arrived := arrived c @ [s]\<rparr>)"
| second_exchange: "owing c = xs @ s # ys \<Longrightarrow>
     signal_step c (c\<lparr>cells := (cells c)\<lparr>second_signal := fst (compare_exchange (second_signal (cells c)) 0 s)\<rparr>,
       owing := xs @ ys, passed := passed c @ [s]\<rparr>)"

inductive_cases signal_stepE: "signal_step c c'"

definition signal_init :: "signal_system \<Rightarrow> bool" where
  "signal_init c = (c = \<lparr>cells = cleared, owing = [], arrived = [], passed = []\<rparr>)"

text \<open>The first of a history, and 0, what an empty cell holds, when there is none.\<close>

definition earliest :: "int list \<Rightarrow> int" where
  "earliest ss = (case ss of [] \<Rightarrow> 0 | s # _ \<Rightarrow> s)"

definition signal_inv :: "signal_system \<Rightarrow> bool" where
  "signal_inv c =
     (list_all a_signal (arrived c)
      \<and> first_signal (cells c) = earliest (arrived c) \<and> second_signal (cells c) = earliest (passed c)
      \<and> mset (tl (arrived c)) = mset (passed c) + mset (owing c))"

text \<open>A cell that has been written keeps its value.\<close>

definition cells_kept :: "signal_system \<Rightarrow> signal_system \<Rightarrow> bool" where
  "cells_kept c c' =
     ((first_signal (cells c) \<noteq> 0 \<longrightarrow> first_signal (cells c') = first_signal (cells c))
      \<and> (second_signal (cells c) \<noteq> 0 \<longrightarrow> second_signal (cells c') = second_signal (cells c)))"

lemma a_signal_nonzero: "a_signal s \<Longrightarrow> s \<noteq> 0"
  by (auto simp: a_signal_def SIGINT_def SIGTERM_def)

lemma signal_inv_members:
  assumes "signal_inv c" "s \<in> set (passed c) \<union> set (owing c)" shows "s \<in> set (tl (arrived c)) \<and> a_signal s"
proof -
  have "set_mset (mset (tl (arrived c))) = set (passed c) \<union> set (owing c)"
    using assms(1) by (simp only: signal_inv_def set_mset_union set_mset_mset)
  then have "s \<in> set (tl (arrived c))" using assms(2) by simp
  moreover from this have "s \<in> set (arrived c)" by (cases "arrived c") simp_all
  ultimately show ?thesis using assms(1) by (auto simp: signal_inv_def list_all_iff)
qed

lemma earliest_simps [simp]: "earliest [] = 0" "earliest (s # ss) = s" "earliest (ss @ [t]) = (if ss = [] then t else earliest ss)"
  by (simp_all add: earliest_def split: list.split)

lemma signal_inv_step: "signal_inv c \<Longrightarrow> signal_step c c' \<Longrightarrow> signal_inv c'"
proof (erule signal_stepE)
  fix s f assume i: "signal_inv c" "a_signal s" "compare_exchange (first_signal (cells c)) 0 s = (f, True)"
    and c': "c' = c\<lparr>cells := (cells c)\<lparr>first_signal := f\<rparr>, arrived := arrived c @ [s]\<rparr>"
  have "first_signal (cells c) = 0" "f = s" using i(3) by (auto simp: compare_exchange_def split: if_splits)
  then have "arrived c = []" using i(1) a_signal_nonzero by (cases "arrived c") (auto simp: signal_inv_def)
  then show ?thesis using i(1,2) \<open>f = s\<close> by (auto simp: signal_inv_def c')
next
  fix s f assume i: "signal_inv c" "a_signal s" "compare_exchange (first_signal (cells c)) 0 s = (f, False)"
    and c': "c' = c\<lparr>owing := owing c @ [s], arrived := arrived c @ [s]\<rparr>"
  have "arrived c \<noteq> []" using i(1,3) by (auto simp: signal_inv_def compare_exchange_def split: if_splits)
  then show ?thesis using i(1,2) by (auto simp: signal_inv_def c')
next
  fix xs s ys assume i: "signal_inv c" "owing c = xs @ s # ys"
    and c': "c' = c\<lparr>cells := (cells c)\<lparr>second_signal := fst (compare_exchange (second_signal (cells c)) 0 s)\<rparr>,
       owing := xs @ ys, passed := passed c @ [s]\<rparr>"
  have "second_signal (cells c) = 0 \<longleftrightarrow> passed c = []"
    using i(1) signal_inv_members [OF i(1)] a_signal_nonzero by (cases "passed c") (auto simp: signal_inv_def)
  then show ?thesis using i by (auto simp: signal_inv_def c' compare_exchange_def)
qed

lemma signal_step_kept: "signal_step c c' \<Longrightarrow> cells_kept c c'"
  by (erule signal_stepE) (auto simp: cells_kept_def compare_exchange_def split: if_splits)

interpretation sigs: monotone_system signal_init signal_step signal_inv cells_kept
proof unfold_locales
  show "signal_init s \<Longrightarrow> signal_inv s" for s
    by (simp add: signal_init_def signal_inv_def cleared_def)
  show "signal_inv s \<Longrightarrow> signal_step s t \<Longrightarrow> signal_inv t" for s t
    by (rule signal_inv_step)
  show "signal_inv s \<Longrightarrow> signal_step s t \<Longrightarrow> cells_kept s t" for s t
    by (rule signal_step_kept)
qed (auto simp: cells_kept_def)

text \<open>
  C35: Whatever way the handlers interleave, the first cell holds the signal whose handler came first, and 0
  before any came; the second cell holds, of the signals after that one, the first whose handler made its second
  exchange, and 0 before; every signal after the first has made that exchange or still owes it, so none is lost
  on the way; and a cell once set never changes: the daemon cannot miss or exchange the signal that
  started its shutdown.
\<close>

theorem signals_recorded_in_order:
  assumes "reachable signal_init signal_step c" "signal_step\<^sup>*\<^sup>* c c'"
  shows "first_signal (cells c') = (case arrived c' of [] \<Rightarrow> 0 | s # _ \<Rightarrow> s)
    \<and> second_signal (cells c') = (case passed c' of [] \<Rightarrow> 0 | s # _ \<Rightarrow> s)
    \<and> mset (tl (arrived c')) = mset (passed c') + mset (owing c')
    \<and> (\<forall>s\<in>set (arrived c'). second_signal_exit s \<noteq> None)
    \<and> cells_kept c c'"
proof -
  have "signal_inv c" by (rule sigs.reachable_inv [OF assms(1)])
  then have k: "cells_kept c c'" "signal_inv c'" using sigs.steps_grow [OF assms(2)] by blast+
  then show ?thesis
    by (auto simp: signal_inv_def earliest_def second_signal_exit_def list_all_iff a_signal_def)
qed

text \<open>
  One handler after the other, the first signal handled is the first recorded, the second the
  second, and all later ones are dropped.
\<close>

theorem handled_signals_recorded:
  assumes "list_all a_signal ss"
  shows "fold handle_signal ss cleared =
    \<lparr>first_signal = (case ss of s # _ \<Rightarrow> s | _ \<Rightarrow> 0), second_signal = (case ss of _ # t # _ \<Rightarrow> t | _ \<Rightarrow> 0)\<rparr>"
proof -
  have full: "fold handle_signal ts \<lparr>first_signal = a, second_signal = b\<rparr> = \<lparr>first_signal = a, second_signal = b\<rparr>"
    if "a \<noteq> 0" "b \<noteq> 0" for ts a b
    using that by (induction ts) (simp_all add: handle_signal_def compare_exchange_def)
  show ?thesis
  proof (cases ss)
    case Nil
    then show ?thesis by (simp add: cleared_def)
  next
    case (Cons s ts)
    then show ?thesis
      using assms a_signal_nonzero full
      by (cases ts) (auto simp: cleared_def handle_signal_def compare_exchange_def)
  qed
qed

theorem handled_signals_recorded_witness:
  "fold handle_signal [15, 2, 15] cleared = \<lparr>first_signal = 15, second_signal = 2\<rparr>"
  using handled_signals_recorded [of "[15, 2, 15]"] by (simp add: a_signal_def SIGINT_def SIGTERM_def)

text \<open>\<open>SIGTERM\<close>, then \<open>SIGINT\<close>, whose handler is between its two exchanges.\<close>

theorem signals_recorded_in_order_witness:
  "\<exists>c. reachable signal_init signal_step c \<and> first_signal (cells c) = 15 \<and> arrived c = [15, 2]
     \<and> mset (tl (arrived c)) = mset (passed c) + mset (owing c)"
proof -
  let ?c0 = "\<lparr>cells = cleared, owing = [], arrived = [], passed = []\<rparr>"
  let ?c1 = "\<lparr>cells = \<lparr>first_signal = 15, second_signal = 0\<rparr>, owing = [], arrived = [15], passed = []\<rparr>"
  let ?c2 = "?c1\<lparr>owing := [2], arrived := [15, 2]\<rparr>"
  have init: "reachable signal_init signal_step ?c0" by (rule reach_init) (simp add: signal_init_def)
  have "signal_step ?c0 ?c1" "signal_step ?c1 ?c2"
    using first_exchange [of 15 ?c0 15] first_refused [of 2 ?c1 15]
    by (simp_all add: a_signal_def SIGTERM_def SIGINT_def compare_exchange_def cleared_def)
  then have "reachable signal_init signal_step ?c2" using init by (meson reach_step)
  from signals_recorded_in_order [OF this rtranclp.rtrancl_refl] this show ?thesis
    by (intro exI [of _ ?c2]) simp
qed

end
