(* ===== verification/Runtime.thy ===== *)
theory Runtime
  imports Files
begin

unbundle bit_operations_syntax

text \<open>
  \<open>src/src/runtime.rs\<close>: finding a private run directory, taking the daemon's lock in it, binding the
  socket and putting it away again. Metadata come from a file system record; directories opened by
  descriptor are handles of an abstract type; what other processes do to the run directory between
  two system calls is an arbitrary function on its entries.
\<close>

section \<open>Data\<close>

datatype runtime_error = Unsafe | DaemonRunning

fun runtime_error_code :: "runtime_error \<Rightarrow> str" where
  "runtime_error_code Unsafe = ''config.invalid''"
| "runtime_error_code DaemonRunning = ''lifecycle.daemon_running''"

fun runtime_error_message :: "runtime_error \<Rightarrow> str" where
  "runtime_error_message Unsafe = ''invalid runtime path''"
| "runtime_error_message DaemonRunning = ''daemon already running''"

record runtime_paths =
  rp_socket :: str
  rp_directories :: "str list"

record identity =
  id_device :: nat
  id_inode :: nat

record 'h guard =
  gd_directory :: 'h
  gd_listener_identity :: "identity option"
  gd_descriptor_proof :: "identity option"
  gd_pathname_identity :: "identity option"
  gd_cleanup_identity :: "identity option"

record runtime_env =
  re_xdg_runtime_dir :: "str option"
  re_xdg_state_home :: "str option"
  re_home :: "str option"

section \<open>Judging metadata\<close>

definition private_meta :: "nat \<Rightarrow> file_meta \<Rightarrow> bool" where
  "private_meta me m = (kind m \<noteq> Symlink \<and> kind m = Directory \<and> uid m = me
     \<and> mode m AND 0x1FF = 0x1C0 \<and> mode m AND 0xE00 = 0)"

definition trusted_meta :: "nat \<Rightarrow> file_meta \<Rightarrow> bool" where
  "trusted_meta me m = (\<not> (kind m = Symlink \<or> (uid m \<noteq> 0 \<and> uid m \<noteq> me) \<or> mode m AND 0xC00 \<noteq> 0
     \<or> (mode m AND 0x12 \<noteq> 0 \<and> mode m AND 0x200 = 0)))"

definition trusted_ancestors :: "nat \<Rightarrow> fs \<Rightarrow> str \<Rightarrow> bool" where
  "trusted_ancestors me f path =
     list_all (\<lambda>p. case symlink_metadata f p of
         Found m \<Rightarrow> trusted_meta me m | NotFound \<Rightarrow> True | StatError \<Rightarrow> False) (path_ancestors path)"

definition xdg_base_is_safe :: "nat \<Rightarrow> fs \<Rightarrow> str \<Rightarrow> bool" where
  "xdg_base_is_safe me f runtime = (case symlink_metadata f runtime of
     Found m \<Rightarrow> private_meta me m | NotFound \<Rightarrow> True | StatError \<Rightarrow> False)"

definition base_is_safe :: "nat \<Rightarrow> fs \<Rightarrow> str \<Rightarrow> bool" where
  "base_is_safe me f path = (trusted_ancestors me f path \<and> (case symlink_metadata f path of
     Found m \<Rightarrow> private_meta me m | NotFound \<Rightarrow> True | StatError \<Rightarrow> False))"

definition private_dir_is_safe :: "nat \<Rightarrow> fs \<Rightarrow> str \<Rightarrow> bool" where
  "private_dir_is_safe me f path = (case symlink_metadata f path of
     Found m \<Rightarrow> private_meta me m | NotFound \<Rightarrow> trusted_ancestors me f path | StatError \<Rightarrow> False)"

section \<open>Choosing the directories\<close>

definition fallback_paths :: "nat \<Rightarrow> fs \<Rightarrow> runtime_env \<Rightarrow> runtime_error + runtime_paths" where
  "fallback_paths me f env =
     (case (case re_xdg_state_home env of Some s \<Rightarrow> Some s
            | None \<Rightarrow> (case re_home env of Some h \<Rightarrow> Some (path_join h ''.local/state'')
                       | None \<Rightarrow> re_xdg_runtime_dir env)) of
        None \<Rightarrow> Inl Unsafe
      | Some state \<Rightarrow>
          if \<not> path_is_absolute state \<or> \<not> base_is_safe me f state then Inl Unsafe
          else (let akashic = path_join state ''akashic''; run = path_join akashic ''run'' in
            if \<not> private_dir_is_safe me f akashic \<or> \<not> private_dir_is_safe me f run then Inl Unsafe
            else Inr \<lparr>rp_socket = path_join run ''daemon.sock'', rp_directories = [state, akashic, run]\<rparr>))"

definition probe :: "nat \<Rightarrow> fs \<Rightarrow> runtime_env \<Rightarrow> runtime_error + runtime_paths" where
  "probe me f env =
     (case re_xdg_runtime_dir env of
        Some runtime \<Rightarrow>
          if path_is_absolute runtime then
            (if trusted_ancestors me f runtime \<and> xdg_base_is_safe me f runtime then
               (let child = path_join runtime ''akashic'' in
                if (case symlink_metadata f child of Found _ \<Rightarrow> True | _ \<Rightarrow> False)
                   \<and> \<not> private_dir_is_safe me f child then Inl Unsafe
                else Inr \<lparr>rp_socket = path_join child ''daemon.sock'', rp_directories = [runtime, child]\<rparr>)
             else fallback_paths me f env)
          else fallback_paths me f env
      | None \<Rightarrow> fallback_paths me f env)"

section \<open>Opening directories by descriptor\<close>

text \<open>
  What a directory holds under a name when the program looks: a directory, another file, or a symbolic
  link with what it leads to; each object as its handle, and \<open>Denied\<close> when it may not be opened. \<open>openat\<close> as
  the system documents it for the flags the program uses.
\<close>

datatype 'h entry = Absent | SubDirectory 'h | OtherFile 'h | Link "'h option" | Denied

datatype 'h opened = Opened 'h | Missing | Refused

definition O_RDONLY :: "32 word" where "O_RDONLY = 0"
definition O_DIRECTORY :: "32 word" where "O_DIRECTORY = 0x10000"
definition O_NOFOLLOW :: "32 word" where "O_NOFOLLOW = 0x20000"
definition O_CLOEXEC :: "32 word" where "O_CLOEXEC = 0x80000"

definition openat :: "32 word \<Rightarrow> 'h entry \<Rightarrow> 'h opened" where
  "openat flags e =
     (case e of
        Absent \<Rightarrow> Missing
      | Denied \<Rightarrow> Refused
      | SubDirectory x \<Rightarrow> Opened x
      | OtherFile x \<Rightarrow> if flags AND O_DIRECTORY \<noteq> 0 then Refused else Opened x
      | Link target \<Rightarrow> if flags AND O_NOFOLLOW \<noteq> 0 then Refused
          else (case target of None \<Rightarrow> Missing | Some x \<Rightarrow> Opened x))"

definition open_at_directory :: "'h entry \<Rightarrow> 'h opened" where
  "open_at_directory e = openat (O_RDONLY OR O_DIRECTORY OR O_NOFOLLOW OR O_CLOEXEC) e"

text \<open>
  The directories as one walk meets them: \<open>d_entry\<close> at the first look at a name, \<open>d_made\<close> at the look
  after \<open>mkdirat\<close>, which may fail, and the metadata of an open directory.
\<close>

record 'h dirs =
  d_root :: "'h entry"
  d_entry :: "'h \<Rightarrow> str \<Rightarrow> 'h entry"
  d_mkdir :: "'h \<Rightarrow> str \<Rightarrow> bool"
  d_made :: "'h \<Rightarrow> str \<Rightarrow> 'h entry"
  d_meta :: "'h \<Rightarrow> file_meta option"

definition chain_meta_ok :: "nat \<Rightarrow> bool \<Rightarrow> file_meta \<Rightarrow> bool" where
  "chain_meta_ok me final m =
     (\<not> (kind m = Symlink \<or> kind m \<noteq> Directory \<or> mode m AND 0xC00 \<noteq> 0) \<and>
      (if final then \<not> (uid m \<noteq> me \<or> mode m AND 0x1FF \<noteq> 0x1C0)
       else \<not> ((uid m \<noteq> 0 \<and> uid m \<noteq> me) \<or> (mode m AND 0x12 \<noteq> 0 \<and> mode m AND 0x200 = 0))))"

text \<open>The child of one component, made first when it is missing and \<open>create\<close> is set.\<close>

definition open_child :: "'h dirs \<Rightarrow> bool \<Rightarrow> 'h \<Rightarrow> str \<Rightarrow> 'h option" where
  "open_child d create h name =
     (if CHR 0x00 \<in> set name then None
      else case open_at_directory (d_entry d h name) of
        Opened x \<Rightarrow> Some x
      | Refused \<Rightarrow> None
      | Missing \<Rightarrow>
          if create \<and> d_mkdir d h name then
            (case open_at_directory (d_made d h name) of Opened x \<Rightarrow> Some x | _ \<Rightarrow> None)
          else None)"

fun walk :: "nat \<Rightarrow> 'h dirs \<Rightarrow> bool \<Rightarrow> 'h \<Rightarrow> str list \<Rightarrow> runtime_error + 'h" where
  "walk me d create h [] = Inr h"
| "walk me d create h (name # names) =
     (case open_child d create h name of None \<Rightarrow> Inl Unsafe
      | Some x \<Rightarrow> (case d_meta d x of None \<Rightarrow> Inl Unsafe
        | Some m \<Rightarrow> if \<not> chain_meta_ok me (names = []) m then Inl Unsafe else walk me d create x names))"

definition open_directory_chain :: "nat \<Rightarrow> 'h dirs \<Rightarrow> str \<Rightarrow> bool \<Rightarrow> runtime_error + 'h" where
  "open_directory_chain me d path create =
     (if \<not> path_is_absolute path then Inl Unsafe
      else case open_at_directory (d_root d) of
        Opened root \<Rightarrow>
          if list_ex (\<lambda>c. case c of Normal _ \<Rightarrow> False | _ \<Rightarrow> True) (path_components path) then Inl Unsafe
          else walk me d create root (map component_str (path_components path))
      | _ \<Rightarrow> Inl Unsafe)"

text \<open>The directories may change from one walk to the next: \<open>d k\<close> is what the \<open>k\<close>-th walk meets.\<close>

fun ensure_directories :: "nat \<Rightarrow> (nat \<Rightarrow> 'h dirs) \<Rightarrow> nat \<Rightarrow> str list \<Rightarrow> runtime_error + unit" where
  "ensure_directories me d k [] = Inr ()"
| "ensure_directories me d k (p # ps) =
     (case open_directory_chain me (d k) p True of Inl e \<Rightarrow> Inl e | Inr _ \<Rightarrow> ensure_directories me d (Suc k) ps)"

definition artifact_store_path :: "nat \<Rightarrow> 'h dirs \<Rightarrow> runtime_env \<Rightarrow> runtime_error + str" where
  "artifact_store_path me d env =
     (case (case re_xdg_state_home env of Some s \<Rightarrow> Some s
            | None \<Rightarrow> map_option (\<lambda>h. path_join h ''.local/state'') (re_home env)) of
        None \<Rightarrow> Inl Unsafe
      | Some state \<Rightarrow>
          if \<not> path_is_absolute state then Inl Unsafe
          else (case open_directory_chain me d (path_join state ''akashic'') True of
                  Inl e \<Rightarrow> Inl e
                | Inr _ \<Rightarrow> Inr (path_join state ''akashic/artifacts.sqlite'')))"

section \<open>Taking the lock\<close>

definition lock_meta_ok :: "nat \<Rightarrow> file_meta \<Rightarrow> bool" where
  "lock_meta_ok me m = (\<not> (uid m \<noteq> me \<or> mode m AND 0x1FF \<noteq> 0x180 \<or> mode m AND 0xE00 \<noteq> 0))"

text \<open>What the calls on \<open>daemon.lock\<close> answer: \<open>flock\<close> gives 0, or the error number.\<close>

record lock_calls =
  lc_stat :: lstat
  lc_open :: bool
  lc_meta :: "file_meta option"
  lc_flock :: int
  lc_fchmod :: bool

definition new_guard :: "'h \<Rightarrow> 'h guard" where
  "new_guard h = \<lparr>gd_directory = h, gd_listener_identity = None, gd_descriptor_proof = None,
     gd_pathname_identity = None, gd_cleanup_identity = None\<rparr>"

definition acquire :: "nat \<Rightarrow> fs \<Rightarrow> runtime_env \<Rightarrow> (nat \<Rightarrow> 'h dirs) \<Rightarrow> lock_calls \<Rightarrow> runtime_error + 'h guard" where
  "acquire me f env d l =
     (case probe me f env of Inl e \<Rightarrow> Inl e | Inr paths \<Rightarrow>
      case ensure_directories me d 0 (rp_directories paths) of Inl e \<Rightarrow> Inl e | Inr _ \<Rightarrow>
      if rp_directories paths = [] then Inl Unsafe else
      case open_directory_chain me (d (length (rp_directories paths))) (last (rp_directories paths)) False of
        Inl e \<Rightarrow> Inl e | Inr h \<Rightarrow>
      if (case lc_stat l of
            Found m \<Rightarrow> kind m = Symlink \<or> kind m \<noteq> RegularFile \<or> \<not> lock_meta_ok me m
          | NotFound \<Rightarrow> False | StatError \<Rightarrow> True) then Inl Unsafe
      else if \<not> lc_open l then Inl Unsafe
      else case lc_meta l of None \<Rightarrow> Inl Unsafe | Some m \<Rightarrow>
      if \<not> lock_meta_ok me m then Inl Unsafe
      else if lc_flock l \<noteq> 0 then Inl (if lc_flock l = 11 then DaemonRunning else Unsafe)
      else if \<not> lc_fchmod l then Inl Unsafe
      else Inr (new_guard h))"

section \<open>Binding the socket\<close>

datatype connect_result = Connected | ConnectionRefused | ConnectFailed

text \<open>What the calls of \<open>bind\<close> answer, in the order the code makes them.\<close>

record bind_calls =
  bc_stat :: lstat
  bc_connect :: connect_result
  bc_stat_again :: "file_meta option"
  bc_bind :: bool
  bc_fd_meta :: "file_meta option"
  bc_path_before :: "file_meta option"
  bc_fchmod :: bool
  bc_fd_meta_after :: "file_meta option"
  bc_path_after :: "file_meta option"

definition identity :: "file_meta \<Rightarrow> identity" where
  "identity m = \<lparr>id_device = dev m, id_inode = ino m\<rparr>"

definition ownership_proven :: "identity option \<Rightarrow> identity option \<Rightarrow> bool" where
  "ownership_proven descriptor pathname =
     (opt_any (\<lambda>i. id_device i \<noteq> 0 \<and> id_inode i \<noteq> 0) descriptor
      \<and> opt_any (\<lambda>i. id_device i \<noteq> 0 \<and> id_inode i \<noteq> 0) pathname)"

definition pathname_proof_stable :: "identity option \<Rightarrow> identity option \<Rightarrow> bool" where
  "pathname_proof_stable before after = (before \<noteq> None \<and> before = after)"

text \<open>The judgement on a socket that is already there: in every case the daemon does not bind.\<close>

definition existing_socket :: "nat \<Rightarrow> bind_calls \<Rightarrow> file_meta \<Rightarrow> runtime_error" where
  "existing_socket me b m =
     (if kind m = Symlink \<or> kind m \<noteq> Socket \<or> \<not> lock_meta_ok me m then Unsafe
      else case bc_connect b of
        Connected \<Rightarrow> DaemonRunning
      | ConnectionRefused \<Rightarrow> (case bc_stat_again b of None \<Rightarrow> Unsafe
          | Some after \<Rightarrow> if identity m \<noteq> identity after then Unsafe else Unsafe)
      | ConnectFailed \<Rightarrow> Unsafe)"

definition bind_socket :: "nat \<Rightarrow> bind_calls \<Rightarrow> 'h guard \<Rightarrow> (runtime_error + unit) \<times> 'h guard" where
  "bind_socket me b g =
     (case bc_stat b of
        Found m \<Rightarrow> (Inl (existing_socket me b m), g)
      | StatError \<Rightarrow> (Inl Unsafe, g)
      | NotFound \<Rightarrow>
         if \<not> bc_bind b then (Inl Unsafe, g)
         else case bc_fd_meta b of None \<Rightarrow> (Inl Unsafe, g) | Some fm \<Rightarrow>
           (let descriptor_proof = Some (identity fm);
                pathname_before = map_option identity (bc_path_before b) in
            if \<not> ownership_proven descriptor_proof pathname_before then (Inl Unsafe, g)
            else if \<not> bc_fchmod b then (Inl Unsafe, g)
            else case bc_fd_meta_after b of None \<Rightarrow> (Inl Unsafe, g) | Some fm2 \<Rightarrow>
              if mode fm2 AND 0x1FF \<noteq> 0x180 \<or> mode fm2 AND 0xE00 \<noteq> 0 then (Inl Unsafe, g)
              else (let pathname_after = map_option identity (bc_path_after b) in
                if \<not> pathname_proof_stable pathname_before pathname_after then (Inl Unsafe, g)
                else (Inr (), g\<lparr>gd_descriptor_proof := descriptor_proof, gd_pathname_identity := pathname_after,
                        gd_listener_identity := pathname_after, gd_cleanup_identity := pathname_after\<rparr>))))"

section \<open>Putting the socket away\<close>

text \<open>The run directory as the names in it with the identities they have.\<close>

type_synonym entries = "str \<Rightarrow> identity option"

definition sock :: str where
  "sock = ''daemon.sock''"

definition rename_noreplace :: "str \<Rightarrow> str \<Rightarrow> entries \<Rightarrow> entries option" where
  "rename_noreplace old new E =
     (if E old = None \<or> E new \<noteq> None then None else Some (E(old := None, new := E old)))"

definition quarantine_name :: "nat \<Rightarrow> nat \<Rightarrow> 64 word \<Rightarrow> str" where
  "quarantine_name pid timestamp sequence =
     ''.daemon.sock.quarantine.'' @ dec pid @ ''.'' @ dec timestamp @ ''.'' @ dec (unat sequence)"

text \<open>
  \<open>atomic_cleanup\<close>: \<open>w k\<close> is what others do to the directory before the call that follows.
\<close>

definition atomic_cleanup :: "identity \<Rightarrow> str \<Rightarrow> (nat \<Rightarrow> entries \<Rightarrow> entries) \<Rightarrow> entries \<Rightarrow> (runtime_error + unit) \<times> entries" where
  "atomic_cleanup expected q w E =
     (case rename_noreplace sock q (w 1 E) of
        None \<Rightarrow> (Inl Unsafe, w 1 E)
      | Some E1 \<Rightarrow>
          (let E2 = w 2 E1 in
           if E2 q \<noteq> Some expected then
             (let E3 = w 3 E2 in
              (Inl Unsafe, case rename_noreplace q sock E3 of None \<Rightarrow> E3 | Some E4 \<Rightarrow> E4))
           else (Inr (), E2)))"

definition cleanup :: "'h guard \<Rightarrow> str \<Rightarrow> (nat \<Rightarrow> entries \<Rightarrow> entries) \<Rightarrow> entries \<Rightarrow> (runtime_error + unit) \<times> entries" where
  "cleanup g q w E =
     (case (gd_descriptor_proof g, gd_listener_identity g, gd_pathname_identity g, gd_cleanup_identity g) of
        (Some proof_id, Some listener, Some pathname, Some expected) \<Rightarrow>
          (let E0 = w 0 E in
           case E0 sock of None \<Rightarrow> (Inl Unsafe, E0)
           | Some actual \<Rightarrow>
               if id_device proof_id = 0 \<or> id_inode proof_id = 0 \<or> listener \<noteq> pathname
                  \<or> pathname \<noteq> expected \<or> expected \<noteq> actual then (Inl Unsafe, E0)
               else atomic_cleanup expected q w E0)
      | _ \<Rightarrow> (Inl Unsafe, E))"

section \<open>Authorising a peer\<close>

record ucred =
  uc_pid :: int
  uc_uid :: nat
  uc_gid :: nat

text \<open>\<open>getsockopt\<close> answers a status and fills in the credentials.\<close>

definition authorize_peer :: "nat \<Rightarrow> int \<Rightarrow> ucred \<Rightarrow> runtime_error + unit" where
  "authorize_peer me status credentials =
     (if status = 0 \<and> uc_uid credentials = me then Inr () else Inl Unsafe)"

section \<open>Correctness\<close>

lemma open_at_directory_Opened [simp]: "open_at_directory e = Opened x \<longleftrightarrow> e = SubDirectory x"
  by (cases e) (simp_all add: open_at_directory_def openat_def O_RDONLY_def O_DIRECTORY_def O_NOFOLLOW_def O_CLOEXEC_def
      split: option.splits)

lemma open_at_directory_Missing [simp]: "open_at_directory e = Missing \<longleftrightarrow> e = Absent"
  by (cases e) (simp_all add: open_at_directory_def openat_def O_RDONLY_def O_DIRECTORY_def O_NOFOLLOW_def O_CLOEXEC_def
      split: option.splits)

text \<open>
  Every directory on the way down, with the metadata it had when it was opened: each is itself the
  entry of its parent, and no link to it.
\<close>

inductive descends :: "'h dirs \<Rightarrow> 'h \<Rightarrow> (str \<times> file_meta) list \<Rightarrow> 'h \<Rightarrow> bool" for d where
  here: "descends d h [] h"
| down: "d_entry d h name = SubDirectory x \<Longrightarrow> d_meta d x = Some m \<Longrightarrow> descends d x ps y \<Longrightarrow>
    descends d h ((name, m) # ps) y"

lemma walk_descends:
  "walk me d False h names = Inr x \<Longrightarrow>
   \<exists>ps. map fst ps = names \<and> descends d h ps x \<and>
     (\<forall>k<length ps. chain_meta_ok me (k + 1 = length ps) (snd (ps ! k)))"
proof (induction names arbitrary: h)
  case Nil
  then show ?case by (auto intro: here)
next
  case (Cons name names)
  then obtain y m where y: "open_child d False h name = Some y" "d_meta d y = Some m"
      "chain_meta_ok me (names = []) m" "walk me d False y names = Inr x"
    by (auto split: option.splits if_splits)
  from Cons.IH [OF y(4)] obtain ps where ps: "map fst ps = names" "descends d y ps x"
      "\<forall>k<length ps. chain_meta_ok me (k + 1 = length ps) (snd (ps ! k))" by blast
  have "d_entry d h name = SubDirectory y"
    using y(1) by (auto simp: open_child_def split: opened.splits if_splits)
  from down [OF this y(2) ps(2)] show ?case
    using ps y(3) by (intro exI [of _ "(name, m) # ps"]) (auto simp: nth_Cons split: nat.splits)
qed

text \<open>
  C31: A run directory is only taken when it is private: the daemon that acquired its guard walked
  down, component by component from the root, to the last directory of a probed path, each component
  being a directory in its parent and never a symbolic link. Every directory on the way belongs to root or
  the daemon's user, has neither the set-user nor the set-group bit, and is not writable by group or
  others unless its sticky bit is set; the last one belongs to the user and gives no permission
  to anyone else (mode 0700, or 01700). The lock in it was a file of the user with mode 0600, and free.
\<close>

theorem acquired_directory_private:
  assumes "acquire me f env d l = Inr g"
  shows "\<exists>paths walk root ps. probe me f env = Inr paths \<and> rp_directories paths \<noteq> []
     \<and> walk = d (length (rp_directories paths))
     \<and> map fst ps = map component_str (path_components (last (rp_directories paths)))
     \<and> d_root walk = SubDirectory root \<and> descends walk root ps (gd_directory g)
     \<and> (\<forall>k<length ps. let m = snd (ps ! k) in kind m = Directory \<and> mode m AND 0xC00 = 0
          \<and> (if k + 1 = length ps then uid m = me \<and> mode m AND 0x1FF = 0x1C0
             else (uid m = 0 \<or> uid m = me) \<and> (mode m AND 0x12 = 0 \<or> mode m AND 0x200 \<noteq> 0)))
     \<and> lc_flock l = 0 \<and> opt_any (lock_meta_ok me) (lc_meta l)"
proof -
  obtain paths h where a: "probe me f env = Inr paths" "rp_directories paths \<noteq> []"
      "open_directory_chain me (d (length (rp_directories paths))) (last (rp_directories paths)) False = Inr h"
      "g = new_guard h" "lc_flock l = 0" "opt_any (lock_meta_ok me) (lc_meta l)"
    using assms by (auto simp: acquire_def split: sum.splits option.splits if_splits)
  let ?d = "d (length (rp_directories paths))"
  obtain root where r: "d_root ?d = SubDirectory root"
      "walk me ?d False root (map component_str (path_components (last (rp_directories paths)))) = Inr h"
    using a(3) by (auto simp: open_directory_chain_def split: if_splits opened.splits)
  from walk_descends [OF r(2)] obtain ps where
    ps: "map fst ps = map component_str (path_components (last (rp_directories paths)))" "descends ?d root ps h"
      "\<forall>k<length ps. chain_meta_ok me (k + 1 = length ps) (snd (ps ! k))" by blast
  have "\<forall>k<length ps. let m = snd (ps ! k) in kind m = Directory \<and> mode m AND 0xC00 = 0
      \<and> (if k + 1 = length ps then uid m = me \<and> mode m AND 0x1FF = 0x1C0
         else (uid m = 0 \<or> uid m = me) \<and> (mode m AND 0x12 = 0 \<or> mode m AND 0x200 \<noteq> 0))"
    using ps(3) by (auto simp: chain_meta_ok_def Let_def split: if_splits)
  then show ?thesis
    using a(1,2,5,6) r(1) ps(1,2)
    by (intro exI [of _ paths] exI [of _ ?d] exI [of _ root] exI [of _ ps]) (simp add: a(4) new_guard_def)
qed

text \<open>
  The probed socket path lies in the last of the probed directories, and no probed directory
  existed at that moment unless it was a private directory of the user; the ancestors of the first
  one were all trusted.
\<close>

theorem probe_finds_private_place:
  assumes "probe me f env = Inr paths"
  shows "rp_directories paths \<noteq> [] \<and> rp_socket paths = path_join (last (rp_directories paths)) ''daemon.sock''
    \<and> trusted_ancestors me f (hd (rp_directories paths)) \<and> path_is_absolute (hd (rp_directories paths))
    \<and> list_all (\<lambda>p. \<forall>m. symlink_metadata f p = Found m \<longrightarrow> private_meta me m) (rp_directories paths)"
proof -
  have fallback: ?thesis if "fallback_paths me f env = Inr paths"
    using that by (auto simp: fallback_paths_def base_is_safe_def private_dir_is_safe_def Let_def
        split: option.splits if_splits lstat.splits)
  show ?thesis
  proof (cases "fallback_paths me f env = Inr paths")
    case True
    then show ?thesis by (rule fallback)
  next
    case False
    then obtain runtime where r: "path_is_absolute runtime" "trusted_ancestors me f runtime"
        "xdg_base_is_safe me f runtime"
        "\<not> ((case symlink_metadata f (path_join runtime ''akashic'') of Found _ \<Rightarrow> True | _ \<Rightarrow> False)
            \<and> \<not> private_dir_is_safe me f (path_join runtime ''akashic''))"
        "paths = \<lparr>rp_socket = path_join (path_join runtime ''akashic'') ''daemon.sock'',
           rp_directories = [runtime, path_join runtime ''akashic'']\<rparr>"
      using assms by (auto simp: probe_def Let_def split: option.splits if_splits)
    then show ?thesis
      by (auto simp: xdg_base_is_safe_def private_dir_is_safe_def split: lstat.splits)
  qed
qed

lemma bind_socket_Inr:
  assumes "bind_socket me b (new_guard h) = (Inr (), g)"
  obtains m fm where "bc_stat b = NotFound" "bc_path_after b = Some m" "id_device (identity m) \<noteq> 0"
    "id_inode (identity m) \<noteq> 0" "id_device fm \<noteq> 0" "id_inode fm \<noteq> 0"
    "g = \<lparr>gd_directory = h, gd_listener_identity = Some (identity m), gd_descriptor_proof = Some fm,
      gd_pathname_identity = Some (identity m), gd_cleanup_identity = Some (identity m)\<rparr>"
proof -
  obtain fm m where m: "bc_stat b = NotFound" "bc_fd_meta b = Some fm" "bc_path_after b = Some m"
      "bc_path_before b \<noteq> None" "map_option identity (bc_path_before b) = Some (identity m)"
      "ownership_proven (Some (identity fm)) (Some (identity m))"
      "g = \<lparr>gd_directory = h, gd_listener_identity = Some (identity m), gd_descriptor_proof = Some (identity fm),
        gd_pathname_identity = Some (identity m), gd_cleanup_identity = Some (identity m)\<rparr>"
    using assms
    by (cases "bc_path_after b")
      (auto simp: bind_socket_def Let_def pathname_proof_stable_def new_guard_def
        split: lstat.splits if_splits option.splits)
  then show ?thesis using that [of m "identity fm"] by (simp add: ownership_proven_def)
qed

text \<open>
  C32: Binding never takes over a socket that is there, and cleaning up never removes a file: a
  cleanup succeeds exactly when the run directory's entry is the socket that was bound both at the look
  and at the move, and the quarantine name is free; that socket, and no other, then bears the
  quarantine name. An entry found to be another file at the look is not touched. A file that another
  process puts there between the look and the move is moved, but recognised: the cleanup fails, and
  the file is back under its name, or, when a third one has taken the name by then, kept in
  quarantine. (That no other process uses the quarantine name is a hypothesis.)
\<close>

theorem cleanup_takes_only_its_socket:
  assumes "bind_socket me b (new_guard h) = (Inr (), g)"
    and "q \<noteq> sock" "\<And>k E. w k E q = E q" "cleanup g q w E = (r, E')"
  shows "bc_stat b = NotFound \<and> (\<exists>m. bc_path_after b = Some m \<and>
     (r = Inr () \<longleftrightarrow> w 0 E sock = Some (identity m) \<and> w 1 (w 0 E) sock = Some (identity m) \<and> E q = None)
     \<and> (r = Inr () \<longrightarrow> E' = w 2 ((w 1 (w 0 E))(sock := None, q := Some (identity m))))
     \<and> (r \<noteq> Inr () \<longrightarrow> r = Inl Unsafe \<and> (E' = w 0 E \<or> E' = w 1 (w 0 E)
          \<or> (\<exists>j. j \<noteq> identity m \<and> w 1 (w 0 E) sock = Some j
               \<and> (E' sock = Some j \<and> E' q = None \<or> E' q = Some j \<and> E' sock \<noteq> None))))
     \<and> (w 0 E sock \<noteq> Some (identity m) \<longrightarrow> E' = w 0 E))"
proof -
  obtain m fm where g: "bc_stat b = NotFound" "bc_path_after b = Some m" "id_device fm \<noteq> 0" "id_inode fm \<noteq> 0"
      "g = \<lparr>gd_directory = h, gd_listener_identity = Some (identity m), gd_descriptor_proof = Some fm,
        gd_pathname_identity = Some (identity m), gd_cleanup_identity = Some (identity m)\<rparr>"
    using assms(1) by (rule bind_socket_Inr)
  let ?E1 = "w 1 (w 0 E)"
  have q: "?E1 q = E q" using assms(3) by simp
  have look: "cleanup g q w E = (Inl Unsafe, w 0 E)" if "w 0 E sock \<noteq> Some (identity m)"
    using that g(3-5) by (auto simp: cleanup_def Let_def split: option.splits)
  have "cleanup g q w E = atomic_cleanup (identity m) q w (w 0 E)" if "w 0 E sock = Some (identity m)"
    using that g(3-5) by (simp add: cleanup_def Let_def)
  moreover have "atomic_cleanup (identity m) q w (w 0 E) = (Inl Unsafe, ?E1)" if "?E1 sock = None \<or> E q \<noteq> None"
    using that q by (auto simp: atomic_cleanup_def rename_noreplace_def)
  moreover have "atomic_cleanup (identity m) q w (w 0 E) =
      (if j = identity m then (Inr (), w 2 (?E1(sock := None, q := Some j)))
       else (let E3 = w 3 (w 2 (?E1(sock := None, q := Some j))) in
         (Inl Unsafe, if E3 sock = None then E3(q := None, sock := Some j) else E3)))"
    if "?E1 sock = Some j" "E q = None" for j
    using that q assms(2,3) by (auto simp: atomic_cleanup_def rename_noreplace_def Let_def simp del: One_nat_def)
  ultimately show ?thesis
    using assms(2-4) g(1,2) look
    by (cases "w 0 E sock = Some (identity m)"; cases "?E1 sock"; cases "E q")
      (auto simp: Let_def simp del: One_nat_def split: if_splits)
qed

section \<open>Concrete runs\<close>

definition demo_root_dir :: file_meta where
  "demo_root_dir = \<lparr>dev = 1, ino = 2, uid = 0, mode = 0x41ED, kind = Directory, len = 0\<rparr>"

definition demo_private_dir :: file_meta where
  "demo_private_dir = \<lparr>dev = 1, ino = 9, uid = 1000, mode = 0x41C0, kind = Directory, len = 0\<rparr>"

definition demo_socket :: "nat \<Rightarrow> file_meta" where
  "demo_socket n = \<lparr>dev = 1, ino = n, uid = 1000, mode = 0xC180, kind = Socket, len = 0\<rparr>"

definition demo_run_fs :: fs where
  "demo_run_fs = \<lparr>canonicalize = (\<lambda>p. Some p),
     symlink_metadata = (\<lambda>p. if p = ''/'' \<or> p = ''/run'' then Found demo_root_dir
        else if p = ''/run/u'' then Found demo_private_dir else NotFound),
     metadata = (\<lambda>p. None), open_nofollow = (\<lambda>p. None)\<rparr>"

definition demo_run_env :: runtime_env where
  "demo_run_env = \<lparr>re_xdg_runtime_dir = Some ''/run/u'', re_xdg_state_home = None, re_home = None\<rparr>"

definition demo_dirs :: "nat dirs" where
  "demo_dirs = \<lparr>d_root = SubDirectory 0, d_entry = (\<lambda>h name. SubDirectory (h + 1)),
     d_mkdir = (\<lambda>h name. True), d_made = (\<lambda>h name. SubDirectory (h + 1)),
     d_meta = (\<lambda>h. Some (if h < 2 then demo_root_dir else demo_private_dir))\<rparr>"

definition demo_lock :: lock_calls where
  "demo_lock = \<lparr>lc_stat = NotFound, lc_open = True,
     lc_meta = Some \<lparr>dev = 1, ino = 10, uid = 1000, mode = 0x8180, kind = RegularFile, len = 0\<rparr>,
     lc_flock = 0, lc_fchmod = True\<rparr>"

definition demo_bind :: bind_calls where
  "demo_bind = \<lparr>bc_stat = NotFound, bc_connect = ConnectFailed, bc_stat_again = None, bc_bind = True,
     bc_fd_meta = Some (demo_socket 77), bc_path_before = Some (demo_socket 11), bc_fchmod = True,
     bc_fd_meta_after = Some (demo_socket 77), bc_path_after = Some (demo_socket 11)\<rparr>"

text \<open>The walks of one start: the second finds the child missing and makes it.\<close>

definition demo_walks :: "nat \<Rightarrow> nat dirs" where
  "demo_walks k = (if k < 2 then demo_dirs\<lparr>d_entry := (\<lambda>h name. if name = ''akashic'' then Absent else SubDirectory (h + 1))\<rparr>
     else demo_dirs)"

lemma demo_acquired: "acquire 1000 demo_run_fs demo_run_env demo_walks demo_lock = Inr (new_guard 3)"
  by code_simp

lemma demo_probed: "probe 1000 demo_run_fs demo_run_env
    = Inr \<lparr>rp_socket = ''/run/u/akashic/daemon.sock'', rp_directories = [''/run/u'', ''/run/u/akashic'']\<rparr>"
  by code_simp

definition demo_guard :: "nat guard" where
  "demo_guard = \<lparr>gd_directory = 3, gd_listener_identity = Some (identity (demo_socket 11)),
     gd_descriptor_proof = Some (identity (demo_socket 77)),
     gd_pathname_identity = Some (identity (demo_socket 11)),
     gd_cleanup_identity = Some (identity (demo_socket 11))\<rparr>"

lemma demo_bound: "bind_socket 1000 demo_bind (new_guard 3) = (Inr (), demo_guard)"
  by code_simp

theorem acquired_directory_private_witness:
  "\<exists>paths ps. probe 1000 demo_run_fs demo_run_env = Inr paths
     \<and> descends (demo_walks (length (rp_directories paths))) 0 ps 3
     \<and> map fst ps = map component_str (path_components (last (rp_directories paths)))"
proof -
  have "d_root (demo_walks k) = SubDirectory 0" for k by (simp add: demo_walks_def demo_dirs_def)
  then show ?thesis using acquired_directory_private [OF demo_acquired] by (auto simp: new_guard_def)
qed

theorem probe_finds_private_place_witness:
  "trusted_ancestors 1000 demo_run_fs ''/run/u''"
  using probe_finds_private_place [OF demo_probed] by simp

text \<open>An intruder who replaces the socket between the look and the move.\<close>

definition demo_intruder :: "nat \<Rightarrow> entries \<Rightarrow> entries" where
  "demo_intruder k E = (if k = 1 then E(sock := Some (identity (demo_socket 50))) else E)"

theorem cleanup_takes_only_its_socket_witness:
  "fst (cleanup demo_guard ''q'' (\<lambda>k E. E) [sock \<mapsto> identity (demo_socket 11)]) = Inr ()
   \<and> fst (cleanup demo_guard ''q'' demo_intruder [sock \<mapsto> identity (demo_socket 11)]) = Inl Unsafe"
proof -
  have q: "''q'' \<noteq> sock" "bc_path_after demo_bind = Some (demo_socket 11)"
    "identity (demo_socket 50) \<noteq> identity (demo_socket 11)" by code_simp+
  have kept: "demo_intruder k E ''q'' = E ''q''" for k E using q(1) by (simp add: demo_intruder_def)
  let ?E = "[sock \<mapsto> identity (demo_socket 11)]"
  have "fst (cleanup demo_guard ''q'' (\<lambda>k E. E) ?E) = Inr ()"
    using cleanup_takes_only_its_socket [of 1000 demo_bind 3 demo_guard "''q''" "\<lambda>k E. E" ?E
        "fst (cleanup demo_guard ''q'' (\<lambda>k E. E) ?E)" "snd (cleanup demo_guard ''q'' (\<lambda>k E. E) ?E)"]
      demo_bound q(1,2) by auto
  moreover have "fst (cleanup demo_guard ''q'' demo_intruder ?E) = Inl Unsafe"
    using cleanup_takes_only_its_socket [of 1000 demo_bind 3 demo_guard "''q''" demo_intruder ?E
        "fst (cleanup demo_guard ''q'' demo_intruder ?E)" "snd (cleanup demo_guard ''q'' demo_intruder ?E)"]
      demo_bound kept q by (auto simp: demo_intruder_def)
  ultimately show ?thesis ..
qed

end
