(* ===== verification/Daemon.thy ===== *)
theory Daemon
  imports Store Frames Config Shutdown Runtime
begin

text \<open>
  \<open>daemon\<close> of \<open>src/src/main.rs\<close>: starting up with the functions of \<open>Runtime\<close> and \<open>Store\<close>, accepting
  connections until the first signal, and the shutdown that drains them. What the system answers is
  an input; each pass of a loop is one element of a list of what it sees, and an exhausted list is a
  daemon that is still running. Connections run \<open>handle_client\<close> in threads of their own; here they are
  listed by their peers.
\<close>

section \<open>Draining\<close>

text \<open>One pass of the last loop: the second signal's cell, the clock, and the connections' threads.\<close>

record poll =
  po_signal :: int
  po_in_window :: bool
  po_finished :: bool
  po_failed :: bool
  po_last_signal :: int
  po_past_deadline :: bool

type_synonym outcome = "str \<times> int"

definition internal_error :: "str \<Rightarrow> outcome" where
  "internal_error message = startup_error ''internal.unexpected'' message 1"

fun drain :: "poll list \<Rightarrow> outcome option" where
  "drain [] = None"
| "drain (p # ps) =
     (case second_signal_exit (po_signal p) of
        Some ex \<Rightarrow> Some ([], ex)
      | None \<Rightarrow>
          if po_in_window p then drain ps
          else if po_finished p then
            Some (if po_failed p then startup_error ''internal.unexpected'' ''internal error'' (shutdown_exit ChildFailed)
                  else case second_signal_exit (po_last_signal p) of
                    Some ex \<Rightarrow> ([], ex) | None \<Rightarrow> ([], shutdown_exit Clean))
          else if po_past_deadline p then
            Some (let (c, message) = shutdown_timeout_error in startup_error c message (shutdown_exit TimedOut))
          else drain ps)"

text \<open>The 50 milliseconds before the cleanup, in which a second signal ends the daemon at once.\<close>

fun signal_window :: "int list \<Rightarrow> int option" where
  "signal_window [] = None"
| "signal_window (s # ss) = (case second_signal_exit s of Some ex \<Rightarrow> Some ex | None \<Rightarrow> signal_window ss)"

record shutdown_calls =
  sc_window :: "int list"
  sc_after_cleanup :: int
  sc_polls :: "poll list"

definition shut_down :: "bool \<Rightarrow> shutdown_calls \<Rightarrow> outcome option" where
  "shut_down cleanup_ok s =
     (case signal_window (sc_window s) of
        Some ex \<Rightarrow> Some ([], ex)
      | None \<Rightarrow>
         (case second_signal_exit (sc_after_cleanup s) of
            Some ex \<Rightarrow> Some ([], ex)
          | None \<Rightarrow>
              if \<not> cleanup_ok then Some (internal_error ''runtime cleanup failed'')
              else drain (sc_polls s)))"

section \<open>Accepting\<close>

text \<open>
  What \<open>accept\<close> answers: a client with what \<open>getsockopt\<close> says of its peer, its status and the
  credentials it filled in; that there is none; or an error.
\<close>

datatype accept_result = Client int ucred | WouldBlock | AcceptFailed

text \<open>
  What the accept loop of user \<open>me\<close> did: the refusals written, the peers whose connections were
  started, and how it ended.
\<close>

datatype loop_end = Signalled | ListenerFailed

fun accept_loop ::
  "nat \<Rightarrow> (int \<times> accept_result) list \<Rightarrow> 64 word \<Rightarrow> str list \<times> ucred list \<times> loop_end option" where
  "accept_loop me [] n = ([], [], None)"
| "accept_loop me ((first, r) # rs) n =
     (if first \<noteq> 0 then ([], [], Some Signalled)
      else case r of
        Client status credentials \<Rightarrow>
          (case authorize_peer me status credentials of
             Inl _ \<Rightarrow>
               (let (i, n1) = new_id n;
                    (response, n2) = response_error i ''authorization.peer_uid'' ''peer authorization failed'' n1;
                    (refusals, started, e) = accept_loop me rs n2
                in (response # refusals, started, e))
           | Inr _ \<Rightarrow>
               (let (refusals, started, e) = accept_loop me rs n in (refusals, credentials # started, e)))
      | WouldBlock \<Rightarrow> accept_loop me rs n
      | AcceptFailed \<Rightarrow> ([], [], Some ListenerFailed))"

section \<open>The daemon\<close>

definition runtime_startup_error :: "runtime_error \<Rightarrow> outcome" where
  "runtime_startup_error e =
     startup_error (runtime_error_code e) (runtime_error_message e)
       (if runtime_error_code e = ''lifecycle.daemon_running'' then 4 else 2)"

text \<open>What is not code of the repository: the digest, \<open>Debug\<close>'s tables, \<open>HashMap\<close>'s order, SQLite.\<close>

record libraries =
  lb_sha :: "bytes \<Rightarrow> bytes"
  lb_printable :: "nat \<Rightarrow> bool"
  lb_hash_order :: "(str \<times> str option) list \<Rightarrow> (str \<times> str option) list"
  lb_engine :: engine

text \<open>What the system answers to the daemon's calls, in their order.\<close>

record 'h daemon_calls =
  dc_handlers :: bool
  dc_uid :: nat                                \<comment> \<open>\<open>geteuid\<close>\<close>
  dc_env :: runtime_env
  dc_fs :: fs                                  \<comment> \<open>as \<open>probe\<close> sees it\<close>
  dc_dirs :: "nat \<Rightarrow> 'h dirs"                  \<comment> \<open>the walks of \<open>acquire\<close>\<close>
  dc_lock :: lock_calls
  dc_state_dirs :: "'h dirs"                   \<comment> \<open>the walk of \<open>artifact_store_path\<close>\<close>
  dc_proc :: "nat \<Rightarrow> str option"               \<comment> \<open>\<open>/proc/self/status\<close>\<close>
  dc_looks :: "open_look \<Rightarrow> fs"                \<comment> \<open>the looks of \<open>Store::open\<close>\<close>
  dc_create :: create_answer
  dc_file :: "error + store_file"              \<comment> \<open>what SQLite opens\<close>
  dc_bind :: bind_calls
  dc_nonblocking :: bool
  dc_accepts :: "(int \<times> accept_result) list"
  dc_shutdown :: shutdown_calls
  dc_process :: "nat \<times> nat"                    \<comment> \<open>its number and the time, for the quarantine name\<close>
  dc_entries :: entries                        \<comment> \<open>the run directory at the shutdown\<close>
  dc_others :: "nat \<Rightarrow> entries \<Rightarrow> entries"      \<comment> \<open>what others do to it during the cleanup\<close>

definition acquired :: "'h daemon_calls \<Rightarrow> runtime_error + 'h guard" where
  "acquired d = acquire (dc_uid d) (dc_fs d) (dc_env d) (dc_dirs d) (dc_lock d)"

definition store_path :: "'h daemon_calls \<Rightarrow> runtime_error + str" where
  "store_path d = artifact_store_path (dc_uid d) (dc_state_dirs d) (dc_env d)"

definition opened_store :: "libraries \<Rightarrow> 'h daemon_calls \<Rightarrow> str \<Rightarrow> error + store_file" where
  "opened_store lib d p =
     store_open (lb_sha lib) (lb_printable lib) (lb_engine lib) (dc_proc d) (dc_looks d) (dc_create d) (dc_file d) p"

definition printed_opening :: "libraries \<Rightarrow> 'h daemon_calls \<Rightarrow> str \<Rightarrow> str list" where
  "printed_opening lib d p =
     store_open_lines (lb_sha lib) (lb_printable lib) (lb_hash_order lib) (lb_engine lib)
       (dc_proc d) (dc_looks d) (dc_create d) (dc_file d) p"

definition cleaned_up :: "'h daemon_calls \<Rightarrow> 'h guard \<Rightarrow> bool" where
  "cleaned_up d g =
     is_ok (fst (cleanup g (quarantine_name (fst (dc_process d)) (snd (dc_process d)) 1) (dc_others d) (dc_entries d)))"

text \<open>
  The diagnostics printed by the opening of the store, the refusals, the peers served, and the end: the
  error text of the daemon itself and its status.
\<close>

record daemon_run =
  dr_diagnostics :: "str list"
  dr_refusals :: "str list"
  dr_started :: "ucred list"
  dr_outcome :: "outcome option"

definition stopped :: "str list \<Rightarrow> outcome \<Rightarrow> daemon_run" where
  "stopped lines x = \<lparr>dr_diagnostics = lines, dr_refusals = [], dr_started = [], dr_outcome = Some x\<rparr>"

definition daemon :: "libraries \<Rightarrow> 'h daemon_calls \<Rightarrow> 64 word \<Rightarrow> daemon_run" where
  "daemon lib d n =
     (if \<not> dc_handlers d then stopped [] (internal_error ''signal setup failed'')
      else case acquired d of Inl e \<Rightarrow> stopped [] (runtime_startup_error e) | Inr g \<Rightarrow>
      case store_path d of Inl e \<Rightarrow> stopped [] (runtime_startup_error e) | Inr p \<Rightarrow>
      let lines = printed_opening lib d p in
      case opened_store lib d p of
        Inl e \<Rightarrow> stopped lines (startup_error (error_code e) (error_message e) (startup_exit_for_code (error_code e)))
      | Inr _ \<Rightarrow>
      case bind_socket (dc_uid d) (dc_bind d) g of (Inl e, _) \<Rightarrow> stopped lines (runtime_startup_error e) | (Inr _, g1) \<Rightarrow>
      if \<not> dc_nonblocking d then stopped lines (internal_error ''daemon listener unavailable'')
      else
       (let (daemon_id, n1) = new_id n;
            (refusals, started, e) = accept_loop (dc_uid d) (dc_accepts d) n1 in
        \<lparr>dr_diagnostics = lines, dr_refusals = refusals, dr_started = started,
          dr_outcome = (case e of
             None \<Rightarrow> None
           | Some ListenerFailed \<Rightarrow> Some (internal_error ''daemon listener failed'')
           | Some Signalled \<Rightarrow> shut_down (cleaned_up d g1) (dc_shutdown d))\<rparr>))"

section \<open>The drain loop decides at its first decisive pass\<close>

definition decisive :: "poll \<Rightarrow> bool" where
  "decisive p = (second_signal_exit (po_signal p) \<noteq> None
     \<or> \<not> po_in_window p \<and> (po_finished p \<or> po_past_deadline p))"

definition verdict :: "poll \<Rightarrow> outcome" where
  "verdict p =
     (case second_signal_exit (po_signal p) of Some ex \<Rightarrow> ([], ex)
      | None \<Rightarrow>
         if po_finished p then
           (if po_failed p then internal_error ''internal error''
            else case second_signal_exit (po_last_signal p) of Some ex \<Rightarrow> ([], ex) | None \<Rightarrow> ([], 0))
         else startup_error ''lifecycle.shutdown_timeout'' ''shutdown timed out'' 124)"

lemma drain_find: "drain ps = map_option verdict (find decisive ps)"
  by (induction ps)
    (auto simp: decisive_def verdict_def internal_error_def shutdown_timeout_error_def split: option.splits)

text \<open>
  Shutting down cannot hang or be talked out of it: the loop answers as soon as one pass is
  decisive, with what that pass saw, and never before. A second signal is decisive at once; after the
  first 50 milliseconds so are the end of all connections and the deadline, so with a deadline that
  passes the daemon always exits.
\<close>

theorem drain_decides_first:
  "drain ps = map_option verdict (find decisive ps) \<and> (drain ps = None) = (\<not> list_ex decisive ps)"
  by (auto simp: drain_find find_None_iff list_ex_iff)

lemma second_signal_exit_codes: "second_signal_exit s = Some ex \<Longrightarrow> ex \<in> {130, 143}"
  by (auto simp: second_signal_exit_def split: if_splits)

lemma signal_window_Some: "signal_window ss = Some ex \<Longrightarrow> ex \<in> {130, 143}"
  by (induction ss) (auto split: option.splits dest: second_signal_exit_codes)

section \<open>Exit statuses\<close>

text \<open>A run in which nothing went wrong: every connection ended in time, no signal after the first.\<close>

definition graceful_shutdown :: "bool \<Rightarrow> shutdown_calls \<Rightarrow> bool" where
  "graceful_shutdown cleanup_ok s =
     (signal_window (sc_window s) = None \<and> second_signal_exit (sc_after_cleanup s) = None
     \<and> cleanup_ok \<and> (case find decisive (sc_polls s) of None \<Rightarrow> False
        | Some p \<Rightarrow> second_signal_exit (po_signal p) = None \<and> po_finished p \<and> \<not> po_failed p
            \<and> second_signal_exit (po_last_signal p) = None))"

text \<open>The daemon got through its start, with the guard it then holds.\<close>

definition started_up :: "libraries \<Rightarrow> 'h daemon_calls \<Rightarrow> 'h guard \<Rightarrow> bool" where
  "started_up lib d g1 = (dc_handlers d \<and> dc_nonblocking d
     \<and> (\<exists>g p f. acquired d = Inr g \<and> store_path d = Inr p \<and> opened_store lib d p = Inr f
          \<and> bind_socket (dc_uid d) (dc_bind d) g = (Inr (), g1)))"

definition loop_ended :: "(int \<times> accept_result) list \<Rightarrow> loop_end option" where
  "loop_ended rs = (case find (\<lambda>(first, r). first \<noteq> 0 \<or> r = AcceptFailed) rs of
     None \<Rightarrow> None | Some (first, r) \<Rightarrow> Some (if first \<noteq> 0 then Signalled else ListenerFailed))"

lemma accept_loop_end: "snd (snd (accept_loop me rs n)) = loop_ended rs"
proof (induction rs arbitrary: n)
  case (Cons x rs)
  obtain first r where x: "x = (first, r)" by (cases x)
  show ?case
    using Cons by (cases r) (auto simp: x loop_ended_def split_beta Let_def split: sum.split)
qed (simp add: loop_ended_def)

lemma daemon_started:
  assumes "started_up lib d g"
  shows "dr_outcome (daemon lib d n) = (case loop_ended (dc_accepts d) of None \<Rightarrow> None
      | Some ListenerFailed \<Rightarrow> Some (internal_error ''daemon listener failed'')
      | Some Signalled \<Rightarrow> shut_down (cleaned_up d g) (dc_shutdown d))"
    "dr_refusals (daemon lib d n) = fst (accept_loop (dc_uid d) (dc_accepts d) (n + 1))"
    "dr_started (daemon lib d n) = fst (snd (accept_loop (dc_uid d) (dc_accepts d) (n + 1)))"
    "\<exists>p f. opened_store lib d p = Inr f \<and> dr_diagnostics (daemon lib d n) = printed_opening lib d p"
  using assms accept_loop_end [of "dc_uid d" "dc_accepts d" "n + 1"]
  by (auto simp: started_up_def daemon_def split_beta Let_def)

lemma store_error_exit: "startup_exit_for_code (error_code e) \<in> {1, 2}"
proof -
  have "startup_exit_for_code ''config.unsupported_schema'' = 2" "startup_exit_for_code ''config.ambiguous_schema'' = 2"
      "startup_exit_for_code ''internal.unexpected'' = 1" by code_simp+
  then show ?thesis by (cases e rule: error_code.cases) simp_all
qed

lemma daemon_not_started:
  assumes "\<forall>g. \<not> started_up lib d g"
  obtains lines c message ex where "daemon lib d n = stopped lines (startup_error c message ex)" "ex \<in> {1, 2, 4}"
    "lines = [] \<or> (\<exists>p. store_path d = Inr p \<and> lines = printed_opening lib d p)"
proof (cases "dc_handlers d")
  case False
  then show ?thesis using that by (simp add: daemon_def internal_error_def)
next
  case h: True
  have run: "runtime_startup_error e = startup_error (runtime_error_code e) (runtime_error_message e)
      (if runtime_error_code e = ''lifecycle.daemon_running'' then 4 else 2)" for e
    by (simp only: runtime_startup_error_def)
  consider (a) e where "acquired d = Inl e"
    | (p) g e where "acquired d = Inr g" "store_path d = Inl e"
    | (s) g q e where "acquired d = Inr g" "store_path d = Inr q" "opened_store lib d q = Inl e"
    | (b) g q f e g1 where "acquired d = Inr g" "store_path d = Inr q" "opened_store lib d q = Inr f"
        "bind_socket (dc_uid d) (dc_bind d) g = (Inl e, g1)"
    | (n) g q f v g1 where "acquired d = Inr g" "store_path d = Inr q" "opened_store lib d q = Inr f"
        "bind_socket (dc_uid d) (dc_bind d) g = (Inr v, g1)" "\<not> dc_nonblocking d"
  proof (cases "acquired d")
    case (Inr g)
    show thesis
    proof (cases "store_path d")
      case (Inr q)
      show thesis
      proof (cases "opened_store lib d q")
        case (Inr f)
        obtain x g1 where x: "bind_socket (dc_uid d) (dc_bind d) g = (x, g1)" by fastforce
        show thesis
        proof (cases x)
          case (Inr v)
          then have "\<not> dc_nonblocking d"
            using assms h x \<open>acquired d = Inr g\<close> \<open>store_path d = Inr q\<close> \<open>opened_store lib d q = Inr f\<close>
            by (auto simp: started_up_def)
          then show thesis
            using n x Inr \<open>acquired d = Inr g\<close> \<open>store_path d = Inr q\<close> \<open>opened_store lib d q = Inr f\<close> by blast
        qed (use b x \<open>acquired d = Inr g\<close> \<open>store_path d = Inr q\<close> \<open>opened_store lib d q = Inr f\<close> in blast)
      qed (use s \<open>acquired d = Inr g\<close> \<open>store_path d = Inr q\<close> in blast)
    qed (use p \<open>acquired d = Inr g\<close> in blast)
  qed (use a in blast)
  then show ?thesis
  proof cases
    case a
    then show ?thesis using that [of "[]" _ _ "if _ then 4 else 2"] h by (simp add: daemon_def run split: if_splits)
  next
    case p
    then show ?thesis using that [of "[]" _ _ "if _ then 4 else 2"] h by (simp add: daemon_def run split: if_splits)
  next
    case s
    then show ?thesis using that store_error_exit h by (fastforce simp: daemon_def Let_def)
  next
    case b
    then show ?thesis using that [of _ _ _ "if _ then 4 else 2"] h by (simp add: daemon_def run Let_def split: if_splits)
  next
    case n
    then show ?thesis using that h by (simp add: daemon_def internal_error_def Let_def)
  qed
qed

lemma verdict_zero: "verdict p = ([], 0) \<longleftrightarrow> second_signal_exit (po_signal p) = None \<and> po_finished p
    \<and> \<not> po_failed p \<and> second_signal_exit (po_last_signal p) = None"
  by (auto simp: verdict_def internal_error_def startup_error_def dest: second_signal_exit_codes split: option.splits)

lemma shut_down_zero: "(shut_down ok s = Some ([], 0)) = graceful_shutdown ok s"
proof (cases "signal_window (sc_window s)")
  case (Some ex)
  then show ?thesis using signal_window_Some [OF Some] by (auto simp: shut_down_def graceful_shutdown_def)
next
  case w: None
  show ?thesis
  proof (cases "second_signal_exit (sc_after_cleanup s)")
    case (Some ex)
    then show ?thesis using second_signal_exit_codes [OF Some] w by (auto simp: shut_down_def graceful_shutdown_def)
  next
    case None
    then show ?thesis using w
      by (cases "find decisive (sc_polls s)")
        (auto simp: shut_down_def graceful_shutdown_def drain_find verdict_zero internal_error_def startup_error_def)
  qed
qed

lemma startup_error_nonempty: "fst (startup_error c message ex) \<noteq> []" "snd (startup_error c message ex) = ex"
  by (simp_all add: startup_error_def newline_def)

text \<open>
  C29: The daemon ends with status 0 and without an error text exactly when it started up completely,
  was stopped by a signal, put its socket away, and saw all its connections end without a failure
  before the deadline and without a second signal. Its error stream then holds what opening the store
  printed: nothing for a store it created, one \<open>DIAGNOSTIC\<close> line for a store of version 3, three for one it
  migrated.
\<close>

theorem daemon_exit_zero_iff:
  "((dr_outcome (daemon lib d n) = Some ([], 0))
     = (\<exists>g. started_up lib d g \<and> loop_ended (dc_accepts d) = Some Signalled
          \<and> graceful_shutdown (cleaned_up d g) (dc_shutdown d)))
   \<and> (dr_outcome (daemon lib d n) = Some ([], 0) \<longrightarrow>
        (\<exists>f. dc_file d = Inr f \<and> dr_diagnostics (daemon lib d n) =
           (case schema_value f of
              None \<Rightarrow> []
            | Some v \<Rightarrow> if v = 3 then [passed_line] else if v = 2 then [passed_line, passed_line, passed_line]
                else [passed_line, passed_line, next_line])))"
proof (cases "\<exists>g. started_up lib d g")
  case True
  then obtain g where g: "started_up lib d g" by blast
  have one: "started_up lib d g' \<longleftrightarrow> g' = g" for g' using g by (auto simp: started_up_def)
  note s = daemon_started [OF g, of n]
  have "(dr_outcome (daemon lib d n) = Some ([], 0))
      = (loop_ended (dc_accepts d) = Some Signalled \<and> graceful_shutdown (cleaned_up d g) (dc_shutdown d))"
    using shut_down_zero [of "cleaned_up d g" "dc_shutdown d"] startup_error_nonempty
    by (auto simp: s(1) internal_error_def startup_error_def split: option.splits loop_end.splits)
  moreover have "\<exists>f. dc_file d = Inr f \<and> dr_diagnostics (daemon lib d n) = opened_lines (schema_value f)"
  proof -
    obtain p f where p: "opened_store lib d p = Inr f" "dr_diagnostics (daemon lib d n) = printed_opening lib d p"
      using s(4) by blast
    then obtain h where h: "checked_connection (dc_proc d) (dc_looks d) (dc_create d) (dc_file d) p = Inr h"
        "initialize (lb_sha lib) (lb_printable lib) (lb_engine lib) h = Inr f"
      by (auto simp: opened_store_def store_open_def and_then_Inr)
    then show ?thesis
      using p(2) opening_prints [OF h(2)] checked_connection_file [OF h(1)] h(1)
      by (simp add: printed_opening_def store_open_lines_def)
  qed
  ultimately show ?thesis unfolding one opened_lines_def by blast
next
  case False
  then obtain lines c message ex where s: "daemon lib d n = stopped lines (startup_error c message ex)" "ex \<in> {1, 2, 4}"
    using daemon_not_started [of lib d n] by metis
  then have "snd (startup_error c message ex) \<noteq> 0" by (auto simp: startup_error_nonempty(2))
  then show ?thesis using False s(1) by (auto simp: stopped_def)
qed

text \<open>What the daemon may exit with, and what it then has written to the error stream.\<close>

definition exit_ok :: "outcome \<Rightarrow> bool" where
  "exit_ok x = (snd x \<in> {0, 130, 143} \<and> fst x = []
     \<or> snd x \<in> {1, 2, 4, 124} \<and> (\<exists>c message. x = startup_error c message (snd x)))"

lemma exit_ok_error [simp]: "ex \<in> {1, 2, 4, 124} \<Longrightarrow> exit_ok (startup_error c message ex)"
  by (auto simp: exit_ok_def startup_error_nonempty(2))

lemma exit_ok_internal [simp]: "exit_ok (internal_error message)"
  by (simp add: internal_error_def)

lemma exit_ok_silent [simp]: "ex \<in> {0, 130, 143} \<Longrightarrow> exit_ok ([], ex)"
  by (simp add: exit_ok_def)

lemma exit_ok_verdict: "exit_ok (verdict p)"
  using second_signal_exit_codes by (auto simp: verdict_def split: option.splits)

lemma exit_ok_shut_down: "shut_down ok s = Some x \<Longrightarrow> exit_ok x"
  using second_signal_exit_codes signal_window_Some exit_ok_verdict
  by (auto simp: shut_down_def drain_find split: option.splits if_splits)

text \<open>
  Every exit of the daemon is one of the documented statuses: with no error text for 0, 130 or 143, or with 1,
  2, 4 or 124 and one line of error text.
\<close>

theorem daemon_exit_documented:
  assumes "dr_outcome (daemon lib d n) = Some x" shows "exit_ok x"
proof (cases "\<exists>g. started_up lib d g")
  case True
  then obtain g where "started_up lib d g" by blast
  from daemon_started(1) [OF this, of n] show ?thesis
    using assms exit_ok_shut_down by (auto split: option.splits loop_end.splits)
next
  case False
  then obtain lines c message ex where "daemon lib d n = stopped lines (startup_error c message ex)" "ex \<in> {1, 2, 4}"
    using daemon_not_started [of lib d n] by metis
  then show ?thesis using assms by (auto simp: stopped_def)
qed

section \<open>Peers\<close>

definition considered :: "(int \<times> accept_result) list \<Rightarrow> accept_result list" where
  "considered rs = map snd (takeWhile (\<lambda>(first, r). first = 0 \<and> r \<noteq> AcceptFailed) rs)"

text \<open>The peers of the clients among these that satisfy a condition on their status and credentials.\<close>

definition peers :: "(int \<Rightarrow> ucred \<Rightarrow> bool) \<Rightarrow> accept_result list \<Rightarrow> ucred list" where
  "peers P rs = concat (map (\<lambda>r. case r of Client s c \<Rightarrow> if P s c then [c] else [] | _ \<Rightarrow> []) rs)"

lemma accept_loop_peers:
  "length (fst (accept_loop me rs n)) = length (peers (\<lambda>s c. s \<noteq> 0 \<or> uc_uid c \<noteq> me) (considered rs))
   \<and> fst (snd (accept_loop me rs n)) = peers (\<lambda>s c. s = 0 \<and> uc_uid c = me) (considered rs)"
proof (induction rs arbitrary: n)
  case (Cons x rs)
  obtain first r where x: "x = (first, r)" by (cases x)
  show ?case
    using Cons by (cases r) (auto simp: x considered_def peers_def authorize_peer_def split_beta Let_def)
qed (simp add: considered_def peers_def)

definition refusal_understood :: "str \<Rightarrow> bool" where
  "refusal_understood r = (\<exists>i. valid_uuid i \<and> response_error_code r i = Some ''authorization.peer_uid''
     \<and> (\<forall>kind j. \<not> response_matches r kind j))"

lemma refusal_text:
  assumes "unat n + 2 < 2 ^ 48"
  shows "refusal_understood (fst (response_error (fst (new_id n)) ''authorization.peer_uid''
      ''peer authorization failed'' (n + 1)))"
proof -
  note w = unat_add_less [OF assms]
  have ids: "valid_uuid (fst (new_id n))" "valid_uuid (fst (new_id (n + 1)))"
    using assms w by (simp_all add: new_id_valid)
  have texts: "utf8_ok ''authorization.peer_uid'' \<and> utf8_ok ''peer authorization failed''
      \<and> ''authorization.peer_uid'' \<in> set locked_codes
      \<and> locked_retryable ''authorization.peer_uid'' = Some False" by code_simp
  note e = error_reply_code [OF ids(2) plain_utf8 [OF valid_uuid_plain [OF ids(1)]],
      of "''authorization.peer_uid''" "''peer authorization failed''" False]
  show ?thesis
    unfolding refusal_understood_def response_error_render fst_conv
    using e texts ids(1) by (intro exI [of _ "fst (new_id n)"]) auto
qed

text \<open>
  C30: Only peers of the daemon's own user get a connection: of the clients that connect before the
  daemon stops accepting, exactly those for which the system names a peer with the daemon's user are handed
  to a handler, in the order in which they came, and each other one gets exactly one message, which the client
  reads as \<open>authorization.peer_uid\<close> and nothing else.
\<close>

theorem peers_authorized_or_refused:
  assumes "started_up lib d g" "unat n + 2 * length (dc_accepts d) + 2 < 2 ^ 48"
  shows "dr_started (daemon lib d n) = peers (\<lambda>status c. status = 0 \<and> uc_uid c = dc_uid d) (considered (dc_accepts d))
    \<and> (\<forall>c\<in>set (dr_started (daemon lib d n)). uc_uid c = dc_uid d)
    \<and> length (dr_refusals (daemon lib d n))
        = length (peers (\<lambda>status c. status \<noteq> 0 \<or> uc_uid c \<noteq> dc_uid d) (considered (dc_accepts d)))
    \<and> list_all refusal_understood (dr_refusals (daemon lib d n))"
proof -
  have "list_all refusal_understood (fst (accept_loop me rs m))" if "unat m + 2 * length rs < 2 ^ 48" for me rs m
    using that
  proof (induction rs arbitrary: m)
    case (Cons x rs)
    obtain first r where x: "x = (first, r)" by (cases x)
    have m: "unat m + 2 < 2 ^ 48" using Cons.prems by simp
    have "unat (m + 2) + 2 * length rs < 2 ^ 48" "unat m + 2 * length rs < 2 ^ 48"
      using Cons.prems unat_add_less [OF m] by simp_all
    then show ?case
      using Cons.IH refusal_text [OF m]
      by (cases r) (auto simp: x split_beta Let_def response_error_render add.assoc authorize_peer_def)
  qed simp
  moreover have "unat (n + 1) = unat n + 1" using unat_add_less [of n] assms(2) by simp
  ultimately have "list_all refusal_understood (fst (accept_loop (dc_uid d) (dc_accepts d) (n + 1)))"
    using assms(2) by simp
  moreover have "\<forall>c\<in>set (peers (\<lambda>s c. s = 0 \<and> uc_uid c = me) rs). uc_uid c = me" for me rs
    by (auto simp: peers_def split: accept_result.splits if_splits)
  moreover note accept_loop_peers [of "dc_uid d" "dc_accepts d" "n + 1"]
  ultimately show ?thesis unfolding daemon_started(2,3) [OF assms(1), of n] by metis
qed

section \<open>A concrete run\<close>

definition demo_poll :: "bool \<Rightarrow> bool \<Rightarrow> poll" where
  "demo_poll window finished = \<lparr>po_signal = 0, po_in_window = window, po_finished = finished, po_failed = False,
     po_last_signal = 0, po_past_deadline = False\<rparr>"

definition demo_libraries :: libraries where
  "demo_libraries = \<lparr>lb_sha = demo_sha, lb_printable = (\<lambda>_. True), lb_hash_order = id, lb_engine = sqlite\<rparr>"

definition demo_peer :: "nat \<Rightarrow> ucred" where
  "demo_peer u = \<lparr>uc_pid = 7, uc_uid = u, uc_gid = 0\<rparr>"

definition demo_state_fs :: "open_look \<Rightarrow> fs" where
  "demo_state_fs look = \<lparr>canonicalize = (\<lambda>p. Some p),
     symlink_metadata = (\<lambda>p. if p = ''/h/.local/state/akashic/artifacts.sqlite''
        then (if look = AtStat then NotFound else Found store_meta) else Found demo_private_dir),
     metadata = (\<lambda>p. None), open_nofollow = (\<lambda>p. None)\<rparr>"

definition demo_calls :: "nat daemon_calls" where
  "demo_calls = \<lparr>dc_handlers = True, dc_uid = 1000,
     dc_env = demo_run_env\<lparr>re_home := Some ''/h''\<rparr>, dc_fs = demo_run_fs, dc_dirs = demo_walks, dc_lock = demo_lock,
     dc_state_dirs = demo_dirs\<lparr>d_meta := (\<lambda>h. Some demo_private_dir)\<rparr>, dc_proc = (\<lambda>_. Some demo_status),
     dc_looks = demo_state_fs, dc_create = Created, dc_file = Inr empty_file, dc_bind = demo_bind, dc_nonblocking = True,
     dc_accepts = [(0, WouldBlock), (0, Client 0 (demo_peer 1001)), (0, Client 0 (demo_peer 1000)), (15, WouldBlock)],
     dc_shutdown = \<lparr>sc_window = [0], sc_after_cleanup = 0,
       sc_polls = [demo_poll True False, demo_poll False False, demo_poll False True]\<rparr>,
     dc_process = (42, 1), dc_entries = [sock \<mapsto> identity (demo_socket 11)], dc_others = (\<lambda>k E. E)\<rparr>"

lemma demo_store_path: "store_path demo_calls = Inr ''/h/.local/state/akashic/artifacts.sqlite''"
  by code_simp

lemma demo_acquires: "acquired demo_calls = Inr (new_guard 3)"
  by code_simp

lemma demo_binds: "bind_socket (dc_uid demo_calls) (dc_bind demo_calls) (new_guard 3) = (Inr (), demo_guard)"
  using demo_bound by (simp add: demo_calls_def)

lemma demo_cleans_up: "cleaned_up demo_calls demo_guard"
  by code_simp

lemma demo_opens: "opened_store demo_libraries demo_calls ''/h/.local/state/akashic/artifacts.sqlite'' = Inr (fresh_file demo_sha)"
proof -
  let ?p = "''/h/.local/state/akashic/artifacts.sqlite''"
  have "validate_parent (demo_state_fs AtParent) ?p = Inr ()" "stat_or_create demo_state_fs Created ?p = Inr store_meta"
    "validate_store_metadata 1000 store_meta = Inr ()"
    by code_simp+
  moreover have "symlink_metadata (demo_state_fs AtOpened) ?p = Found store_meta" by (simp add: demo_state_fs_def)
  ultimately show ?thesis
    using fresh_run
    by (simp add: opened_store_def demo_calls_def demo_libraries_def store_open_def checked_connection_def from_metadata_def demo_uid)
qed

lemma demo_started: "started_up demo_libraries demo_calls demo_guard"
proof -
  have "dc_handlers demo_calls" "dc_nonblocking demo_calls" by (simp_all add: demo_calls_def)
  then show ?thesis
    unfolding started_up_def using demo_acquires demo_store_path demo_opens demo_binds by blast
qed

lemma demo_graceful: "loop_ended (dc_accepts demo_calls) = Some Signalled"
  "graceful_shutdown (cleaned_up demo_calls demo_guard) (dc_shutdown demo_calls)"
  using demo_cleans_up
  by (simp_all add: demo_calls_def demo_poll_def loop_ended_def graceful_shutdown_def decisive_def second_signal_exit_def
      SIGINT_def SIGTERM_def)

lemma demo_run_ends: "dr_outcome (daemon demo_libraries demo_calls n) = Some ([], 0)"
  "dr_diagnostics (daemon demo_libraries demo_calls n) = []"
proof -
  show "dr_outcome (daemon demo_libraries demo_calls n) = Some ([], 0)"
    using demo_graceful by (simp add: daemon_started(1) [OF demo_started] shut_down_zero)
  obtain p where p: "dr_diagnostics (daemon demo_libraries demo_calls n) = printed_opening demo_libraries demo_calls p"
    using daemon_started(4) [OF demo_started] by blast
  have "initialize_lines sha pr ho en empty_file = []" for sha pr ho en
  proof -
    have "schema_value empty_file = None" by code_simp
    then show ?thesis by (simp add: initialize_lines_def)
  qed
  then show "dr_diagnostics (daemon demo_libraries demo_calls n) = []"
    using checked_connection_file [of "dc_proc demo_calls" "dc_looks demo_calls" "dc_create demo_calls" "dc_file demo_calls" p]
    unfolding p printed_opening_def store_open_lines_def after_def
    by (auto simp: demo_calls_def split: sum.split)
qed

theorem daemon_exit_zero_iff_witness:
  "dr_outcome (daemon demo_libraries demo_calls 1) = Some ([], 0) \<and> dr_diagnostics (daemon demo_libraries demo_calls 1) = []"
proof -
  have "schema_value empty_file = None" by code_simp
  moreover have "dc_file demo_calls = Inr empty_file" by (simp add: demo_calls_def)
  ultimately show ?thesis
    using daemon_exit_zero_iff [of demo_libraries demo_calls 1] demo_started demo_graceful by auto
qed

theorem peers_authorized_or_refused_witness:
  "dr_started (daemon demo_libraries demo_calls 1) = [demo_peer 1000]
   \<and> list_all refusal_understood (dr_refusals (daemon demo_libraries demo_calls 1))"
proof -
  have "length (dc_accepts demo_calls) = 4"
    "peers (\<lambda>status c. status = 0 \<and> uc_uid c = dc_uid demo_calls) (considered (dc_accepts demo_calls)) = [demo_peer 1000]"
    by (simp_all add: demo_calls_def considered_def peers_def demo_peer_def)
  then show ?thesis using peers_authorized_or_refused [OF demo_started, of 1] by simp
qed

end
