(* ===== verification/Cli.thy ===== *)
theory Cli
  imports Lines Daemon
begin

text \<open>
  The command line of \<open>src/src/main.rs\<close>: parsing the arguments, the exchange of one request with the
  daemon, the three clients \<open>jsonl\<close>, \<open>tui\<close> and \<open>doctor\<close>, and \<open>main\<close>. The other end of the
  connection is a parameter, a function from its state and the bytes written to what it sends back;
  the last section puts the daemon of this library there.
\<close>

section \<open>Arguments\<close>

datatype cli_mode = VersionMode | DaemonMode | TuiMode | DoctorMode | JsonlMode

record parsed_args =
  ar_mode :: cli_mode
  ar_overrides :: overrides

definition no_overrides :: overrides where
  "no_overrides = \<lparr>ov_log_level = None, ov_shutdown_timeout_seconds = None, ov_jsonl_max_line_bytes = None\<rparr>"

definition set_flag :: "str \<Rightarrow> str \<Rightarrow> overrides \<Rightarrow> overrides option" where
  "set_flag flag v ov =
     (if flag = ''--log-level'' then Some (ov\<lparr>ov_log_level := Some v\<rparr>)
      else if flag = ''--shutdown-timeout-seconds'' then Some (ov\<lparr>ov_shutdown_timeout_seconds := Some v\<rparr>)
      else if flag = ''--jsonl-max-line-bytes'' then Some (ov\<lparr>ov_jsonl_max_line_bytes := Some v\<rparr>)
      else None)"

fun parse_flags :: "str list \<Rightarrow> overrides \<Rightarrow> (str list \<times> overrides) option" where
  "parse_flags [] ov = Some ([], ov)"
| "parse_flags [flag] ov = (if starts_with ''--'' flag then None else Some ([flag], ov))"
| "parse_flags (flag # v # args) ov =
     (if \<not> starts_with ''--'' flag then Some (flag # v # args, ov)
      else if starts_with ''--'' v then None
      else (case set_flag flag v ov of None \<Rightarrow> None | Some ov1 \<Rightarrow> parse_flags args ov1))"

definition parse_mode :: "str list \<Rightarrow> cli_mode option" where
  "parse_mode remaining =
     (if remaining = [''version''] then Some VersionMode
      else if remaining = [''daemon''] then Some DaemonMode
      else if remaining = [''tui''] then Some TuiMode
      else if remaining = [''doctor''] then Some DoctorMode
      else if remaining = [''run'', ''--jsonl''] then Some JsonlMode
      else None)"

definition parse_args :: "str list \<Rightarrow> parsed_args option" where
  "parse_args args =
     (case parse_flags args no_overrides of None \<Rightarrow> None
      | Some (remaining, ov) \<Rightarrow>
         (case parse_mode remaining of None \<Rightarrow> None
          | Some m \<Rightarrow> Some \<lparr>ar_mode = m, ar_overrides = ov\<rparr>))"

section \<open>One request\<close>

text \<open>
  What the other end does with what is written to it: the write fails, or it sends some bytes, after
  which reading may fail, and goes on.
\<close>

datatype 's sent = WriteFailed | Sent bytes bool 's

type_synonym 's peer = "'s \<Rightarrow> bytes \<Rightarrow> 's sent"

record 's connection =
  cn_peer :: 's
  cn_unread :: bytes

definition read_line :: "bytes \<Rightarrow> bytes \<times> bytes" where
  "read_line s = (case dropWhile (\<lambda>c. c \<noteq> NL) s of
       [] \<Rightarrow> (s, [])
     | c # r \<Rightarrow> (takeWhile (\<lambda>c. c \<noteq> NL) s @ [c], r))"

definition request :: "'s peer \<Rightarrow> 's connection \<Rightarrow> str \<Rightarrow> str option \<times> 's connection" where
  "request peer c body =
     (case peer (cn_peer c) body of
        WriteFailed \<Rightarrow> (None, c)
      | Sent bs broken s \<Rightarrow>
         (let (line, rest) = read_line (cn_unread c @ bs) in
          (if NL \<notin> set line \<and> broken \<or> \<not> utf8_ok line then None else Some line,
           \<lparr>cn_peer = s, cn_unread = rest\<rparr>)))"

text \<open>What surrounds a client: the files as \<open>probe\<close> sees them at each call, and the daemon's socket.\<close>

record 's world =
  w_uid :: nat
  w_env :: runtime_env
  w_probe_fs :: fs
  w_look_fs :: fs
  w_connect_fs :: fs
  w_exists :: "str \<Rightarrow> bool"
  w_connect :: "str \<Rightarrow> 's option"
  w_clone :: bool
  w_peer :: "'s peer"

definition connect :: "'s world \<Rightarrow> int + 's connection" where
  "connect w =
     (case probe (w_uid w) (w_connect_fs w) (w_env w) of
        Inl _ \<Rightarrow> Inl 4
      | Inr paths \<Rightarrow>
         (case w_connect w (rp_socket paths) of
            None \<Rightarrow> Inl 4 | Some s \<Rightarrow> Inr \<lparr>cn_peer = s, cn_unread = []\<rparr>))"

text \<open>What a process leaves: its two streams and its exit status.\<close>

record process =
  ps_out :: str
  ps_err :: str
  ps_status :: int

definition failed :: "outcome \<Rightarrow> process" where
  "failed x = \<lparr>ps_out = [], ps_err = fst x, ps_status = snd x\<rparr>"

definition println :: "str \<Rightarrow> str" where
  "println s = s @ newline"

section \<open>tui\<close>

fun tui_input :: "str option list \<Rightarrow> str option list" where
  "tui_input [] = []"
| "tui_input (None # ls) = ls"
| "tui_input (Some line # ls) =
     (if trim line \<in> {''q'', ''quit'', ''c'', ''cancel''} then ls
      else if line = [] then ls
      else tui_input ls)"

definition or_malformed :: "str option \<Rightarrow> str" where
  "or_malformed c = (case c of Some x \<Rightarrow> x | None \<Rightarrow> ''protocol.malformed'')"

definition tui :: "'s world \<Rightarrow> str option list \<Rightarrow> 64 word \<Rightarrow> process \<times> str option list" where
  "tui w input n =
     (case connect w of
        Inl ex \<Rightarrow> (failed (startup_error ''lifecycle.daemon_unavailable'' ''daemon unavailable'' ex), input)
      | Inr c \<Rightarrow>
      if \<not> w_clone w then (failed (startup_error ''internal.unexpected'' ''internal error'' 1), input)
      else (let ((hello, hello_id), n1) = handshake_request ''tui'' n in
        case request (w_peer w) c hello of
          (None, _) \<Rightarrow> (failed (startup_error ''protocol.malformed'' ''protocol handshake failed'' 3), input)
        | (Some response, c1) \<Rightarrow>
          if \<not> response_matches response ''handshake.response'' hello_id then
            (let x = or_malformed (response_error_code response hello_id) in
             (failed (startup_error x ''protocol handshake failed'' (startup_exit_for_code x)), input))
          else (let ((health, health_id), n2) = health_request n1 in
            case request (w_peer w) c1 health of
              (None, _) \<Rightarrow> (failed (startup_error ''protocol.malformed'' ''protocol health failed'' 3), input)
            | (Some response, _) \<Rightarrow>
              if \<not> response_matches response ''health.response'' health_id then
                (let x = or_malformed (response_error_code response health_id) in
                 (failed (startup_error x ''protocol health failed'' (startup_exit_for_code x)), input))
              else (\<lparr>ps_out = println ''Akashic daemon'' @ println (''Version: '' @ VERSION)
                        @ println ''Health: ok'', ps_err = [], ps_status = 0\<rparr>, tui_input input))))"

section \<open>doctor\<close>

definition check :: "str \<Rightarrow> str \<Rightarrow> str option \<Rightarrow> str \<Rightarrow> str" where
  \<open>check name status c message =
     ''{"name":'' @ json_quote name @ '',"status":'' @ json_quote status
     @ '',"code":'' @ (case c of None \<Rightarrow> ''null'' | Some x \<Rightarrow> json_quote x)
     @ '',"message":'' @ json_quote message @ ''}''\<close>

definition doctor_result :: "str \<Rightarrow> str \<Rightarrow> str" where
  \<open>doctor_result status checks =
     println (''{"status":"'' @ status @ ''","version":"'' @ VERSION @ ''","protocol":{"identifier":"''
       @ PROTOCOL @ ''","version":1},"checks":['' @ checks @ '']}'')\<close>

definition doctor_config_error :: "config_error \<Rightarrow> process" where
  "doctor_config_error e =
     \<lparr>ps_out = doctor_result ''error'' (check ''config'' ''error'' (Some (config_error_code e)) (config_error_message e)),
      ps_err = [], ps_status = 1\<rparr>"

definition protocol_failure_message :: "str \<Rightarrow> str" where
  "protocol_failure_message c =
     (if c = ''authorization.peer_uid'' then ''peer authorization failed''
      else if c = ''protocol.unsupported_version'' then ''unsupported protocol''
      else if c = ''protocol.oversized'' then ''request too large''
      else ''protocol failure'')"

definition doctor_protocol_check :: "str \<Rightarrow> str \<Rightarrow> str \<Rightarrow> str \<Rightarrow> str option" where
  "doctor_protocol_check name response expected_kind correlation_id =
     (if response_matches response expected_kind correlation_id then None
      else (let c = or_malformed (response_error_code response correlation_id) in
        Some (check name ''error'' (Some c) (protocol_failure_message c))))"

definition doctor_error :: "str \<Rightarrow> str \<times> int \<times> str" where
  "doctor_error c = (''error'', 1, c)"

definition doctor_daemon :: "'s world \<Rightarrow> 's connection \<Rightarrow> 64 word \<Rightarrow> str \<times> int \<times> str" where
  "doctor_daemon w c n =
     (let ((hello, hello_id), n1) = handshake_request ''doctor'' n in
      case request (w_peer w) c hello of
        (None, _) \<Rightarrow>
          doctor_error (check ''handshake'' ''error'' (Some ''protocol.malformed'') ''protocol failure'')
      | (Some response, c1) \<Rightarrow>
         (case doctor_protocol_check ''handshake'' response ''handshake.response'' hello_id of
            Some failure \<Rightarrow> doctor_error failure
          | None \<Rightarrow>
             (let ((health, health_id), n2) = health_request n1 in
              case request (w_peer w) c1 health of
                (None, _) \<Rightarrow>
                  doctor_error (check ''health'' ''error'' (Some ''protocol.malformed'') ''protocol failure'')
              | (Some response, _) \<Rightarrow>
                 (case doctor_protocol_check ''health'' response ''health.response'' health_id of
                    Some failure \<Rightarrow> doctor_error failure
                  | None \<Rightarrow> (''ok'', 0, '','' @ check ''daemon'' ''ok'' None ''daemon available''
                       @ '','' @ check ''health'' ''ok'' None ''health ok'')))))"

definition doctor_socket :: "'s world \<Rightarrow> str \<Rightarrow> 64 word \<Rightarrow> str \<times> int \<times> str" where
  "doctor_socket w socket n =
     (if \<not> w_exists w socket then
        (''degraded'', 4, '','' @ check ''daemon'' ''warning'' (Some ''lifecycle.daemon_unavailable'') ''daemon unavailable'')
      else if \<not> (case symlink_metadata (w_look_fs w) socket of Found m \<Rightarrow> kind m = Socket | _ \<Rightarrow> False) then
        (''error'', 1, check ''socket'' ''error'' (Some ''protocol.malformed'') ''daemon socket is not a socket'')
      else case connect w of
        Inl _ \<Rightarrow> (''error'', 1, check ''socket'' ''error'' (Some ''protocol.malformed'') ''socket unavailable'')
      | Inr c \<Rightarrow>
          if \<not> w_clone w then
            (''error'', 1, check ''socket'' ''error'' (Some ''protocol.malformed'') ''socket unavailable'')
          else doctor_daemon w c n)"

definition doctor :: "'s world \<Rightarrow> config \<Rightarrow> 64 word \<Rightarrow> process" where
  "doctor w config n =
     (let (status, ex, found) =
            (case probe (w_uid w) (w_probe_fs w) (w_env w) of
               Inl e \<Rightarrow> (''error'', 1, check ''runtime'' ''error'' (Some (runtime_error_code e)) (runtime_error_message e))
             | Inr paths \<Rightarrow> doctor_socket w (rp_socket paths) n);
          checks = check ''config'' ''ok'' None (summary config) @ '','' @ dropWhile (\<lambda>c. c = CHR '','') found
      in \<lparr>ps_out = doctor_result status checks, ps_err = [], ps_status = ex\<rparr>)"

section \<open>jsonl\<close>

definition trim_end :: "str \<Rightarrow> str" where
  "trim_end s = of_chars (rev (dropWhile is_whitespace (rev (chars s))))"

function relay :: "'s peer \<Rightarrow> nat \<Rightarrow> frame_reader \<Rightarrow> read_outcome list \<Rightarrow> 's connection \<Rightarrow> 64 word
    \<Rightarrow> str \<times> int" where
  "relay peer limit r s c n =
     (case next_frame limit r s of
        (None, r1, s1) \<Rightarrow> ([], 3)
      | (Some f, r1, s1) \<Rightarrow>
          if f = End then ([], 0)
          else if f = Pending then relay peer limit r1 s1 c n
          else (case (case f of Complete line \<Rightarrow> if utf8_ok line then Some line else None | _ \<Rightarrow> None) of
              Some line \<Rightarrow>
                (case request peer c line of
                   (None, _) \<Rightarrow> ([], 3)
                 | (Some response, c1) \<Rightarrow>
                     (let (out, ex) = relay peer limit r1 s1 c1 n in (response @ out, ex)))
            | None \<Rightarrow>
                (let (e, n1) = frame_error (case f of Complete _ \<Rightarrow> InvalidUtf8 False | _ \<Rightarrow> f) n in
                 if terminal f then (println (trim_end e), 0)
                 else (let (out, ex) = relay peer limit r1 s1 c n1 in (println (trim_end e) @ out, ex)))))"
  by pat_completeness auto
termination
  by (relation "measure (\<lambda>(peer, limit, r, s, c, n). left_to_read r s)")
    (auto intro!: left_to_read_less [OF sym])

declare relay.simps [simp del]

definition jsonl :: "'s world \<Rightarrow> config \<Rightarrow> read_outcome list \<Rightarrow> 64 word \<Rightarrow> process" where
  "jsonl w config input n =
     (case connect w of
        Inl ex \<Rightarrow> failed (startup_error ''lifecycle.daemon_unavailable'' ''daemon unavailable'' ex)
      | Inr c \<Rightarrow>
          if \<not> w_clone w then failed (startup_error ''internal.unexpected'' ''internal error'' 1)
          else (let (out, ex) = relay (w_peer w) (jsonl_max_line_bytes config) new_reader input c n in
            \<lparr>ps_out = out, ps_err = [], ps_status = ex\<rparr>))"

section \<open>main\<close>

text \<open>
  \<open>std::env::args\<close> panics on an argument that is not valid UTF-8, and \<open>print!\<close> and \<open>eprintln!\<close> panic when
  their stream fails; a panic of the main thread ends the process with the runtime's own message and
  status 101. A stream is described by the texts it takes: \<open>takes_out s\<close> when every write of a run
  that prints \<open>s\<close> succeeds. The clients' input, keyboard or pipe, and the daemon's calls are only used
  in their modes.
\<close>

datatype ending = Exits process | Panics | Runs

record streams =
  takes_out :: "str \<Rightarrow> bool"
  takes_err :: "str \<Rightarrow> bool"

definition ends :: "streams \<Rightarrow> process \<Rightarrow> ending" where
  "ends st p =
     (if (ps_out p = [] \<or> takes_out st (ps_out p)) \<and> (ps_err p = [] \<or> takes_err st (ps_err p))
      then Exits p else Panics)"

text \<open>The daemon prints the diagnostics of the store before anything else, and they stay on its error stream.\<close>

definition printed :: "str list \<Rightarrow> str" where
  "printed lines = concat (map println lines)"

definition daemon_ends :: "streams \<Rightarrow> daemon_run \<Rightarrow> ending" where
  "daemon_ends st r =
     (let noise = printed (dr_diagnostics r) in
      case dr_outcome r of
        Some x \<Rightarrow> ends st (failed (noise @ fst x, snd x))
      | None \<Rightarrow> if noise = [] \<or> takes_err st noise then Runs else Panics)"

definition main :: "streams \<Rightarrow> str list \<Rightarrow> process_env \<Rightarrow> 's world \<Rightarrow> libraries \<Rightarrow> 'h daemon_calls \<Rightarrow> str option list
    \<Rightarrow> read_outcome list \<Rightarrow> 64 word \<Rightarrow> ending" where
  "main st args env w lib d keys input n =
     (if \<not> list_all utf8_ok args then Panics
      else case parse_args args of
        None \<Rightarrow> ends st (failed usage_error)
      | Some parsed \<Rightarrow>
      if ar_mode parsed = VersionMode then
        (case validate_overrides (ar_overrides parsed) of
           Inl e \<Rightarrow> ends st (failed (startup_error (config_error_code e) (config_error_message e) 2))
         | Inr _ \<Rightarrow> ends st \<lparr>ps_out = println (''akashic '' @ VERSION), ps_err = [], ps_status = 0\<rparr>)
      else case resolve env (ar_overrides parsed) of
        Inl e \<Rightarrow>
          ends st (if ar_mode parsed = DoctorMode then doctor_config_error e
                 else failed (startup_error (config_error_code e) (config_error_message e) 2))
      | Inr config \<Rightarrow>
         (case ar_mode parsed of
            DaemonMode \<Rightarrow> daemon_ends st (daemon lib d n)
          | TuiMode \<Rightarrow> ends st (fst (tui w keys n))
          | DoctorMode \<Rightarrow> ends st (doctor w config n)
          | JsonlMode \<Rightarrow> ends st (jsonl w config input n)
          | VersionMode \<Rightarrow> ends st \<lparr>ps_out = println (''akashic '' @ VERSION), ps_err = [], ps_status = 0\<rparr>))"

section \<open>Which command lines are accepted\<close>

definition flag_args :: "(str \<times> str) list \<Rightarrow> str list" where
  "flag_args ps = concat (map (\<lambda>(flag, v). [flag, v]) ps)"

definition flag_ok :: "str \<times> str \<Rightarrow> bool" where
  "flag_ok p = (fst p \<in> {''--log-level'', ''--shutdown-timeout-seconds'', ''--jsonl-max-line-bytes''}
     \<and> \<not> starts_with ''--'' (snd p))"

text \<open>Each override is the last value given for its flag.\<close>

definition given :: "(str \<times> str) list \<Rightarrow> overrides \<Rightarrow> overrides" where
  "given ps ov = (let last_of = (\<lambda>flag old. case map_of (rev ps) flag of Some v \<Rightarrow> Some v | None \<Rightarrow> old) in
     \<lparr>ov_log_level = last_of ''--log-level'' (ov_log_level ov),
      ov_shutdown_timeout_seconds = last_of ''--shutdown-timeout-seconds'' (ov_shutdown_timeout_seconds ov),
      ov_jsonl_max_line_bytes = last_of ''--jsonl-max-line-bytes'' (ov_jsonl_max_line_bytes ov)\<rparr>)"

fun mode_args :: "cli_mode \<Rightarrow> str list" where
  "mode_args VersionMode = [''version'']"
| "mode_args DaemonMode = [''daemon'']"
| "mode_args TuiMode = [''tui'']"
| "mode_args DoctorMode = [''doctor'']"
| "mode_args JsonlMode = [''run'', ''--jsonl'']"

lemma flag_args_simps [simp]:
  "flag_args [] = []" "flag_args ((flag, v) # ps) = flag # v # flag_args ps"
  by (simp_all add: flag_args_def)

lemma given_Nil [simp]: "given [] ov = ov"
  by (simp add: given_def)

lemma set_flag_given: "set_flag flag v ov = Some ov1 \<Longrightarrow> given ps ov1 = given ((flag, v) # ps) ov"
  by (auto simp: set_flag_def given_def Let_def map_add_def split: if_splits option.splits)

lemma set_flag_ok: "set_flag flag v ov \<noteq> None \<longleftrightarrow> flag \<in> fst ` {p. flag_ok p}"
proof -
  have "flag \<in> fst ` {p. flag_ok p}
      \<longleftrightarrow> flag \<in> {''--log-level'', ''--shutdown-timeout-seconds'', ''--jsonl-max-line-bytes''}"
    by (auto simp: flag_ok_def starts_with_def image_iff intro!: exI [of _ "[]"])
  then show ?thesis by (simp add: set_flag_def)
qed

lemma flag_ok_set: "flag_ok (flag, v) \<longleftrightarrow> \<not> starts_with ''--'' v \<and> set_flag flag v ov \<noteq> None"
  by (auto simp: flag_ok_def set_flag_def)

lemma flag_ok_dashes: "flag_ok p \<Longrightarrow> starts_with ''--'' (fst p)"
  by (auto simp: flag_ok_def starts_with_def)

definition no_flag :: "str list \<Rightarrow> bool" where
  "no_flag args = (case args of [] \<Rightarrow> True | a # _ \<Rightarrow> \<not> starts_with ''--'' a)"

lemma parse_flags_sound:
  "parse_flags args ov = Some (rest, ov1) \<Longrightarrow>
   \<exists>ps. args = flag_args ps @ rest \<and> list_all flag_ok ps \<and> ov1 = given ps ov \<and> no_flag rest"
proof (induction args ov rule: parse_flags.induct)
  case (3 flag v args ov)
  show ?case
  proof (cases "starts_with ''--'' flag")
    case False
    then show ?thesis using 3(2) by (intro exI [of _ "[]"]) (auto simp: no_flag_def)
  next
    case True
    then have v: "\<not> starts_with ''--'' v" using 3(2) by (auto split: if_splits)
    obtain ov2 where s: "set_flag flag v ov = Some ov2" "parse_flags args ov2 = Some (rest, ov1)"
      using 3(2) True v by (auto split: option.splits)
    obtain ps where ps: "args = flag_args ps @ rest" "list_all flag_ok ps" "ov1 = given ps ov2" "no_flag rest"
      using 3(1) [OF _ v s] True by auto
    have "flag_ok (flag, v)" using flag_ok_set [of flag v ov] v s(1) by simp
    then show ?thesis
      using ps set_flag_given [OF s(1)] by (intro exI [of _ "(flag, v) # ps"]) simp
  qed
qed (auto simp: no_flag_def intro!: exI [of _ "[]"] split: if_splits)

lemma parse_flags_complete:
  "list_all flag_ok ps \<Longrightarrow> no_flag rest \<Longrightarrow> parse_flags (flag_args ps @ rest) ov = Some (rest, given ps ov)"
proof (induction ps arbitrary: ov)
  case Nil
  then show ?case by (cases rest rule: remdups_adj.cases) (auto simp: no_flag_def)
next
  case (Cons p ps)
  obtain flag v where p: "p = (flag, v)" by (cases p)
  have ok: "flag_ok (flag, v)" using Cons.prems p by simp
  then obtain ov1 where s: "set_flag flag v ov = Some ov1" "\<not> starts_with ''--'' v"
    using flag_ok_set [of flag v ov] by auto
  show ?case
    using Cons.IH [of ov1] Cons.prems p s flag_ok_dashes [OF ok] set_flag_given [OF s(1), of ps] by simp
qed

lemma parse_mode_iff: "parse_mode args = Some m \<longleftrightarrow> args = mode_args m"
  by (cases m) (auto simp: parse_mode_def)

lemma mode_args_no_flag: "no_flag (mode_args m)"
  by (cases m) (auto simp: no_flag_def starts_with_def)

text \<open>
  C40: The command lines that are accepted are exactly these: any number of the three flags, each with
  a value that does not look like a flag, followed by one of the five commands and nothing else. The
  parsed settings are, for each flag, the last value given for it.
\<close>

theorem parse_args_iff:
  "(parse_args args = Some p) =
     (\<exists>ps. args = flag_args ps @ mode_args (ar_mode p) \<and> list_all flag_ok ps
        \<and> ar_overrides p = given ps no_overrides)"
proof
  assume "parse_args args = Some p"
  then obtain rest where a: "parse_flags args no_overrides = Some (rest, ar_overrides p)"
      "parse_mode rest = Some (ar_mode p)"
    by (auto simp: parse_args_def split: option.splits)
  then show "\<exists>ps. args = flag_args ps @ mode_args (ar_mode p) \<and> list_all flag_ok ps
      \<and> ar_overrides p = given ps no_overrides"
    using parse_flags_sound [OF a(1)] by (auto simp: parse_mode_iff)
next
  assume "\<exists>ps. args = flag_args ps @ mode_args (ar_mode p) \<and> list_all flag_ok ps
      \<and> ar_overrides p = given ps no_overrides"
  then obtain ps where ps: "args = flag_args ps @ mode_args (ar_mode p)" "list_all flag_ok ps"
      "ar_overrides p = given ps no_overrides" by blast
  then show "parse_args args = Some p"
    using parse_flags_complete [OF ps(2) mode_args_no_flag]
    by (simp add: parse_args_def parse_mode_iff [THEN iffD2])
qed

section \<open>How the program ends\<close>

text \<open>Given what was printed to the error stream before: an exit with a documented status and output.\<close>

definition ended_well :: "str \<Rightarrow> process \<Rightarrow> bool" where
  "ended_well noise p = (ps_status p \<in> {0, 1, 2, 3, 4, 124, 130, 143}
     \<and> (ps_err p = noise \<or> ps_out p = [] \<and> ps_status p \<noteq> 0
          \<and> (\<exists>c message retryable. ps_err p = noise @ error_text c message retryable @ newline)))"

lemma ended_failed [simp]:
  "ex \<in> {1, 2, 3, 4, 124} \<Longrightarrow> ended_well [] (failed (startup_error c message ex))"
  by (auto simp: ended_well_def failed_def startup_error_def)

lemma exit_for_code: "startup_exit_for_code c \<in> {1, 2, 3, 4, 124}"
  by (simp add: startup_exit_for_code_def)

lemma ended_usage: "ended_well [] (failed usage_error)"
  by (auto simp: ended_well_def failed_def usage_error_def)

lemma ended_silent [simp]: "ps_err p = [] \<Longrightarrow> ps_status p \<in> {0, 1, 2, 3, 4, 124, 130, 143} \<Longrightarrow> ended_well [] p"
  by (simp add: ended_well_def)

lemma ended_daemon: "exit_ok x \<Longrightarrow> ended_well noise (failed (noise @ fst x, snd x))"
  by (cases x) (auto simp: exit_ok_def ended_well_def failed_def startup_error_def)

lemma connect_error: "connect w = Inl ex \<Longrightarrow> ex = 4"
  by (auto simp: connect_def split: sum.splits option.splits)

lemma ended_tui: "ended_well [] (fst (tui w keys n))"
  using connect_error [of w] exit_for_code
  by (auto simp: tui_def Let_def split_beta split: sum.splits option.splits)

lemma relay_status: "snd (relay peer limit r s c n) \<in> {0, 3}"
proof (induction "left_to_read r s" arbitrary: r s c n rule: less_induct)
  case less
  obtain o1 r1 s1 where nf: "next_frame limit r s = (o1, r1, s1)" by (cases "next_frame limit r s")
  show ?case
  proof (cases "o1 = None \<or> o1 = Some End")
    case True
    then show ?thesis using nf by (subst relay.simps) auto
  next
    case False
    then obtain f where f: "o1 = Some f" "f \<noteq> End" by auto
    have "left_to_read r1 s1 < left_to_read r s" using left_to_read_less nf f by blast
    note IH = less [OF this]
    show ?thesis
      using nf f IH
      by (subst relay.simps) (simp add: split_beta Let_def split: option.split)
  qed
qed

lemma ended_jsonl: "ended_well [] (jsonl w config input n)"
proof -
  have "ended_well [] \<lparr>ps_out = out, ps_err = [], ps_status = snd (relay peer limit r s c n)\<rparr>" for out peer limit r s c n
    using relay_status [of peer limit r s c n] by (auto simp: ended_well_def)
  then show ?thesis
    using connect_error [of w] by (auto simp: jsonl_def Let_def split_beta split: sum.splits)
qed

lemma doctor_status: "fst (snd (doctor_socket w socket n)) \<in> {0, 1, 4}"
  by (auto simp: doctor_socket_def doctor_daemon_def doctor_error_def Let_def split_beta
      split: sum.splits option.splits)

lemma ended_doctor: "ended_well [] (doctor w config n)"
proof -
  have "fst (snd (doctor_socket w socket n)) \<in> {0, 1, 2, 3, 4, 124, 130, 143}" for socket
    using doctor_status [of w socket n] by auto
  then show ?thesis by (auto simp: doctor_def Let_def split_beta split: sum.splits)
qed

definition refuses :: "streams \<Rightarrow> bool" where
  "refuses st = (\<exists>t. t \<noteq> [] \<and> (\<not> takes_out st t \<or> \<not> takes_err st t))"

lemma ends_refuses:
  "P p \<Longrightarrow> case ends st p of Exits q \<Rightarrow> P q | Panics \<Rightarrow> \<not> u \<or> refuses st | Runs \<Rightarrow> S"
  by (auto simp: ends_def refuses_def)


end
