(* ===== verification/Clients.thy ===== *)
theory Clients
  imports Cli
begin

text \<open>
  What the clients achieve: the report of \<open>doctor\<close> as a JSON value, and the three clients talking to
  the daemon of this library. The daemon's end of a connection is \<open>daemon_peer\<close>, one step of the
  line protocol for each line written, which is what \<open>handle_client\<close> does on those lines.
\<close>

section \<open>The report of doctor\<close>

primrec elements_text :: "json list \<Rightarrow> str" where
  "elements_text [] = '']''"
| "elements_text (v # vs) = '','' @ render v @ elements_text vs"

lemma comma_join_elements:
  "of_chars (comma_join (map render_chars (v # vs)) @ [0x5D]) = render v @ elements_text vs"
proof (induction vs arbitrary: v)
  case Nil
  show ?case by (simp only: list.map comma_join.simps of_chars_simps(3) of_chars_ascii render_def elements_text.simps)
next
  case (Cons x vs)
  have "comma_join (map render_chars (v # x # vs)) @ [0x5D]
      = render_chars v @ [0x2C] @ comma_join (map render_chars (x # vs)) @ [0x5D]" by simp
  then show ?case
    by (simp only: of_chars_simps(3) [of _ "[0x2C] @ _"] of_chars_simps(3) [of "[0x2C]"] of_chars_ascii
        Cons.IH render_def [of v, symmetric] elements_text.simps)
qed

lemma render_array: "render (JArray (v # vs)) = ''['' @ render v @ elements_text vs"
proof -
  have "render_chars (JArray (v # vs)) = [0x5B] @ comma_join (map render_chars (v # vs)) @ [0x5D]" by simp
  then show ?thesis by (simp only: render_def [of "JArray _"] of_chars_simps(3) [of "[0x5B]"] comma_join_elements of_chars_ascii)
qed

definition check_value :: "str \<Rightarrow> str \<Rightarrow> str option \<Rightarrow> str \<Rightarrow> json" where
  "check_value name status c message =
     JObject [(''name'', JString name), (''status'', JString status),
       (''code'', case c of None \<Rightarrow> JNull | Some x \<Rightarrow> JString x), (''message'', JString message)]"

definition report_value :: "str \<Rightarrow> json list \<Rightarrow> json" where
  "report_value status checks =
     JObject [(''status'', JString status), (''version'', JString VERSION),
       (''protocol'', JObject [(''identifier'', JString PROTOCOL), (''version'', JNumber ''1'')]),
       (''checks'', JArray checks)]"

lemma report_names:
  \<open>json_quote ''name'' = ''"name"''\<close> \<open>json_quote ''identifier'' = ''"identifier"''\<close>
  \<open>json_quote ''checks'' = ''"checks"''\<close> \<open>json_quote ''degraded'' = ''"degraded"''\<close>
  by code_simp+

lemma check_render: "check name status c message = render (check_value name status c message)"
  by (cases c) (simp_all add: check_def check_value_def render_object render_scalar quote_names report_names)

lemma report_render:
  assumes "status \<in> {''ok'', ''error'', ''degraded''}" "checks @ '']'' = render v @ elements_text vs"
  shows "doctor_result status checks = render (report_value status (v # vs)) @ newline"
proof -
  have q: "json_quote status = quotation @ status @ quotation"
    using assms(1) quote_names report_names by (auto simp: quotation_def)
  have e: "checks @ CHR '']'' # r = render v @ elements_text vs @ r" for r
    using assms(2) by (metis append_Cons append_Nil append_assoc)
  show ?thesis
    by (simp add: doctor_result_def report_value_def println_def render_object render_array render_scalar
        quote_names report_names q quotation_def PROTOCOL_def VERSION_def e)
qed

text \<open>The verdict the checks add up to.\<close>

definition check_status :: "json \<Rightarrow> str option" where
  "check_status v = Option.bind (object_field v ''status'') string_value"

definition worst :: "json list \<Rightarrow> str \<times> int" where
  "worst vs =
     (if list_ex (\<lambda>v. check_status v = Some ''error'') vs then (''error'', 1)
      else if list_ex (\<lambda>v. check_status v = Some ''warning'') vs then (''degraded'', 4)
      else (''ok'', 0))"

lemma check_status_value [simp]: "check_status (check_value name status c message) = Some status"
  by (simp add: check_status_def check_value_def object_field_def field_def string_value_def)

definition found_ok :: "str \<times> int \<times> str \<Rightarrow> json list \<Rightarrow> bool" where
  "found_ok x vs = ((fst x, fst (snd x)) = worst vs \<and> list_all json_ok vs
     \<and> '','' @ dropWhile (\<lambda>c. c = CHR '','') (snd (snd x)) @ '']'' = elements_text vs)"

lemma check_no_comma: "dropWhile (\<lambda>c. c = CHR '','') (check name status c message @ r) = check name status c message @ r"
  by (simp add: check_def)

lemma check_ok:
  assumes "utf8_ok name" "utf8_ok status" "case c of None \<Rightarrow> True | Some x \<Rightarrow> utf8_ok x" "utf8_ok message"
  shows "json_ok (check_value name status c message)"
proof -
  have "utf8_ok ''name''" "utf8_ok ''status''" "utf8_ok ''code''" "utf8_ok ''message''" by code_simp+
  then show ?thesis using assms by (simp add: check_value_def split: option.splits del: utf8_ok_ascii)
qed

lemma found_one:
  assumes "json_ok (check_value name status c message)" "(s, ex) = worst [check_value name status c message]"
  shows "found_ok (s, ex, check name status c message) [check_value name status c message]"
    "found_ok (s, ex, '','' @ check name status c message) [check_value name status c message]"
  using assms check_no_comma [of name status c message "[]"] by (simp_all add: found_ok_def check_render)

lemma worst_one:
  "worst [check_value name ''error'' c message] = (''error'', 1)"
  "worst [check_value name ''warning'' c message] = (''degraded'', 4)"
  by (simp_all add: worst_def)

lemma or_malformed_code: "utf8_ok (or_malformed (response_error_code response i)) \<and> utf8_ok (protocol_failure_message c)"
proof -
  have "list_all utf8_ok locked_codes" "utf8_ok ''protocol.malformed''" by code_simp+
  moreover have "response_error_code response i = Some x \<Longrightarrow> x \<in> set locked_codes" for x
    by (auto simp: response_error_code_def Let_def split: option.splits if_splits json.splits)
  moreover have "utf8_ok ''peer authorization failed'' \<and> utf8_ok ''unsupported protocol'' \<and> utf8_ok ''request too large''
      \<and> utf8_ok ''protocol failure''" by code_simp
  ultimately show ?thesis
    by (auto simp: or_malformed_def protocol_failure_message_def list_all_iff split: option.split)
qed

lemma doctor_texts:
  "utf8_ok ''error'' \<and> utf8_ok ''ok'' \<and> utf8_ok ''warning'' \<and> utf8_ok ''handshake'' \<and> utf8_ok ''health''
   \<and> utf8_ok ''daemon'' \<and> utf8_ok ''socket'' \<and> utf8_ok ''runtime'' \<and> utf8_ok ''config''
   \<and> utf8_ok ''protocol.malformed'' \<and> utf8_ok ''protocol failure'' \<and> utf8_ok ''daemon available''
   \<and> utf8_ok ''health ok'' \<and> utf8_ok ''lifecycle.daemon_unavailable'' \<and> utf8_ok ''daemon unavailable''
   \<and> utf8_ok ''daemon socket is not a socket'' \<and> utf8_ok ''socket unavailable'' \<and> utf8_ok ''config.invalid''
   \<and> utf8_ok ''lifecycle.daemon_running'' \<and> utf8_ok ''invalid runtime path'' \<and> utf8_ok ''daemon already running''"
  by code_simp

lemma found_error:
  assumes "utf8_ok name" "utf8_ok c" "utf8_ok message"
  shows "\<exists>vs. found_ok (doctor_error (check name ''error'' (Some c) message)) vs"
    "\<exists>vs. found_ok (''error'', 1, check name ''error'' (Some c) message) vs"
  using found_one(1) [OF check_ok [of name "''error''" "Some c" message] worst_one(1) [symmetric]] assms doctor_texts
  by (auto simp: doctor_error_def)

lemma protocol_check_error:
  assumes "doctor_protocol_check name response expected i = Some failure" "utf8_ok name"
  shows "\<exists>vs. found_ok (doctor_error failure) vs"
proof -
  obtain c message where "failure = check name ''error'' (Some c) message" "utf8_ok c" "utf8_ok message"
    using assms(1) or_malformed_code by (auto simp: doctor_protocol_check_def Let_def split: if_splits)
  then show ?thesis using found_error(1) assms(2) by blast
qed

lemma found_healthy:
  "found_ok (''ok'', 0, '','' @ check ''daemon'' ''ok'' None ''daemon available'' @ '','' @ check ''health'' ''ok'' None ''health ok'')
     [check_value ''daemon'' ''ok'' None ''daemon available'', check_value ''health'' ''ok'' None ''health ok'']"
  using check_ok [of "''daemon''" "''ok''" None "''daemon available''"] check_ok [of "''health''" "''ok''" None "''health ok''"]
    doctor_texts check_no_comma [of "''daemon''" "''ok''" None "''daemon available''"]
  by (simp add: found_ok_def worst_def check_render)

lemma doctor_daemon_found: "\<exists>vs. found_ok (doctor_daemon w c n) vs"
proof -
  note protocol = found_error(1) [of _ "''protocol.malformed''" "''protocol failure''"]
  obtain hello hello_id n1 where h: "handshake_request ''doctor'' n = ((hello, hello_id), n1)"
    by (cases "handshake_request ''doctor'' n") (metis prod.collapse)
  obtain r1 c1 where r1: "request (w_peer w) c hello = (r1, c1)" by fastforce
  obtain health health_id n2 where h2: "health_request n1 = ((health, health_id), n2)"
    by (cases "health_request n1") (metis prod.collapse)
  obtain r2 c2 where r2: "request (w_peer w) c1 health = (r2, c2)" by fastforce
  show ?thesis
    using protocol doctor_texts protocol_check_error found_healthy
    by (auto simp: doctor_daemon_def h r1 h2 r2 split: option.splits)
qed

lemma doctor_socket_found: "\<exists>vs. found_ok (doctor_socket w socket n) vs"
proof -
  have "\<exists>vs. found_ok (''degraded'', 4,
      '','' @ check ''daemon'' ''warning'' (Some ''lifecycle.daemon_unavailable'') ''daemon unavailable'') vs"
    using found_one(2) [OF check_ok [of "''daemon''" "''warning''" "Some ''lifecycle.daemon_unavailable''"
          "''daemon unavailable''"] worst_one(2) [symmetric]] doctor_texts by auto
  then show ?thesis
    using found_error(2) [of "''socket''" "''protocol.malformed''"] doctor_texts doctor_daemon_found
    by (auto simp: doctor_socket_def split: sum.splits)
qed

lemma worst_ok: "worst (v # vs) = worst vs" if "check_status v = Some ''ok''"
  using that by (simp add: worst_def)

lemma worst_status: "fst (worst vs) \<in> {''ok'', ''error'', ''degraded''}"
  by (simp add: worst_def)

lemma summary_ok: "config_ok config \<Longrightarrow> utf8_ok (summary config)"
proof -
  assume "config_ok config"
  moreover have texts: "utf8_ok ''error'' \<and> utf8_ok ''warn'' \<and> utf8_ok ''info'' \<and> utf8_ok ''debug'' \<and> utf8_ok ''trace''
      \<and> utf8_ok ''log_level='' \<and> utf8_ok ''; shutdown_timeout_seconds='' \<and> utf8_ok ''; jsonl_max_line_bytes=''"
    by code_simp
  ultimately have level: "utf8_ok (log_level config)" unfolding config_ok_def by auto
  have "utf8_ok (dec k)" for k
  proof -
    have "list_all plain (dec k)"
      using dec_digits [of _ k] by (fastforce simp: list_all_iff plain_def is_digit_def)
    then show ?thesis by (rule plain_utf8)
  qed
  then show ?thesis
    unfolding summary_def using texts level by (intro utf8_ok_append) blast+
qed

text \<open>
  C38: The report of \<open>doctor\<close> can be trusted: it is one line, a JSON object that the program's own parser
  reads; its first check shows the configuration; and its status and the exit status are exactly the
  verdict the listed checks add up to: error and 1 if a check failed, else degraded and 4 if one
  warns, else ok and 0.
\<close>

theorem doctor_report_faithful:
  assumes "config_ok config"
  shows "\<exists>checks. parse (ps_out (doctor w config n))
        = Some (report_value (fst (worst checks)) (check_value ''config'' ''ok'' None (summary config) # checks))
     \<and> ps_status (doctor w config n) = snd (worst checks) \<and> checks \<noteq> []
     \<and> one_line (ps_out (doctor w config n)) \<and> ps_err (doctor w config n) = []"
proof -
  define x where "x = (case probe (w_uid w) (w_probe_fs w) (w_env w) of
      Inl e \<Rightarrow> (''error'', 1, check ''runtime'' ''error'' (Some (runtime_error_code e)) (runtime_error_message e))
    | Inr paths \<Rightarrow> doctor_socket w (rp_socket paths) n)"
  have "\<exists>vs. found_ok (''error'', 1, check ''runtime'' ''error'' (Some (runtime_error_code e)) (runtime_error_message e)) vs" for e
    using found_error(2) [of "''runtime''"] doctor_texts by (cases e) simp_all
  then have "\<exists>vs. found_ok x vs"
    unfolding x_def using doctor_socket_found [of w _ n] by (cases "probe (w_uid w) (w_probe_fs w) (w_env w)") simp_all
  then obtain vs where vs: "found_ok x vs" ..
  let ?config = "check_value ''config'' ''ok'' None (summary config)"
  let ?report = "report_value (fst (worst vs)) (?config # vs)"
  have "doctor w config n = \<lparr>ps_out = doctor_result (fst x)
        (check ''config'' ''ok'' None (summary config) @ '','' @ dropWhile (\<lambda>c. c = CHR '','') (snd (snd x))),
      ps_err = [], ps_status = fst (snd x)\<rparr>"
    by (simp add: doctor_def x_def split_beta Let_def)
  moreover have "fst x = fst (worst vs)" "fst (snd x) = snd (worst vs)" "list_all json_ok vs"
      "'','' @ dropWhile (\<lambda>c. c = CHR '','') (snd (snd x)) @ '']'' = elements_text vs"
    using vs by (auto simp: found_ok_def prod_eq_iff)
  ultimately have d: "doctor w config n
      = \<lparr>ps_out = render ?report @ newline, ps_err = [], ps_status = snd (worst vs)\<rparr>"
    using report_render [OF worst_status, of _ ?config vs vs] by (simp add: check_render)
  have "json_ok ?config" using check_ok [of _ _ None] summary_ok [OF assms] doctor_texts by simp
  moreover have "utf8_ok ''status'' \<and> utf8_ok ''version'' \<and> utf8_ok ''protocol'' \<and> utf8_ok ''checks'' \<and> utf8_ok ''identifier''
      \<and> utf8_ok VERSION \<and> utf8_ok PROTOCOL \<and> utf8_ok ''degraded''" by code_simp
  ultimately have ok: "json_ok ?report"
    using vs doctor_texts worst_status [of vs] version_ok(2)
    by (auto simp: report_value_def found_ok_def simp del: utf8_ok_ascii)
  have "vs \<noteq> []" using vs by (auto simp: found_ok_def)
  then show ?thesis using d parse_render_line [OF ok] one_line_render [OF ok] by auto
qed

section \<open>The daemon at the other end\<close>

definition daemon_peer :: "str \<Rightarrow> nat \<Rightarrow> (bool \<times> 64 word) peer" where
  "daemon_peer daemon_id limit s line =
     (let ((response, completed), n) = answer_frame daemon_id (fst s) (line_frame limit (butlast line)) (snd s)
      in Sent response False (fst s \<or> completed, n))"

text \<open>It is the connection of the daemon, fed with whole lines.\<close>

primrec answers :: "'s peer \<Rightarrow> 's \<Rightarrow> bytes list \<Rightarrow> bytes list" where
  "answers peer s [] = []"
| "answers peer s (l # ls) = (case peer s l of WriteFailed \<Rightarrow> [] | Sent bs _ s1 \<Rightarrow> bs # answers peer s1 ls)"

lemma answers_session: "answers (daemon_peer d limit) (h, n) ls = session d h (map (\<lambda>l. line_frame limit (butlast l)) ls) n"
proof (induction ls arbitrary: h n)
  case (Cons l ls)
  show ?case using Cons by (simp add: daemon_peer_def split_beta Let_def)
qed simp

lemma frames_of_lines:
  "list_all (\<lambda>l. \<exists>t. NL \<notin> set t \<and> l = t @ newline) ls \<Longrightarrow>
   frames_of limit (concat ls) = map (\<lambda>l. line_frame limit (butlast l)) ls"
proof (induction ls)
  case Nil
  show ?case by (subst frames_of.simps) (simp add: split_once_None)
next
  case (Cons l ls)
  then obtain t where t: "NL \<notin> set t" "l = t @ [NL]" by (auto simp: newline_def)
  have "split_once NL (concat (l # ls)) = Some (t, concat ls)"
    using t by (simp add: split_once_Some)
  then show ?case using Cons t by (subst frames_of.simps) simp
qed

lemma daemon_peer_connection:
  assumes "list_all (\<lambda>l. \<exists>t. NL \<notin> set t \<and> l = t @ newline) ls"
  shows "answers (daemon_peer d limit) (False, n) ls = fst (handle_client calm d limit (map Byte (concat ls)) n)"
proof -
  have "undisturbed calm" "ce_timeout_set calm" "ce_cloned calm" by (simp_all add: calm_def undisturbed_def)
  then show ?thesis
    using serve_session [of calm limit d 0 False new_reader "map Byte (concat ls)" n]
    by (simp add: handle_client_def read_all_bytes answers_session frames_of_lines [OF assms])
qed

lemma read_line_one: "one_line s \<Longrightarrow> read_line s = (s, [])"
proof -
  assume "one_line s"
  then obtain t where t: "NL \<notin> set t" "s = t @ [NL]" by (auto simp: one_line_def newline_def)
  then have "dropWhile (\<lambda>c. c \<noteq> NL) s = [NL]" "takeWhile (\<lambda>c. c \<noteq> NL) s = t"
    by (auto simp: dropWhile_append takeWhile_append split: if_splits)
  then show ?thesis using t(2) by (simp add: read_line_def)
qed

lemma request_daemon:
  assumes "one_line (fst (fst (answer_frame d h (line_frame limit (butlast body)) m)))"
  shows "request (daemon_peer d limit) \<lparr>cn_peer = (h, m), cn_unread = []\<rparr> body
    = (Some (fst (fst (answer_frame d h (line_frame limit (butlast body)) m))),
       \<lparr>cn_peer = (h \<or> snd (fst (answer_frame d h (line_frame limit (butlast body)) m)),
          snd (answer_frame d h (line_frame limit (butlast body)) m)), cn_unread = []\<rparr>)"
  using read_line_one [OF assms] assms
  by (simp add: request_def daemon_peer_def one_line_def split_beta Let_def)

lemma line_frame_complete: "one_line s \<Longrightarrow> length s \<le> limit \<Longrightarrow> line_frame limit (butlast s) = Complete s"
  by (auto simp: line_frame_def one_line_def newline_def)

lemma request_line:
  assumes "utf8_ok request_kind" "valid_uuid i" "json_ok v"
  shows "one_line (render (message_value request_kind i [(''payload'', v)]) @ newline)"
proof -
  have "utf8_ok ''protocol'' \<and> utf8_ok ''version'' \<and> utf8_ok ''kind'' \<and> utf8_ok ''id''
      \<and> utf8_ok ''payload'' \<and> utf8_ok PROTOCOL" by code_simp
  then have "json_ok (message_value request_kind i [(''payload'', v)])"
    using assms plain_utf8 [OF valid_uuid_plain [OF assms(2)]] version_ok(2)
    by (simp add: message_value_def del: utf8_ok_ascii)
  then show ?thesis by (rule one_line_render)
qed

lemma new_id_length: "unat n < 2 ^ 48 \<Longrightarrow> length (fst (new_id n)) = 36"
  using new_id_valid [of n] by (simp add: valid_uuid_def)

text \<open>The two requests of a client fit the smallest line limit a configuration can set.\<close>

lemma handshake_short:
  assumes "unat n + 2 < 2 ^ 48" "role \<in> {''tui'', ''jsonl'', ''doctor''}"
  shows "length (fst (fst (handshake_request role n))) \<le> 1024"
proof -
  have ids: "length (fst (new_id n)) = 36" "length (fst (new_id (n + 1))) = 36"
    using assms(1) unat_add_less [OF assms(1)] by (simp_all add: new_id_length)
  moreover have "length role \<le> 6" using assms(2) by auto
  ultimately show ?thesis
    by (simp add: handshake_request_def split_beta Let_def newline_def VERSION_def PROTOCOL_def)
qed

lemma health_short: "unat n < 2 ^ 48 \<Longrightarrow> length (fst (fst (health_request n))) \<le> 1024"
  by (simp add: health_request_def split_beta Let_def newline_def PROTOCOL_def new_id_length)

lemma requests_answered:
  assumes role: "role \<in> {''tui'', ''jsonl'', ''doctor''}"
    and counters: "unat n + 3 < 2 ^ 48" "unat m + 3 < 2 ^ 48"
    and daemon: "valid_uuid d" "1024 \<le> limit"
    and hello: "handshake_request role n = ((hello, hello_id), n1)"
    and health: "health_request n1 = ((probe_text, health_id), n2)"
  obtains r1 r2 c1 c2 where
    "request (daemon_peer d limit) \<lparr>cn_peer = (False, m), cn_unread = []\<rparr> hello = (Some r1, c1)"
    "response_matches r1 ''handshake.response'' hello_id"
    "request (daemon_peer d limit) c1 probe_text = (Some r2, c2)"
    "response_matches r2 ''health.response'' health_id"
proof -
  have w: "unat (n + 1) = unat n + 1" "unat (n + 2) = unat n + 2" "unat (m + 1) = unat m + 1"
    using counters by (simp_all add: unat_word_ariths)
  have ids: "valid_uuid (fst (new_id n))" "valid_uuid (fst (new_id (n + 1)))" "valid_uuid (fst (new_id (n + 2)))"
      "valid_uuid (fst (new_id m))" "valid_uuid (fst (new_id (m + 1)))"
    using counters w by (simp_all add: new_id_valid)
  have kinds: "utf8_ok ''handshake.request''" "utf8_ok ''health.request''" by code_simp+
  have "list_all plain ''tui'' \<and> list_all plain ''jsonl'' \<and> list_all plain ''doctor''" by code_simp
  then have plain: "list_all plain role" using role by auto
  note h = hello_ok [OF role ids(2)]
  have hello': "hello = render (message_value ''handshake.request'' (fst (new_id n))
        [(''payload'', hello_payload role (fst (new_id (n + 1))))]) @ newline"
      "hello_id = fst (new_id n)" "n1 = n + 2"
    using hello by (auto simp: handshake_request_render [OF plain])
  have probe': "probe_text = render (message_value ''health.request'' (fst (new_id (n + 2)))
        [(''payload'', JObject [])]) @ newline" "health_id = fst (new_id (n + 2))"
    using health hello'(3) by (auto simp: health_request_render)
  have empty: "json_ok (JObject [])" by simp
  have line: "one_line hello" "one_line probe_text"
    unfolding hello'(1) probe'(1) using request_line kinds ids(1,3) h(1) empty by blast+
  have short: "length hello \<le> limit" "length probe_text \<le> limit"
    using handshake_short [OF _ role, of n] health_short [of "n + 2"] counters w daemon(2) hello health hello'(3)
    by simp_all
  have cut: "line_frame limit (butlast hello) = Complete hello" "line_frame limit (butlast probe_text) = Complete probe_text"
    using line_frame_complete line short by blast+
  have one: "one_line (fst (fst (handle_request l b d k)))" if "unat k + 1 < 2 ^ 48" for l b k
    by (rule handle_request_line [OF that daemon(1)])
  have a1: "snd (fst (handle_request hello False d m)) \<and> snd (handle_request hello False d m) = m + 1 \<and>
      response_matches (fst (fst (handle_request hello False d m))) ''handshake.response'' hello_id"
    using answer_to(1) [OF ids(4) daemon(1)] request_asks [OF kinds(1) ids(1) h(1), of handshake_complete] h(2)
    unfolding hello' by blast
  have a2: "response_matches (fst (fst (handle_request probe_text True d (m + 1)))) ''health.response'' health_id"
    using answer_to(2) [OF ids(5) daemon(1)] request_asks [OF kinds(2) ids(3) empty, of "\<lambda>v. v = JObject []"]
    unfolding probe' by blast
  have "request (daemon_peer d limit) \<lparr>cn_peer = (False, m), cn_unread = []\<rparr> hello
      = (Some (fst (fst (handle_request hello False d m))), \<lparr>cn_peer = (True, m + 1), cn_unread = []\<rparr>)"
    using request_daemon [of d False limit hello m] one [of m hello False] a1 counters
    by (simp add: cut answer_frame_def)
  moreover have "fst (request (daemon_peer d limit) \<lparr>cn_peer = (True, m + 1), cn_unread = []\<rparr> probe_text)
      = Some (fst (fst (handle_request probe_text True d (m + 1))))"
    using request_daemon [of d True limit probe_text "m + 1"] one [of "m + 1" probe_text True] w counters
    by (simp add: cut answer_frame_def)
  ultimately show ?thesis using that a1 a2 by (metis prod.collapse)
qed

text \<open>
  C36: The clients and the daemon work together: over a connection to a running daemon, whose identifier
  is a valid one and whose line limit is one a configuration can set, \<open>tui\<close> announces a healthy daemon
  and ends with 0 whatever is typed, and \<open>doctor\<close>, when it finds the runtime directory and the socket,
  reports everything in order and ends with 0.
\<close>

theorem clients_meet_daemon:
  assumes "unat n + 3 < 2 ^ 48" "unat m + 3 < 2 ^ 48" "valid_uuid d" "config_ok daemon_config"
    and "w_peer w = daemon_peer d (jsonl_max_line_bytes daemon_config)" "w_clone w"
    and "connect w = Inr \<lparr>cn_peer = (False, m), cn_unread = []\<rparr>"
    and "probe (w_uid w) (w_probe_fs w) (w_env w) = Inr paths" "w_exists w (rp_socket paths)"
    and "symlink_metadata (w_look_fs w) (rp_socket paths) = Found meta" "kind meta = Socket"
  shows "fst (tui w keys n) = \<lparr>ps_out = ''Akashic daemon'' @ newline @ ''Version: 0.1.0'' @ newline
        @ ''Health: ok'' @ newline, ps_err = [], ps_status = 0\<rparr>
    \<and> ps_status (doctor w config n) = 0"
proof -
  have limit: "1024 \<le> jsonl_max_line_bytes daemon_config" using assms(4) by (simp add: config_ok_def)
  note meet = requests_answered [OF _ assms(1-3) limit]
  have "fst (tui w keys n) = \<lparr>ps_out = ''Akashic daemon'' @ newline @ ''Version: 0.1.0'' @ newline
        @ ''Health: ok'' @ newline, ps_err = [], ps_status = 0\<rparr>"
  proof -
    obtain hello hello_id n1 where h: "handshake_request ''tui'' n = ((hello, hello_id), n1)"
      by (cases "handshake_request ''tui'' n") (metis prod.collapse)
    obtain health health_id n2 where h2: "health_request n1 = ((health, health_id), n2)"
      by (cases "health_request n1") (metis prod.collapse)
    have role: "''tui'' \<in> {''tui'', ''jsonl'', ''doctor''}" by simp
    obtain r1 r2 c1 c2 where
      "request (w_peer w) \<lparr>cn_peer = (False, m), cn_unread = []\<rparr> hello = (Some r1, c1)"
      "response_matches r1 ''handshake.response'' hello_id"
      "request (w_peer w) c1 health = (Some r2, c2)" "response_matches r2 ''health.response'' health_id"
      by (rule meet [OF role h h2, folded assms(5)])
    then show ?thesis using assms(6,7) by (simp add: tui_def h h2 println_def VERSION_def)
  qed
  moreover have "ps_status (doctor w config n) = 0"
  proof -
    obtain hello hello_id n1 where h: "handshake_request ''doctor'' n = ((hello, hello_id), n1)"
      by (cases "handshake_request ''doctor'' n") (metis prod.collapse)
    obtain health health_id n2 where h2: "health_request n1 = ((health, health_id), n2)"
      by (cases "health_request n1") (metis prod.collapse)
    have role: "''doctor'' \<in> {''tui'', ''jsonl'', ''doctor''}" by simp
    obtain r1 r2 c1 c2 where
      "request (w_peer w) \<lparr>cn_peer = (False, m), cn_unread = []\<rparr> hello = (Some r1, c1)"
      "response_matches r1 ''handshake.response'' hello_id"
      "request (w_peer w) c1 health = (Some r2, c2)" "response_matches r2 ''health.response'' health_id"
      by (rule meet [OF role h h2, folded assms(5)])
    then show ?thesis
      using assms(6-11) by (simp add: doctor_def doctor_socket_def doctor_daemon_def doctor_protocol_check_def h h2)
  qed
  ultimately show ?thesis by blast
qed

section \<open>jsonl is a transparent bridge\<close>

text \<open>
  The specification: the frames of the input one after the other, a line answered by the daemon, and
  anything else by the client itself, each with its own counter.
\<close>

fun bridge :: "str \<Rightarrow> nat \<Rightarrow> bool \<Rightarrow> frame list \<Rightarrow> 64 word \<Rightarrow> 64 word \<Rightarrow> str list" where
  "bridge d limit h [] n m = []"
| "bridge d limit h (Complete line # fs) n m =
     (let ((response, completed), m1) = answer_frame d h (line_frame limit (butlast line)) m in
      response # bridge d limit (h \<or> completed) fs n m1)"
| "bridge d limit h (f # fs) n m = (let (e, n1) = frame_error f n in e # bridge d limit h fs n1 m)"

lemma trim_end_object: "println (trim_end (render (JObject ms) @ newline)) = render (JObject ms) @ newline"
proof -
  obtain cs where cs: "render_chars (JObject ms) = cs @ [0x7D]"
    by (metis append_Cons render_object_chars append_assoc)
  have "chars (render (JObject ms) @ newline) = cs @ [0x7D, 10]"
    unfolding render_newline
    using chars_of_scalars [of "render_chars (JObject ms) @ [10]"] scalars_render [of "JObject ms"]
    by (simp add: cs del: render_chars.simps of_chars_simps)
  then have "trim_end (render (JObject ms) @ newline) = of_chars (cs @ [0x7D])"
    by (simp add: trim_end_def is_whitespace_def)
  then show ?thesis by (simp only: println_def render_def cs)
qed

lemma println_response_error:
  "println (trim_end (fst (response_error correlation c message n))) = fst (response_error correlation c message n)"
  by (simp add: response_error_render reply_value_def message_value_def trim_end_object)

lemma println_frame_error:
  "f \<notin> {End, Pending} \<Longrightarrow> \<forall>line. f \<noteq> Complete line \<Longrightarrow> println (trim_end (fst (frame_error f n))) = fst (frame_error f n)"
  by (cases f) (auto simp: frame_error_def split_beta Let_def println_response_error)

lemma next_frame_Complete: "next_frame limit r s = (Some (Complete line), r1, s1) \<Longrightarrow>
   utf8_ok line \<and> (\<exists>t. line = t @ [NL])"
  by (induction limit r s rule: next_frame.induct) (auto split: if_splits)

lemma next_frame_broken: "next_frame limit r s = (None, r1, s1) \<Longrightarrow> Broken \<in> set s"
  by (induction limit r s rule: next_frame.induct) (auto split: if_splits)

lemma next_frame_suffix: "next_frame limit r s = (f, r1, s1) \<Longrightarrow> set s1 \<subseteq> set s"
  by (induction limit r s rule: next_frame.induct) (auto split: if_splits)

lemma relay_bridge:
  assumes "valid_uuid d"
  shows "Broken \<notin> set s \<Longrightarrow> unat n + 2 * left_to_read r s < 2 ^ 48 \<Longrightarrow> unat m + 2 * left_to_read r s < 2 ^ 48 \<Longrightarrow>
    relay (daemon_peer d limit') limit r s \<lparr>cn_peer = (h, m), cn_unread = []\<rparr> n
      = (concat (bridge d limit' h (read_all limit r s) n m), 0)
    \<and> list_all one_line (bridge d limit' h (read_all limit r s) n m)"
proof (induction "left_to_read r s" arbitrary: r s h n m rule: less_induct)
  case less
  obtain o1 r1 s1 where nf: "next_frame limit r s = (o1, r1, s1)" by (cases "next_frame limit r s")
  obtain f where f: "o1 = Some f" using next_frame_broken nf less.prems(1) by (cases o1) auto
  show ?case
  proof (cases "f = End")
    case True
    then show ?thesis using nf f by (subst relay.simps, subst (1 2) read_all.simps) simp
  next
    case e: False
    have shorter: "left_to_read r1 s1 < left_to_read r s" using left_to_read_less nf f e by blast
    have "Broken \<notin> set s1" using next_frame_suffix [OF nf] less.prems(1) by blast
    note IH = less.hyps [OF shorter this]
    show ?thesis
    proof (cases "f = Pending")
      case True
      then show ?thesis
        using IH [of n m h] less.prems shorter nf f
        by (subst relay.simps, subst (1 2) read_all.simps) simp
    next
      case p: False
      have all: "read_all limit r s = f # (if terminal f then [] else read_all limit r1 s1)"
        using nf f e p by (subst read_all.simps) simp
      have bounds: "unat n + 2 < 2 ^ 48" "unat m + 2 < 2 ^ 48" using less.prems(2,3) shorter by simp_all
      show ?thesis
      proof (cases "\<exists>line. f = Complete line")
        case True
        then obtain line where line: "f = Complete line" "utf8_ok line"
          using next_frame_Complete nf f by blast
        let ?g = "line_frame limit' (butlast line)"
        obtain resp c m1 where a: "answer_frame d h ?g m = ((resp, c), m1)"
          by (cases "answer_frame d h ?g m") (metis prod.collapse)
        have g: "?g \<notin> {End, Pending}" by (simp add: line_frame_def)
        have one: "one_line resp" using answer_frame_line [OF bounds(2) assms g, of h] a by simp
        have "unat m1 \<le> unat m + 2" using answer_frame_ok(1) [OF bounds(2) assms a] .
        then have "unat n + 2 * left_to_read r1 s1 < 2 ^ 48" "unat m1 + 2 * left_to_read r1 s1 < 2 ^ 48"
          using less.prems(2,3) shorter by simp_all
        note IH = IH [OF this, of "h \<or> c"]
        have "request (daemon_peer d limit') \<lparr>cn_peer = (h, m), cn_unread = []\<rparr> line
            = (Some resp, \<lparr>cn_peer = (h \<or> c, m1), cn_unread = []\<rparr>)"
          using request_daemon [of d h limit' line m] one a by simp
        then have "relay (daemon_peer d limit') limit r s \<lparr>cn_peer = (h, m), cn_unread = []\<rparr> n
            = (resp @ concat (bridge d limit' (h \<or> c) (read_all limit r1 s1) n m1), 0)"
          using nf f line IH by (subst relay.simps) simp
        then show ?thesis using all line a one IH by (simp add: terminal_def)
      next
        case other: False
        obtain x n1 where x: "frame_error f n = (x, n1)" by fastforce
        have one: "one_line x" "println (trim_end x) = x"
          using frame_error_line [OF bounds(1), of f] println_frame_error [of f n] e p other x by auto
        have "unat n1 \<le> unat n + 2" using frame_error_text [OF bounds(1) x] by blast
        then have "unat n1 + 2 * left_to_read r1 s1 < 2 ^ 48" "unat m + 2 * left_to_read r1 s1 < 2 ^ 48"
          using less.prems(2,3) shorter by simp_all
        note IH = IH [OF this, of h]
        have bridge: "bridge d limit' h (f # fs) n m = x # bridge d limit' h fs n1 m" for fs
          using x other by (cases f) simp_all
        have "relay (daemon_peer d limit') limit r s \<lparr>cn_peer = (h, m), cn_unread = []\<rparr> n
            = (x @ (if terminal f then [] else concat (bridge d limit' h (read_all limit r1 s1) n1 m)), 0)"
          using nf f e p other x one(2) IH by (subst relay.simps) (cases f; simp)
        then show ?thesis using all one(1) IH by (simp add: bridge)
      qed
    qed
  qed
qed

text \<open>
  C37: \<open>jsonl\<close> is a transparent bridge to a running daemon: it cuts its input into lines as the daemon
  does, answers those it cannot pass on itself, and prints the daemon's answer to every other line,
  unchanged and in order, so that each line of the input gets exactly one line of output; at the end
  of the input it exits with 0.
\<close>

theorem jsonl_relays:
  assumes "valid_uuid d" "w_peer w = daemon_peer d limit" "w_clone w"
    and "connect w = Inr \<lparr>cn_peer = (False, m), cn_unread = []\<rparr>"
    and "Broken \<notin> set input" "unat n + 4 * length input < 2 ^ 48" "unat m + 4 * length input < 2 ^ 48"
    and replies: "replies = bridge d limit False (frames_of (jsonl_max_line_bytes config) (bytes_of input)) n m"
  shows "jsonl w config input n = \<lparr>ps_out = concat replies, ps_err = [], ps_status = 0\<rparr>
    \<and> list_all one_line replies"
proof -
  have "left_to_read new_reader input = 2 * length input" by (simp add: left_to_read_def new_reader_def)
  moreover have "read_all (jsonl_max_line_bytes config) new_reader input
      = frames_of (jsonl_max_line_bytes config) (bytes_of input)"
    using read_all_unblocked [OF assms(5)] read_all_bytes by simp
  ultimately show ?thesis
    using relay_bridge [OF assms(1,5), of n new_reader m limit "jsonl_max_line_bytes config" False] assms(2-4,6,7)
    by (simp add: jsonl_def replies)
qed

section \<open>Concrete runs\<close>

definition demo_world :: "(bool \<times> 64 word) world" where
  "demo_world = \<lparr>w_uid = 1000, w_env = demo_run_env, w_probe_fs = demo_run_fs,
     w_look_fs = demo_run_fs\<lparr>symlink_metadata := (\<lambda>p. Found (demo_socket 11))\<rparr>, w_connect_fs = demo_run_fs,
     w_exists = (\<lambda>p. True), w_connect = (\<lambda>p. Some (False, 9)), w_clone = True,
     w_peer = daemon_peer (fst (new_id 7)) (jsonl_max_line_bytes default_config)\<rparr>"

lemma demo_connected: "connect demo_world = Inr \<lparr>cn_peer = (False, 9), cn_unread = []\<rparr>"
  by (simp add: connect_def demo_world_def demo_probed)

theorem doctor_report_faithful_witness:
  "\<exists>checks. parse (ps_out (doctor demo_world default_config 1))
      = Some (report_value (fst (worst checks)) (check_value ''config'' ''ok'' None (summary default_config) # checks))
     \<and> checks \<noteq> []"
  using doctor_report_faithful [OF default_config_ok] by blast

theorem clients_meet_daemon_witness:
  "ps_status (fst (tui demo_world [Some (''q'' @ newline)] 1)) = 0 \<and> ps_status (doctor demo_world default_config 1) = 0"
proof -
  have "probe (w_uid demo_world) (w_probe_fs demo_world) (w_env demo_world)
      = Inr \<lparr>rp_socket = ''/run/u/akashic/daemon.sock'', rp_directories = [''/run/u'', ''/run/u/akashic'']\<rparr>"
    by (simp add: demo_world_def demo_probed)
  from clients_meet_daemon [OF _ _ _ default_config_ok _ _ demo_connected this, of 1 "fst (new_id 7)" "demo_socket 11"]
  show ?thesis by (simp add: demo_world_def demo_socket_def new_id_valid)
qed

theorem jsonl_relays_witness:
  "list_all one_line (bridge (fst (new_id 7)) (jsonl_max_line_bytes default_config) False
      (frames_of (jsonl_max_line_bytes default_config) [CHR ''{'', NL]) 1 9)
   \<and> ps_status (jsonl demo_world default_config [Byte (CHR ''{''), Blocked, Byte NL] 1) = 0"
  using jsonl_relays [OF _ _ _ demo_connected _ _ _ refl, of "fst (new_id 7)" "jsonl_max_line_bytes default_config"
      "[Byte (CHR ''{''), Blocked, Byte NL]" 1 default_config]
  by (simp add: demo_world_def new_id_valid)

text \<open>A whole run of the daemon, on streams that take everything.\<close>

definition demo_streams :: streams where
  "demo_streams = \<lparr>takes_out = (\<lambda>_. True), takes_err = (\<lambda>_. True)\<rparr>"


end
