(* ===== verification/Spec2Isabelle.thy ===== *)
theory Spec2Isabelle
  imports Store Clients
begin

text \<open>
  \<^bold>\<open>Akashic\<close>: a verification library beside the Rust program under \<open>src/src\<close>.

  Akashic is one binary. As \<open>daemon\<close> it holds a lock and a socket in a private run directory and
  keeps an artifact store, an SQLite file: versions of artifacts and their ancestry, an
  append-only event history with projections and playback, and a record of reconciliations and
  recoveries. As \<open>jsonl\<close>, \<open>tui\<close> or \<open>doctor\<close> it is a client that speaks one JSON object per
  line with the daemon. The library has two halves, \<open>Store\<close> (the artifact store) and \<open>Clients\<close> (the
  process and its protocol), joined in \<open>Daemon\<close>, which opens the store.

  \<^bold>\<open>How Rust is read.\<close> A \<open>String\<close>, \<open>&str\<close>, path or \<open>Vec<u8>\<close> is the HOL string of its bytes; where the
  code looks at characters, \<open>Utf8\<close> decodes them. Results are sums with the program's own error
  types at the left, every \<open>?\<close> a branch. The counters of identifiers are 64-bit words that wrap;
  modes are 32-bit words. SQLite integers are HOL integers, bounded to 64 bits where a theorem
  needs the bound. A transaction dropped on an error leaves the store unchanged; what a function
  did to files before that error is returned beside its result.

  \<^bold>\<open>Parameters.\<close> Code outside the repository is an argument: \<open>sha\<close> is the digest of the crate
  \<open>sha2\<close>; \<open>up\<close> the Unicode upper-case table; \<open>pr\<close> the characters \<open>Debug\<close> prints as they are; \<open>ho\<close> the
  order of a \<open>HashMap\<close>; a
  \<open>fs\<close> record what each file system call answers at one moment, one record per look of the
  program, so that other processes may change files in between; \<open>en\<close> (an \<open>engine\<close>) what SQLite
  makes of a batch of DDL, whether it finds a file intact, and Unicode's lower-case table;
  records of \<open>calls\<close> the answers of the system to the daemon; a \<open>peer\<close> the other end of a connection;
  \<open>streams\<close> the texts the standard streams take. Facts needed of \<open>sha\<close> (that two given texts have different digests)
  are stated as hypotheses where a property needs them.

  \<^bold>\<open>The store\<close> (\<open>src/src/artifacts\<close>).
  \<^item> \<open>Tables\<close>: the tables of \<open>schema.rs\<close>, one list of rows each, collected in the record \<open>db\<close>, and the
    INSERT statements with the constraints and triggers that refuse them. The locale
    \<open>keyed_table\<close> states what a keyed table promises; each table interprets it.
  \<^item> \<open>Files\<close>: paths, metadata, \<open>observe\<close> and \<open>validate_parent\<close> of \<open>store.rs\<close>, the errors of
    \<open>mod.rs\<close>. \<open>Codec\<close>: the binary encodings under the fingerprints; the locale \<open>prefix_code\<close> composes
    their injectivity.
  \<^item> \<open>Replay\<close> (\<open>replay.rs\<close>): events, generations, projections, playback. Shown: what appending does
    on every branch, that an authoritative projection is the one the history determines, when
    playback is exact, and that a generation pins its history.
  \<^item> \<open>Lineage\<close> (\<open>lineage.rs\<close>): imports. Shown: one chain of versions per artifact whatever sequence of
    imports runs, idempotent retries, final refusals, the records of an accepted import, and
    that the unwrapped option of the code is never empty.
  \<^item> \<open>Reconcile\<close>, \<open>Recovery\<close> (\<open>recovery.rs\<close>): comparing the record with the world, and restoring a
    missing file. Shown: which surfaces a reconciliation reports, that \<open>reconcile_accepted\<close> always fails
    at its \<open>INSERT\<close>, which conditions guard the file effect, that an applied recovery wrote the file,
    and idempotence.
  \<^item> \<open>Catalogue\<close> (\<open>schema.rs\<close>): SQLite's answers about a file as a record (the rows of
    \<open>sqlite_master\<close> and of the pragma functions), the batches of DDL as a datatype, and every question
    the program asks: \<open>validate_legacy_core\<close>, \<open>validate_runtime_record_schema\<close>, the catalogue half of
    \<open>validate_core\<close> (\<open>core_catalogue\<close>), \<open>validate_slice4_v3_schema\<close>, \<open>physical_descriptor\<close>.
  \<^item> \<open>Schema\<close>: the compatibility decisions, the record checks, the guard rows of
    \<open>validate_slice3_guards\<close> and the copying of legacy rows. \<open>Opening\<close>: \<open>initialize\<close> with its five
    branches (new file, versions 0 to 3), \<open>ensure_runtime_record_schema\<close> and the reference
    catalogues.
  \<^item> \<open>Sqlite\<close>: the locale \<open>if_not_exists\<close>, what the program relies on when it runs the same DDL again,
    and the engine \<open>sqlite\<close>: every \<open>CREATE\<close> text of the program with the columns, keys and indexes
    SQLite reports for it, and the effect of each batch on a catalogue. \<open>Canonical\<close> computes the two
    reference catalogues with it, \<open>Conforms\<close> runs every check of the program on them.
  \<^item> \<open>Engines\<close>: the locale \<open>schema_engine\<close> carries these results to any engine that does with the
    program's batches what \<open>sqlite\<close> does, on the catalogues these batches build, and lowers ASCII
    letters; \<open>sqlite\<close> interprets it.
  \<^item> \<open>Books\<close>: the invariant \<open>books_ok\<close> of the record tables, from which every record check follows; when
    the guard rows pass; when a decision table migrates. \<open>Upgrade\<close>: the theorems on \<open>initialize\<close>. Shown:
    the program's schema passes its own checks, so a new store opens; what was opened opens again
    unchanged; exactly which version 0 and version 2 stores migrate, and into what.
  \<^item> \<open>Diagnostics\<close> (\<open>schema.rs\<close>): the lines an opening prints to standard error. Shown: which lines a
    successful one prints.
  \<^item> \<open>Store\<close> (\<open>store.rs\<close>): \<open>Store::open\<close>, and \<open>store_step\<close>, any operation with any arguments and any file
    system answers. Through the locales of \<open>Transition\<close> each reachable store has well-kept books
    (\<open>books_ok\<close>): its records only grow and every record check passes when it is opened again,
    unless the caller used an identifier the guard rows of \<open>validate_slice3_guards\<close> use.

  \<^bold>\<open>The process\<close> (\<open>src/src\<close>).
  \<^item> \<open>Utf8\<close>, \<open>Json\<close> (\<open>json.rs\<close>), \<open>Render\<close>: decoding, the parser with its termination, \<open>json_quote\<close> and a
    reference printer. Shown: what is printed parses back, and what parses is in normal form.
  \<^item> \<open>Protocol\<close>, \<open>Frames\<close>, \<open>Lines\<close> (\<open>main.rs\<close>): the request handler, the client's checks,
    \<open>FrameReader\<close>, \<open>handle_client\<close>. Shown: the reader cuts the lines the specification cuts however
    bytes arrive, a connection refines the line protocol, no health answer precedes a
    handshake, and every reply is one the client understands.
  \<^item> \<open>Config\<close> (\<open>config.rs\<close>): files, environment and flags. Shown: resolved settings are in range, and
    which source decides each.
  \<^item> \<open>Shutdown\<close> (\<open>shutdown.rs\<close>): the two signal cells under handlers that interleave between their
    atomic steps, with the histories of both steps. Shown: which signal each cell holds.
  \<^item> \<open>Runtime\<close> (\<open>runtime.rs\<close>): the run directory, opened component by component with the flags of
    \<open>openat\<close>, lock, socket, cleanup and the check of a peer, with other processes acting between the
    calls.
  \<^item> \<open>Daemon\<close>, \<open>Cli\<close>, \<open>Clients\<close> (\<open>main.rs\<close>): starting (with \<open>acquire\<close>, \<open>Store::open\<close> and \<open>bind\<close> as
    modelled), accepting, draining; the command line; the three clients, and the clients against the
    modelled daemon. Shown: who is served, how each process ends and what it has printed by then.

  \<^bold>\<open>Bounds.\<close> Loops over input recurse on the input, so no fuel is used; the loops of the daemon run
  over the list of what each pass sees, and an exhausted list (\<open>None\<close>) is a daemon that still
  runs. Identifiers have the form the clients accept for the first \<open>2 ^ 48\<close> values of the
  counter; theorems that need this carry the bound.

  \<^bold>\<open>Not modelled.\<close> SQLite itself: the checks and the migrations hold for any engine that meets the
  stated hypotheses, and \<open>sqlite\<close> interprets the program's own statements only, each as one step on
  the catalogue; \<open>integrity_check\<close> and \<open>foreign_key_check\<close> are the field \<open>intact\<close>. The
  constraints and triggers on rows are in \<open>Tables\<close>, translated from the same texts by hand; a commit is
  taken to succeed. The terminal, the clock, thread scheduling (connections of one daemon are modelled
  one at a time, each with its own counter values), what a panic prints, the second cleanup and the
  release of descriptors when a guard is dropped, and the hooks compiled for tests only.
\<close>

end
